(* ===== verification/Prelude.thy ===== *)
theory Prelude
  imports Main "HOL-Library.Word"
begin

text \<open>
  Shared material of the development: the machine types of the Rust sources, the outcome of a
  Rust computation (a value, an error value, a panic), the few standard-library operations on
  byte buffers, strings and bit flags that the sources call, and the generic lemmas about them.

  Integers are words of the width the source declares, so \<open>+\<close> and \<open>-\<close> wrap as they do in the
  release build that the Dockerfile of the repository produces. Lengths of buffers held in
  memory (\<open>usize\<close>) are natural numbers; where such a length is mixed with a number read from
  the wire the definitions convert to the 64-bit word and wrap there.
\<close>

unbundle bit_operations_syntax

section \<open>Machine types\<close>

type_synonym u8 = "8 word"
type_synonym u16 = "16 word"
type_synonym u32 = "32 word"
type_synonym u64 = "64 word"
type_synonym bytes = "u8 list"

named_theorems result_simps \<open>equations that push a computation through its outcome\<close>
named_theorems no_panic \<open>when a computation panics\<close>
named_theorems flag_defs \<open>values of the bit flags\<close>

section \<open>Outcomes of Rust computations\<close>

text \<open>
  \<open>Ok\<close> and \<open>Err\<close> are the constructors of \<open>Result<T, E>\<close>. \<open>Panic\<close> is every abort of the thread:
  a failed \<open>unwrap\<close> or \<open>assert!\<close>, an index out of range, \<open>panic!\<close>, \<open>unreachable!\<close>.
\<close>

datatype ('a, 'e) result = Ok 'a | Err 'e | Panic

text \<open>The question mark operator, sequencing two fallible computations.\<close>

fun and_then :: "('a, 'e) result \<Rightarrow> ('a \<Rightarrow> ('b, 'e) result) \<Rightarrow> ('b, 'e) result" where
  "and_then (Ok x) f = f x"
| "and_then (Err e) f = Err e"
| "and_then Panic f = Panic"

fun map_err :: "('e \<Rightarrow> 'f) \<Rightarrow> ('a, 'e) result \<Rightarrow> ('a, 'f) result" where
  "map_err g (Ok x) = Ok x"
| "map_err g (Err e) = Err (g e)"
| "map_err g Panic = Panic"

fun map_ok :: "('a \<Rightarrow> 'b) \<Rightarrow> ('a, 'e) result \<Rightarrow> ('b, 'e) result" where
  "map_ok g (Ok x) = Ok (g x)"
| "map_ok g (Err e) = Err e"
| "map_ok g Panic = Panic"

text \<open>\<open>Option::unwrap\<close> and \<open>Option::ok_or\<close>.\<close>

fun unwrap :: "'a option \<Rightarrow> ('a, 'e) result" where
  "unwrap None = Panic"
| "unwrap (Some x) = Ok x"

fun ok_or :: "'a option \<Rightarrow> 'e \<Rightarrow> ('a, 'e) result" where
  "ok_or None e = Err e"
| "ok_or (Some x) e = Ok x"

text \<open>\<open>Result::unwrap\<close>: an error value becomes a panic.\<close>

fun unwrap_result :: "('a, 'e) result \<Rightarrow> ('a, 'f) result" where
  "unwrap_result (Ok x) = Ok x"
| "unwrap_result (Err e) = Panic"
| "unwrap_result Panic = Panic"

text \<open>\<open>assert!(b)\<close> followed by the rest of the function.\<close>

definition assert_then :: "bool \<Rightarrow> ('a, 'e) result \<Rightarrow> ('a, 'e) result" where
  "assert_then b r = (if b then r else Panic)"

text \<open>A fallible operation over every element of a list, left to right.\<close>

fun traverse :: "('a \<Rightarrow> ('b, 'e) result) \<Rightarrow> 'a list \<Rightarrow> ('b list, 'e) result" where
  "traverse f [] = Ok []"
| "traverse f (x # xs) = and_then (f x) (\<lambda>y. and_then (traverse f xs) (\<lambda>ys. Ok (y # ys)))"

lemma and_then_Ok_iff [result_simps]:
  "and_then r f = Ok y \<longleftrightarrow> (\<exists>x. r = Ok x \<and> f x = Ok y)"
  by (cases r) auto

lemma map_ok_Ok_iff [result_simps]: "map_ok g r = Ok y \<longleftrightarrow> (\<exists>x. r = Ok x \<and> y = g x)"
  by (cases r) auto

lemma map_err_Ok_iff [result_simps]: "map_err g r = Ok y \<longleftrightarrow> r = Ok y"
  by (cases r) auto

lemma unwrap_Ok_iff [result_simps]: "unwrap v = Ok y \<longleftrightarrow> v = Some y"
  by (cases v) auto

lemma unwrap_result_Ok_iff [result_simps]: "unwrap_result r = Ok y \<longleftrightarrow> r = Ok y"
  by (cases r) auto

lemma assert_then_Ok_iff [result_simps]: "assert_then b r = Ok y \<longleftrightarrow> b \<and> r = Ok y"
  by (simp add: assert_then_def)

lemma and_then_Panic_iff [no_panic]:
  "and_then r f = Panic \<longleftrightarrow> r = Panic \<or> (\<exists>x. r = Ok x \<and> f x = Panic)"
  by (cases r) auto

lemma map_Panic_iff [no_panic]:
  "map_ok g r = Panic \<longleftrightarrow> r = Panic" "map_err h r = Panic \<longleftrightarrow> r = Panic"
  by (cases r; simp)+

lemma ok_or_no_panic [no_panic]: "ok_or v e \<noteq> Panic"
  by (cases v) auto

lemma unwrap_Panic_iff [no_panic]: "unwrap v = Panic \<longleftrightarrow> v = None"
  by (cases v) auto

lemma and_then_cong [cong]:
  "r = r' \<Longrightarrow> (\<And>x. r' = Ok x \<Longrightarrow> f x = g x) \<Longrightarrow> and_then r f = and_then r' g"
  by (cases r') auto

lemma and_then_assoc [simp]:
  "and_then (and_then r f) g = and_then r (\<lambda>x. and_then (f x) g)"
  by (cases r) auto

lemma traverse_map_Ok: "(\<And>x. x \<in> set xs \<Longrightarrow> f (g x) = Ok (h x)) \<Longrightarrow> traverse f (map g xs) = Ok (map h xs)"
  by (induction xs) auto

lemma traverse_Ok_length: "traverse f xs = Ok ys \<Longrightarrow> length ys = length xs"
  by (induction xs arbitrary: ys) (auto simp: result_simps)

section \<open>Words and lengths\<close>

lemma unat_u64_of_nat [simp]: "n < 2 ^ 64 \<Longrightarrow> unat (of_nat n :: u64) = n"
  by (simp add: unat_of_nat take_bit_nat_eq_self)

lemma unat_u8_of_nat [simp]: "n < 256 \<Longrightarrow> unat (of_nat n :: u8) = n"
  by (simp add: unat_of_nat take_bit_nat_eq_self)

lemma unat_u64_less [simp]: "unat (w :: u64) < 18446744073709551616"
  using unsigned_less [of w] by simp

lemma unat_u8_less [simp]: "unat (w :: u8) < 256"
  using unsigned_less [of w] by simp

lemma unat_ucast_u8_u64 [simp]: "unat (ucast (x :: u8) :: u64) = unat x"
proof -
  have "unat x < 2 ^ 64"
    using unat_u8_less [of x] by (rule less_trans) simp
  then show ?thesis
    by (simp add: unsigned_ucast_eq take_bit_nat_eq_self)
qed

lemma ucast_u8_u64_le [simp]: "(ucast (x :: u8) :: u64) \<le> 255"
  using unat_u8_less [of x] by (simp add: word_le_nat_alt del: unat_u8_less)

lemma ucast_ucast_u8_u64 [simp]: "(ucast (ucast (x :: u8) :: u64) :: u8) = x"
  by (rule bit_word_eqI) (simp add: bit_ucast_iff)

lemma unat_plus_1:
  assumes "(m :: 'a::len word) \<noteq> - 1"
  shows "unat (m + 1) = Suc (unat m)"
proof -
  have "1 + m \<noteq> 0"
    using assms by (metis add_eq_0_iff add.commute)
  then show ?thesis
    using unatSuc [of m] by (simp add: add.commute)
qed

lemma unat_u16_less [simp]: "unat (w :: u16) < 65536"
  using unsigned_less [of w] by simp

lemma unat_u32_less [simp]: "unat (w :: u32) < 4294967296"
  using unsigned_less [of w] by simp

section \<open>Big-endian integers\<close>

text \<open>\<open>to_be_bytes\<close> and \<open>from_be_bytes\<close> for the widths the sources use: \<open>k\<close> bytes, most
  significant first.\<close>

fun be_bytes :: "nat \<Rightarrow> nat \<Rightarrow> bytes" where
  "be_bytes 0 n = []"
| "be_bytes (Suc k) n = be_bytes k (n div 256) @ [of_nat (n mod 256)]"

definition be_nat :: "bytes \<Rightarrow> nat" where
  "be_nat bs = foldl (\<lambda>a b. a * 256 + unat b) 0 bs"

lemma length_be_bytes [simp]: "length (be_bytes k n) = k"
  by (induction k arbitrary: n) auto

lemma be_nat_be_bytes [simp]: "be_nat (be_bytes k n) = n mod 256 ^ k"
proof (induction k arbitrary: n)
  case 0
  then show ?case by (simp add: be_nat_def)
next
  case (Suc k)
  then show ?case by (simp add: be_nat_def mod_mult2_eq algebra_simps)
qed

lemma be_bytes_numeral [simp]:
  "be_bytes (numeral k) n = be_bytes (pred_numeral k) (n div 256) @ [of_nat (n mod 256)]"
  by (simp only: numeral_eq_Suc [of k] be_bytes.simps)

section \<open>Strings\<close>

text \<open>
  A Rust \<open>String\<close> is a sequence of bytes that is valid UTF-8. It is modelled by \<open>string\<close>, whose
  characters are bytes; \<open>rust_string\<close> is the type invariant.
\<close>

definition as_bytes :: "string \<Rightarrow> bytes" where
  "as_bytes s = map (\<lambda>c. of_nat (of_char c)) s"

definition from_bytes :: "bytes \<Rightarrow> string" where
  "from_bytes bs = map (\<lambda>b. char_of (unat b)) bs"

lemma unat_of_char_u8 [simp]: "unat (of_nat (of_char c) :: u8) = of_char c"
  by simp

lemma from_bytes_as_bytes [simp]: "from_bytes (as_bytes s) = s"
  by (induction s) (auto simp: from_bytes_def as_bytes_def)

lemma as_bytes_from_bytes [simp]: "as_bytes (from_bytes bs) = bs"
  by (induction bs) (auto simp: from_bytes_def as_bytes_def)

lemma length_as_bytes [simp]: "length (as_bytes s) = length s"
  by (simp add: as_bytes_def)

definition utf8_cont :: "u8 \<Rightarrow> bool" where
  "utf8_cont b \<longleftrightarrow> 0x80 \<le> b \<and> b \<le> 0xBF"

text \<open>\<open>core::str::from_utf8\<close>: the table of well-formed byte sequences of the Unicode standard.\<close>

fun utf8_valid :: "bytes \<Rightarrow> bool" where
  "utf8_valid [] = True"
| "utf8_valid (a # r) =
     (if a < 0x80 then utf8_valid r
      else if 0xC2 \<le> a \<and> a \<le> 0xDF then
        (case r of b # s \<Rightarrow> utf8_cont b \<and> utf8_valid s | _ \<Rightarrow> False)
      else if 0xE0 \<le> a \<and> a \<le> 0xEF then
        (case r of b # c # s \<Rightarrow>
            utf8_cont b \<and> (a = 0xE0 \<longrightarrow> 0xA0 \<le> b) \<and> (a = 0xED \<longrightarrow> b \<le> 0x9F) \<and> utf8_cont c \<and> utf8_valid s
         | _ \<Rightarrow> False)
      else if 0xF0 \<le> a \<and> a \<le> 0xF4 then
        (case r of b # c # d # s \<Rightarrow>
            utf8_cont b \<and> (a = 0xF0 \<longrightarrow> 0x90 \<le> b) \<and> (a = 0xF4 \<longrightarrow> b \<le> 0x8F)
            \<and> utf8_cont c \<and> utf8_cont d \<and> utf8_valid s
         | _ \<Rightarrow> False)
      else False)"

definition rust_string :: "string \<Rightarrow> bool" where
  "rust_string s \<longleftrightarrow> utf8_valid (as_bytes s)"

lemma utf8_valid_ascii: "list_all (\<lambda>b. b < 0x80) bs \<Longrightarrow> utf8_valid bs"
  by (induction bs) auto

text \<open>\<open>str::split_once\<close> at the first occurrence of a character.\<close>

fun split_once :: "char \<Rightarrow> string \<Rightarrow> (string \<times> string) option" where
  "split_once c [] = None"
| "split_once c (x # xs) =
     (if x = c then Some ([], xs)
      else map_option (\<lambda>(a, b). (x # a, b)) (split_once c xs))"

lemma split_once_append [simp]:
  "c \<notin> set a \<Longrightarrow> split_once c (a @ c # b) = Some (a, b)"
  by (induction a) auto

lemma split_once_SomeD: "split_once c s = Some (a, b) \<Longrightarrow> s = a @ c # b \<and> c \<notin> set a"
  by (induction s arbitrary: a b) (auto split: if_splits)

section \<open>Bit flags\<close>

text \<open>The operations of a \<open>bitflags!\<close> type on its underlying bits.\<close>

definition contains :: "'a::len word \<Rightarrow> 'a word \<Rightarrow> bool" where
  "contains fs f \<longleftrightarrow> fs AND f = f"

definition intersects :: "'a::len word \<Rightarrow> 'a word \<Rightarrow> bool" where
  "intersects fs f \<longleftrightarrow> fs AND f \<noteq> 0"

definition remove_flags :: "'a::len word \<Rightarrow> 'a word \<Rightarrow> 'a word" where
  "remove_flags fs f = fs AND NOT f"

text \<open>The bits of a flags value are among the declared ones.\<close>

definition known_bits :: "'a::len word \<Rightarrow> 'a word \<Rightarrow> bool" where
  "known_bits allf fs \<longleftrightarrow> fs AND allf = fs"

lemma contains_or [simp]: "contains (fs OR f) f"
  by (auto simp: contains_def bit_eq_iff bit_simps)

lemma remove_or_flags:
  "\<not> intersects fs f \<Longrightarrow> remove_flags (fs OR f) f = fs"
  by (auto simp: intersects_def remove_flags_def bit_eq_iff bit_simps)

lemma known_bits_or: "known_bits a fs \<Longrightarrow> known_bits a f \<Longrightarrow> known_bits a (fs OR f)"
  by (auto simp: known_bits_def bit_eq_iff bit_simps)

lemma contains_or_other: "contains fs g \<Longrightarrow> contains (fs OR f) g"
  by (auto simp: contains_def bit_eq_iff bit_simps)

lemma or_contained: "contains fs f \<Longrightarrow> fs OR f = fs"
  by (auto simp: contains_def bit_eq_iff bit_simps)

end
