(* ===== verification/Serde.thy ===== *)
theory Serde
  imports Prelude
begin

text \<open>
  The serialization interface of the \<open>bp7\<close> crate. The crate writes its types through
  \<open>serde::Serializer\<close> and reads them through \<open>serde::Deserializer\<close>; the bytes are made by the
  third-party crate \<open>serde_cbor\<close>. Here the values that pass through the interface are a datatype
  \<open>cbor\<close> with one constructor for each kind of call (\<open>serialize_u64\<close>, \<open>serialize_bytes\<close>,
  \<open>serialize_seq(Some n)\<close>, \<open>serialize_seq(None)\<close> and so on), and the two functions
  \<open>serde_cbor::to_vec\<close> and \<open>serde_cbor::from_slice\<close> are parameters. What the crate relies on
  is the locale \<open>serde_cbor\<close>: reading back what was written gives the same value. The locale
  \<open>serde_cbor_sized\<close> adds the size of the encoding (RFC 8949, shortest form of every head).
\<close>

section \<open>Values\<close>

text \<open>
  \<open>CArray True\<close> is an array whose length is known in advance, \<open>CArray False\<close> one of indefinite
  length. \<open>CMap\<close> holds keys and values alternating, as CBOR lays them out.
\<close>

datatype cbor =
    CUnsigned u64
  | CNegative u64
  | CBytes bytes
  | CText string
  | CArray bool "cbor list"
  | CMap "cbor list"
  | CBool bool
  | CNull

text \<open>Values that have an encoding: lengths fit 64 bits, text is valid UTF-8.\<close>

fun cbor_ok :: "cbor \<Rightarrow> bool" where
  "cbor_ok (CBytes b) = (length b < 2 ^ 64)"
| "cbor_ok (CText s) = (length s < 2 ^ 64 \<and> rust_string s)"
| "cbor_ok (CArray _ xs) = (length xs < 2 ^ 64 \<and> list_all cbor_ok xs)"
| "cbor_ok (CMap xs) = (length xs < 2 ^ 64 \<and> even (length xs) \<and> list_all cbor_ok xs)"
| "cbor_ok _ = True"

text \<open>Nesting depth; \<open>serde_cbor\<close> refuses input nested deeper than its recursion limit of 128.\<close>

fun cbor_depth :: "cbor \<Rightarrow> nat" where
  "cbor_depth (CArray _ xs) = Suc (foldr max (map cbor_depth xs) 0)"
| "cbor_depth (CMap xs) = Suc (foldr max (map cbor_depth xs) 0)"
| "cbor_depth _ = 0"

text \<open>Size of the head of a data item and of the whole item.\<close>

definition head_size :: "nat \<Rightarrow> nat" where
  "head_size n = (if n < 24 then 1 else if n < 256 then 2 else if n < 65536 then 3
     else if n < 2 ^ 32 then 5 else 9)"

fun cbor_size :: "cbor \<Rightarrow> nat" where
  "cbor_size (CUnsigned v) = head_size (unat v)"
| "cbor_size (CNegative v) = head_size (unat v)"
| "cbor_size (CBytes b) = head_size (length b) + length b"
| "cbor_size (CText s) = head_size (length s) + length s"
| "cbor_size (CArray True xs) = head_size (length xs) + sum_list (map cbor_size xs)"
| "cbor_size (CArray False xs) = 2 + sum_list (map cbor_size xs)"
| "cbor_size (CMap xs) = head_size (length xs div 2) + sum_list (map cbor_size xs)"
| "cbor_size (CBool b) = 1"
| "cbor_size CNull = 1"

lemma head_size_le: "head_size n \<le> 9"
  by (simp add: head_size_def)

lemma head_size_pos: "1 \<le> head_size n"
  by (simp add: head_size_def)

lemma head_size_mono: "m \<le> n \<Longrightarrow> head_size m \<le> head_size n"
  by (auto simp: head_size_def)

lemma foldr_max_less:
  "0 < (n :: nat) \<Longrightarrow> (\<And>x. x \<in> set xs \<Longrightarrow> x < n) \<Longrightarrow> foldr max xs 0 < n"
  by (induction xs) auto

lemma foldr_max_le:
  "(\<And>x. x \<in> set xs \<Longrightarrow> x \<le> (n :: nat)) \<Longrightarrow> foldr max xs 0 \<le> n"
  by (induction xs) auto

section \<open>The encoder and decoder the crate is written against\<close>

locale serde_cbor =
  fixes to_vec :: "cbor \<Rightarrow> bytes"
    and from_slice :: "bytes \<Rightarrow> cbor option"
  assumes from_slice_to_vec:
    "cbor_ok v \<Longrightarrow> cbor_depth v < 128 \<Longrightarrow> from_slice (to_vec v) = Some v"
begin

lemma to_vec_inject:
  assumes "cbor_ok v" "cbor_depth v < 128" "cbor_ok w" "cbor_depth w < 128"
    and "to_vec v = to_vec w"
  shows "v = w"
  using assms by (metis from_slice_to_vec option.inject)

end

locale serde_cbor_sized = serde_cbor +
  assumes length_to_vec: "cbor_ok v \<Longrightarrow> length (to_vec v) = cbor_size v"

section \<open>Reading values\<close>

text \<open>The error values of \<open>serde::de::Error\<close> that the crate makes. \<open>Custom\<close> carries the field that
  the message \<open>Error for field ...\<close> names.\<close>

datatype de_error =
    InvalidType
  | InvalidValue
  | InvalidLength nat
  | Custom string
  | MissingField string
  | DuplicateField string
  | TrailingData
  | Syntax

type_synonym 'a de = "cbor \<Rightarrow> ('a, de_error) result"

text \<open>A visitor of a sequence: it gets \<open>size_hint()\<close> and the elements, and returns its value
  and the elements it did not take.\<close>

type_synonym 'a visit_seq = "nat option \<Rightarrow> cbor list \<Rightarrow> ('a \<times> cbor list, de_error) result"

fun deserialize_u64 :: "u64 de" where
  "deserialize_u64 (CUnsigned v) = Ok v"
| "deserialize_u64 _ = Err InvalidType"

fun deserialize_u8 :: "u8 de" where
  "deserialize_u8 (CUnsigned v) = (if v \<le> 255 then Ok (ucast v) else Err InvalidValue)"
| "deserialize_u8 _ = Err InvalidType"

fun deserialize_bool :: "bool de" where
  "deserialize_bool (CBool b) = Ok b"
| "deserialize_bool _ = Err InvalidType"

text \<open>A borrowed \<open>&[u8]\<close>: byte strings, and text as its bytes.\<close>

fun deserialize_byte_slice :: "bytes de" where
  "deserialize_byte_slice (CBytes b) = Ok b"
| "deserialize_byte_slice (CText s) = Ok (as_bytes s)"
| "deserialize_byte_slice _ = Err InvalidType"

text \<open>\<open>deserialize_seq\<close> runs the visitor and refuses elements left over.\<close>

fun deserialize_seq :: "'a visit_seq \<Rightarrow> 'a de" where
  "deserialize_seq visit (CArray known xs) =
     and_then (visit (if known then Some (length xs) else None) xs)
       (\<lambda>(x, rest). if rest = [] then Ok x else Err TrailingData)"
| "deserialize_seq visit _ = Err InvalidType"

text \<open>\<open>seq.next_element()?\<close>: no element left is \<open>None\<close>.\<close>

fun next_element :: "'a de \<Rightarrow> cbor list \<Rightarrow> ('a option \<times> cbor list, de_error) result" where
  "next_element d [] = Ok (None, [])"
| "next_element d (v # vs) = map_ok (\<lambda>x. (Some x, vs)) (d v)"

text \<open>\<open>seq.next_element()?.ok_or(Error::custom(msg))?\<close>, the way every field is read.\<close>

definition next_field :: "string \<Rightarrow> 'a de \<Rightarrow> cbor list \<Rightarrow> ('a \<times> cbor list, de_error) result" where
  "next_field msg d vs =
     and_then (next_element d vs) (\<lambda>(x, rest). map_ok (\<lambda>y. (y, rest)) (ok_or x (Custom msg)))"

lemma next_field_Nil [simp]: "next_field msg d [] = Err (Custom msg)"
  by (simp add: next_field_def)

lemma next_field_Cons [simp]: "next_field msg d (v # vs) = map_ok (\<lambda>x. (x, vs)) (d v)"
  by (cases "d v") (auto simp: next_field_def)

text \<open>\<open>serde_cbor::from_slice\<close> into a type: the bytes are parsed and the visitor run.\<close>

definition from_slice_with :: "(bytes \<Rightarrow> cbor option) \<Rightarrow> 'a de \<Rightarrow> bytes \<Rightarrow> ('a, de_error) result" where
  "from_slice_with from_slice d bs = and_then (ok_or (from_slice bs) Syntax) d"

section \<open>Types that can be written and read back\<close>

text \<open>The contract between \<open>Serialize\<close> and \<open>Deserialize\<close> of one type: on the values that satisfy
  \<open>wf\<close>, reading returns what was written, and what is written has an encoding.\<close>

locale serde_type =
  fixes ser :: "'a \<Rightarrow> cbor"
    and de :: "'a de"
    and wf :: "'a \<Rightarrow> bool"
    and depth :: nat
  assumes de_ser: "wf x \<Longrightarrow> de (ser x) = Ok x"
    and ser_ok: "wf x \<Longrightarrow> cbor_ok (ser x)"
    and ser_depth: "wf x \<Longrightarrow> cbor_depth (ser x) \<le> depth"
    and depth_less: "depth < 128"
begin

lemma ser_inject: "wf x \<Longrightarrow> wf y \<Longrightarrow> ser x = ser y \<longleftrightarrow> x = y"
  using de_ser by (metis result.inject(1))

lemma bytes_roundtrip:
  assumes "serde_cbor to_vec from_slice" and "wf x"
  shows "from_slice_with from_slice de (to_vec (ser x)) = Ok x"
proof -
  have "cbor_depth (ser x) < 128"
    using ser_depth [OF assms(2)] depth_less by simp
  then have "from_slice (to_vec (ser x)) = Some (ser x)"
    using assms ser_ok by (simp add: serde_cbor.from_slice_to_vec)
  then show ?thesis
    using assms(2) by (simp add: from_slice_with_def de_ser)
qed

end

end
