(* ===== verification/Flags.thy ===== *)
theory Flags
  imports Serde
begin

text \<open>
  The processing control flags: \<open>bp7/src/bundleflags.rs\<close> (\<open>BundleFlags\<close>) and
  \<open>bp7/src/blockflags.rs\<close> (\<open>BlockFlags\<close>). A flags value is the 64-bit word of its bits;
  reading truncates to the declared bits.
\<close>

section \<open>Bundle processing control flags\<close>

type_synonym BundleFlags = u64

definition FRAGMENT :: BundleFlags where
  [flag_defs]: "FRAGMENT = 0x00000001"

definition ADMINISTRATIVE_RECORD :: BundleFlags where
  [flag_defs]: "ADMINISTRATIVE_RECORD = 0x00000002"

definition MUST_NOT_FRAGMENT :: BundleFlags where
  [flag_defs]: "MUST_NOT_FRAGMENT = 0x00000004"

definition APPLICATION_ACKNOWLEGEMENT_REQUESTED :: BundleFlags where
  [flag_defs]: "APPLICATION_ACKNOWLEGEMENT_REQUESTED = 0x00000020"

definition STATUS_TIME_REQUESTED :: BundleFlags where
  [flag_defs]: "STATUS_TIME_REQUESTED = 0x00000040"

definition BUNDLE_RECEIPTION_STATUS_REQUESTED :: BundleFlags where
  [flag_defs]: "BUNDLE_RECEIPTION_STATUS_REQUESTED = 0x00004000"

definition BUNDLE_FORWARDING_STATUS_REQUEST :: BundleFlags where
  [flag_defs]: "BUNDLE_FORWARDING_STATUS_REQUEST = 0x00010000"

definition BUNDLE_DELIVERY_STATUS_REQUESTED :: BundleFlags where
  [flag_defs]: "BUNDLE_DELIVERY_STATUS_REQUESTED = 0x00020000"

definition BUNDLE_DELETION_STATUS_REQUESTED :: BundleFlags where
  [flag_defs]: "BUNDLE_DELETION_STATUS_REQUESTED = 0x00040000"

text \<open>The union of the declared flags, to which \<open>from_bits_truncate\<close> cuts a value down.\<close>

definition BundleFlags_all :: BundleFlags where
  [flag_defs]: "BundleFlags_all = FRAGMENT OR ADMINISTRATIVE_RECORD OR MUST_NOT_FRAGMENT
     OR APPLICATION_ACKNOWLEGEMENT_REQUESTED OR STATUS_TIME_REQUESTED
     OR BUNDLE_RECEIPTION_STATUS_REQUESTED OR BUNDLE_FORWARDING_STATUS_REQUEST
     OR BUNDLE_DELIVERY_STATUS_REQUESTED OR BUNDLE_DELETION_STATUS_REQUESTED"

definition serialize_BundleFlags :: "BundleFlags \<Rightarrow> cbor" where
  "serialize_BundleFlags fs = CUnsigned fs"

definition deserialize_BundleFlags :: "BundleFlags de" where
  "deserialize_BundleFlags v = map_ok (\<lambda>b. b AND BundleFlags_all) (deserialize_u64 v)"

definition validate_BundleFlags :: "BundleFlags \<Rightarrow> bool" where
  "validate_BundleFlags fs =
     (if contains fs ADMINISTRATIVE_RECORD
         \<and> intersects fs (BUNDLE_RECEIPTION_STATUS_REQUESTED OR BUNDLE_FORWARDING_STATUS_REQUEST
             OR BUNDLE_DELIVERY_STATUS_REQUESTED OR BUNDLE_DELETION_STATUS_REQUESTED)
      then False
      else if contains fs (MUST_NOT_FRAGMENT OR FRAGMENT) then False
      else True)"

section \<open>Block processing control flags\<close>

type_synonym BlockFlags = u64

definition MUST_REPLICATE_TO_ALL_FRAGMENTS :: BlockFlags where
  [flag_defs]: "MUST_REPLICATE_TO_ALL_FRAGMENTS = 0x01"

definition STATUS_REPORT_REQUESTED_WHEN_NOT_PROCESSABLE :: BlockFlags where
  [flag_defs]: "STATUS_REPORT_REQUESTED_WHEN_NOT_PROCESSABLE = 0x02"

definition DELETE_BUNDLE_WHEN_NOT_PROCESSABLE :: BlockFlags where
  [flag_defs]: "DELETE_BUNDLE_WHEN_NOT_PROCESSABLE = 0x04"

definition DELETE_BLOCK_WHEN_NOT_PROCESSABLE :: BlockFlags where
  [flag_defs]: "DELETE_BLOCK_WHEN_NOT_PROCESSABLE = 0x10"

definition BlockFlags_all :: BlockFlags where
  [flag_defs]: "BlockFlags_all = MUST_REPLICATE_TO_ALL_FRAGMENTS
     OR STATUS_REPORT_REQUESTED_WHEN_NOT_PROCESSABLE OR DELETE_BUNDLE_WHEN_NOT_PROCESSABLE
     OR DELETE_BLOCK_WHEN_NOT_PROCESSABLE"

definition serialize_BlockFlags :: "BlockFlags \<Rightarrow> cbor" where
  "serialize_BlockFlags fs = CUnsigned fs"

definition deserialize_BlockFlags :: "BlockFlags de" where
  "deserialize_BlockFlags v = map_ok (\<lambda>b. b AND BlockFlags_all) (deserialize_u64 v)"

definition validate_BlockFlags :: "BlockFlags \<Rightarrow> bool" where
  "validate_BlockFlags fs = True"

section \<open>Properties\<close>

interpretation bundle_flags: serde_type serialize_BundleFlags deserialize_BundleFlags
  "known_bits BundleFlags_all" 0
  by unfold_locales
    (simp_all add: serialize_BundleFlags_def deserialize_BundleFlags_def known_bits_def)

interpretation block_flags: serde_type serialize_BlockFlags deserialize_BlockFlags
  "known_bits BlockFlags_all" 0
  by unfold_locales
    (simp_all add: serialize_BlockFlags_def deserialize_BlockFlags_def known_bits_def)

text \<open>What is read has declared bits only.\<close>

lemma deserialize_BundleFlags_known:
  "deserialize_BundleFlags v = Ok fs \<Longrightarrow> known_bits BundleFlags_all fs"
  by (auto simp: deserialize_BundleFlags_def result_simps known_bits_def ac_simps)

lemma deserialize_BlockFlags_known:
  "deserialize_BlockFlags v = Ok fs \<Longrightarrow> known_bits BlockFlags_all fs"
  by (auto simp: deserialize_BlockFlags_def result_simps known_bits_def ac_simps)

text \<open>A single-bit flag is contained exactly when it intersects.\<close>

lemma contains_bit: "contains fs (2 ^ n) = bit fs n" if "n < LENGTH('a)" for fs :: "'a::len word"
proof
  assume "contains fs (2 ^ n)"
  then have "bit (fs AND 2 ^ n) n = bit (2 ^ n :: 'a word) n" by (simp add: contains_def)
  then show "bit fs n" using that by (simp add: bit_simps)
next
  assume "bit fs n"
  then show "contains fs (2 ^ n)"
    unfolding contains_def by (intro bit_word_eqI) (auto simp: bit_simps)
qed

lemma contains_FRAGMENT: "contains fs FRAGMENT = bit fs 0"
  using contains_bit [of 0 fs] by (simp add: FRAGMENT_def)

lemma contains_MUST_NOT_FRAGMENT: "contains fs MUST_NOT_FRAGMENT = bit fs 2"
  using contains_bit [of 2 fs] by (simp add: MUST_NOT_FRAGMENT_def)

lemma contains_ADMINISTRATIVE_RECORD: "contains fs ADMINISTRATIVE_RECORD = bit fs 1"
  using contains_bit [of 1 fs] by (simp add: ADMINISTRATIVE_RECORD_def)

lemma FRAGMENT_known [simp]: "known_bits BundleFlags_all FRAGMENT"
  by (simp add: known_bits_def flag_defs)

lemma not_contains_FRAGMENT: "\<not> contains fs FRAGMENT \<Longrightarrow> \<not> intersects fs FRAGMENT"
  using contains_FRAGMENT [of fs] and_exp_eq_0_iff_not_bit [of fs 0]
  by (simp add: intersects_def FRAGMENT_def)

lemma remove_insert_FRAGMENT:
  "\<not> contains fs FRAGMENT \<Longrightarrow> remove_flags (fs OR FRAGMENT) FRAGMENT = fs"
  by (intro remove_or_flags not_contains_FRAGMENT)

lemma contains_or_mask: "contains fs (a OR b) \<longleftrightarrow> contains fs a \<and> contains fs b"
  by (auto simp: contains_def bit_eq_iff bit_simps)

lemma intersects_or_mask: "intersects fs (a OR b) \<longleftrightarrow> intersects fs a \<or> intersects fs b"
  by (auto simp: intersects_def bit_eq_iff bit_simps)

end
