(* ===== verification/Crc.thy ===== *)
theory Crc
  imports Serde
begin

text \<open>
  \<open>bp7/src/crc.rs\<close>: the CRC field of a block. The type is written as a number, the checksum
  itself is a separate element at the end of the block.
\<close>

section \<open>Data\<close>

text \<open>The fixed-size arrays \<open>[u8; 2]\<close> and \<open>[u8; 4]\<close> are tuples.\<close>

datatype CRCType =
    NoCRC
  | CRC16 "u8 \<times> u8"
  | CRC32 "u8 \<times> u8 \<times> u8 \<times> u8"

fun serialize_CRCType :: "CRCType \<Rightarrow> cbor" where
  "serialize_CRCType NoCRC = CUnsigned 0"
| "serialize_CRCType (CRC16 _) = CUnsigned 1"
| "serialize_CRCType (CRC32 _) = CUnsigned 2"

definition deserialize_CRCType :: "CRCType de" where
  "deserialize_CRCType v = and_then (deserialize_u64 v) (\<lambda>n.
     if n = 0 then Ok NoCRC
     else if n = 1 then Ok (CRC16 (0, 0))
     else if n = 2 then Ok (CRC32 (0, 0, 0, 0))
     else Err InvalidValue)"

text \<open>The checksum as an element of the block: \<open>serialize_element(&x)\<close> on a fixed-size array, which
  \<open>serde\<close> writes as a tuple of its elements.\<close>

fun serialize_crc_content :: "CRCType \<Rightarrow> cbor list" where
  "serialize_crc_content NoCRC = []"
| "serialize_crc_content (CRC16 (a, b)) = [CArray True [CUnsigned (ucast a), CUnsigned (ucast b)]]"
| "serialize_crc_content (CRC32 (a, b, c, d)) =
     [CArray True [CUnsigned (ucast a), CUnsigned (ucast b), CUnsigned (ucast c), CUnsigned (ucast d)]]"

text \<open>\<open>CRCType::deserialize_value\<close>: the checksum is read as a byte slice of the right length.\<close>

fun deserialize_value :: "CRCType \<Rightarrow> cbor list \<Rightarrow> (CRCType \<times> cbor list, de_error) result" where
  "deserialize_value NoCRC seq = Panic"
| "deserialize_value (CRC16 _) seq =
     and_then (next_field ''crc content'' deserialize_byte_slice seq) (\<lambda>(val, seq).
       case val of [a, b] \<Rightarrow> Ok (CRC16 (a, b), seq)
       | _ \<Rightarrow> Err (InvalidLength (length val)))"
| "deserialize_value (CRC32 _) seq =
     and_then (next_field ''crc content'' deserialize_byte_slice seq) (\<lambda>(val, seq).
       case val of [a, b, c, d] \<Rightarrow> Ok (CRC32 (a, b, c, d), seq)
       | _ \<Rightarrow> Err (InvalidLength (length val)))"

section \<open>Properties\<close>

text \<open>The kind of CRC survives writing and reading; the checksum bytes are not part of it.\<close>

fun crc_kind :: "CRCType \<Rightarrow> CRCType" where
  "crc_kind NoCRC = NoCRC"
| "crc_kind (CRC16 _) = CRC16 (0, 0)"
| "crc_kind (CRC32 _) = CRC32 (0, 0, 0, 0)"

lemma deserialize_serialize_CRCType [simp]:
  "deserialize_CRCType (serialize_CRCType c) = Ok (crc_kind c)"
  by (cases c) (simp_all add: deserialize_CRCType_def)

lemma serialize_CRCType_ok [simp]: "cbor_ok (serialize_CRCType c)" "cbor_depth (serialize_CRCType c) = 0"
  by (cases c; simp)+

text \<open>A byte string of the right length is read as the checksum.\<close>

lemma deserialize_value_bytes:
  "deserialize_value (CRC16 x) (CBytes [a, b] # rest) = Ok (CRC16 (a, b), rest)"
  "deserialize_value (CRC32 y) (CBytes [a, b, c, d] # rest) = Ok (CRC32 (a, b, c, d), rest)"
  by simp_all

text \<open>The checksum is written as an array and read as a byte slice: reading back always fails.\<close>

lemma deserialize_serialize_crc_content:
  assumes "crc \<noteq> NoCRC"
  shows "deserialize_value (crc_kind crc) (serialize_crc_content crc @ rest) = Err InvalidType"
proof (cases crc)
  case (CRC16 x)
  then show ?thesis by (cases x) simp
next
  case (CRC32 x)
  then show ?thesis by (cases x) simp
qed (use assms in simp)

end
