(* ===== verification/Dtn_Time.thy ===== *)
theory Dtn_Time
  imports Serde
begin

text \<open>
  \<open>bp7/src/time.rs\<close>: DTN time (milliseconds since 2000-01-01) and creation timestamps. The
  calendar type of the \<open>chrono\<close> crate is represented by its milliseconds since 1970; which of
  them \<open>timestamp_millis_opt\<close> accepts is a parameter, and so is the clock.
\<close>

section \<open>Data\<close>

type_synonym DtnTime = u64

record CreationTimestamp =
  creation_time :: DtnTime
  sequence_number :: u64

definition serialize_DtnTime :: "DtnTime \<Rightarrow> cbor" where
  "serialize_DtnTime t = CUnsigned t"

definition deserialize_DtnTime :: "DtnTime de" where
  "deserialize_DtnTime v = deserialize_u64 v"

definition serialize_CreationTimestamp :: "CreationTimestamp \<Rightarrow> cbor" where
  "serialize_CreationTimestamp t =
     CArray True [serialize_DtnTime (creation_time t), CUnsigned (sequence_number t)]"

definition visit_CreationTimestamp :: "CreationTimestamp visit_seq" where
  "visit_CreationTimestamp size_hint seq =
     and_then (next_field ''creation_time'' deserialize_DtnTime seq) (\<lambda>(ct, seq).
     and_then (next_field ''sequence_number'' deserialize_u64 seq) (\<lambda>(sn, seq).
     Ok (\<lparr>creation_time = ct, sequence_number = sn\<rparr>, seq)))"

definition deserialize_CreationTimestamp :: "CreationTimestamp de" where
  "deserialize_CreationTimestamp = deserialize_seq visit_CreationTimestamp"

section \<open>Calendar time\<close>

definition DTN_UNIX_DIFFERENCE_MS :: u64 where
  "DTN_UNIX_DIFFERENCE_MS = 946684800000"

text \<open>\<open>From<&DtnTime> for DateTime<Utc>\<close>: a cast to \<open>i64\<close>, a wrapping addition, and an \<open>unwrap\<close>.\<close>

definition DateTime_from_DtnTime :: "(int \<Rightarrow> bool) \<Rightarrow> DtnTime \<Rightarrow> (int, 'e) result" where
  "DateTime_from_DtnTime representable dtn =
     (let millis = sint (dtn + DTN_UNIX_DIFFERENCE_MS)
      in if representable millis then Ok millis else Panic)"

text \<open>\<open>From<&DateTime<Utc>> for DtnTime\<close>: a wrapping subtraction and \<open>try_into().unwrap()\<close> to \<open>u64\<close>.\<close>

definition DtnTime_from_DateTime :: "int \<Rightarrow> (DtnTime, 'e) result" where
  "DtnTime_from_DateTime utc =
     (let millis = word_of_int utc - DTN_UNIX_DIFFERENCE_MS
      in if sint millis < 0 then Panic else Ok millis)"

definition now :: "int \<Rightarrow> (DtnTime, 'e) result" where
  "now utc_now = DtnTime_from_DateTime utc_now"

section \<open>Properties\<close>

interpretation dtn_time: serde_type serialize_DtnTime deserialize_DtnTime "\<lambda>_. True" 0
  by unfold_locales (simp_all add: serialize_DtnTime_def deserialize_DtnTime_def)

interpretation creation_timestamp:
  serde_type serialize_CreationTimestamp deserialize_CreationTimestamp "\<lambda>_. True" 1
  by unfold_locales
    (simp_all add: serialize_CreationTimestamp_def deserialize_CreationTimestamp_def
      visit_CreationTimestamp_def dtn_time.de_ser serialize_DtnTime_def deserialize_DtnTime_def)

lemma uint_DTN_UNIX_DIFFERENCE_MS: "uint DTN_UNIX_DIFFERENCE_MS = 946684800000"
  by (simp add: DTN_UNIX_DIFFERENCE_MS_def)

lemma sint_small: 
  assumes "uint (w :: u64) < 2 ^ 63"
  shows "sint w = uint w"
proof -
  have "signed_take_bit (LENGTH(64) - Suc 0) (uint w) = uint w"
    using assms order_trans [of "- (2 ^ 63)" 0 "uint w"] by (intro signed_take_bit_int_eq_self) simp_all
  then show ?thesis unfolding sint_uint .
qed

text \<open>A DTN time that fits the calendar converts to it and back without loss.\<close>

lemma DateTime_from_DtnTime_small:
  assumes "uint t < 2 ^ 62" and "representable (uint t + 946684800000)"
  shows "DateTime_from_DtnTime representable t = Ok (uint t + 946684800000)"
proof -
  have "uint (t + DTN_UNIX_DIFFERENCE_MS) = uint t + 946684800000"
    using assms(1) by (simp add: uint_word_ariths uint_DTN_UNIX_DIFFERENCE_MS)
  then have "sint (t + DTN_UNIX_DIFFERENCE_MS) = uint t + 946684800000"
    using assms(1) sint_small [of "t + DTN_UNIX_DIFFERENCE_MS"] by simp
  then show ?thesis
    using assms(2) by (simp add: DateTime_from_DtnTime_def)
qed

lemma DtnTime_from_DateTime_small:
  assumes "uint t < 2 ^ 62"
  shows "DtnTime_from_DateTime (uint t + 946684800000) = Ok t"
proof -
  have "word_of_int (uint t + 946684800000) = t + DTN_UNIX_DIFFERENCE_MS"
    by (simp add: DTN_UNIX_DIFFERENCE_MS_def)
  moreover have "\<not> sint t < 0"
    using assms sint_small [of t] by simp
  ultimately show ?thesis by (simp add: DtnTime_from_DateTime_def)
qed
end
