(* ===== verification/Endpoint.thy ===== *)
theory Endpoint
  imports Serde
begin

text \<open>
  \<open>bp7/src/endpoint.rs\<close>: endpoint identifiers. A \<open>dtn\<close> endpoint is the text after \<open>dtn:\<close>, an
  \<open>ipn\<close> endpoint a pair of numbers. The file also defines which endpoints belong to the same node,
  on which delivery and routing decisions rest.
\<close>

section \<open>Decimal numbers\<close>

text \<open>\<open>u64::from_str\<close> and the \<open>Display\<close> instance of \<open>u64\<close>.\<close>

definition digit_value :: "char \<Rightarrow> nat option" where
  "digit_value c = (let n = of_char c :: nat in if 48 \<le> n \<and> n \<le> 57 then Some (n - 48) else None)"

definition digit_char :: "nat \<Rightarrow> char" where
  "digit_char d = char_of (48 + d)"

fun parse_digits :: "nat \<Rightarrow> string \<Rightarrow> nat option" where
  "parse_digits acc [] = Some acc"
| "parse_digits acc (c # cs) =
     (case digit_value c of
        None \<Rightarrow> None
      | Some d \<Rightarrow> if acc * 10 + d < 2 ^ 64 then parse_digits (acc * 10 + d) cs else None)"

definition parse_u64 :: "string \<Rightarrow> u64 option" where
  "parse_u64 s =
     (case s of
        [] \<Rightarrow> None
      | c # r \<Rightarrow> map_option of_nat
          (if c = CHR ''+'' then (if r = [] then None else parse_digits 0 r)
           else parse_digits 0 s))"

fun show_nat :: "nat \<Rightarrow> string" where
  "show_nat n = (if n < 10 then [digit_char n] else show_nat (n div 10) @ [digit_char (n mod 10)])"

declare show_nat.simps [simp del]

definition show_u64 :: "u64 \<Rightarrow> string" where
  "show_u64 w = show_nat (unat w)"

section \<open>Data\<close>

datatype EndpointType = Dtn | Ipn

record DTNEndpoint =
  uri :: string

record IPNEndpoint =
  node :: u64
  service :: u64

datatype Endpoint = DTN DTNEndpoint | IPN IPNEndpoint

fun serialize_EndpointType :: "EndpointType \<Rightarrow> cbor" where
  "serialize_EndpointType Dtn = CUnsigned 1"
| "serialize_EndpointType Ipn = CUnsigned 2"

definition deserialize_EndpointType :: "EndpointType de" where
  "deserialize_EndpointType v = and_then (deserialize_u64 v) (\<lambda>n.
     if n = 1 then Ok Dtn else if n = 2 then Ok Ipn else Err InvalidValue)"

section \<open>DTN endpoints\<close>

definition starts_with :: "string \<Rightarrow> string \<Rightarrow> bool" where
  "starts_with p s \<longleftrightarrow> take (length p) s = p"

definition DTNEndpoint_from_str :: "string \<Rightarrow> DTNEndpoint option" where
  "DTNEndpoint_from_str s = (if \<not> starts_with ''//'' s then None else Some \<lparr>uri = s\<rparr>)"

definition DTNEndpoint_is_null_endpoint :: "DTNEndpoint \<Rightarrow> bool" where
  "DTNEndpoint_is_null_endpoint e \<longleftrightarrow> uri e = ''none''"

text \<open>\<open>&s[i..]\<close>: the index must not pass the end and must not split a character.\<close>

definition str_from :: "nat \<Rightarrow> string \<Rightarrow> (string, 'e) result" where
  "str_from i s =
     (if i = length s then Ok []
      else if i < length s \<and> \<not> utf8_cont (as_bytes s ! i) then Ok (drop i s)
      else Panic)"

definition node_name :: "DTNEndpoint \<Rightarrow> (string, 'e) result" where
  "node_name e = map_ok (takeWhile (\<lambda>c. c \<noteq> CHR ''/'')) (str_from 2 (uri e))"

definition DTNEndpoint_matches_node :: "DTNEndpoint \<Rightarrow> DTNEndpoint \<Rightarrow> (bool, 'e) result" where
  "DTNEndpoint_matches_node self other =
     and_then (node_name self) (\<lambda>a. and_then (node_name other) (\<lambda>b. Ok (a = b)))"

definition DTNEndpoint_get_node_endpoint :: "DTNEndpoint \<Rightarrow> (DTNEndpoint, 'e) result" where
  "DTNEndpoint_get_node_endpoint e =
     and_then (node_name e) (\<lambda>n. unwrap (DTNEndpoint_from_str (''//'' @ n)))"

definition serialize_DTNEndpoint :: "DTNEndpoint \<Rightarrow> cbor" where
  "serialize_DTNEndpoint e =
     (if DTNEndpoint_is_null_endpoint e then CUnsigned 0 else CText (uri e))"

fun deserialize_DTNEndpoint :: "DTNEndpoint de" where
  "deserialize_DTNEndpoint (CUnsigned v) =
     (if v = 0 then Ok \<lparr>uri = ''none''\<rparr> else Err InvalidValue)"
| "deserialize_DTNEndpoint (CText s) = Ok \<lparr>uri = s\<rparr>"
| "deserialize_DTNEndpoint _ = Err InvalidType"

definition validate_DTNEndpoint :: "DTNEndpoint \<Rightarrow> bool" where
  "validate_DTNEndpoint e =
     (if uri e \<noteq> ''none'' \<and> \<not> starts_with ''//'' (uri e) then False else True)"

definition fmt_DTNEndpoint :: "DTNEndpoint \<Rightarrow> string" where
  "fmt_DTNEndpoint e = ''dtn:'' @ uri e"

section \<open>IPN endpoints\<close>

text \<open>\<open>IPNEndpoint\<close> derives its serialization: a struct is a map from field names to values. A
  derived reader takes fields in any order, skips unknown ones, refuses duplicates and missing
  ones, and also takes the fields in order from an array.\<close>

definition serialize_IPNEndpoint :: "IPNEndpoint \<Rightarrow> cbor" where
  "serialize_IPNEndpoint e =
     CMap [CText ''node'', CUnsigned (node e), CText ''service'', CUnsigned (service e)]"

datatype IPNField = FieldNode | FieldService | FieldIgnore

fun deserialize_IPNField :: "IPNField de" where
  "deserialize_IPNField (CText s) =
     Ok (if s = ''node'' then FieldNode else if s = ''service'' then FieldService else FieldIgnore)"
| "deserialize_IPNField (CBytes b) =
     Ok (if b = as_bytes ''node'' then FieldNode
         else if b = as_bytes ''service'' then FieldService else FieldIgnore)"
| "deserialize_IPNField (CUnsigned n) =
     Ok (if n = 0 then FieldNode else if n = 1 then FieldService else FieldIgnore)"
| "deserialize_IPNField _ = Err InvalidType"

fun visit_map_IPNEndpoint ::
  "u64 option \<Rightarrow> u64 option \<Rightarrow> cbor list \<Rightarrow> (IPNEndpoint, de_error) result" where
  "visit_map_IPNEndpoint n s [] =
     and_then (ok_or n (MissingField ''node'')) (\<lambda>n.
     and_then (ok_or s (MissingField ''service'')) (\<lambda>s. Ok \<lparr>node = n, service = s\<rparr>))"
| "visit_map_IPNEndpoint n s [k] = Err Syntax"
| "visit_map_IPNEndpoint n s (k # v # kvs) =
     and_then (deserialize_IPNField k) (\<lambda>f.
       case f of
         FieldNode \<Rightarrow>
           if n \<noteq> None then Err (DuplicateField ''node'')
           else and_then (deserialize_u64 v) (\<lambda>x. visit_map_IPNEndpoint (Some x) s kvs)
       | FieldService \<Rightarrow>
           if s \<noteq> None then Err (DuplicateField ''service'')
           else and_then (deserialize_u64 v) (\<lambda>x. visit_map_IPNEndpoint n (Some x) kvs)
       | FieldIgnore \<Rightarrow> visit_map_IPNEndpoint n s kvs)"

definition visit_seq_IPNEndpoint :: "IPNEndpoint visit_seq" where
  "visit_seq_IPNEndpoint size_hint seq =
     and_then (next_element deserialize_u64 seq) (\<lambda>(n, seq).
     and_then (ok_or n (InvalidLength 0)) (\<lambda>n.
     and_then (next_element deserialize_u64 seq) (\<lambda>(s, seq).
     and_then (ok_or s (InvalidLength 1)) (\<lambda>s.
     Ok (\<lparr>node = n, service = s\<rparr>, seq)))))"

fun deserialize_IPNEndpoint :: "IPNEndpoint de" where
  "deserialize_IPNEndpoint (CMap kvs) = visit_map_IPNEndpoint None None kvs"
| "deserialize_IPNEndpoint v = deserialize_seq visit_seq_IPNEndpoint v"

definition IPNEndpoint_from_str :: "string \<Rightarrow> IPNEndpoint option" where
  "IPNEndpoint_from_str s =
     (case split_once CHR '':'' s of
        None \<Rightarrow> None
      | Some (schema, hier) \<Rightarrow>
          if schema \<noteq> ''ipn'' then None
          else (case split_once CHR ''.'' hier of
              None \<Rightarrow> None
            | Some (n, sv) \<Rightarrow>
                (case parse_u64 n of
                   None \<Rightarrow> None
                 | Some node_id \<Rightarrow>
                     (case parse_u64 sv of
                        None \<Rightarrow> None
                      | Some service_id \<Rightarrow> Some \<lparr>node = node_id, service = service_id\<rparr>))))"

definition IPNEndpoint_matches_node :: "IPNEndpoint \<Rightarrow> IPNEndpoint \<Rightarrow> bool" where
  "IPNEndpoint_matches_node self other \<longleftrightarrow> node self = node other"

definition IPNEndpoint_get_node_endpoint :: "IPNEndpoint \<Rightarrow> IPNEndpoint" where
  "IPNEndpoint_get_node_endpoint e = \<lparr>node = node e, service = 0\<rparr>"

definition fmt_IPNEndpoint :: "IPNEndpoint \<Rightarrow> string" where
  "fmt_IPNEndpoint e = ''ipn:'' @ show_u64 (node e) @ ''.'' @ show_u64 (service e)"

section \<open>Endpoints\<close>

fun serialize_Endpoint :: "Endpoint \<Rightarrow> cbor" where
  "serialize_Endpoint (DTN e) = CArray True [serialize_EndpointType Dtn, serialize_DTNEndpoint e]"
| "serialize_Endpoint (IPN e) = CArray True [serialize_EndpointType Ipn, serialize_IPNEndpoint e]"

definition visit_Endpoint :: "Endpoint visit_seq" where
  "visit_Endpoint size_hint seq =
     and_then (next_field ''endpoint_type'' deserialize_EndpointType seq) (\<lambda>(t, seq).
     case t of
       Dtn \<Rightarrow> and_then (next_field ''dtn_endpoint'' deserialize_DTNEndpoint seq)
                (\<lambda>(e, seq). Ok (DTN e, seq))
     | Ipn \<Rightarrow> and_then (next_field ''ipn_endpoint'' deserialize_IPNEndpoint seq)
                (\<lambda>(e, seq). Ok (IPN e, seq)))"

definition deserialize_Endpoint :: "Endpoint de" where
  "deserialize_Endpoint = deserialize_seq visit_Endpoint"

fun validate_Endpoint :: "Endpoint \<Rightarrow> bool" where
  "validate_Endpoint (DTN e) = validate_DTNEndpoint e"
| "validate_Endpoint (IPN e) = True"

fun fmt_Endpoint :: "Endpoint \<Rightarrow> string" where
  "fmt_Endpoint (DTN e) = fmt_DTNEndpoint e"
| "fmt_Endpoint (IPN e) = fmt_IPNEndpoint e"

definition Endpoint_new :: "string \<Rightarrow> Endpoint option" where
  "Endpoint_new s =
     (case split_once CHR '':'' s of
        None \<Rightarrow> None
      | Some (schema, content) \<Rightarrow>
          if schema = ''dtn'' then map_option DTN (DTNEndpoint_from_str content)
          else if schema = ''ipn'' then map_option IPN (IPNEndpoint_from_str content)
          else None)"

fun is_null_endpoint :: "Endpoint \<Rightarrow> bool" where
  "is_null_endpoint (DTN e) = DTNEndpoint_is_null_endpoint e"
| "is_null_endpoint (IPN _) = False"

fun matches_node :: "Endpoint \<Rightarrow> Endpoint \<Rightarrow> (bool, 'e) result" where
  "matches_node (DTN s) (DTN t) = DTNEndpoint_matches_node s t"
| "matches_node (IPN s) (IPN t) = Ok (IPNEndpoint_matches_node s t)"
| "matches_node _ _ = Ok False"

fun get_node_endpoint :: "Endpoint \<Rightarrow> (Endpoint, 'e) result" where
  "get_node_endpoint (DTN s) = map_ok DTN (DTNEndpoint_get_node_endpoint s)"
| "get_node_endpoint (IPN s) = Ok (IPN (IPNEndpoint_get_node_endpoint s))"

section \<open>Properties of decimal numbers\<close>

lemma digit_value_digit_char [simp]: "d < 10 \<Longrightarrow> digit_value (digit_char d) = Some d"
  by (simp add: digit_value_def digit_char_def)

lemma parse_digits_append:
  "parse_digits acc (xs @ ys) = Option.bind (parse_digits acc xs) (\<lambda>n. parse_digits n ys)"
  by (induction xs arbitrary: acc) (auto split: option.splits)

lemma parse_digits_show_nat: "n < 2 ^ 64 \<Longrightarrow> parse_digits 0 (show_nat n) = Some n"
proof (induction n rule: show_nat.induct)
  case (1 n)
  show ?case
  proof (cases "n < 10")
    case True
    then show ?thesis by (simp add: show_nat.simps [of n])
  next
    case False
    then have "parse_digits 0 (show_nat (n div 10)) = Some (n div 10)"
      using "1.IH" "1.prems" by (metis div_le_dividend le_less_trans)
    then show ?thesis
      using False "1.prems" by (simp add: show_nat.simps [of n] parse_digits_append)
  qed
qed

lemma set_show_nat: "c \<in> set (show_nat n) \<Longrightarrow> \<exists>d<10. c = digit_char d"
proof (induction n rule: show_nat.induct)
  case (1 n)
  have "\<exists>d<10. digit_char (n mod 10) = digit_char d" by (rule exI [of _ "n mod 10"]) simp
  with 1 show ?case by (cases "n < 10") (auto simp: show_nat.simps [of n])
qed

lemma digit_char_neq: "d < 10 \<Longrightarrow> digit_char d \<noteq> CHR ''.'' \<and> digit_char d \<noteq> CHR '':'' \<and> digit_char d \<noteq> CHR ''+''"
  using digit_value_digit_char [of d] by (auto simp: digit_value_def split: if_splits)

lemma show_nat_no_punctuation [simp]:
  "CHR ''.'' \<notin> set (show_nat n)" "CHR '':'' \<notin> set (show_nat n)" "CHR ''+'' \<notin> set (show_nat n)"
  using set_show_nat digit_char_neq by metis+

lemma show_u64_no_punctuation [simp]:
  "CHR ''.'' \<notin> set (show_u64 n)" "CHR '':'' \<notin> set (show_u64 n)"
  by (simp_all add: show_u64_def)

lemma show_nat_nonempty [simp]: "show_nat n \<noteq> []"
  by (subst show_nat.simps) simp

theorem parse_show_u64 [simp]: "parse_u64 (show_u64 w) = Some w"
proof -
  obtain c r where s: "show_u64 w = c # r" by (cases "show_u64 w") (auto simp: show_u64_def)
  then have "c \<noteq> CHR ''+''"
    using show_nat_no_punctuation(3) [of "unat w"] by (auto simp: show_u64_def)
  then show ?thesis
    using s parse_digits_show_nat [of "unat w"] by (simp add: parse_u64_def show_u64_def)
qed

section \<open>Writing and reading endpoints\<close>

text \<open>The invariant of the data: the text is a Rust string of representable length.\<close>

fun endpoint_wf :: "Endpoint \<Rightarrow> bool" where
  "endpoint_wf (DTN e) \<longleftrightarrow> rust_string (uri e) \<and> length (uri e) < 2 ^ 64"
| "endpoint_wf (IPN e) \<longleftrightarrow> True"

lemma rust_string_ascii [simp]: "list_all (\<lambda>c. (of_char c :: nat) < 128) s \<Longrightarrow> rust_string s"
  unfolding rust_string_def as_bytes_def
  by (intro utf8_valid_ascii) (auto simp: list_all_iff word_less_nat_alt)

lemma deserialize_serialize_DTNEndpoint [simp]:
  "deserialize_DTNEndpoint (serialize_DTNEndpoint e) = Ok e"
  by (cases e) (simp add: serialize_DTNEndpoint_def DTNEndpoint_is_null_endpoint_def)

lemma deserialize_serialize_IPNEndpoint [simp]:
  "deserialize_IPNEndpoint (serialize_IPNEndpoint e) = Ok e"
  by (cases e) (simp add: serialize_IPNEndpoint_def)

interpretation endpoint: serde_type serialize_Endpoint deserialize_Endpoint endpoint_wf 2
proof unfold_locales
  fix x
  show "deserialize_Endpoint (serialize_Endpoint x) = Ok x"
    by (cases x) (simp_all add: deserialize_Endpoint_def visit_Endpoint_def deserialize_EndpointType_def)
  show "endpoint_wf x \<Longrightarrow> cbor_ok (serialize_Endpoint x)"
    by (cases x) (auto simp: serialize_DTNEndpoint_def serialize_IPNEndpoint_def)
  show "cbor_depth (serialize_Endpoint x) \<le> 2"
    by (cases x) (auto simp: serialize_DTNEndpoint_def serialize_IPNEndpoint_def)
qed simp

section \<open>Printing and parsing endpoints\<close>

lemma split_once_colon_dtn [simp]: "split_once CHR '':'' (''dtn:'' @ s) = Some (''dtn'', s)"
  by simp

lemma split_once_colon_ipn [simp]: "split_once CHR '':'' (''ipn:'' @ s) = Some (''ipn'', s)"
  by simp

lemma split_once_None_iff: "split_once c s = None \<longleftrightarrow> c \<notin> set s"
  by (induction s) (auto)

lemma Endpoint_new_fmt_dtn:
  "starts_with ''//'' (uri e) \<Longrightarrow> Endpoint_new (fmt_Endpoint (DTN e)) = Some (DTN e)"
  by (cases e) (simp add: Endpoint_new_def fmt_DTNEndpoint_def DTNEndpoint_from_str_def)

lemma IPNEndpoint_from_str_fmt: "IPNEndpoint_from_str (fmt_IPNEndpoint e) = Some e"
  by (cases e) (simp add: IPNEndpoint_from_str_def fmt_IPNEndpoint_def)

lemma Endpoint_new_fmt_ipn: "Endpoint_new (fmt_Endpoint (IPN e)) = None"
proof -
  have "split_once CHR '':'' (show_u64 (node e) @ ''.'' @ show_u64 (service e)) = None"
    by (subst split_once_None_iff) simp
  then show ?thesis
    by (simp add: Endpoint_new_def fmt_IPNEndpoint_def IPNEndpoint_from_str_def)
qed

lemma Endpoint_new_SomeD:
  assumes "Endpoint_new s = Some e"
  shows "validate_Endpoint e" and "\<not> is_null_endpoint e"
  using assms
  by (auto simp: Endpoint_new_def DTNEndpoint_from_str_def validate_DTNEndpoint_def
      DTNEndpoint_is_null_endpoint_def starts_with_def split: option.splits if_splits)

section \<open>Endpoints of the same node\<close>

text \<open>The abstract view of an endpoint for routing: the node it belongs to. Text that is too short
  to have a node name, or that has no character boundary after two bytes, has none.\<close>

datatype NodeId = DtnNode string | IpnNode u64

definition dtn_node :: "DTNEndpoint \<Rightarrow> string option" where
  "dtn_node e =
     (if 2 \<le> length (uri e) \<and> (2 < length (uri e) \<longrightarrow> \<not> utf8_cont (as_bytes (uri e) ! 2))
      then Some (takeWhile (\<lambda>c. c \<noteq> CHR ''/'') (drop 2 (uri e))) else None)"

fun node_id :: "Endpoint \<Rightarrow> NodeId option" where
  "node_id (DTN e) = map_option DtnNode (dtn_node e)"
| "node_id (IPN e) = Some (IpnNode (node e))"

lemma node_name_dtn_node: "node_name e = unwrap (dtn_node e)"
  by (auto simp: node_name_def dtn_node_def str_from_def)

lemma matches_node_node_id:
  "node_id a = Some x \<Longrightarrow> node_id b = Some y \<Longrightarrow> matches_node a b = Ok (x = y)"
  by (cases a; cases b)
    (auto simp: DTNEndpoint_matches_node_def node_name_dtn_node IPNEndpoint_matches_node_def)

lemma matches_node_Panic_iff:
  "matches_node (DTN a) (DTN b) = Panic \<longleftrightarrow> node_id (DTN a) = None \<or> node_id (DTN b) = None"
  by (cases "dtn_node a"; cases "dtn_node b")
    (auto simp: DTNEndpoint_matches_node_def node_name_dtn_node)

lemma dtn_node_slashes:
  assumes "dtn_node e = Some n"
  shows "dtn_node \<lparr>uri = ''//'' @ n\<rparr> = Some n"
proof -
  have no_slash: "takeWhile (\<lambda>c. c \<noteq> CHR ''/'') n = n"
    using assms by (auto simp: dtn_node_def split: if_splits dest: set_takeWhileD)
  have "\<not> utf8_cont (as_bytes n ! 0)" if "n \<noteq> []"
  proof -
    from assms have n: "n = takeWhile (\<lambda>c. c \<noteq> CHR ''/'') (drop 2 (uri e))"
      by (auto simp: dtn_node_def split: if_splits)
    with that have "2 < length (uri e)"
      by (cases "length (uri e) \<le> 2") auto
    have "n ! 0 = drop 2 (uri e) ! 0"
      using that unfolding n by (intro takeWhile_nth) simp
    with assms \<open>2 < length (uri e)\<close> that show ?thesis
      by (auto simp: dtn_node_def as_bytes_def split: if_splits)
  qed
  then show ?thesis
    using no_slash by (auto simp: dtn_node_def as_bytes_def nth_append)
qed

lemma DTNEndpoint_get_node_endpoint_eq:
  "dtn_node d = Some s \<Longrightarrow> DTNEndpoint_get_node_endpoint d = Ok \<lparr>uri = ''//'' @ s\<rparr>"
  by (simp add: DTNEndpoint_get_node_endpoint_def node_name_dtn_node DTNEndpoint_from_str_def
      starts_with_def)

text \<open>The node endpoint of a node, and \<open>get_node_endpoint\<close> as a function of the node alone.\<close>

fun node_endpoint :: "NodeId \<Rightarrow> Endpoint" where
  "node_endpoint (DtnNode s) = DTN \<lparr>uri = ''//'' @ s\<rparr>"
| "node_endpoint (IpnNode n) = IPN \<lparr>node = n, service = 0\<rparr>"

lemma get_node_endpoint_node_id:
  "node_id e = Some x \<Longrightarrow> get_node_endpoint e = Ok (node_endpoint x)"
  by (cases e) (auto simp: DTNEndpoint_get_node_endpoint_eq IPNEndpoint_get_node_endpoint_def)

lemma node_id_node_endpoint: "node_id e = Some x \<Longrightarrow> node_id (node_endpoint x) = Some x"
  using dtn_node_slashes by (cases e) auto

lemma node_endpoint_inject: "node_endpoint x = node_endpoint y \<longleftrightarrow> x = y"
  by (cases x; cases y) auto

text \<open>A well-formed endpoint that passes validation has a node, so none of the node operations
  panics on it.\<close>

lemma utf8_valid_head: "utf8_valid (b # r) \<Longrightarrow> \<not> utf8_cont b"
  by (auto simp: utf8_cont_def word_le_nat_alt word_less_nat_alt split: if_splits)

lemma validated_has_node:
  assumes "validate_Endpoint e" "endpoint_wf e"
  shows "\<exists>x. node_id e = Some x"
proof (cases e)
  case (DTN d)
  show ?thesis
  proof (cases "uri d = ''none''")
    case True
    then show ?thesis using DTN by (simp add: dtn_node_def as_bytes_def utf8_cont_def)
  next
    case False
    then have "take 2 (uri d) = ''//''"
      using assms DTN by (simp add: validate_DTNEndpoint_def starts_with_def numeral_2_eq_2 split: if_splits)
    then obtain r where r: "uri d = ''//'' @ r"
      using append_take_drop_id [of 2 "uri d"] by metis
    then have "utf8_valid (as_bytes r)"
      using assms(2) DTN by (simp add: rust_string_def as_bytes_def)
    then have "r \<noteq> [] \<Longrightarrow> \<not> utf8_cont (as_bytes r ! 0)"
      using utf8_valid_head by (cases r) (auto simp: as_bytes_def)
    then show ?thesis using DTN r by (auto simp: dtn_node_def as_bytes_def)
  qed
qed simp

end
