(* ===== verification/Primary_Block.thy ===== *)
theory Primary_Block
  imports Flags Crc Dtn_Time Endpoint
begin

text \<open>
  \<open>bp7/src/primaryblock.rs\<close>: the primary block of a bundle, its array of 8 to 11 elements, its
  validation and the two comparisons that decide which fragments belong together.
\<close>

section \<open>Data\<close>

record PrimaryBlock =
  version :: u64
  bundle_processing_flags :: BundleFlags
  crc :: CRCType
  destination_endpoint :: Endpoint
  source_node :: Endpoint
  report_to :: Endpoint
  creation_timestamp :: CreationTimestamp
  lifetime :: u64
  fragment_offset :: "u64 option"
  total_data_length :: "u64 option"

section \<open>Writing\<close>

text \<open>The length announced for the array.\<close>

definition PrimaryBlock_len :: "PrimaryBlock \<Rightarrow> nat" where
  "PrimaryBlock_len pb =
     (if crc pb = NoCRC \<and> fragment_offset pb = None then 8
      else if crc pb \<noteq> NoCRC \<and> fragment_offset pb = None then 9
      else if crc pb = NoCRC \<and> fragment_offset pb \<noteq> None then 10
      else 11)"

text \<open>The elements in the order they are written; \<open>total_data_length\<close> is unwrapped.\<close>

definition PrimaryBlock_elements :: "PrimaryBlock \<Rightarrow> (cbor list, 'e) result" where
  "PrimaryBlock_elements pb =
     (let fixed =
        [CUnsigned (version pb), serialize_BundleFlags (bundle_processing_flags pb),
         serialize_CRCType (crc pb), serialize_Endpoint (destination_endpoint pb),
         serialize_Endpoint (source_node pb), serialize_Endpoint (report_to pb),
         serialize_CreationTimestamp (creation_timestamp pb), CUnsigned (lifetime pb)]
      in and_then
        (case fragment_offset pb of
           None \<Rightarrow> Ok []
         | Some off \<Rightarrow> and_then (unwrap (total_data_length pb)) (\<lambda>len. Ok [CUnsigned off, CUnsigned len]))
        (\<lambda>fragment. Ok (fixed @ fragment @ serialize_crc_content (crc pb))))"

definition serialize_PrimaryBlock :: "PrimaryBlock \<Rightarrow> (cbor, 'e) result" where
  "serialize_PrimaryBlock pb = map_ok (CArray True) (PrimaryBlock_elements pb)"

section \<open>Reading\<close>

definition visit_PrimaryBlock :: "PrimaryBlock visit_seq" where
  "visit_PrimaryBlock size_hint seq =
     and_then (unwrap size_hint) (\<lambda>size.
     if \<not> (8 \<le> size \<and> size \<le> 11) then Err (InvalidLength size) else
     and_then (next_field ''version'' deserialize_u64 seq) (\<lambda>(ver, seq).
     and_then (next_field ''bundle_processing_flags'' deserialize_BundleFlags seq) (\<lambda>(fs, seq).
     and_then (next_field ''crc_type'' deserialize_CRCType seq) (\<lambda>(c, seq).
     and_then (next_field ''destination_endpoint'' deserialize_Endpoint seq) (\<lambda>(dst, seq).
     and_then (next_field ''source_node'' deserialize_Endpoint seq) (\<lambda>(src, seq).
     and_then (next_field ''report_to'' deserialize_Endpoint seq) (\<lambda>(rep, seq).
     and_then (next_field ''creation_timestamp'' deserialize_CreationTimestamp seq) (\<lambda>(ts, seq).
     and_then (next_field ''lifetime'' deserialize_u64 seq) (\<lambda>(life, seq).
     and_then
       (if size = 10 \<or> size = 11 then
          and_then (next_field ''fragment_offset'' deserialize_u64 seq) (\<lambda>(off, seq).
          and_then (next_field ''total_data_length'' deserialize_u64 seq) (\<lambda>(len, seq).
          Ok (Some off, Some len, seq)))
        else Ok (None, None, seq)) (\<lambda>(off, len, seq).
     and_then
       (if size = 9 \<or> size = 11 then deserialize_value c seq else Ok (c, seq)) (\<lambda>(c, seq).
     Ok (\<lparr>version = ver, bundle_processing_flags = fs, crc = c, destination_endpoint = dst,
          source_node = src, report_to = rep, creation_timestamp = ts, lifetime = life,
          fragment_offset = off, total_data_length = len\<rparr>, seq))))))))))))"

definition deserialize_PrimaryBlock :: "PrimaryBlock de" where
  "deserialize_PrimaryBlock = deserialize_seq visit_PrimaryBlock"

section \<open>Validation and comparison\<close>

definition validate_PrimaryBlock :: "PrimaryBlock \<Rightarrow> bool" where
  "validate_PrimaryBlock pb =
     (if version pb \<noteq> 7 then False
      else if (fragment_offset pb \<noteq> None) \<noteq> (total_data_length pb \<noteq> None) then False
      else if \<not> validate_Endpoint (source_node pb) then False
      else if \<not> validate_Endpoint (destination_endpoint pb) then False
      else if \<not> validate_Endpoint (report_to pb) then False
      else True)"

definition equals_ignoring_fragment_offset :: "PrimaryBlock \<Rightarrow> PrimaryBlock \<Rightarrow> bool" where
  "equals_ignoring_fragment_offset self other \<longleftrightarrow>
     self\<lparr>fragment_offset := None\<rparr> = other\<lparr>fragment_offset := None\<rparr>"

definition equals_ignoring_fragment_info :: "PrimaryBlock \<Rightarrow> PrimaryBlock \<Rightarrow> bool" where
  "equals_ignoring_fragment_info self other \<longleftrightarrow>
     self\<lparr>fragment_offset := None, total_data_length := None\<rparr>
     = other\<lparr>fragment_offset := None, total_data_length := None\<rparr>"

section \<open>Properties\<close>

text \<open>What the data type and the rest of the crate keep true: declared flag bits, well-formed
  endpoints, and fragment offset and total length present together.\<close>

definition primary_wf :: "PrimaryBlock \<Rightarrow> bool" where
  "primary_wf pb \<longleftrightarrow>
     known_bits BundleFlags_all (bundle_processing_flags pb)
     \<and> endpoint_wf (destination_endpoint pb) \<and> endpoint_wf (source_node pb) \<and> endpoint_wf (report_to pb)
     \<and> (fragment_offset pb = None \<longleftrightarrow> total_data_length pb = None)"

text \<open>The announced length is the number of elements written.\<close>

lemma length_PrimaryBlock_elements:
  "PrimaryBlock_elements pb = Ok xs \<Longrightarrow> length xs = PrimaryBlock_len pb"
  by (cases "crc pb"; cases "fragment_offset pb")
    (auto simp: PrimaryBlock_elements_def PrimaryBlock_len_def result_simps)

lemma serialize_PrimaryBlock_Panic:
  "serialize_PrimaryBlock pb = Panic \<longleftrightarrow> fragment_offset pb \<noteq> None \<and> total_data_length pb = None"
  by (cases "fragment_offset pb"; cases "total_data_length pb")
    (auto simp: serialize_PrimaryBlock_def PrimaryBlock_elements_def)

text \<open>The same array as a total function, for blocks that do not panic.\<close>

definition primary_cbor :: "PrimaryBlock \<Rightarrow> cbor" where
  "primary_cbor pb = CArray True
     ([CUnsigned (version pb), serialize_BundleFlags (bundle_processing_flags pb),
       serialize_CRCType (crc pb), serialize_Endpoint (destination_endpoint pb),
       serialize_Endpoint (source_node pb), serialize_Endpoint (report_to pb),
       serialize_CreationTimestamp (creation_timestamp pb), CUnsigned (lifetime pb)]
      @ (case fragment_offset pb of None \<Rightarrow> []
         | Some off \<Rightarrow> [CUnsigned off, CUnsigned (the (total_data_length pb))])
      @ serialize_crc_content (crc pb))"

lemma serialize_primary_cbor:
  "primary_wf pb \<Longrightarrow> serialize_PrimaryBlock pb = Ok (primary_cbor pb)"
  by (cases "fragment_offset pb"; cases "total_data_length pb")
    (auto simp: serialize_PrimaryBlock_def PrimaryBlock_elements_def primary_cbor_def primary_wf_def)

lemma serialize_crc_content_ok [simp]:
  "list_all cbor_ok (serialize_crc_content c)"
  "x \<in> set (serialize_crc_content c) \<Longrightarrow> cbor_depth x = 1"
  by (cases c rule: serialize_crc_content.cases; auto)+

lemma cbor_ok_serialize_crc_content [simp]:
  "x \<in> set (serialize_crc_content c) \<Longrightarrow> cbor_ok x"
  using serialize_crc_content_ok(1) by (auto simp: list_all_iff)

lemma length_serialize_crc_content [simp]: "length (serialize_crc_content c) \<le> 1"
  by (cases c rule: serialize_crc_content.cases) auto

text \<open>Without a checksum the block is read back as it was written.\<close>

lemma deserialize_primary_cbor:
  assumes wf: "primary_wf pb" and crc: "crc pb = NoCRC"
  shows "deserialize_PrimaryBlock (primary_cbor pb) = Ok pb"
  using wf crc
  by (cases "fragment_offset pb"; cases "total_data_length pb"; cases pb)
    (simp_all add: primary_cbor_def deserialize_PrimaryBlock_def visit_PrimaryBlock_def primary_wf_def
      bundle_flags.de_ser endpoint.de_ser creation_timestamp.de_ser deserialize_CRCType_def)

text \<open>With one, reading back always fails: the checksum is written as an array and read as bytes.\<close>

lemma deserialize_primary_cbor_crc:
  assumes wf: "primary_wf pb" and crc: "crc pb \<noteq> NoCRC"
  shows "deserialize_PrimaryBlock (primary_cbor pb) = Err InvalidType"
proof -
  have len: "length (serialize_crc_content (crc pb)) = 1"
    using crc by (cases "crc pb") auto
  show ?thesis
    using wf crc len deserialize_serialize_crc_content [OF crc, of "[]"]
    by (cases "fragment_offset pb"; cases "total_data_length pb")
      (simp_all add: primary_cbor_def deserialize_PrimaryBlock_def visit_PrimaryBlock_def primary_wf_def
        bundle_flags.de_ser endpoint.de_ser creation_timestamp.de_ser)
qed

text \<open>Neither an array of unknown length nor one that announces a checksum without naming its kind
  is an error: both panic.\<close>

lemma deserialize_PrimaryBlock_indefinite: "deserialize_PrimaryBlock (CArray False vs) = Panic"
  by (simp add: deserialize_PrimaryBlock_def visit_PrimaryBlock_def)

definition primary_serializable :: "PrimaryBlock \<Rightarrow> bool" where
  "primary_serializable pb \<longleftrightarrow> primary_wf pb \<and> crc pb = NoCRC"

interpretation primary: serde_type primary_cbor deserialize_PrimaryBlock primary_serializable 3
proof unfold_locales
  fix pb assume wf: "primary_serializable pb"
  then show "deserialize_PrimaryBlock (primary_cbor pb) = Ok pb"
    by (simp add: primary_serializable_def deserialize_primary_cbor)
  have e: "endpoint_wf (destination_endpoint pb)" "endpoint_wf (source_node pb)" "endpoint_wf (report_to pb)"
    and k: "known_bits BundleFlags_all (bundle_processing_flags pb)" and c: "crc pb = NoCRC"
    using wf by (simp_all add: primary_serializable_def primary_wf_def)
  show "cbor_ok (primary_cbor pb)"
    using e [THEN endpoint.ser_ok] bundle_flags.ser_ok [OF k] creation_timestamp.ser_ok c
    by (simp add: primary_cbor_def split: option.split)
  show "cbor_depth (primary_cbor pb) \<le> 3"
    using e [THEN endpoint.ser_depth] bundle_flags.ser_depth [OF k]
      creation_timestamp.ser_depth [of "creation_timestamp pb"] c
    by (simp add: primary_cbor_def split: option.split)
qed simp

lemma equals_ignoring_fragment_offset_iff:
  "equals_ignoring_fragment_offset a b \<longleftrightarrow> b = a\<lparr>fragment_offset := fragment_offset b\<rparr>"
  by (cases a; cases b) (auto simp: equals_ignoring_fragment_offset_def)

lemma equals_ignoring_fragment_offset_refl [simp]: "equals_ignoring_fragment_offset a a"
  by (simp add: equals_ignoring_fragment_offset_def)

end
