(* ===== verification/Block.thy ===== *)
theory Block
  imports Primary_Block
begin

text \<open>
  \<open>bp7/src/block/\<close>: the canonical blocks of a bundle. The content of a block is a byte string; for
  the block types the crate knows it is itself CBOR, so writing and reading take the codec
  (\<open>serde_cbor\<close>) as the parameters \<open>enc\<close> and \<open>dec\<close>.
\<close>

section \<open>Block contents\<close>

record HopCountBlock =
  limit :: u8
  hop_count :: u8

record BundleAgeBlock =
  age :: u64

record PreviousNodeBlock =
  previous_node :: Endpoint

record PayloadBlock =
  data :: bytes

record UnkownBlock =
  unkown_type :: u64
  unkown_data :: bytes

text \<open>\<open>hop_count_block.rs\<close>\<close>

definition serialize_HopCountBlock :: "(cbor \<Rightarrow> bytes) \<Rightarrow> HopCountBlock \<Rightarrow> cbor" where
  "serialize_HopCountBlock enc b =
     CBytes (enc (CArray True [CUnsigned (ucast (limit b)), CUnsigned (ucast (hop_count b))]))"

definition visit_HopCountBlock :: "HopCountBlock visit_seq" where
  "visit_HopCountBlock size_hint seq =
     and_then (ok_or size_hint (Custom ''Hop Count Block must know the length of its contents'')) (\<lambda>size.
     if size \<noteq> 2 then Err (InvalidLength size) else
     and_then (next_field ''limit'' deserialize_u8 seq) (\<lambda>(l, seq).
     and_then (next_field ''count'' deserialize_u8 seq) (\<lambda>(c, seq).
     Ok (\<lparr>limit = l, hop_count = c\<rparr>, seq))))"

definition deserialize_HopCountBlock :: "HopCountBlock de" where
  "deserialize_HopCountBlock = deserialize_seq visit_HopCountBlock"

definition HopCountBlock_try_from :: "(bytes \<Rightarrow> cbor option) \<Rightarrow> bytes \<Rightarrow> (HopCountBlock, de_error) result" where
  "HopCountBlock_try_from dec value = from_slice_with dec deserialize_HopCountBlock value"

definition validate_HopCountBlock :: "HopCountBlock \<Rightarrow> bool" where
  "validate_HopCountBlock b = True"

text \<open>\<open>bundle_age_block.rs\<close>\<close>

definition serialize_BundleAgeBlock :: "(cbor \<Rightarrow> bytes) \<Rightarrow> BundleAgeBlock \<Rightarrow> cbor" where
  "serialize_BundleAgeBlock enc b = CBytes (enc (CUnsigned (age b)))"

definition deserialize_BundleAgeBlock :: "BundleAgeBlock de" where
  "deserialize_BundleAgeBlock v = map_ok (\<lambda>a. \<lparr>age = a\<rparr>) (deserialize_u64 v)"

definition BundleAgeBlock_try_from :: "(bytes \<Rightarrow> cbor option) \<Rightarrow> bytes \<Rightarrow> (BundleAgeBlock, de_error) result" where
  "BundleAgeBlock_try_from dec value = from_slice_with dec deserialize_BundleAgeBlock value"

definition validate_BundleAgeBlock :: "BundleAgeBlock \<Rightarrow> bool" where
  "validate_BundleAgeBlock b = True"

text \<open>\<open>previous_node_block.rs\<close>\<close>

definition serialize_PreviousNodeBlock :: "(cbor \<Rightarrow> bytes) \<Rightarrow> PreviousNodeBlock \<Rightarrow> cbor" where
  "serialize_PreviousNodeBlock enc b = CBytes (enc (serialize_Endpoint (previous_node b)))"

definition deserialize_PreviousNodeBlock :: "PreviousNodeBlock de" where
  "deserialize_PreviousNodeBlock v = map_ok (\<lambda>e. \<lparr>previous_node = e\<rparr>) (deserialize_Endpoint v)"

definition PreviousNodeBlock_try_from ::
  "(bytes \<Rightarrow> cbor option) \<Rightarrow> bytes \<Rightarrow> (PreviousNodeBlock, de_error) result" where
  "PreviousNodeBlock_try_from dec value = from_slice_with dec deserialize_PreviousNodeBlock value"

definition validate_PreviousNodeBlock :: "PreviousNodeBlock \<Rightarrow> bool" where
  "validate_PreviousNodeBlock b = True"

text \<open>\<open>payload_block.rs\<close> and \<open>unkown_block.rs\<close>\<close>

definition serialize_PayloadBlock :: "PayloadBlock \<Rightarrow> cbor" where
  "serialize_PayloadBlock b = CBytes (data b)"

definition validate_PayloadBlock :: "PayloadBlock \<Rightarrow> bool" where
  "validate_PayloadBlock b = True"

definition serialize_UnkownBlock :: "UnkownBlock \<Rightarrow> cbor" where
  "serialize_UnkownBlock b = CBytes (unkown_data b)"

definition validate_UnkownBlock :: "UnkownBlock \<Rightarrow> bool" where
  "validate_UnkownBlock b = True"

section \<open>Canonical blocks\<close>

datatype BlockType = BT_Payload | BT_PreviousNode | BT_BundleAge | BT_HopCount

primrec BlockType_into :: "BlockType \<Rightarrow> u64" where
  "BlockType_into BT_Payload = 1"
| "BlockType_into BT_PreviousNode = 6"
| "BlockType_into BT_BundleAge = 7"
| "BlockType_into BT_HopCount = 10"

definition BlockType_try_from :: "u64 \<Rightarrow> BlockType option" where
  "BlockType_try_from n =
     (if n = 1 then Some BT_Payload
      else if n = 6 then Some BT_PreviousNode
      else if n = 7 then Some BT_BundleAge
      else if n = 10 then Some BT_HopCount
      else None)"

datatype Block =
    Payload PayloadBlock
  | PreviousNode PreviousNodeBlock
  | BundleAge BundleAgeBlock
  | HopCount HopCountBlock
  | Unkown UnkownBlock

text \<open>\<open>Clone for Block\<close>: a payload must not be cloned.\<close>

fun Block_clone :: "Block \<Rightarrow> (Block, 'e) result" where
  "Block_clone (Payload _) = Panic"
| "Block_clone (PreviousNode b) = Ok (PreviousNode b)"
| "Block_clone (BundleAge b) = Ok (BundleAge b)"
| "Block_clone (HopCount b) = Ok (HopCount b)"
| "Block_clone (Unkown b) = Ok (Unkown b)"

record CanonicalBlock =
  block :: Block
  block_number :: u64
  block_flags :: BlockFlags
  block_crc :: CRCType

definition CanonicalBlock_clone :: "CanonicalBlock \<Rightarrow> (CanonicalBlock, 'e) result" where
  "CanonicalBlock_clone b = map_ok (\<lambda>c. b\<lparr>block := c\<rparr>) (Block_clone (block b))"

fun Block_type_number :: "Block \<Rightarrow> u64" where
  "Block_type_number (Payload _) = BlockType_into BT_Payload"
| "Block_type_number (PreviousNode _) = BlockType_into BT_PreviousNode"
| "Block_type_number (BundleAge _) = BlockType_into BT_BundleAge"
| "Block_type_number (HopCount _) = BlockType_into BT_HopCount"
| "Block_type_number (Unkown b) = unkown_type b"

fun serialize_Block :: "(cbor \<Rightarrow> bytes) \<Rightarrow> Block \<Rightarrow> cbor" where
  "serialize_Block enc (Payload b) = serialize_PayloadBlock b"
| "serialize_Block enc (PreviousNode b) = serialize_PreviousNodeBlock enc b"
| "serialize_Block enc (BundleAge b) = serialize_BundleAgeBlock enc b"
| "serialize_Block enc (HopCount b) = serialize_HopCountBlock enc b"
| "serialize_Block enc (Unkown b) = serialize_UnkownBlock b"

definition CanonicalBlock_len :: "CanonicalBlock \<Rightarrow> nat" where
  "CanonicalBlock_len b = (if block_crc b = NoCRC then 5 else 6)"

definition serialize_CanonicalBlock :: "(cbor \<Rightarrow> bytes) \<Rightarrow> CanonicalBlock \<Rightarrow> cbor" where
  "serialize_CanonicalBlock enc b = CArray True
     ([CUnsigned (Block_type_number (block b)), CUnsigned (block_number b),
       serialize_BlockFlags (block_flags b), serialize_CRCType (block_crc b),
       serialize_Block enc (block b)]
      @ serialize_crc_content (block_crc b))"

text \<open>The content of a block by its type. The text of an inner error is not kept.\<close>

definition deserialize_Block :: "(bytes \<Rightarrow> cbor option) \<Rightarrow> u64 \<Rightarrow> bytes \<Rightarrow> (Block, de_error) result" where
  "deserialize_Block dec block_type_num data_bytes =
     (case BlockType_try_from block_type_num of
        Some BT_Payload \<Rightarrow> Ok (Payload \<lparr>data = data_bytes\<rparr>)
      | Some BT_PreviousNode \<Rightarrow>
          map_ok PreviousNode (map_err (\<lambda>_. Custom ''data'') (PreviousNodeBlock_try_from dec data_bytes))
      | Some BT_BundleAge \<Rightarrow>
          map_ok BundleAge (map_err (\<lambda>_. Custom ''data'') (BundleAgeBlock_try_from dec data_bytes))
      | Some BT_HopCount \<Rightarrow>
          map_ok HopCount (map_err (\<lambda>_. Custom ''data'') (HopCountBlock_try_from dec data_bytes))
      | None \<Rightarrow> Ok (Unkown \<lparr>unkown_type = block_type_num, unkown_data = data_bytes\<rparr>))"

definition visit_CanonicalBlock :: "(bytes \<Rightarrow> cbor option) \<Rightarrow> CanonicalBlock visit_seq" where
  "visit_CanonicalBlock dec size_hint seq =
     and_then (ok_or size_hint (Custom ''Canonical Block must know the length of its contents'')) (\<lambda>size.
     if \<not> (5 \<le> size \<and> size \<le> 6) then Err (InvalidLength size) else
     and_then (next_field ''block_type'' deserialize_u64 seq) (\<lambda>(ty, seq).
     and_then (next_field ''block_number'' deserialize_u64 seq) (\<lambda>(num, seq).
     and_then (next_field ''block_flags'' deserialize_BlockFlags seq) (\<lambda>(fs, seq).
     and_then (next_field ''crc_type'' deserialize_CRCType seq) (\<lambda>(c, seq).
     and_then (next_field ''data'' deserialize_byte_slice seq) (\<lambda>(bs, seq).
     and_then (deserialize_Block dec ty bs) (\<lambda>bl.
     and_then (if size = 6 then deserialize_value c seq else Ok (c, seq)) (\<lambda>(c, seq).
     Ok (\<lparr>block = bl, block_number = num, block_flags = fs, block_crc = c\<rparr>, seq)))))))))"

definition deserialize_CanonicalBlock :: "(bytes \<Rightarrow> cbor option) \<Rightarrow> CanonicalBlock de" where
  "deserialize_CanonicalBlock dec = deserialize_seq (visit_CanonicalBlock dec)"

definition validate_CanonicalBlock :: "CanonicalBlock \<Rightarrow> bool" where
  "validate_CanonicalBlock b = True"

section \<open>Properties\<close>

interpretation bundle_age: serde_type "\<lambda>b. CUnsigned (age b)" deserialize_BundleAgeBlock "\<lambda>_. True" 0
  by unfold_locales (simp_all add: deserialize_BundleAgeBlock_def)

interpretation hop_count: serde_type
  "\<lambda>b. CArray True [CUnsigned (ucast (limit b)), CUnsigned (ucast (hop_count b))]"
  deserialize_HopCountBlock "\<lambda>_. True" 1
  by unfold_locales (simp_all add: deserialize_HopCountBlock_def visit_HopCountBlock_def)

interpretation previous_node: serde_type
  "\<lambda>b. serialize_Endpoint (previous_node b)" deserialize_PreviousNodeBlock
  "\<lambda>b. endpoint_wf (previous_node b)" 2
  by unfold_locales
    (simp_all add: deserialize_PreviousNodeBlock_def endpoint.de_ser endpoint.ser_ok endpoint.ser_depth)

lemma BlockType_try_from_simps [simp]:
  "BlockType_try_from 1 = Some BT_Payload" "BlockType_try_from 6 = Some BT_PreviousNode"
  "BlockType_try_from 7 = Some BT_BundleAge" "BlockType_try_from 10 = Some BT_HopCount"
  by (simp_all add: BlockType_try_from_def)

lemma BlockType_try_from_into: "BlockType_try_from (BlockType_into t) = Some t"
  by (cases t) simp_all

lemma BlockType_try_from_SomeD: "BlockType_try_from n = Some t \<Longrightarrow> n = BlockType_into t"
  by (auto simp: BlockType_try_from_def split: if_splits)

text \<open>The bytes a block carries, and the blocks that are read back: an unknown block does not use a
  number of a known type, and the content fits the length field.\<close>

definition block_bytes :: "(cbor \<Rightarrow> bytes) \<Rightarrow> Block \<Rightarrow> bytes" where
  "block_bytes enc b = (case serialize_Block enc b of CBytes bs \<Rightarrow> bs | _ \<Rightarrow> [])"

lemma serialize_Block_bytes: "serialize_Block enc b = CBytes (block_bytes enc b)"
  by (cases b) (simp_all add: block_bytes_def serialize_PayloadBlock_def serialize_PreviousNodeBlock_def
      serialize_BundleAgeBlock_def serialize_HopCountBlock_def serialize_UnkownBlock_def)

fun block_content_wf :: "Block \<Rightarrow> bool" where
  "block_content_wf (PreviousNode b) = endpoint_wf (previous_node b)"
| "block_content_wf (Unkown b) = (BlockType_try_from (unkown_type b) = None)"
| "block_content_wf _ = True"

definition block_wf :: "(cbor \<Rightarrow> bytes) \<Rightarrow> CanonicalBlock \<Rightarrow> bool" where
  "block_wf enc b \<longleftrightarrow>
     block_content_wf (block b) \<and> length (block_bytes enc (block b)) < 2 ^ 64
     \<and> known_bits BlockFlags_all (block_flags b) \<and> block_crc b = NoCRC"

lemma deserialize_Block_serialize:
  assumes "serde_cbor enc dec" and "block_content_wf b"
  shows "deserialize_Block dec (Block_type_number b) (block_bytes enc b) = Ok b"
  using assms(2)
  by (cases b)
    (simp_all add: deserialize_Block_def block_bytes_def serialize_PayloadBlock_def
      serialize_PreviousNodeBlock_def serialize_BundleAgeBlock_def serialize_HopCountBlock_def
      serialize_UnkownBlock_def HopCountBlock_try_from_def BundleAgeBlock_try_from_def
      PreviousNodeBlock_try_from_def bundle_age.bytes_roundtrip [OF assms(1)]
      hop_count.bytes_roundtrip [OF assms(1)] previous_node.bytes_roundtrip [OF assms(1)])

lemma canonical_block_serde:
  assumes "serde_cbor enc dec"
  shows "serde_type (serialize_CanonicalBlock enc) (deserialize_CanonicalBlock dec) (block_wf enc) 1"
proof unfold_locales
  fix b assume wf: "block_wf enc b"
  then show "deserialize_CanonicalBlock dec (serialize_CanonicalBlock enc b) = Ok b"
    by (cases b) (simp add: block_wf_def serialize_CanonicalBlock_def deserialize_CanonicalBlock_def
        visit_CanonicalBlock_def block_flags.de_ser deserialize_CRCType_def serialize_Block_bytes
        deserialize_Block_serialize [OF assms])
  show "cbor_ok (serialize_CanonicalBlock enc b)" "cbor_depth (serialize_CanonicalBlock enc b) \<le> 1"
    using wf by (simp_all add: block_wf_def serialize_CanonicalBlock_def serialize_Block_bytes
        serialize_BlockFlags_def)
qed simp

lemma length_serialize_CanonicalBlock:
  "serialize_CanonicalBlock enc b = CArray True xs \<Longrightarrow> length xs = CanonicalBlock_len b"
  by (cases "block_crc b") (auto simp: serialize_CanonicalBlock_def CanonicalBlock_len_def)

text \<open>A block with a checksum is written but never read back.\<close>

lemma deserialize_CanonicalBlock_crc:
  assumes codec: "serde_cbor enc dec" and wf: "block_content_wf (block b)"
    "known_bits BlockFlags_all (block_flags b)" and crc: "block_crc b \<noteq> NoCRC"
  shows "deserialize_CanonicalBlock dec (serialize_CanonicalBlock enc b) = Err InvalidType"
proof -
  have len: "length (serialize_crc_content (block_crc b)) = 1"
    using crc by (cases "block_crc b") auto
  show ?thesis
    using wf deserialize_serialize_crc_content [OF crc, of "[]"]
    by (simp add: serialize_CanonicalBlock_def deserialize_CanonicalBlock_def len
        visit_CanonicalBlock_def block_flags.de_ser serialize_Block_bytes
        deserialize_Block_serialize [OF codec])
qed

end
