(* ===== verification/Bundle.thy ===== *)
theory Bundle
  imports Block
begin

text \<open>
  \<open>bp7/src/bundle.rs\<close> without fragmentation: the bundle as an indefinite array of a primary block and
  canonical blocks, its bytes, and the two operations that a node applies before it forwards a
  bundle (previous node and hop count). The error types of \<open>bp7/src/lib.rs\<close> are here too.
\<close>

section \<open>Data\<close>

datatype SerializationError = SerializationError de_error | ConversionError

datatype FragmentationError =
    FragSerializationError SerializationError
  | CanNotFragmentThatSmall u64
  | MustNotFragment
  | BundleInvalid

record Bundle =
  primary_block :: PrimaryBlock
  blocks :: "CanonicalBlock list"

section \<open>Bytes\<close>

definition serialize_Bundle :: "(cbor \<Rightarrow> bytes) \<Rightarrow> Bundle \<Rightarrow> (cbor, 'e) result" where
  "serialize_Bundle enc b =
     and_then (serialize_PrimaryBlock (primary_block b)) (\<lambda>primary.
     Ok (CArray False (primary # map (serialize_CanonicalBlock enc) (blocks b))))"

text \<open>\<open>while let Some(block) = seq.next_element()?\<close>: the elements until the sequence ends.\<close>

fun read_blocks :: "(bytes \<Rightarrow> cbor option) \<Rightarrow> cbor list \<Rightarrow> (CanonicalBlock list, de_error) result" where
  "read_blocks dec [] = Ok []"
| "read_blocks dec (v # vs) =
     and_then (deserialize_CanonicalBlock dec v) (\<lambda>b.
     and_then (read_blocks dec vs) (\<lambda>bs. Ok (b # bs)))"

definition visit_Bundle :: "(bytes \<Rightarrow> cbor option) \<Rightarrow> Bundle visit_seq" where
  "visit_Bundle dec size_hint seq =
     and_then (next_field ''primary_block'' deserialize_PrimaryBlock seq) (\<lambda>(primary, seq).
     and_then (read_blocks dec seq) (\<lambda>bs.
     if bs = [] then Err (InvalidLength 0)
     else Ok (\<lparr>primary_block = primary, blocks = bs\<rparr>, [])))"

definition deserialize_Bundle :: "(bytes \<Rightarrow> cbor option) \<Rightarrow> Bundle de" where
  "deserialize_Bundle dec = deserialize_seq (visit_Bundle dec)"

definition validate_Bundle :: "Bundle \<Rightarrow> bool" where
  "validate_Bundle b =
     (if \<not> validate_PrimaryBlock (primary_block b) then False
      else list_all validate_CanonicalBlock (blocks b))"

definition Bundle_try_from :: "(bytes \<Rightarrow> cbor option) \<Rightarrow> bytes \<Rightarrow> (Bundle, SerializationError) result" where
  "Bundle_try_from dec value =
     map_err SerializationError (from_slice_with dec (deserialize_Bundle dec) value)"

definition Bundle_to_vec :: "(cbor \<Rightarrow> bytes) \<Rightarrow> Bundle \<Rightarrow> (bytes, 'e) result" where
  "Bundle_to_vec enc b = map_ok enc (serialize_Bundle enc b)"

text \<open>\<open>{:02X?}\<close>: two upper-case hexadecimal digits.\<close>

definition hex_digits :: string where
  "hex_digits = ''0123456789ABCDEF''"

definition hex_byte :: "u8 \<Rightarrow> string" where
  "hex_byte b = [hex_digits ! (unat b div 16), hex_digits ! (unat b mod 16)]"

definition as_hex :: "(cbor \<Rightarrow> bytes) \<Rightarrow> Bundle \<Rightarrow> (string, SerializationError) result" where
  "as_hex enc b = map_ok (\<lambda>vec. concat (map hex_byte vec)) (Bundle_to_vec enc b)"

section \<open>Blocks\<close>

definition next_block_number :: "Bundle \<Rightarrow> u64" where
  "next_block_number b = fold max (map block_number (blocks b)) 0 + 1"

fun is_payload :: "Block \<Rightarrow> bool" where
  "is_payload (Payload _) = True"
| "is_payload _ = False"

definition payload_canonical_block :: "Bundle \<Rightarrow> (CanonicalBlock, 'e) result" where
  "payload_canonical_block b = unwrap (find (\<lambda>c. is_payload (block c)) (blocks b))"

definition payload_block :: "Bundle \<Rightarrow> (PayloadBlock, 'e) result" where
  "payload_block b = and_then (payload_canonical_block b) (\<lambda>c.
     case block c of Payload p \<Rightarrow> Ok p | _ \<Rightarrow> Panic)"

text \<open>The loop over \<open>&mut self.blocks\<close>: the first matching block is changed; \<open>None\<close> if there is none.\<close>

fun update_previous_node :: "Endpoint \<Rightarrow> CanonicalBlock list \<Rightarrow> CanonicalBlock list option" where
  "update_previous_node e [] = None"
| "update_previous_node e (c # cs) =
     (case block c of
        PreviousNode v \<Rightarrow> Some (c\<lparr>block := PreviousNode (v\<lparr>previous_node := e\<rparr>)\<rparr> # cs)
      | _ \<Rightarrow> map_option (Cons c) (update_previous_node e cs))"

definition set_previous_node :: "Endpoint \<Rightarrow> Bundle \<Rightarrow> Bundle" where
  "set_previous_node e b =
     (case update_previous_node e (blocks b) of
        Some bs \<Rightarrow> b\<lparr>blocks := bs\<rparr>
      | None \<Rightarrow> b\<lparr>blocks := blocks b @
          [\<lparr>block = PreviousNode \<lparr>previous_node = e\<rparr>, block_number = next_block_number b,
            block_flags = 0, block_crc = NoCRC\<rparr>]\<rparr>)"

fun update_hop_count :: "CanonicalBlock list \<Rightarrow> (CanonicalBlock list \<times> bool) option" where
  "update_hop_count [] = None"
| "update_hop_count (c # cs) =
     (case block c of
        HopCount v \<Rightarrow>
          (let v' = v\<lparr>hop_count := hop_count v + 1\<rparr>
           in Some (c\<lparr>block := HopCount v'\<rparr> # cs, hop_count v' \<le> limit v'))
      | _ \<Rightarrow> map_option (\<lambda>(bs, ok). (c # bs, ok)) (update_hop_count cs))"

definition inc_hop_count :: "u8 \<Rightarrow> Bundle \<Rightarrow> Bundle \<times> bool" where
  "inc_hop_count hop_limit b =
     (case update_hop_count (blocks b) of
        Some (bs, ok) \<Rightarrow> (b\<lparr>blocks := bs\<rparr>, ok)
      | None \<Rightarrow> (b\<lparr>blocks := blocks b @
          [\<lparr>block = HopCount \<lparr>limit = hop_limit, hop_count = 0\<rparr>, block_number = next_block_number b,
            block_flags = 0, block_crc = NoCRC\<rparr>]\<rparr>, True))"

section \<open>Properties\<close>

subsection \<open>Round trip\<close>

definition bundle_wf :: "(cbor \<Rightarrow> bytes) \<Rightarrow> Bundle \<Rightarrow> bool" where
  "bundle_wf enc b \<longleftrightarrow>
     primary_serializable (primary_block b) \<and> blocks b \<noteq> [] \<and> Suc (length (blocks b)) < 2 ^ 64
     \<and> list_all (block_wf enc) (blocks b)"

definition bundle_cbor :: "(cbor \<Rightarrow> bytes) \<Rightarrow> Bundle \<Rightarrow> cbor" where
  "bundle_cbor enc b =
     CArray False (primary_cbor (primary_block b) # map (serialize_CanonicalBlock enc) (blocks b))"

lemma serialize_bundle_cbor:
  "primary_wf (primary_block b) \<Longrightarrow> serialize_Bundle enc b = Ok (bundle_cbor enc b)"
  by (simp add: serialize_Bundle_def bundle_cbor_def serialize_primary_cbor)

lemma Bundle_to_vec_Ok:
  "primary_wf (primary_block b) \<Longrightarrow> Bundle_to_vec enc b = Ok (enc (bundle_cbor enc b))"
  by (simp add: Bundle_to_vec_def serialize_bundle_cbor)

lemma Bundle_to_vec_not_Err [simp]: "Bundle_to_vec enc b \<noteq> Err e"
  by (cases "fragment_offset (primary_block b)"; cases "total_data_length (primary_block b)")
    (simp_all add: Bundle_to_vec_def serialize_Bundle_def serialize_PrimaryBlock_def
      PrimaryBlock_elements_def)

lemma read_blocks_serialize:
  assumes "serde_cbor enc dec"
  shows "list_all (block_wf enc) bs \<Longrightarrow> read_blocks dec (map (serialize_CanonicalBlock enc) bs) = Ok bs"
  by (induction bs) (simp_all add: serde_type.de_ser [OF canonical_block_serde [OF assms]])

lemma bundle_serde:
  assumes codec: "serde_cbor enc dec"
  shows "serde_type (bundle_cbor enc) (deserialize_Bundle dec) (bundle_wf enc) 4"
proof unfold_locales
  fix b assume wf: "bundle_wf enc b"
  then show "deserialize_Bundle dec (bundle_cbor enc b) = Ok b"
    by (simp add: bundle_wf_def bundle_cbor_def deserialize_Bundle_def visit_Bundle_def
        primary.de_ser read_blocks_serialize [OF codec])
  have blk: "cbor_ok (serialize_CanonicalBlock enc c) \<and> cbor_depth (serialize_CanonicalBlock enc c) \<le> 1"
    if "c \<in> set (blocks b)" for c
  proof -
    have "block_wf enc c" using wf that by (simp add: bundle_wf_def list_all_iff)
    then show ?thesis
      using serde_type.ser_ok [OF canonical_block_serde [OF codec]]
        serde_type.ser_depth [OF canonical_block_serde [OF codec]] by blast
  qed
  have prim: "primary_serializable (primary_block b)"
    using wf by (simp add: bundle_wf_def)
  show "cbor_ok (bundle_cbor enc b)"
    using blk primary.ser_ok [OF prim] wf by (auto simp: bundle_cbor_def bundle_wf_def list_all_iff)
  show "cbor_depth (bundle_cbor enc b) \<le> 4"
    using blk primary.ser_depth [OF prim]
    by (force simp: bundle_cbor_def intro!: foldr_max_le)
qed simp

lemma Bundle_roundtrip:
  assumes "serde_cbor enc dec" and "bundle_wf enc b"
  shows "and_then (Bundle_to_vec enc b) (Bundle_try_from dec) = Ok b"
  using assms serde_type.bytes_roundtrip [OF bundle_serde [OF assms(1)] assms]
  by (simp add: Bundle_to_vec_Ok bundle_wf_def primary_serializable_def Bundle_try_from_def)

text \<open>Two bundles with the same bytes are the same bundle.\<close>

lemma Bundle_to_vec_inject:
  assumes "serde_cbor enc dec" and "bundle_wf enc a" and "bundle_wf enc b"
    and "Bundle_to_vec enc a = (Bundle_to_vec enc b :: (bytes, SerializationError) result)"
  shows "a = b"
  using Bundle_roundtrip [OF assms(1,2)] Bundle_roundtrip [OF assms(1,3)] assms(4)
  by (metis result.inject(1))

subsection \<open>Hexadecimal output\<close>

lemma length_hex: "length (concat (map hex_byte bs)) = 2 * length bs"
  by (induction bs) (simp_all add: hex_byte_def)

lemma hex_digits_inject:
  assumes "i < 16" "j < 16"
  shows "hex_digits ! i = hex_digits ! j \<longleftrightarrow> i = j"
proof -
  have "distinct hex_digits" "length hex_digits = 16"
    by (simp_all add: hex_digits_def)
  then show ?thesis
    using assms by (simp add: nth_eq_iff_index_eq)
qed

lemma hex_byte_inject: "hex_byte a = hex_byte b \<longleftrightarrow> a = b"
proof -
  have lt: "unat x div 16 < 16" "unat x mod 16 < 16" for x :: u8
    using unat_u8_less [of x] by (simp_all add: div_less_iff_less_mult)
  have "hex_byte a = hex_byte b \<longleftrightarrow> unat a div 16 = unat b div 16 \<and> unat a mod 16 = unat b mod 16"
    by (simp add: hex_byte_def hex_digits_inject lt)
  also have "\<dots> \<longleftrightarrow> unat a = unat b"
    by (metis div_mult_mod_eq)
  finally show ?thesis
    by (simp add: word_unat_eq_iff)
qed

lemma hex_inject: "concat (map hex_byte as) = concat (map hex_byte bs) \<longleftrightarrow> as = bs"
proof (induction as arbitrary: bs)
  case Nil
  then show ?case by (cases bs) (simp_all add: hex_byte_def)
next
  case (Cons a as)
  show ?case
  proof (cases bs)
    case (Cons b bs')
    have "length (hex_byte a) = length (hex_byte b)"
      by (simp add: hex_byte_def)
    then show ?thesis
      using Cons Cons.IH by (simp add: hex_byte_inject)
  qed (simp add: hex_byte_def)
qed

subsection \<open>Block numbers\<close>

lemma fold_max_ge_init: "(a :: u64) \<le> fold max xs a"
proof (induction xs arbitrary: a)
  case (Cons x xs)
  show ?case using Cons.IH [of "max x a"] by simp
qed simp

lemma fold_max_ge: "x \<in> set xs \<Longrightarrow> (x :: u64) \<le> fold max xs a"
proof (induction xs arbitrary: a)
  case (Cons y ys)
  then show ?case using fold_max_ge_init [of "max y a" ys] by auto
qed simp

lemma fold_max_mem: "fold max xs (a :: u64) \<in> insert a (set xs)"
  by (induction xs arbitrary: a) (auto simp: max_def split: if_splits)

text \<open>Unless the highest number is in use already, the next number is new and not zero.\<close>

lemma next_block_number_fresh:
  assumes "\<And>c. c \<in> set (blocks b) \<Longrightarrow> block_number c \<noteq> - 1"
  shows "next_block_number b \<notin> block_number ` set (blocks b)" "next_block_number b \<noteq> 0"
proof -
  let ?m = "fold max (map block_number (blocks b)) 0"
  have "?m \<noteq> - 1"
    using fold_max_mem [of "map block_number (blocks b)" 0] assms by force
  then have less: "?m < ?m + 1"
    by (simp add: word_less_nat_alt unat_plus_1)
  have "block_number c \<noteq> ?m + 1" if "c \<in> set (blocks b)" for c
    using fold_max_ge [of "block_number c" "map block_number (blocks b)" 0] that less
    by (metis image_eqI leD list.set_map)
  then show "next_block_number b \<notin> block_number ` set (blocks b)"
    unfolding next_block_number_def by (metis imageE)
  show "next_block_number b \<noteq> 0"
    using less unfolding next_block_number_def by (metis word_not_simps(1))
qed

subsection \<open>Previous node\<close>

fun is_previous_node :: "Block \<Rightarrow> bool" where
  "is_previous_node (PreviousNode _) = True"
| "is_previous_node _ = False"

text \<open>The abstract view of a bundle's previous node: that of the first such block.\<close>

definition previous_node_of :: "Bundle \<Rightarrow> Endpoint option" where
  "previous_node_of b =
     (case find (\<lambda>c. is_previous_node (block c)) (blocks b) of
        Some c \<Rightarrow> (case block c of PreviousNode v \<Rightarrow> Some (previous_node v) | _ \<Rightarrow> None)
      | None \<Rightarrow> None)"

lemma update_previous_node_None:
  "update_previous_node e cs = None \<longleftrightarrow> list_all (\<lambda>c. \<not> is_previous_node (block c)) cs"
  by (induction cs) (auto split: Block.split)

lemma update_previous_node_SomeD:
  "update_previous_node e cs = Some ds \<Longrightarrow>
   \<exists>pre c v post. cs = pre @ c # post \<and> block c = PreviousNode v
     \<and> list_all (\<lambda>c. \<not> is_previous_node (block c)) pre
     \<and> ds = pre @ c\<lparr>block := PreviousNode (v\<lparr>previous_node := e\<rparr>)\<rparr> # post"
proof (induction cs arbitrary: ds)
  case (Cons c cs)
  show ?case
  proof (cases "is_previous_node (block c)")
    case True
    then obtain v where "block c = PreviousNode v" by (cases "block c") auto
    then show ?thesis using Cons.prems by (intro exI [of _ "[]"]) auto
  next
    case False
    then obtain es where es: "update_previous_node e cs = Some es" "ds = c # es"
      using Cons.prems by (cases "block c") auto
    from Cons.IH [OF es(1)] obtain pre d v post where
      "cs = pre @ d # post" "block d = PreviousNode v"
      "list_all (\<lambda>c. \<not> is_previous_node (block c)) pre"
      "es = pre @ d\<lparr>block := PreviousNode (v\<lparr>previous_node := e\<rparr>)\<rparr> # post" by blast
    then show ?thesis
      using False es(2) by (intro exI [of _ "c # pre"]) auto
  qed
qed simp

lemma find_append_None [simp]:
  "list_all (\<lambda>x. \<not> P x) xs \<Longrightarrow> find P (xs @ ys) = find P ys"
  by (induction xs) auto

lemma find_list_all_None [simp]: "list_all (\<lambda>x. \<not> P x) xs \<Longrightarrow> find P xs = None"
  by (induction xs) auto

lemma find_append_not [simp]: "\<not> P y \<Longrightarrow> find P (xs @ [y]) = find P xs"
  by (induction xs) auto

lemma find_append_replace:
  "\<not> P x \<Longrightarrow> \<not> P y \<Longrightarrow> find P (pre @ x # post) = find P (pre @ y # post)"
  by (induction pre) auto

text \<open>Every case of \<open>set_previous_node\<close>: one block is replaced or a new one appended.\<close>

lemma set_previous_node_cases [consumes 0, case_names replace append]:
  obtains (replace) pre c v post where "blocks b = pre @ c # post" "block c = PreviousNode v"
      "list_all (\<lambda>c. \<not> is_previous_node (block c)) pre"
      "set_previous_node e b
       = b\<lparr>blocks := pre @ c\<lparr>block := PreviousNode (v\<lparr>previous_node := e\<rparr>)\<rparr> # post\<rparr>"
  | (append) "list_all (\<lambda>c. \<not> is_previous_node (block c)) (blocks b)"
      "set_previous_node e b = b\<lparr>blocks := blocks b @
         [\<lparr>block = PreviousNode \<lparr>previous_node = e\<rparr>, block_number = next_block_number b,
           block_flags = 0, block_crc = NoCRC\<rparr>]\<rparr>"
proof (cases "update_previous_node e (blocks b)")
  case None
  then show ?thesis
    using append update_previous_node_None [of e "blocks b"] by (simp add: set_previous_node_def)
next
  case (Some ds)
  then show ?thesis
    using update_previous_node_SomeD [OF Some] replace by (auto simp: set_previous_node_def)
qed

lemma previous_node_of_set [simp]: "previous_node_of (set_previous_node e b) = Some e"
  by (cases rule: set_previous_node_cases [of b e]) (auto simp: previous_node_of_def)

lemma primary_block_set_previous_node [simp]:
  "primary_block (set_previous_node e b) = primary_block b"
  by (cases rule: set_previous_node_cases [of b e]) auto

lemma other_blocks_set_previous_node:
  "filter (\<lambda>c. \<not> is_previous_node (block c)) (blocks (set_previous_node e b))
   = filter (\<lambda>c. \<not> is_previous_node (block c)) (blocks b)"
  by (cases rule: set_previous_node_cases [of b e]) auto

lemma payload_canonical_block_set_previous_node [simp]:
  "payload_canonical_block (set_previous_node e b) = payload_canonical_block b"
  by (cases rule: set_previous_node_cases [of b e])
    (auto simp: payload_canonical_block_def intro!: arg_cong [where f = unwrap] find_append_replace)

lemma distinct_set_previous_node:
  assumes "distinct (map block_number (blocks b))"
    and "\<And>c. c \<in> set (blocks b) \<Longrightarrow> block_number c \<noteq> - 1"
  shows "distinct (map block_number (blocks (set_previous_node e b)))"
  using assms next_block_number_fresh [OF assms(2)]
  by (cases rule: set_previous_node_cases [of b e]) auto

subsection \<open>Hop count\<close>

fun is_hop_count :: "Block \<Rightarrow> bool" where
  "is_hop_count (HopCount _) = True"
| "is_hop_count _ = False"

definition hop_count_of :: "Bundle \<Rightarrow> HopCountBlock option" where
  "hop_count_of b =
     (case find (\<lambda>c. is_hop_count (block c)) (blocks b) of
        Some c \<Rightarrow> (case block c of HopCount v \<Rightarrow> Some v | _ \<Rightarrow> None)
      | None \<Rightarrow> None)"

lemma update_hop_count_None:
  "update_hop_count cs = None \<longleftrightarrow> list_all (\<lambda>c. \<not> is_hop_count (block c)) cs"
  by (induction cs) (auto simp: Let_def split: Block.split)

lemma update_hop_count_SomeD:
  "update_hop_count cs = Some (ds, ok) \<Longrightarrow>
   \<exists>pre c v post. cs = pre @ c # post \<and> block c = HopCount v
     \<and> list_all (\<lambda>c. \<not> is_hop_count (block c)) pre
     \<and> ds = pre @ c\<lparr>block := HopCount (v\<lparr>hop_count := hop_count v + 1\<rparr>)\<rparr> # post
     \<and> ok = (hop_count v + 1 \<le> limit v)"
proof (induction cs arbitrary: ds)
  case (Cons c cs)
  show ?case
  proof (cases "is_hop_count (block c)")
    case True
    then obtain v where "block c = HopCount v" by (cases "block c") auto
    then show ?thesis using Cons.prems by (intro exI [of _ "[]"]) (auto simp: Let_def)
  next
    case False
    then obtain es where es: "update_hop_count cs = Some (es, ok)" "ds = c # es"
      using Cons.prems by (cases "block c") auto
    from Cons.IH [OF es(1)] obtain pre d v post where
      "cs = pre @ d # post" "block d = HopCount v" "list_all (\<lambda>c. \<not> is_hop_count (block c)) pre"
      "es = pre @ d\<lparr>block := HopCount (v\<lparr>hop_count := hop_count v + 1\<rparr>)\<rparr> # post"
      "ok = (hop_count v + 1 \<le> limit v)" by blast
    then show ?thesis
      using False es(2) by (intro exI [of _ "c # pre"]) auto
  qed
qed simp

lemma inc_hop_count_cases [consumes 0, case_names replace append]:
  obtains (replace) pre c v post where "blocks b = pre @ c # post" "block c = HopCount v"
      "list_all (\<lambda>c. \<not> is_hop_count (block c)) pre"
      "inc_hop_count hop_limit b
       = (b\<lparr>blocks := pre @ c\<lparr>block := HopCount (v\<lparr>hop_count := hop_count v + 1\<rparr>)\<rparr> # post\<rparr>,
          hop_count v + 1 \<le> limit v)"
  | (append) "list_all (\<lambda>c. \<not> is_hop_count (block c)) (blocks b)"
      "inc_hop_count hop_limit b = (b\<lparr>blocks := blocks b @
         [\<lparr>block = HopCount \<lparr>limit = hop_limit, hop_count = 0\<rparr>, block_number = next_block_number b,
           block_flags = 0, block_crc = NoCRC\<rparr>]\<rparr>, True)"
proof (cases "update_hop_count (blocks b)")
  case None
  then show ?thesis
    using append update_hop_count_None [of "blocks b"] by (simp add: inc_hop_count_def)
next
  case (Some r)
  then obtain ds ok where "update_hop_count (blocks b) = Some (ds, ok)" by (cases r) auto
  from this update_hop_count_SomeD [OF this] show ?thesis
    using replace by (auto simp: inc_hop_count_def)
qed

text \<open>The abstract step: the count grows by one (wrapping), or starts at zero with the given limit.\<close>

fun hop_step :: "u8 \<Rightarrow> HopCountBlock option \<Rightarrow> HopCountBlock \<times> bool" where
  "hop_step hop_limit None = (\<lparr>limit = hop_limit, hop_count = 0\<rparr>, True)"
| "hop_step hop_limit (Some v) = (v\<lparr>hop_count := hop_count v + 1\<rparr>, hop_count v + 1 \<le> limit v)"

lemma inc_hop_count_refines:
  "hop_step hop_limit (hop_count_of b)
   = (the (hop_count_of (fst (inc_hop_count hop_limit b))), snd (inc_hop_count hop_limit b))"
  "hop_count_of (fst (inc_hop_count hop_limit b)) \<noteq> None"
  by (cases rule: inc_hop_count_cases [of b hop_limit]; simp add: hop_count_of_def)+

lemma primary_block_inc_hop_count [simp]:
  "primary_block (fst (inc_hop_count l b)) = primary_block b"
  by (cases rule: inc_hop_count_cases [of b l]) auto

lemma other_blocks_inc_hop_count:
  "filter (\<lambda>c. \<not> is_hop_count (block c)) (blocks (fst (inc_hop_count l b)))
   = filter (\<lambda>c. \<not> is_hop_count (block c)) (blocks b)"
  by (cases rule: inc_hop_count_cases [of b l]) auto

lemma payload_canonical_block_inc_hop_count [simp]:
  "payload_canonical_block (fst (inc_hop_count l b)) = payload_canonical_block b"
  by (cases rule: inc_hop_count_cases [of b l])
    (auto simp: payload_canonical_block_def intro!: arg_cong [where f = unwrap] find_append_replace)

lemma distinct_inc_hop_count:
  assumes "distinct (map block_number (blocks b))"
    and "\<And>c. c \<in> set (blocks b) \<Longrightarrow> block_number c \<noteq> - 1"
  shows "distinct (map block_number (blocks (fst (inc_hop_count l b))))"
  using assms next_block_number_fresh [OF assms(2)]
  by (cases rule: inc_hop_count_cases [of b l]) auto

end
