(* ===== verification/Admin_Record.thy ===== *)
theory Admin_Record
  imports Bundle
begin

text \<open>
  \<open>bp7/src/administrative_record/\<close>: bundle status reports and the administrative record around
  them.
\<close>

section \<open>Status items\<close>

record BundleStatusItem =
  is_asserted :: bool
  timestamp :: "DtnTime option"

definition BundleStatusItem_len :: "BundleStatusItem \<Rightarrow> nat" where
  "BundleStatusItem_len i = (if is_asserted i \<and> timestamp i \<noteq> None then 2 else 1)"

definition serialize_BundleStatusItem :: "BundleStatusItem \<Rightarrow> cbor" where
  "serialize_BundleStatusItem i = CArray True
     (CBool (is_asserted i)
      # (if BundleStatusItem_len i = 2
         then [case timestamp i of None \<Rightarrow> CNull | Some t \<Rightarrow> serialize_DtnTime t] else []))"

definition visit_BundleStatusItem :: "BundleStatusItem visit_seq" where
  "visit_BundleStatusItem size_hint seq =
     and_then (ok_or size_hint (Custom ''size hint'')) (\<lambda>len.
     if len > 2 then Err (InvalidLength len) else
     and_then (next_field ''is_asserted'' deserialize_bool seq) (\<lambda>(asserted, seq).
     and_then (if len = 2 \<and> asserted then next_element deserialize_DtnTime seq else Ok (None, seq)) (\<lambda>(t, seq).
     Ok (\<lparr>is_asserted = asserted, timestamp = t\<rparr>, seq))))"

definition deserialize_BundleStatusItem :: "BundleStatusItem de" where
  "deserialize_BundleStatusItem = deserialize_seq visit_BundleStatusItem"

section \<open>Reasons\<close>

datatype BundleStatusReason =
    NoAdditionalInformation
  | LifetimeExpired
  | ForwardedOverUnideirectionLink
  | TransmissionCanceled
  | DepletedStorage
  | DestinationEndpointIDUnavailable
  | NoKnownRouteToDestinationFromHere
  | NoTimelyContactWithNextNodeOnRoute
  | BlockUnintelligible
  | HopLimitExceeded
  | TrafficPared
  | BlockUnsupported

primrec BundleStatusReason_repr :: "BundleStatusReason \<Rightarrow> u64" where
  "BundleStatusReason_repr NoAdditionalInformation = 0"
| "BundleStatusReason_repr LifetimeExpired = 1"
| "BundleStatusReason_repr ForwardedOverUnideirectionLink = 2"
| "BundleStatusReason_repr TransmissionCanceled = 3"
| "BundleStatusReason_repr DepletedStorage = 4"
| "BundleStatusReason_repr DestinationEndpointIDUnavailable = 5"
| "BundleStatusReason_repr NoKnownRouteToDestinationFromHere = 6"
| "BundleStatusReason_repr NoTimelyContactWithNextNodeOnRoute = 7"
| "BundleStatusReason_repr BlockUnintelligible = 8"
| "BundleStatusReason_repr HopLimitExceeded = 9"
| "BundleStatusReason_repr TrafficPared = 10"
| "BundleStatusReason_repr BlockUnsupported = 11"

definition BundleStatusReasons :: "BundleStatusReason list" where
  "BundleStatusReasons = [NoAdditionalInformation, LifetimeExpired, ForwardedOverUnideirectionLink,
     TransmissionCanceled, DepletedStorage, DestinationEndpointIDUnavailable,
     NoKnownRouteToDestinationFromHere, NoTimelyContactWithNextNodeOnRoute, BlockUnintelligible,
     HopLimitExceeded, TrafficPared, BlockUnsupported]"

definition serialize_BundleStatusReason :: "BundleStatusReason \<Rightarrow> cbor" where
  "serialize_BundleStatusReason r = CUnsigned (BundleStatusReason_repr r)"

definition deserialize_BundleStatusReason :: "BundleStatusReason de" where
  "deserialize_BundleStatusReason v = and_then (deserialize_u64 v) (\<lambda>n.
     ok_or (find (\<lambda>r. BundleStatusReason_repr r = n) BundleStatusReasons) InvalidValue)"

section \<open>Reports\<close>

record BundleStatusInformation =
  received_bundle :: BundleStatusItem
  forwarded_bundle :: BundleStatusItem
  delivered_bundle :: BundleStatusItem
  deleted_bundle :: BundleStatusItem

definition serialize_BundleStatusInformation :: "BundleStatusInformation \<Rightarrow> cbor" where
  "serialize_BundleStatusInformation i = CArray True
     [serialize_BundleStatusItem (received_bundle i), serialize_BundleStatusItem (forwarded_bundle i),
      serialize_BundleStatusItem (delivered_bundle i), serialize_BundleStatusItem (deleted_bundle i)]"

definition visit_BundleStatusInformation :: "BundleStatusInformation visit_seq" where
  "visit_BundleStatusInformation size_hint seq =
     and_then (ok_or size_hint (Custom ''size hint'')) (\<lambda>len.
     if len \<noteq> 4 then Err (InvalidLength len) else
     and_then (next_field ''received_bundle'' deserialize_BundleStatusItem seq) (\<lambda>(r, seq).
     and_then (next_field ''forwarded_bundle'' deserialize_BundleStatusItem seq) (\<lambda>(f, seq).
     and_then (next_field ''delivered_bundle'' deserialize_BundleStatusItem seq) (\<lambda>(d, seq).
     and_then (next_field ''deleted_bundle'' deserialize_BundleStatusItem seq) (\<lambda>(x, seq).
     Ok (\<lparr>received_bundle = r, forwarded_bundle = f, delivered_bundle = d, deleted_bundle = x\<rparr>, seq))))))"

definition deserialize_BundleStatusInformation :: "BundleStatusInformation de" where
  "deserialize_BundleStatusInformation = deserialize_seq visit_BundleStatusInformation"

record BundleStatusReport =
  status_information :: BundleStatusInformation
  reason :: BundleStatusReason
  bundle_source :: Endpoint
  bundle_creation_timestamp :: CreationTimestamp
  report_fragment_offset :: "u64 option"
  report_fragment_length :: "u64 option"

definition BundleStatusReport_len :: "BundleStatusReport \<Rightarrow> nat" where
  "BundleStatusReport_len r =
     (if report_fragment_offset r \<noteq> None \<and> report_fragment_length r \<noteq> None then 6 else 4)"

text \<open>The two \<open>unwrap\<close>s of the fragment fields stand behind the test that both are present.\<close>

definition serialize_BundleStatusReport :: "BundleStatusReport \<Rightarrow> cbor" where
  "serialize_BundleStatusReport r = CArray True
     ([serialize_BundleStatusInformation (status_information r), serialize_BundleStatusReason (reason r),
       serialize_Endpoint (bundle_source r), serialize_CreationTimestamp (bundle_creation_timestamp r)]
      @ (case (report_fragment_offset r, report_fragment_length r) of
           (Some off, Some len) \<Rightarrow> [CUnsigned off, CUnsigned len] | _ \<Rightarrow> []))"

definition visit_BundleStatusReport :: "BundleStatusReport visit_seq" where
  "visit_BundleStatusReport size_hint seq =
     and_then (ok_or size_hint (Custom ''size hint'')) (\<lambda>len.
     if len \<noteq> 4 \<and> len \<noteq> 6 then Err (InvalidLength len) else
     and_then (next_field ''status_information'' deserialize_BundleStatusInformation seq) (\<lambda>(i, seq).
     and_then (next_field ''reason'' deserialize_BundleStatusReason seq) (\<lambda>(rs, seq).
     and_then (next_field ''bundle_source'' deserialize_Endpoint seq) (\<lambda>(src, seq).
     and_then (next_field ''bundle_creation_timestamp'' deserialize_CreationTimestamp seq) (\<lambda>(ts, seq).
     and_then
       (if len = 6 then
          and_then (next_field ''fragment_offset'' deserialize_u64 seq) (\<lambda>(off, seq).
          and_then (next_field ''fragment_length'' deserialize_u64 seq) (\<lambda>(l, seq).
          Ok (Some off, Some l, seq)))
        else Ok (None, None, seq)) (\<lambda>(off, l, seq).
     Ok (\<lparr>status_information = i, reason = rs, bundle_source = src, bundle_creation_timestamp = ts,
          report_fragment_offset = off, report_fragment_length = l\<rparr>, seq)))))))"

definition deserialize_BundleStatusReport :: "BundleStatusReport de" where
  "deserialize_BundleStatusReport = deserialize_seq visit_BundleStatusReport"

section \<open>Administrative records\<close>

datatype AdministrativeRecordType = AR_BundleStatusReport

definition serialize_AdministrativeRecordType :: "AdministrativeRecordType \<Rightarrow> cbor" where
  "serialize_AdministrativeRecordType t = CUnsigned 1"

definition deserialize_AdministrativeRecordType :: "AdministrativeRecordType de" where
  "deserialize_AdministrativeRecordType v = and_then (deserialize_u64 v) (\<lambda>n.
     if n = 1 then Ok AR_BundleStatusReport else Err InvalidValue)"

datatype AdministrativeRecord = StatusReportRecord BundleStatusReport

fun serialize_AdministrativeRecord :: "AdministrativeRecord \<Rightarrow> cbor" where
  "serialize_AdministrativeRecord (StatusReportRecord r) =
     CArray True [serialize_AdministrativeRecordType AR_BundleStatusReport, serialize_BundleStatusReport r]"

definition visit_AdministrativeRecord :: "AdministrativeRecord visit_seq" where
  "visit_AdministrativeRecord size_hint seq =
     and_then (next_field ''administrative_record_type'' deserialize_AdministrativeRecordType seq) (\<lambda>(t, seq).
     and_then (next_field ''bundle_status_report'' deserialize_BundleStatusReport seq) (\<lambda>(r, seq).
     Ok (StatusReportRecord r, seq)))"

definition deserialize_AdministrativeRecord :: "AdministrativeRecord de" where
  "deserialize_AdministrativeRecord = deserialize_seq visit_AdministrativeRecord"

definition AdministrativeRecord_try_from ::
  "(bytes \<Rightarrow> cbor option) \<Rightarrow> bytes \<Rightarrow> (AdministrativeRecord, SerializationError) result" where
  "AdministrativeRecord_try_from dec value =
     map_err SerializationError (from_slice_with dec deserialize_AdministrativeRecord value)"

definition AdministrativeRecord_to_vec :: "(cbor \<Rightarrow> bytes) \<Rightarrow> AdministrativeRecord \<Rightarrow> (bytes, 'e) result" where
  "AdministrativeRecord_to_vec enc r = Ok (enc (serialize_AdministrativeRecord r))"

section \<open>Properties\<close>

text \<open>A time stamp is only kept with an asserted item, and fragment fields only together.\<close>

definition status_item_wf :: "BundleStatusItem \<Rightarrow> bool" where
  "status_item_wf i \<longleftrightarrow> (timestamp i \<noteq> None \<longrightarrow> is_asserted i)"

definition status_information_wf :: "BundleStatusInformation \<Rightarrow> bool" where
  "status_information_wf i \<longleftrightarrow> status_item_wf (received_bundle i) \<and> status_item_wf (forwarded_bundle i)
     \<and> status_item_wf (delivered_bundle i) \<and> status_item_wf (deleted_bundle i)"

definition status_report_wf :: "BundleStatusReport \<Rightarrow> bool" where
  "status_report_wf r \<longleftrightarrow> status_information_wf (status_information r) \<and> endpoint_wf (bundle_source r)
     \<and> (report_fragment_offset r = None \<longleftrightarrow> report_fragment_length r = None)"

fun admin_record_wf :: "AdministrativeRecord \<Rightarrow> bool" where
  "admin_record_wf (StatusReportRecord r) = status_report_wf r"

interpretation status_item: serde_type serialize_BundleStatusItem deserialize_BundleStatusItem status_item_wf 1
proof unfold_locales
  fix i assume "status_item_wf i"
  then show "deserialize_BundleStatusItem (serialize_BundleStatusItem i) = Ok i"
    by (cases i; cases "timestamp i")
      (auto simp: serialize_BundleStatusItem_def deserialize_BundleStatusItem_def visit_BundleStatusItem_def
        BundleStatusItem_len_def status_item_wf_def dtn_time.de_ser)
  show "cbor_ok (serialize_BundleStatusItem i)" "cbor_depth (serialize_BundleStatusItem i) \<le> 1"
    by (simp_all add: serialize_BundleStatusItem_def serialize_DtnTime_def split: option.split)
qed simp

interpretation status_reason: serde_type serialize_BundleStatusReason deserialize_BundleStatusReason "\<lambda>_. True" 0
proof unfold_locales
  fix r show "deserialize_BundleStatusReason (serialize_BundleStatusReason r) = Ok r"
    by (cases r) (simp_all add: serialize_BundleStatusReason_def deserialize_BundleStatusReason_def
        BundleStatusReasons_def)
qed (simp_all add: serialize_BundleStatusReason_def)

interpretation status_information: serde_type serialize_BundleStatusInformation
  deserialize_BundleStatusInformation status_information_wf 2
proof unfold_locales
  fix i assume wf: "status_information_wf i"
  then show "deserialize_BundleStatusInformation (serialize_BundleStatusInformation i) = Ok i"
    by (cases i) (simp add: serialize_BundleStatusInformation_def deserialize_BundleStatusInformation_def
        visit_BundleStatusInformation_def status_information_wf_def status_item.de_ser)
  show "cbor_ok (serialize_BundleStatusInformation i)"
    using wf by (simp add: serialize_BundleStatusInformation_def status_information_wf_def status_item.ser_ok)
  show "cbor_depth (serialize_BundleStatusInformation i) \<le> 2"
    using wf status_item.ser_depth by (simp add: serialize_BundleStatusInformation_def status_information_wf_def)
qed simp

interpretation status_report: serde_type serialize_BundleStatusReport deserialize_BundleStatusReport
  status_report_wf 3
proof unfold_locales
  fix r assume wf: "status_report_wf r"
  then show "deserialize_BundleStatusReport (serialize_BundleStatusReport r) = Ok r"
    by (cases r; cases "report_fragment_offset r"; cases "report_fragment_length r")
      (simp_all add: serialize_BundleStatusReport_def deserialize_BundleStatusReport_def
        visit_BundleStatusReport_def status_report_wf_def status_information.de_ser status_reason.de_ser
        endpoint.de_ser creation_timestamp.de_ser)
  show "cbor_ok (serialize_BundleStatusReport r)"
    using wf by (simp add: serialize_BundleStatusReport_def status_report_wf_def status_information.ser_ok
        status_reason.ser_ok endpoint.ser_ok creation_timestamp.ser_ok split: option.split)
  show "cbor_depth (serialize_BundleStatusReport r) \<le> 3"
    using wf status_information.ser_depth [of "status_information r"] status_reason.ser_depth [of "reason r"]
      endpoint.ser_depth [of "bundle_source r"] creation_timestamp.ser_depth [of "bundle_creation_timestamp r"]
    by (simp add: serialize_BundleStatusReport_def status_report_wf_def split: option.split)
qed simp

interpretation admin_record: serde_type serialize_AdministrativeRecord deserialize_AdministrativeRecord
  admin_record_wf 4
proof unfold_locales
  fix r assume wf: "admin_record_wf r"
  then show "deserialize_AdministrativeRecord (serialize_AdministrativeRecord r) = Ok r"
    by (cases r) (simp add: deserialize_AdministrativeRecord_def visit_AdministrativeRecord_def
        serialize_AdministrativeRecordType_def deserialize_AdministrativeRecordType_def status_report.de_ser)
  show "cbor_ok (serialize_AdministrativeRecord r)"
    using wf by (cases r) (simp add: serialize_AdministrativeRecordType_def status_report.ser_ok)
  show "cbor_depth (serialize_AdministrativeRecord r) \<le> 4"
    using wf status_report.ser_depth by (cases r) (simp add: serialize_AdministrativeRecordType_def)
qed simp

lemma AdministrativeRecord_roundtrip:
  assumes "serde_cbor enc dec" and "admin_record_wf r"
  shows "and_then (AdministrativeRecord_to_vec enc r) (AdministrativeRecord_try_from dec) = Ok r"
  using admin_record.bytes_roundtrip [OF assms]
  by (simp add: AdministrativeRecord_to_vec_def AdministrativeRecord_try_from_def)

end
