(* ===== verification/Parser_Safety.thy ===== *)
theory Parser_Safety
  imports Bundle
begin

text \<open>
  Which input makes the bundle parser panic. Every reader of the crate returns a value or an error,
  except for the primary block (an array of unknown length, or a checksum without a kind) and
  canonical blocks (a checksum without a kind). The rules are collected in \<open>no_panic\<close>.
\<close>

section \<open>Readers that never panic\<close>

lemma deserialize_basic_no_panic [no_panic]:
  "deserialize_u64 v \<noteq> Panic" "deserialize_u8 v \<noteq> Panic" "deserialize_byte_slice v \<noteq> Panic"
  by (cases v; simp)+

lemma next_element_no_panic [no_panic]: "(\<And>v. d v \<noteq> Panic) \<Longrightarrow> next_element d vs \<noteq> Panic"
  by (cases vs) (simp_all add: no_panic)

lemma next_field_no_panic [no_panic]: "(\<And>v. d v \<noteq> Panic) \<Longrightarrow> next_field msg d vs \<noteq> Panic"
  by (cases vs) (simp_all add: no_panic)

lemma deserialize_seq_no_panic [no_panic]:
  "(\<And>hint xs. visit hint xs \<noteq> Panic) \<Longrightarrow> deserialize_seq visit v \<noteq> Panic"
  by (cases v) (auto simp: no_panic split: if_splits)

lemma from_slice_with_no_panic [no_panic]: "(\<And>v. d v \<noteq> Panic) \<Longrightarrow> from_slice_with dec d bs \<noteq> Panic"
  by (simp add: from_slice_with_def no_panic)

lemma deserialize_flags_no_panic [no_panic]:
  "deserialize_BundleFlags v \<noteq> Panic" "deserialize_BlockFlags v \<noteq> Panic" "deserialize_CRCType v \<noteq> Panic"
  by (auto simp: deserialize_BundleFlags_def deserialize_BlockFlags_def deserialize_CRCType_def no_panic
      split: if_splits)

lemma deserialize_DtnTime_no_panic [no_panic]: "deserialize_DtnTime v \<noteq> Panic"
  by (simp add: deserialize_DtnTime_def no_panic)

lemma deserialize_CreationTimestamp_no_panic [no_panic]: "deserialize_CreationTimestamp v \<noteq> Panic"
  unfolding deserialize_CreationTimestamp_def
  by (rule deserialize_seq_no_panic) (auto simp: visit_CreationTimestamp_def no_panic)

lemma deserialize_IPNField_no_panic [no_panic]: "deserialize_IPNField k \<noteq> Panic"
  by (cases k rule: deserialize_IPNField.cases) auto

lemma visit_map_IPNEndpoint_no_panic [no_panic]: "visit_map_IPNEndpoint n s kvs \<noteq> Panic"
  by (induction n s kvs rule: visit_map_IPNEndpoint.induct)
    (auto simp: no_panic split: IPNField.splits if_splits)

lemma deserialize_DTNEndpoint_no_panic [no_panic]: "deserialize_DTNEndpoint v \<noteq> Panic"
  by (cases v rule: deserialize_DTNEndpoint.cases) auto

lemma deserialize_IPNEndpoint_no_panic [no_panic]: "deserialize_IPNEndpoint v \<noteq> Panic"
  by (cases v rule: deserialize_IPNEndpoint.cases)
    (auto simp: visit_seq_IPNEndpoint_def no_panic split: if_splits)

lemma deserialize_EndpointType_no_panic [no_panic]: "deserialize_EndpointType v \<noteq> Panic"
  by (auto simp: deserialize_EndpointType_def no_panic split: if_splits)

lemma deserialize_Endpoint_no_panic [no_panic]: "deserialize_Endpoint v \<noteq> Panic"
  unfolding deserialize_Endpoint_def
  by (rule deserialize_seq_no_panic) (auto simp: visit_Endpoint_def no_panic split: EndpointType.splits)

lemma deserialize_content_no_panic [no_panic]:
  "deserialize_HopCountBlock v \<noteq> Panic" "deserialize_BundleAgeBlock v \<noteq> Panic"
  "deserialize_PreviousNodeBlock v \<noteq> Panic"
proof -
  show "deserialize_HopCountBlock v \<noteq> Panic"
    unfolding deserialize_HopCountBlock_def
    by (rule deserialize_seq_no_panic) (auto simp: visit_HopCountBlock_def no_panic split: if_splits)
qed (simp_all add: deserialize_BundleAgeBlock_def deserialize_PreviousNodeBlock_def no_panic)

lemma deserialize_Block_no_panic [no_panic]: "deserialize_Block dec ty bs \<noteq> Panic"
  by (auto simp: deserialize_Block_def HopCountBlock_try_from_def BundleAgeBlock_try_from_def
      PreviousNodeBlock_try_from_def no_panic split: option.splits BlockType.splits)

section \<open>The two blocks that can\<close>

lemma deserialize_CRCType_NoCRC: "deserialize_CRCType v = Ok NoCRC \<Longrightarrow> v = CUnsigned 0"
  by (cases v) (auto simp: deserialize_CRCType_def split: if_splits)

lemma deserialize_value_Panic_iff [no_panic]: "deserialize_value c seq = Panic \<longleftrightarrow> c = NoCRC"
  by (cases c) (auto simp: no_panic split: list.splits)

text \<open>The kind of checksum is the element \<open>i\<close>; an array of one of the lengths \<open>ns\<close> has a checksum.\<close>

definition checksum_kind_ok :: "nat list \<Rightarrow> nat \<Rightarrow> cbor list \<Rightarrow> bool" where
  "checksum_kind_ok ns i xs \<longleftrightarrow> (length xs \<in> set ns \<longrightarrow> xs ! i \<noteq> CUnsigned 0)"

fun primary_safe :: "cbor \<Rightarrow> bool" where
  "primary_safe (CArray True xs) = checksum_kind_ok [9, 11] 2 xs"
| "primary_safe (CArray False xs) = False"
| "primary_safe _ = True"

fun block_safe :: "cbor \<Rightarrow> bool" where
  "block_safe (CArray True xs) = checksum_kind_ok [6] 3 xs"
| "block_safe _ = True"

lemma visit_PrimaryBlock_no_panic:
  assumes "checksum_kind_ok [9, 11] 2 xs"
  shows "visit_PrimaryBlock (Some (length xs)) xs \<noteq> Panic"
proof (cases "length xs < 8")
  case False
  then obtain v0 v1 v2 r where xs: "xs = v0 # v1 # v2 # r"
    by (cases xs rule: list.exhaust [case_names Nil Cons]; cases "tl xs"; cases "tl (tl xs)") auto
  show ?thesis
    using assms unfolding visit_PrimaryBlock_def xs
    by (auto simp: checksum_kind_ok_def no_panic result_simps dest!: deserialize_CRCType_NoCRC split: if_splits)
next
  case True
  then show ?thesis by (simp add: visit_PrimaryBlock_def)
qed

lemma visit_CanonicalBlock_no_panic:
  assumes "hint = Some (length xs) \<Longrightarrow> checksum_kind_ok [6] 3 xs" and "hint = None \<or> hint = Some (length xs)"
  shows "visit_CanonicalBlock dec hint xs \<noteq> Panic"
proof (cases "hint = Some 6 \<and> length xs = 6")
  case True
  then obtain v0 v1 v2 v3 r where xs: "xs = v0 # v1 # v2 # v3 # r"
    by (cases xs; cases "tl xs"; cases "tl (tl xs)"; cases "tl (tl (tl xs))") auto
  show ?thesis
    using True assms unfolding visit_CanonicalBlock_def xs
    by (auto simp: checksum_kind_ok_def no_panic result_simps dest!: deserialize_CRCType_NoCRC split: if_splits)
next
  case False
  then show ?thesis
    using assms(2) by (auto simp: visit_CanonicalBlock_def no_panic split: if_splits)
qed

lemma deserialize_PrimaryBlock_no_panic: "primary_safe v \<Longrightarrow> deserialize_PrimaryBlock v \<noteq> Panic"
  using visit_PrimaryBlock_no_panic
  by (cases v rule: primary_safe.cases) (auto simp: deserialize_PrimaryBlock_def no_panic split: if_splits)

lemma deserialize_CanonicalBlock_no_panic: "block_safe v \<Longrightarrow> deserialize_CanonicalBlock dec v \<noteq> Panic"
  using visit_CanonicalBlock_no_panic
  by (cases v rule: block_safe.cases) (auto simp: deserialize_CanonicalBlock_def no_panic split: if_splits)

lemma read_blocks_no_panic: "list_all block_safe vs \<Longrightarrow> read_blocks dec vs \<noteq> Panic"
  by (induction vs) (auto simp: no_panic deserialize_CanonicalBlock_no_panic)

fun bundle_safe :: "cbor \<Rightarrow> bool" where
  "bundle_safe (CArray d (p # bs)) = (primary_safe p \<and> list_all block_safe bs)"
| "bundle_safe _ = True"

lemma deserialize_Bundle_no_panic: "bundle_safe v \<Longrightarrow> deserialize_Bundle dec v \<noteq> Panic"
  by (cases v rule: bundle_safe.cases)
    (auto simp: deserialize_Bundle_def visit_Bundle_def no_panic result_simps
      deserialize_PrimaryBlock_no_panic read_blocks_no_panic split: if_splits)

end
