(* ===== verification/Slices.thy ===== *)
theory Slices
  imports Prelude
begin

text \<open>
  Covering an interval by slices, the abstract problem behind reassembly: when a list of slices
  ordered by offset covers a sequence, and that appending what is missing of each slice rebuilds it.
\<close>

section \<open>Slices\<close>

type_synonym 'a slice = "nat \<times> 'a list"

definition slice_of :: "'a list \<Rightarrow> 'a slice \<Rightarrow> bool" where
  "slice_of xs s \<longleftrightarrow> fst s + length (snd s) \<le> length xs
     \<and> snd s = take (length (snd s)) (drop (fst s) xs)"

definition in_slice :: "nat \<Rightarrow> 'a slice \<Rightarrow> bool" where
  "in_slice i s \<longleftrightarrow> fst s \<le> i \<and> i < fst s + length (snd s)"

text \<open>Every position of the first \<open>n\<close> lies in some slice.\<close>

definition covers :: "'a slice list \<Rightarrow> nat \<Rightarrow> bool" where
  "covers ss n \<longleftrightarrow> list_all (\<lambda>i. list_ex (in_slice i) ss) [0..<n]"

fun scan :: "nat \<Rightarrow> 'a slice list \<Rightarrow> nat option" where
  "scan acc [] = Some acc"
| "scan acc (s # ss) =
     (if fst s \<le> acc then scan (max acc (fst s + length (snd s))) ss else None)"

fun assemble :: "'a list \<Rightarrow> 'a slice list \<Rightarrow> 'a list" where
  "assemble d [] = d"
| "assemble d (s # ss) =
     (if fst s + length (snd s) < length d then assemble d ss
      else assemble (d @ drop (length d - fst s) (snd s)) ss)"

section \<open>Properties\<close>

lemma covers_iff: "covers ss n \<longleftrightarrow> (\<forall>i < n. \<exists>s \<in> set ss. in_slice i s)"
  by (auto simp: covers_def list_all_iff list_ex_iff)

lemma covers_mono: "covers ss n \<Longrightarrow> set ss \<subseteq> set ts \<Longrightarrow> covers ts n"
  by (auto simp: covers_iff)

lemma scan_iff_aux:
  assumes "sorted (map fst ss)" and "\<And>s. s \<in> set ss \<Longrightarrow> fst s + length (snd s) \<le> n" and "acc \<le> n"
  shows "scan acc ss = Some n \<longleftrightarrow> (\<forall>i. acc \<le> i \<longrightarrow> i < n \<longrightarrow> (\<exists>s \<in> set ss. in_slice i s))"
  using assms
proof (induction ss arbitrary: acc)
  case Nil
  then show ?case by (auto simp: le_less)
next
  case (Cons s ss)
  let ?e = "fst s + length (snd s)"
  have IH: "scan (max acc ?e) ss = Some n
      \<longleftrightarrow> (\<forall>i. max acc ?e \<le> i \<longrightarrow> i < n \<longrightarrow> (\<exists>s \<in> set ss. in_slice i s))"
    using Cons.prems by (intro Cons.IH) auto
  show ?case
  proof (cases "fst s \<le> acc")
    case True
    have "in_slice i s \<longleftrightarrow> i < ?e" if "acc \<le> i" for i
      using True that by (auto simp: in_slice_def)
    then show ?thesis
      using True IH by (auto simp: not_less)
  next
    case False
    then have "\<not> in_slice acc t" if "t \<in> set (s # ss)" for t
      using that Cons.prems(1) by (auto simp: in_slice_def)
    moreover have "acc < n"
      using False Cons.prems(2) [of s] by simp
    ultimately have "\<not> (\<forall>i. acc \<le> i \<longrightarrow> i < n \<longrightarrow> (\<exists>t \<in> set (s # ss). in_slice i t))"
      by blast
    then show ?thesis
      using False by simp
  qed
qed

lemma scan_iff_covers:
  assumes "sorted (map fst ss)" and "\<And>s. s \<in> set ss \<Longrightarrow> fst s + length (snd s) \<le> n"
  shows "scan 0 ss = Some n \<longleftrightarrow> covers ss n"
  using scan_iff_aux [OF assms, of 0] by (simp add: covers_iff)

lemma scan_bound:
  "(\<And>s. s \<in> set ss \<Longrightarrow> fst s + length (snd s) \<le> n) \<Longrightarrow> acc \<le> n \<Longrightarrow> scan acc ss = Some m \<Longrightarrow> m \<le> n"
proof (induction ss arbitrary: acc)
  case (Cons s ss)
  then have "fst s + length (snd s) \<le> n" by simp
  then show ?case
    using Cons.IH [of "max acc (fst s + length (snd s))"] Cons.prems by (simp split: if_splits)
qed simp

text \<open>Appending the missing part of a slice extends the prefix that has been rebuilt.\<close>

lemma append_slice:
  assumes "slice_of xs s" and "fst s \<le> k" and "k \<le> fst s + length (snd s)"
  shows "take k xs @ drop (k - fst s) (snd s) = take (fst s + length (snd s)) xs"
proof -
  define n where "n = length (snd s)"
  have "snd s = take n (drop (fst s) xs)"
    using assms(1) by (simp add: slice_of_def n_def)
  then have "drop (k - fst s) (snd s) = take (n - (k - fst s)) (drop k xs)"
    using assms(2) by (simp add: drop_take)
  moreover have "take (fst s + n) xs = take k xs @ take (fst s + n - k) (drop k xs)"
    using assms(3) take_add [of k "fst s + n - k" xs] by (simp add: n_def)
  ultimately show ?thesis
    using assms(2,3) by (simp add: n_def add.commute)
qed

lemma assemble_take:
  assumes "\<And>s. s \<in> set ss \<Longrightarrow> slice_of xs s" and "k \<le> length xs" and "scan k ss = Some m"
  shows "assemble (take k xs) ss = take m xs"
  using assms
proof (induction ss arbitrary: k)
  case (Cons s ss)
  let ?e = "fst s + length (snd s)"
  have le: "fst s \<le> k" and sc: "scan (max k ?e) ss = Some m" and sl: "slice_of xs s"
    using Cons.prems by (auto split: if_splits)
  have e: "?e \<le> length xs"
    using sl by (simp add: slice_of_def)
  show ?case
  proof (cases "?e < k")
    case True
    then show ?thesis
      using Cons.IH [of k] Cons.prems sc by (simp add: max_def)
  next
    case False
    then have "take k xs @ drop (k - fst s) (snd s) = take ?e xs"
      using append_slice [OF sl le] by simp
    then show ?thesis
      using False Cons.IH [of ?e] Cons.prems sc e by (simp add: max_def split: if_splits)
  qed
qed simp

end
