(* ===== verification/Reassembly.thy ===== *)
theory Reassembly
  imports Bundle Slices
begin

text \<open>
  \<open>bp7/src/bundle.rs\<close>, \<open>can_reassemble_bundles\<close> and \<open>reassemble_bundles\<close>: recognising a complete set
  of fragments and putting it together. The properties refine both to the covering of an interval
  by slices (theory \<open>Slices\<close>).
\<close>

section \<open>Operations\<close>

text \<open>\<open>sort_by\<close> is stable and calls the comparison on every element of a list of two or more.\<close>

definition sort_by_fragment_offset :: "Bundle list \<Rightarrow> (Bundle list, 'e) result" where
  "sort_by_fragment_offset bundles =
     (if 2 \<le> length bundles \<and> list_ex (\<lambda>b. fragment_offset (primary_block b) = None) bundles then Panic
      else Ok (sort_key (\<lambda>b. case fragment_offset (primary_block b) of None \<Rightarrow> 0 | Some x \<Rightarrow> x) bundles))"

text \<open>The \<open>try_fold\<close> over offsets and lengths: \<open>None\<close> is \<open>ControlFlow::Break(false)\<close>.\<close>

fun covered_length :: "u64 \<Rightarrow> Bundle list \<Rightarrow> (u64 option, 'e) result" where
  "covered_length acc [] = Ok (Some acc)"
| "covered_length acc (b # bs) =
     and_then (unwrap (fragment_offset (primary_block b))) (\<lambda>offset.
     and_then (payload_block b) (\<lambda>p.
     let len = of_nat (length (data p))
     in if offset < acc then covered_length (max acc (offset + len)) bs
        else if acc = offset then covered_length (offset + len) bs
        else Ok None))"

definition can_reassemble_bundles :: "Bundle list \<Rightarrow> (bool \<times> Bundle list, 'e) result" where
  "can_reassemble_bundles bundles =
     (if bundles = [] then Ok (False, bundles)
      else let first = hd bundles
      in if \<not> contains (bundle_processing_flags (primary_block first)) FRAGMENT then Panic
      else if \<not> list_all (\<lambda>item. equals_ignoring_fragment_offset (primary_block first) (primary_block item)) bundles
      then Panic
      else and_then (unwrap (total_data_length (primary_block first))) (\<lambda>total.
      and_then (sort_by_fragment_offset bundles) (\<lambda>bundles.
      and_then (unwrap (fragment_offset (primary_block (hd bundles)))) (\<lambda>offset.
      if offset \<noteq> 0 then Ok (False, bundles)
      else and_then (covered_length 0 bundles) (\<lambda>r.
           Ok (case r of Some len \<Rightarrow> len = total | None \<Rightarrow> False, bundles))))))"

text \<open>The loop that appends the part of each payload that is not there yet. The subtraction wraps, and
  slicing past the end panics.\<close>

fun extend_data :: "bytes \<Rightarrow> Bundle list \<Rightarrow> (bytes, 'e) result" where
  "extend_data d [] = Ok d"
| "extend_data d (b # bs) =
     and_then (unwrap (fragment_offset (primary_block b))) (\<lambda>offset.
     and_then (payload_block b) (\<lambda>p.
     if unat (offset + of_nat (length (data p))) < length d then extend_data d bs
     else let start = unat (of_nat (length d) - offset)
          in if start > length (data p) then Panic
             else extend_data (d @ drop start (data p)) bs))"

definition set_payload_data :: "bytes \<Rightarrow> CanonicalBlock \<Rightarrow> CanonicalBlock" where
  "set_payload_data d c =
     (case block c of Payload p \<Rightarrow> c\<lparr>block := Payload (p\<lparr>data := d\<rparr>)\<rparr> | _ \<Rightarrow> c)"

definition reassemble_bundles :: "(cbor \<Rightarrow> bytes) \<Rightarrow> Bundle list \<Rightarrow> (bytes, Bundle list) result" where
  "reassemble_bundles enc bundles =
     and_then (can_reassemble_bundles bundles) (\<lambda>(ok, bundles).
     if \<not> ok then Err bundles
     else case bundles of [] \<Rightarrow> Panic | main # rest \<Rightarrow>
     and_then (unwrap (total_data_length (primary_block main))) (\<lambda>total.
     let main = main\<lparr>primary_block := (primary_block main)
           \<lparr>bundle_processing_flags := remove_flags (bundle_processing_flags (primary_block main)) FRAGMENT,
            fragment_offset := None, total_data_length := None\<rparr>\<rparr>
     in and_then (payload_block main) (\<lambda>p.
        and_then (extend_data (data p) rest) (\<lambda>d.
        Bundle_to_vec enc (main\<lparr>blocks := map (set_payload_data d) (blocks main)\<rparr>)))))"

section \<open>Properties\<close>

subsection \<open>Fragments as slices\<close>

definition payload_of :: "Bundle \<Rightarrow> bytes" where
  "payload_of b =
     (case find (\<lambda>c. is_payload (block c)) (blocks b) of
        Some c \<Rightarrow> (case block c of Payload p \<Rightarrow> data p | _ \<Rightarrow> [])
      | None \<Rightarrow> [])"

definition has_payload :: "Bundle \<Rightarrow> bool" where
  "has_payload b \<longleftrightarrow> list_ex (\<lambda>c. is_payload (block c)) (blocks b)"

definition bundle_slice :: "Bundle \<Rightarrow> u8 slice" where
  "bundle_slice b = (unat (the (fragment_offset (primary_block b))), payload_of b)"

lemma payload_block_eq: "has_payload b \<Longrightarrow> payload_block b = Ok \<lparr>data = payload_of b\<rparr>"
proof -
  assume "has_payload b"
  then obtain c where c: "find (\<lambda>c. is_payload (block c)) (blocks b) = Some c"
    by (cases "find (\<lambda>c. is_payload (block c)) (blocks b)")
      (auto simp: has_payload_def list_ex_iff find_None_iff)
  then have "is_payload (block c)"
    by (auto simp: find_Some_iff)
  then show ?thesis
    using c by (cases "block c")
      (auto simp: payload_block_def payload_canonical_block_def payload_of_def)
qed

text \<open>A fragment of the payload \<open>xs\<close> under the header \<open>h\<close>; the headers of all fragments agree up to
  the offset.\<close>

definition fragment_ok :: "PrimaryBlock \<Rightarrow> bytes \<Rightarrow> Bundle \<Rightarrow> bool" where
  "fragment_ok h xs b \<longleftrightarrow>
     primary_block b = h\<lparr>fragment_offset := fragment_offset (primary_block b)\<rparr>
     \<and> fragment_offset (primary_block b) \<noteq> None \<and> has_payload b \<and> slice_of xs (bundle_slice b)"

definition header_ok :: "PrimaryBlock \<Rightarrow> bytes \<Rightarrow> bool" where
  "header_ok h xs \<longleftrightarrow> contains (bundle_processing_flags h) FRAGMENT
     \<and> total_data_length h = Some (of_nat (length xs)) \<and> length xs < 2 ^ 64"

lemma fragment_okD:
  assumes "fragment_ok h xs b" and "length xs < 2 ^ 64"
  obtains off where "fragment_offset (primary_block b) = Some off" "has_payload b"
    "fst (bundle_slice b) = unat off" "snd (bundle_slice b) = payload_of b"
    "unat off + length (payload_of b) \<le> length xs"
    "unat (off + of_nat (length (payload_of b)) :: u64) = unat off + length (payload_of b)"
proof -
  from assms(1) obtain off where off: "fragment_offset (primary_block b) = Some off"
    and pl: "has_payload b" and sl: "slice_of xs (bundle_slice b)"
    by (auto simp: fragment_ok_def)
  have le: "unat off + length (payload_of b) \<le> length xs"
    using sl off by (simp add: slice_of_def bundle_slice_def)
  then have "unat (off + of_nat (length (payload_of b)) :: u64) = unat off + length (payload_of b)"
    using assms(2) by (simp add: unat_word_ariths unat_u64_of_nat)
  then show ?thesis
    using that off pl le by (simp add: bundle_slice_def)
qed

subsection \<open>The test for completeness\<close>

lemma covered_length_scan:
  assumes "\<And>b. b \<in> set bs \<Longrightarrow> fragment_ok h xs b" and len: "length xs < 2 ^ 64"
    and "unat acc \<le> length xs"
  shows "covered_length acc bs = Ok (map_option of_nat (scan (unat acc) (map bundle_slice bs)))"
  using assms(1,3)
proof (induction bs arbitrary: acc)
  case (Cons b bs)
  from Cons.prems(1) have "fragment_ok h xs b" by simp
  then obtain off where off: "fragment_offset (primary_block b) = Some off"
      "has_payload b" "fst (bundle_slice b) = unat off" "snd (bundle_slice b) = payload_of b"
    and le: "unat off + length (payload_of b) \<le> length xs"
    and sum: "unat (off + of_nat (length (payload_of b)) :: u64) = unat off + length (payload_of b)"
    using len by (rule fragment_okD)
  let ?e = "off + of_nat (length (payload_of b)) :: u64"
  have "unat (max acc ?e) = max (unat acc) (unat off + length (payload_of b))"
    using sum by (simp add: max_def word_le_nat_alt)
  then show ?case
    using Cons.IH [of "max acc ?e"] Cons.IH [of ?e] Cons.prems off le sum
    by (auto simp: Let_def payload_block_eq word_less_nat_alt max_def word_unat_eq_iff)
qed simp

definition offset_key :: "Bundle \<Rightarrow> u64" where
  "offset_key b = (case fragment_offset (primary_block b) of None \<Rightarrow> 0 | Some x \<Rightarrow> x)"

lemma sorted_slices: "list_all (\<lambda>b. fragment_offset (primary_block b) \<noteq> None) bs
  \<Longrightarrow> sorted (map fst (map bundle_slice (sort_key offset_key bs)))"
proof -
  assume "list_all (\<lambda>b. fragment_offset (primary_block b) \<noteq> None) bs"
  then have "map fst (map bundle_slice (sort_key offset_key bs)) = map unat (map offset_key (sort_key offset_key bs))"
    by (auto simp: list_all_iff bundle_slice_def offset_key_def)
  moreover have "sorted (map unat (map offset_key (sort_key offset_key bs)))"
    using sorted_sort_key [of offset_key bs]
    by (simp add: sorted_iff_nth_mono word_le_nat_alt)
  ultimately show ?thesis by (simp only:)
qed

lemma fragment_ok_header:
  assumes "fragment_ok h xs b"
  shows "bundle_processing_flags (primary_block b) = bundle_processing_flags h"
    "total_data_length (primary_block b) = total_data_length h"
    "(primary_block b)\<lparr>fragment_offset := None\<rparr> = h\<lparr>fragment_offset := None\<rparr>"
proof -
  obtain off where "primary_block b = h\<lparr>fragment_offset := off\<rparr>"
    using assms by (auto simp: fragment_ok_def)
  then show "bundle_processing_flags (primary_block b) = bundle_processing_flags h"
    "total_data_length (primary_block b) = total_data_length h"
    "(primary_block b)\<lparr>fragment_offset := None\<rparr> = h\<lparr>fragment_offset := None\<rparr>"
    by simp_all
qed

lemma sort_by_fragment_offset_Ok:
  "list_all (\<lambda>b. fragment_offset (primary_block b) \<noteq> None) bs
   \<Longrightarrow> sort_by_fragment_offset bs = Ok (sort_key offset_key bs)"
  by (auto simp: sort_by_fragment_offset_def offset_key_def [abs_def] list_all_iff list_ex_iff)

lemma scan_Some_hd: "scan 0 (s # ss) = Some n \<Longrightarrow> fst s = 0"
  by (simp split: if_splits)

lemma scan_sorted_fragments:
  assumes frags: "\<And>b. b \<in> set bs \<Longrightarrow> fragment_ok h xs b"
  shows "scan 0 (map bundle_slice (sort_key offset_key bs)) = Some (length xs)
         \<longleftrightarrow> covers (map bundle_slice bs) (length xs)"
    "scan 0 (map bundle_slice (sort_key offset_key bs)) = Some n \<Longrightarrow> n \<le> length xs"
proof -
  let ?ss = "sort_key offset_key bs"
  have some: "list_all (\<lambda>b. fragment_offset (primary_block b) \<noteq> None) bs"
    using frags by (auto simp: list_all_iff fragment_ok_def)
  have inside: "fst s + length (snd s) \<le> length xs" if "s \<in> set (map bundle_slice ?ss)" for s
    using that frags by (auto simp: fragment_ok_def slice_of_def)
  show "scan 0 (map bundle_slice ?ss) = Some (length xs) \<longleftrightarrow> covers (map bundle_slice bs) (length xs)"
    using scan_iff_covers [OF sorted_slices [OF some] inside] by (simp add: covers_iff)
  show "n \<le> length xs" if "scan 0 (map bundle_slice ?ss) = Some n"
    using scan_bound [OF inside _ that] by simp
qed

lemma can_reassemble_covers:
  assumes ne: "bs \<noteq> []" and frags: "\<And>b. b \<in> set bs \<Longrightarrow> fragment_ok h xs b" and header: "header_ok h xs"
  shows "can_reassemble_bundles bs
         = Ok (covers (map bundle_slice bs) (length xs), sort_key offset_key bs)"
proof -
  let ?ss = "sort_key offset_key bs"
  have len: "length xs < 2 ^ 64"
    using header by (auto simp: header_ok_def)
  have some: "list_all (\<lambda>b. fragment_offset (primary_block b) \<noteq> None) bs"
    using frags by (auto simp: list_all_iff fragment_ok_def)
  have same: "list_all (\<lambda>b. equals_ignoring_fragment_offset (primary_block (hd bs)) (primary_block b)) bs"
    using frags [THEN fragment_ok_header(3)] ne
    by (simp add: list_all_iff equals_ignoring_fragment_offset_def)
  have fst: "contains (bundle_processing_flags (primary_block (hd bs))) FRAGMENT"
      "total_data_length (primary_block (hd bs)) = Some (of_nat (length xs))"
    using fragment_ok_header [of h xs "hd bs"] frags ne header by (simp_all add: header_ok_def)
  obtain b rest where ss: "?ss = b # rest"
    using ne by (metis length_0_conv length_sort neq_Nil_conv)
  have b: "b \<in> set bs"
    using ss by (metis list.set_intros(1) set_sort)
  then obtain off where off: "fragment_offset (primary_block b) = Some off" "fst (bundle_slice b) = unat off"
    using frags fragment_okD len by metis
  have frags': "fragment_ok h xs b" if "b \<in> set ?ss" for b
    using that frags by simp
  note cov = scan_sorted_fragments(1) [of bs, OF frags] and bound = scan_sorted_fragments(2) [of bs, OF frags]
  have "(case map_option of_nat (scan 0 (map bundle_slice ?ss)) of None \<Rightarrow> False
      | Some n \<Rightarrow> n = (of_nat (length xs) :: u64)) \<longleftrightarrow> scan 0 (map bundle_slice ?ss) = Some (length xs)"
    using bound len by (auto split: option.split simp: word_of_nat_eq_iff take_bit_nat_eq_self)
  moreover have "off = 0" if "covers (map bundle_slice bs) (length xs)"
  proof -
    have "scan 0 (bundle_slice b # map bundle_slice rest) = Some (length xs)"
      using that cov ss by simp
    then have "unat off = 0"
      using scan_Some_hd off(2) by metis
    then show ?thesis by (simp add: word_unat_eq_iff)
  qed
  moreover have "hd ?ss = b"
    using ss by simp
  moreover note cl = covered_length_scan [of ?ss h xs 0, OF frags' len, simplified]
  ultimately show ?thesis
    using ne fst same off(1) cov
    by (auto simp: can_reassemble_bundles_def Let_def sort_by_fragment_offset_Ok [OF some] cl)
qed

subsection \<open>Putting the payload together\<close>

lemma extend_data_assemble:
  assumes "\<And>b. b \<in> set bs \<Longrightarrow> fragment_ok h xs b" and len: "length xs < 2 ^ 64"
    and "length d \<le> length xs" and "scan (length d) (map bundle_slice bs) \<noteq> None"
  shows "extend_data d bs = Ok (assemble d (map bundle_slice bs))"
  using assms(1,3,4)
proof (induction bs arbitrary: d)
  case (Cons b bs)
  from Cons.prems(1) have "fragment_ok h xs b" by simp
  then obtain off where off: "fragment_offset (primary_block b) = Some off"
      "has_payload b" "fst (bundle_slice b) = unat off" "snd (bundle_slice b) = payload_of b"
    and le: "unat off + length (payload_of b) \<le> length xs"
    and sum: "unat (off + of_nat (length (payload_of b)) :: u64) = unat off + length (payload_of b)"
    using len by (rule fragment_okD)
  let ?e = "unat off + length (payload_of b)" and ?start = "length d - unat off"
  have start: "unat off \<le> length d" and sc: "scan (max (length d) ?e) (map bundle_slice bs) \<noteq> None"
    using Cons.prems(3) off by (auto split: if_splits)
  have sub: "unat (of_nat (length d) - off :: u64) = ?start"
    using start Cons.prems(2) len
    by (simp add: unat_sub_if' unat_u64_of_nat)
  show ?case
  proof (cases "?e < length d")
    case True
    then show ?thesis
      using Cons.IH [of d] Cons.prems off sum sc by (simp add: payload_block_eq max_def)
  next
    case False
    let ?d = "d @ drop ?start (payload_of b)"
    have "length ?d = ?e"
      using False start by simp
    then have "length ?d \<le> length xs" "scan (length ?d) (map bundle_slice bs) \<noteq> None"
      using False le sc by (simp_all only: max_def split: if_splits) simp
    with Cons.IH [of ?d] Cons.prems(1) show ?thesis
      using False off sum sub start by (auto simp: payload_block_eq Let_def)
  qed
qed simp

definition unfragmented :: "PrimaryBlock \<Rightarrow> PrimaryBlock" where
  "unfragmented h = h\<lparr>bundle_processing_flags := remove_flags (bundle_processing_flags h) FRAGMENT,
     fragment_offset := None, total_data_length := None\<rparr>"

text \<open>The first fragment gives the header and the blocks of the result.\<close>

definition reassembled :: "Bundle \<Rightarrow> bytes \<Rightarrow> Bundle" where
  "reassembled main xs = main\<lparr>primary_block := unfragmented (primary_block main),
     blocks := map (set_payload_data xs) (blocks main)\<rparr>"

lemma payload_block_primary [simp]: "payload_block (b\<lparr>primary_block := p\<rparr>) = payload_block b"
  by (simp add: payload_block_def payload_canonical_block_def)

lemma reassemble_covers:
  assumes ne: "bs \<noteq> []" and frags: "\<And>b. b \<in> set bs \<Longrightarrow> fragment_ok h xs b" and header: "header_ok h xs"
    and cov: "covers (map bundle_slice bs) (length xs)"
  shows "reassemble_bundles enc bs = Bundle_to_vec enc (reassembled (hd (sort_key offset_key bs)) xs)"
proof -
  let ?ss = "sort_key offset_key bs"
  have len: "length xs < 2 ^ 64"
    using header by (auto simp: header_ok_def)
  obtain main rest where ss: "?ss = main # rest"
    using ne by (metis length_0_conv length_sort neq_Nil_conv)
  have sub: "set (main # rest) = set bs"
    using ss by (metis set_sort)
  then have main: "fragment_ok h xs main" and rest: "\<And>b. b \<in> set rest \<Longrightarrow> fragment_ok h xs b"
    using frags by auto
  have "scan 0 (map bundle_slice ?ss) = Some (length xs)"
    using cov scan_sorted_fragments(1) [OF frags] by simp
  then have zero: "fst (bundle_slice main) = 0"
    and sc: "scan (length (payload_of main)) (map bundle_slice rest) = Some (length xs)"
    using ss by (auto simp: bundle_slice_def split: if_splits)
  have "has_payload main" and sl: "slice_of xs (bundle_slice main)"
    and total: "total_data_length (primary_block main) = Some (of_nat (length xs))"
    using main header fragment_ok_header(2) [OF main] by (simp_all add: fragment_ok_def header_ok_def)
  have pre: "payload_of main = take (length (payload_of main)) xs" "length (payload_of main) \<le> length xs"
    using sl zero by (simp_all add: slice_of_def bundle_slice_def)
  have "slice_of xs s" if "s \<in> set (map bundle_slice rest)" for s
    using that rest by (auto simp: fragment_ok_def)
  from assemble_take [OF this pre(2) sc] pre(1)
  have "assemble (payload_of main) (map bundle_slice rest) = xs"
    by simp
  then have "extend_data (payload_of main) rest = (Ok xs :: (bytes, Bundle list) result)"
    using extend_data_assemble [of rest, OF rest len pre(2)] sc by simp
  then show ?thesis
    using total \<open>has_payload main\<close> ss cov
    by (simp add: can_reassemble_covers [OF ne frags header] reassemble_bundles_def Let_def payload_block_eq reassembled_def unfragmented_def)
qed

lemma reassemble_incomplete:
  assumes ne: "bs \<noteq> []" and frags: "\<And>b. b \<in> set bs \<Longrightarrow> fragment_ok h xs b" and header: "header_ok h xs"
    and cov: "\<not> covers (map bundle_slice bs) (length xs)"
  shows "reassemble_bundles enc bs = Err (sort_key offset_key bs)"
  using cov by (simp add: reassemble_bundles_def can_reassemble_covers [OF ne frags header])

end
