(* ===== verification/Cbor.thy ===== *)
theory Cbor
  imports Serde
begin

text \<open>
  An encoder and a decoder for the part of CBOR (RFC 8949) that the values of theory \<open>Serde\<close>
  use. They are not a model of the third-party crate \<open>serde_cbor\<close>: they show that the interface
  the \<open>bp7\<close> theories are stated over can be met, and the witnesses of the development run on
  them, byte for byte against the vectors of the repository's own tests.
\<close>

section \<open>Encoding\<close>

text \<open>The head of a data item: major type and argument, in the shortest form.\<close>

definition head_byte :: "nat \<Rightarrow> nat \<Rightarrow> u8" where
  "head_byte m a = of_nat (32 * m + a)"

definition encode_head :: "nat \<Rightarrow> nat \<Rightarrow> bytes" where
  "encode_head m n =
     (if n < 24 then [head_byte m n]
      else if n < 256 then head_byte m 24 # be_bytes 1 n
      else if n < 65536 then head_byte m 25 # be_bytes 2 n
      else if n < 2 ^ 32 then head_byte m 26 # be_bytes 4 n
      else head_byte m 27 # be_bytes 8 n)"

fun encode :: "cbor \<Rightarrow> bytes" where
  "encode (CUnsigned v) = encode_head 0 (unat v)"
| "encode (CNegative v) = encode_head 1 (unat v)"
| "encode (CBytes b) = encode_head 2 (length b) @ b"
| "encode (CText s) = encode_head 3 (length s) @ as_bytes s"
| "encode (CArray True xs) = encode_head 4 (length xs) @ concat (map encode xs)"
| "encode (CArray False xs) = 0x9F # concat (map encode xs) @ [0xFF]"
| "encode (CMap xs) = encode_head 5 (length xs div 2) @ concat (map encode xs)"
| "encode (CBool b) = [if b then 0xF5 else 0xF4]"
| "encode CNull = [0xF6]"

section \<open>Decoding\<close>

text \<open>A run of \<open>k\<close> bytes.\<close>

definition take_bytes :: "nat \<Rightarrow> bytes \<Rightarrow> (bytes \<times> bytes) option" where
  "take_bytes k bs = (if k \<le> length bs then Some (take k bs, drop k bs) else None)"

lemma take_bytes_append [simp]: "length a = k \<Longrightarrow> take_bytes k (a @ b) = Some (a, b)"
  by (auto simp: take_bytes_def)

text \<open>The argument of a head whose additional information is \<open>a\<close>.\<close>

definition decode_argument :: "nat \<Rightarrow> bytes \<Rightarrow> (nat \<times> bytes) option" where
  "decode_argument a r =
     (if a < 24 then Some (a, r)
      else if a = 24 then map_option (\<lambda>(x, s). (be_nat x, s)) (take_bytes 1 r)
      else if a = 25 then map_option (\<lambda>(x, s). (be_nat x, s)) (take_bytes 2 r)
      else if a = 26 then map_option (\<lambda>(x, s). (be_nat x, s)) (take_bytes 4 r)
      else if a = 27 then map_option (\<lambda>(x, s). (be_nat x, s)) (take_bytes 8 r)
      else None)"

text \<open>Fuel bounds the recursion; \<open>from_slice_cbor\<close> supplies twice the input length and one, which is
  enough for every encoding (\<open>decode_encode\<close> and \<open>item_fuel_le\<close> below).\<close>

fun decode_item :: "nat \<Rightarrow> bytes \<Rightarrow> (cbor \<times> bytes) option"
and decode_items :: "nat \<Rightarrow> nat \<Rightarrow> bytes \<Rightarrow> (cbor list \<times> bytes) option"
and decode_until_break :: "nat \<Rightarrow> bytes \<Rightarrow> (cbor list \<times> bytes) option" where
  "decode_item 0 bs = None"
| "decode_item (Suc f) [] = None"
| "decode_item (Suc f) (b # r) =
     (if b = 0x9F then map_option (\<lambda>(xs, s). (CArray False xs, s)) (decode_until_break f r)
      else if b = 0xF4 then Some (CBool False, r)
      else if b = 0xF5 then Some (CBool True, r)
      else if b = 0xF6 then Some (CNull, r)
      else case decode_argument (unat b mod 32) r of
        None \<Rightarrow> None
      | Some (n, s) \<Rightarrow>
          (if unat b div 32 = 0 then Some (CUnsigned (of_nat n), s)
           else if unat b div 32 = 1 then Some (CNegative (of_nat n), s)
           else if unat b div 32 = 2 then map_option (\<lambda>(x, t). (CBytes x, t)) (take_bytes n s)
           else if unat b div 32 = 3 then
             (case take_bytes n s of
                None \<Rightarrow> None
              | Some (x, t) \<Rightarrow> if utf8_valid x then Some (CText (from_bytes x), t) else None)
           else if unat b div 32 = 4 then map_option (\<lambda>(xs, t). (CArray True xs, t)) (decode_items f n s)
           else if unat b div 32 = 5 then map_option (\<lambda>(xs, t). (CMap xs, t)) (decode_items f (2 * n) s)
           else None))"
| "decode_items 0 n bs = None"
| "decode_items (Suc f) 0 bs = Some ([], bs)"
| "decode_items (Suc f) (Suc n) bs =
     (case decode_item f bs of
        None \<Rightarrow> None
      | Some (x, s) \<Rightarrow> map_option (\<lambda>(xs, t). (x # xs, t)) (decode_items f n s))"
| "decode_until_break 0 bs = None"
| "decode_until_break (Suc f) [] = None"
| "decode_until_break (Suc f) (b # r) =
     (if b = 0xFF then Some ([], r)
      else case decode_item f (b # r) of
        None \<Rightarrow> None
      | Some (x, s) \<Rightarrow> map_option (\<lambda>(xs, t). (x # xs, t)) (decode_until_break f s))"

definition from_slice_cbor :: "bytes \<Rightarrow> cbor option" where
  "from_slice_cbor bs =
     (case decode_item (2 * length bs + 1) bs of Some (v, []) \<Rightarrow> Some v | _ \<Rightarrow> None)"

section \<open>Decoding inverts encoding\<close>

lemma encode_head_cases:
  assumes "n < 2 ^ 64"
  obtains a bs where "encode_head m n = head_byte m a # bs" "a < 28"
    "\<And>r. decode_argument a (bs @ r) = Some (n, r)"
proof -
  consider "n < 24" | "24 \<le> n" "n < 256" | "256 \<le> n" "n < 65536" | "65536 \<le> n" "n < 2 ^ 32" | "2 ^ 32 \<le> n"
    by linarith
  then show thesis
  proof cases
    case 1
    then show ?thesis by (intro that [of n "[]"]) (simp_all add: encode_head_def decode_argument_def)
  next
    case 2
    then show ?thesis
      by (intro that [of 24 "be_bytes 1 n"]) (simp_all add: encode_head_def decode_argument_def del: be_bytes.simps be_bytes_numeral)
  next
    case 3
    then show ?thesis
      by (intro that [of 25 "be_bytes 2 n"]) (simp_all add: encode_head_def decode_argument_def del: be_bytes.simps be_bytes_numeral)
  next
    case 4
    then show ?thesis
      by (intro that [of 26 "be_bytes 4 n"]) (simp_all add: encode_head_def decode_argument_def del: be_bytes.simps be_bytes_numeral)
  next
    case 5
    then show ?thesis
      using assms
      by (intro that [of 27 "be_bytes 8 n"]) (simp_all add: encode_head_def decode_argument_def del: be_bytes.simps be_bytes_numeral)
  qed
qed

lemma unat_head_byte: "m < 7 \<Longrightarrow> a < 28 \<Longrightarrow> unat (head_byte m a) = 32 * m + a"
  unfolding head_byte_def by (rule unat_u8_of_nat) simp

lemma head_byte_neq:
  assumes "m < 7" "a < 28" "32 * m + a \<noteq> unat w"
  shows "head_byte m a \<noteq> w"
  using assms unat_head_byte [of m a] by metis

lemma head_byte_simps:
  assumes "m < 7" "a < 28"
  shows "unat (head_byte m a) div 32 = m" "unat (head_byte m a) mod 32 = a"
    and "head_byte m a \<noteq> 0x9F" "head_byte m a \<noteq> 0xF4" "head_byte m a \<noteq> 0xF5"
    and "head_byte m a \<noteq> 0xF6" "head_byte m a \<noteq> 0xFF"
proof -
  show "unat (head_byte m a) div 32 = m" "unat (head_byte m a) mod 32 = a"
    using assms by (simp_all add: unat_head_byte)
  have "32 * m + a \<noteq> 159" using assms by presburger
  then show "head_byte m a \<noteq> 0x9F" using assms by (intro head_byte_neq) simp_all
  show "head_byte m a \<noteq> 0xF4" "head_byte m a \<noteq> 0xF5" "head_byte m a \<noteq> 0xF6" "head_byte m a \<noteq> 0xFF"
    using assms by (intro head_byte_neq; simp)+
qed

lemma decode_item_head:
  assumes "m < 7" "n < 2 ^ 64"
  shows "decode_item (Suc f) (encode_head m n @ r) =
     (if m = 0 then Some (CUnsigned (of_nat n), r)
      else if m = 1 then Some (CNegative (of_nat n), r)
      else if m = 2 then map_option (\<lambda>(x, t). (CBytes x, t)) (take_bytes n r)
      else if m = 3 then
        (case take_bytes n r of
           None \<Rightarrow> None
         | Some (x, t) \<Rightarrow> if utf8_valid x then Some (CText (from_bytes x), t) else None)
      else if m = 4 then map_option (\<lambda>(xs, t). (CArray True xs, t)) (decode_items f n r)
      else if m = 5 then map_option (\<lambda>(xs, t). (CMap xs, t)) (decode_items f (2 * n) r)
      else None)"
proof -
  obtain a bs where h: "encode_head m n = head_byte m a # bs" "a < 28"
    "\<And>r. decode_argument a (bs @ r) = Some (n, r)"
    using assms(2) by (rule encode_head_cases [where m = m]) blast
  show ?thesis
    using assms(1) h(2) by (simp add: h(1,3) head_byte_simps)
qed

lemma encode_head_Cons:
  assumes "m < 7" "n < 2 ^ 64"
  shows "\<exists>b bs. encode_head m n = b # bs \<and> b \<noteq> 0xFF"
proof -
  obtain a bs where h: "encode_head m n = head_byte m a # bs" "a < 28"
    using assms(2) by (rule encode_head_cases [where m = m]) blast
  then show ?thesis using assms(1) head_byte_simps(7) by blast
qed

lemma length_encode_head: "length (encode_head m n) = head_size n"
  by (simp add: encode_head_def head_size_def del: be_bytes.simps be_bytes_numeral)

lemma encode_Cons: "cbor_ok v \<Longrightarrow> \<exists>b bs. encode v = b # bs \<and> b \<noteq> 0xFF"
proof (cases v)
  case (CArray d xs)
  assume "cbor_ok v"
  then show ?thesis using encode_head_Cons [of 4 "length xs"] CArray by (cases d) auto
next
  case (CMap xs)
  assume "cbor_ok v"
  then have "length xs div 2 < 2 ^ 64" using CMap by (auto intro: le_less_trans [OF div_le_dividend])
  then show ?thesis using encode_head_Cons [of 5 "length xs div 2"] CMap by auto
next
  case (CBytes b)
  assume "cbor_ok v"
  then show ?thesis using encode_head_Cons [of 2 "length b"] CBytes by auto
next
  case (CText s)
  assume "cbor_ok v"
  then show ?thesis using encode_head_Cons [of 3 "length s"] CText by auto
qed (use encode_head_Cons [of 0] encode_head_Cons [of 1] unat_u64_less in auto)

text \<open>The fuel an item needs, and the one a list of items needs.\<close>

fun list_fuel :: "nat list \<Rightarrow> nat" where
  "list_fuel [] = 1"
| "list_fuel (n # ns) = Suc (max n (list_fuel ns))"

fun item_fuel :: "cbor \<Rightarrow> nat" where
  "item_fuel (CArray _ xs) = Suc (list_fuel (map item_fuel xs))"
| "item_fuel (CMap xs) = Suc (list_fuel (map item_fuel xs))"
| "item_fuel _ = 1"

lemma decode_items_encode:
  assumes "\<And>x f r. x \<in> set xs \<Longrightarrow> item_fuel x \<le> f \<Longrightarrow> decode_item f (encode x @ r) = Some (x, r)"
    and "list_fuel (map item_fuel xs) \<le> f"
  shows "decode_items f (length xs) (concat (map encode xs) @ r) = Some (xs, r)"
  using assms
proof (induction xs arbitrary: f r)
  case Nil
  then show ?case by (cases f) auto
next
  case (Cons x xs)
  then show ?case by (cases f) auto
qed

lemma decode_until_break_encode:
  assumes "\<And>x f r. x \<in> set xs \<Longrightarrow> item_fuel x \<le> f \<Longrightarrow> decode_item f (encode x @ r) = Some (x, r)"
    and "list_all cbor_ok xs"
    and "list_fuel (map item_fuel xs) \<le> f"
  shows "decode_until_break f (concat (map encode xs) @ 0xFF # r) = Some (xs, r)"
  using assms
proof (induction xs arbitrary: f r)
  case Nil
  then show ?case by (cases f) auto
next
  case (Cons x xs)
  obtain b bs where x: "encode x = b # bs" "b \<noteq> 0xFF"
    using Cons.prems(2) encode_Cons [of x] by auto
  obtain g where f: "f = Suc g" using Cons.prems(3) by (cases f) auto
  have "decode_item g (encode x @ s) = Some (x, s)" for s
    using Cons.prems f by auto
  from this [of "concat (map encode xs) @ 0xFF # r"] show ?case
    using Cons x f by simp
qed

theorem decode_encode:
  "cbor_ok v \<Longrightarrow> item_fuel v \<le> f \<Longrightarrow> decode_item f (encode v @ r) = Some (v, r)"
proof (induction v arbitrary: f r)
  case (CArray d xs)
  then obtain g where f: "f = Suc g" "list_fuel (map item_fuel xs) \<le> g" by (cases f) auto
  have ih: "decode_item h (encode x @ s) = Some (x, s)" if "x \<in> set xs" "item_fuel x \<le> h" for x h s
    using CArray that by (auto simp: list_all_iff)
  show ?case
  proof (cases d)
    case True
    then show ?thesis
      using CArray.prems f decode_items_encode [OF ih f(2)] by (simp add: decode_item_head)
  next
    case False
    then show ?thesis
      using CArray.prems f decode_until_break_encode [OF ih _ f(2)] by simp
  qed
next
  case (CMap xs)
  then obtain g where f: "f = Suc g" "list_fuel (map item_fuel xs) \<le> g" by (cases f) auto
  have ih: "decode_item h (encode x @ s) = Some (x, s)" if "x \<in> set xs" "item_fuel x \<le> h" for x h s
    using CMap that by (auto simp: list_all_iff)
  have "length xs div 2 < 2 ^ 64"
    using CMap.prems by (auto intro: le_less_trans [OF div_le_dividend])
  then show ?case
    using CMap.prems f decode_items_encode [OF ih f(2)] by (simp add: decode_item_head)
next
  case (CText s)
  then show ?case by (cases f) (auto simp: decode_item_head rust_string_def)
qed (auto simp: decode_item_head gr0_conv_Suc Suc_le_eq)

lemma length_encode: "cbor_ok v \<Longrightarrow> length (encode v) = cbor_size v"
proof (induction v)
  case (CArray d xs)
  then have "sum_list (map (length \<circ> encode) xs) = sum_list (map cbor_size xs)"
    by (intro arg_cong [where f = sum_list]) (auto simp: list_all_iff)
  then show ?case by (cases d) (simp_all add: length_encode_head length_concat)
next
  case (CMap xs)
  then have "sum_list (map (length \<circ> encode) xs) = sum_list (map cbor_size xs)"
    by (intro arg_cong [where f = sum_list]) (auto simp: list_all_iff)
  then show ?case by (simp add: length_encode_head length_concat)
qed (simp_all add: length_encode_head)

lemma list_fuel_le:
  "(\<And>x. x \<in> set xs \<Longrightarrow> item_fuel x \<le> 2 * cbor_size x \<and> 1 \<le> cbor_size x) \<Longrightarrow>
   list_fuel (map item_fuel xs) \<le> 1 + 2 * sum_list (map cbor_size xs)"
proof (induction xs)
  case (Cons x xs)
  then have "item_fuel x \<le> 2 * cbor_size x" "1 \<le> cbor_size x"
    "list_fuel (map item_fuel xs) \<le> 1 + 2 * sum_list (map cbor_size xs)" by auto
  then show ?case by simp
qed simp

lemma cbor_size_pos: "1 \<le> cbor_size v"
proof (cases v)
  case (CArray d xs)
  then show ?thesis using head_size_pos [of "length xs"] by (cases d) (auto simp: trans_le_add1)
qed (use head_size_pos in \<open>auto simp: trans_le_add1\<close>)

lemma item_fuel_le: "item_fuel v \<le> 2 * cbor_size v"
proof (induction v)
  case (CArray d xs)
  then have "list_fuel (map item_fuel xs) \<le> 1 + 2 * sum_list (map cbor_size xs)"
    using cbor_size_pos by (intro list_fuel_le) auto
  then show ?case using head_size_pos [of "length xs"] by (cases d) auto
next
  case (CMap xs)
  then have "list_fuel (map item_fuel xs) \<le> 1 + 2 * sum_list (map cbor_size xs)"
    using cbor_size_pos by (intro list_fuel_le) auto
  then show ?case using head_size_pos [of "length xs div 2"] by auto
qed (use head_size_pos in \<open>auto simp: trans_le_add1 Suc_le_eq\<close>)

lemma from_slice_cbor_encode: "cbor_ok v \<Longrightarrow> from_slice_cbor (encode v) = Some v"
  using decode_encode [of v "2 * length (encode v) + 1" "[]"] item_fuel_le [of v]
  by (simp add: from_slice_cbor_def length_encode)

section \<open>The codec meets the interface\<close>

interpretation rfc8949: serde_cbor_sized encode from_slice_cbor
  by unfold_locales (simp_all add: from_slice_cbor_encode length_encode)

end
