(* ===== verification/Examples.thy ===== *)
theory Examples
  imports Reassembly Cbor "HOL-Library.Code_Target_Nat"
begin

text \<open>
  Concrete bundles on which the properties of the development are evaluated, together with the
  RFC 8949 codec of theory \<open>Cbor\<close>.
\<close>

definition example_primary :: PrimaryBlock where
  "example_primary = \<lparr>version = 7, bundle_processing_flags = 0, crc = NoCRC,
     destination_endpoint = DTN \<lparr>uri = ''//node2/in''\<rparr>,
     source_node = DTN \<lparr>uri = ''//node1/''\<rparr>, report_to = DTN \<lparr>uri = ''//node1/''\<rparr>,
     creation_timestamp = \<lparr>creation_time = 1000, sequence_number = 1\<rparr>, lifetime = 3600,
     fragment_offset = None, total_data_length = None\<rparr>"

definition example_payload :: "bytes \<Rightarrow> CanonicalBlock" where
  "example_payload bs = \<lparr>block = Payload \<lparr>data = bs\<rparr>, block_number = 1, block_flags = 0, block_crc = NoCRC\<rparr>"

definition example_hop_count :: CanonicalBlock where
  "example_hop_count = \<lparr>block = HopCount \<lparr>limit = 32, hop_count = 3\<rparr>, block_number = 2, block_flags = 1,
     block_crc = NoCRC\<rparr>"

definition example_bundle :: Bundle where
  "example_bundle = \<lparr>primary_block = example_primary,
     blocks = [example_hop_count, example_payload [1, 2, 3, 4, 5]]\<rparr>"

text \<open>A bundle of more than 265 bytes, and a fragment of a payload of 300 bytes.\<close>

definition example_data :: bytes where
  "example_data = replicate 200 7"

definition example_large :: Bundle where
  "example_large = \<lparr>primary_block = example_primary, blocks = [example_hop_count, example_payload example_data]\<rparr>"

definition example_fragment_header :: PrimaryBlock where
  "example_fragment_header = example_primary\<lparr>bundle_processing_flags := 1, total_data_length := Some 300\<rparr>"

definition example_fragment :: Bundle where
  "example_fragment = \<lparr>primary_block = example_fragment_header\<lparr>fragment_offset := Some 50\<rparr>,
     blocks = [example_payload example_data]\<rparr>"

text \<open>Fragments of a payload of ten bytes: the first list has a gap, the second an overlap.\<close>

definition example_ten :: bytes where
  "example_ten = [0, 1, 2, 3, 4, 5, 6, 7, 8, 9]"

definition example_piece_header :: PrimaryBlock where
  "example_piece_header = example_primary\<lparr>bundle_processing_flags := 1, total_data_length := Some 10\<rparr>"

definition example_piece :: "nat \<Rightarrow> nat \<Rightarrow> Bundle" where
  "example_piece off n =
     \<lparr>primary_block = example_piece_header\<lparr>fragment_offset := Some (of_nat off)\<rparr>,
      blocks = [example_payload (take n (drop off example_ten))]\<rparr>"

definition example_incomplete :: "Bundle list" where
  "example_incomplete = [example_piece 6 4, example_piece 0 5]"

definition example_complete :: "Bundle list" where
  "example_complete = [example_piece 6 4, example_piece 0 5, example_piece 3 4]"

lemma example_bundle_wf: "bundle_wf encode example_bundle"
  by code_simp

lemma example_pieces_ok:
  "example_incomplete \<noteq> []" "example_complete \<noteq> []"
  "list_all (fragment_ok example_piece_header example_ten) example_incomplete"
  "list_all (fragment_ok example_piece_header example_ten) example_complete"
  "header_ok example_piece_header example_ten"
  by (simp add: example_incomplete_def, simp add: example_complete_def, code_simp+)

lemma example_pieces_covers:
  "\<not> covers (map bundle_slice example_incomplete) (length example_ten)"
  "covers (map bundle_slice example_complete) (length example_ten)"
  by code_simp+

lemma example_pieces_sorted:
  "sort_key offset_key example_incomplete = [example_piece 0 5, example_piece 6 4]"
  "sort_key offset_key example_complete = [example_piece 0 5, example_piece 3 4, example_piece 6 4]"
  by code_simp+

end
