(* ===== verification/Bundle_Results.thy ===== *)
theory Bundle_Results
  imports Admin_Record Parser_Safety Examples
begin

text \<open>
  The main results on the data of the \<open>bp7\<close> crate: bundles, administrative records, endpoints and times
  survive writing and reading, what makes the parser panic and what does not, and the updates a node
  makes to a bundle it forwards.
\<close>

section \<open>Bytes\<close>

text \<open>C9. A well-formed bundle survives being written and read: for every CBOR codec that reads back
  what it wrote, parsing the bytes of the bundle gives the bundle.\<close>

theorem bundle_bytes_roundtrip:
  assumes "serde_cbor enc dec" and "bundle_wf enc b"
  shows "and_then (Bundle_to_vec enc b) (Bundle_try_from dec) = Ok b"
  using assms by (rule Bundle_roundtrip)

theorem bundle_bytes_roundtrip_witness:
  "and_then (Bundle_to_vec encode example_bundle) (Bundle_try_from from_slice_cbor) = Ok example_bundle"
  by (rule bundle_bytes_roundtrip [OF rfc8949.serde_cbor_axioms example_bundle_wf])

lemma read_blocks_crc:
  assumes codec: "serde_cbor enc dec"
  shows "list_all (\<lambda>c. block_content_wf (block c) \<and> known_bits BlockFlags_all (block_flags c)
            \<and> length (block_bytes enc (block c)) < 2 ^ 64) bs
     \<Longrightarrow> list_ex (\<lambda>c. block_crc c \<noteq> NoCRC) bs
     \<Longrightarrow> read_blocks dec (map (serialize_CanonicalBlock enc) bs) = Err InvalidType"
proof (induction bs)
  case (Cons c bs)
  show ?case
  proof (cases "block_crc c = NoCRC")
    case True
    then have "deserialize_CanonicalBlock dec (serialize_CanonicalBlock enc c) = Ok c"
      using Cons.prems by (intro serde_type.de_ser [OF canonical_block_serde [OF codec]]) (simp add: block_wf_def)
    then show ?thesis using True Cons by simp
  next
    case False
    then show ?thesis
      using Cons.prems deserialize_CanonicalBlock_crc [OF codec] by simp
  qed
qed simp

lemma canonical_block_depth: "cbor_depth (serialize_CanonicalBlock enc c) \<le> 2"
  by (auto simp: serialize_CanonicalBlock_def serialize_Block_bytes serialize_BlockFlags_def
      intro!: foldr_max_le)

lemma primary_depth: "primary_wf pb \<Longrightarrow> cbor_depth (primary_cbor pb) \<le> 3"
  using endpoint.ser_depth creation_timestamp.ser_depth [of "creation_timestamp pb"]
  by (fastforce simp: primary_cbor_def primary_wf_def serialize_BundleFlags_def
      intro!: foldr_max_le split: option.splits)

text \<open>C15. A bundle with a checksum in its primary block or in any canonical block can be written but
  not read back: parsing its bytes fails.\<close>

theorem bundle_with_crc_unreadable:
  assumes codec: "serde_cbor enc dec" and wf: "primary_wf (primary_block b)" "cbor_ok (bundle_cbor enc b)"
    and blocks: "list_all (\<lambda>c. block_content_wf (block c) \<and> known_bits BlockFlags_all (block_flags c)) (blocks b)"
    and crc: "crc (primary_block b) \<noteq> NoCRC \<or> list_ex (\<lambda>c. block_crc c \<noteq> NoCRC) (blocks b)"
  shows "and_then (Bundle_to_vec enc b) (Bundle_try_from dec) = Err (SerializationError InvalidType)"
proof -
  have "d \<le> 3" if "d \<in> set (map cbor_depth (primary_cbor (primary_block b)
      # map (serialize_CanonicalBlock enc) (blocks b)))" for d
    using that primary_depth [OF wf(1)] order_trans [OF canonical_block_depth, of 3] by auto
  then have "foldr max (map cbor_depth (primary_cbor (primary_block b)
      # map (serialize_CanonicalBlock enc) (blocks b))) 0 \<le> 3"
    by (rule foldr_max_le)
  then have "cbor_depth (bundle_cbor enc b) < 128"
    by (simp add: bundle_cbor_def)
  then have "dec (enc (bundle_cbor enc b)) = Some (bundle_cbor enc b)"
    using codec wf(2) by (simp add: serde_cbor.from_slice_to_vec)
  moreover have "deserialize_Bundle dec (bundle_cbor enc b) = Err InvalidType"
  proof (cases "crc (primary_block b) = NoCRC")
    case True
    have "list_all (\<lambda>c. block_content_wf (block c) \<and> known_bits BlockFlags_all (block_flags c)
            \<and> length (block_bytes enc (block c)) < 2 ^ 64) (blocks b)"
      using blocks wf(2) by (auto simp: list_all_iff bundle_cbor_def serialize_CanonicalBlock_def serialize_Block_bytes)
    then show ?thesis
      using True crc read_blocks_crc [OF codec] deserialize_primary_cbor [OF wf(1) True]
      by (simp add: deserialize_Bundle_def visit_Bundle_def bundle_cbor_def)
  next
    case False
    then show ?thesis
      by (simp add: deserialize_Bundle_def visit_Bundle_def bundle_cbor_def
          deserialize_primary_cbor_crc [OF wf(1)])
  qed
  ultimately show ?thesis
    by (simp add: Bundle_to_vec_Ok [OF wf(1)] Bundle_try_from_def from_slice_with_def)
qed

definition example_crc_bundle :: Bundle where
  "example_crc_bundle = \<lparr>primary_block = example_primary,
     blocks = [(example_payload [1, 2, 3])\<lparr>block_crc := CRC16 (1, 2)\<rparr>]\<rparr>"

theorem bundle_with_crc_unreadable_witness:
  "and_then (Bundle_to_vec encode example_crc_bundle) (Bundle_try_from from_slice_cbor)
   = Err (SerializationError InvalidType)"
  by (rule bundle_with_crc_unreadable [OF rfc8949.serde_cbor_axioms]; code_simp)



text \<open>A bundle whose primary block is an array of unknown length panics the parser, whatever the
  elements are.\<close>

theorem bundle_parse_panics:
  assumes "dec bs = Some (CArray d (CArray False vs # rest))"
  shows "Bundle_try_from dec bs = Panic"
  using assms by (simp add: Bundle_try_from_def from_slice_with_def deserialize_Bundle_def visit_Bundle_def
      deserialize_PrimaryBlock_indefinite)

theorem bundle_parse_panics_witness:
  "Bundle_try_from from_slice_cbor [0x9F, 0x9F, 0xFF, 0xFF] = Panic"
proof -
  let ?v = "CArray False [CArray False []]"
  have "encode ?v = [0x9F, 0x9F, 0xFF, 0xFF]"
    by code_simp
  then show ?thesis
    using bundle_parse_panics [of from_slice_cbor] rfc8949.from_slice_to_vec [of ?v] by simp
qed

text \<open>Administrative records survive being written and read.\<close>

theorem admin_record_bytes_roundtrip:
  assumes "serde_cbor enc dec" and "admin_record_wf r"
  shows "and_then (AdministrativeRecord_to_vec enc r) (AdministrativeRecord_try_from dec) = Ok r"
  using assms by (rule AdministrativeRecord_roundtrip)

definition example_report :: AdministrativeRecord where
  "example_report = StatusReportRecord
     \<lparr>status_information =
        \<lparr>received_bundle = \<lparr>is_asserted = True, timestamp = Some 1000\<rparr>,
         forwarded_bundle = \<lparr>is_asserted = True, timestamp = None\<rparr>,
         delivered_bundle = \<lparr>is_asserted = False, timestamp = None\<rparr>,
         deleted_bundle = \<lparr>is_asserted = False, timestamp = None\<rparr>\<rparr>,
      reason = HopLimitExceeded, bundle_source = IPN \<lparr>node = 5, service = 7\<rparr>,
      bundle_creation_timestamp = \<lparr>creation_time = 1000, sequence_number = 1\<rparr>,
      report_fragment_offset = Some 3, report_fragment_length = Some 9\<rparr>"

theorem admin_record_bytes_roundtrip_witness:
  "and_then (AdministrativeRecord_to_vec encode example_report)
     (AdministrativeRecord_try_from from_slice_cbor) = Ok example_report"
  by (rule admin_record_bytes_roundtrip [OF rfc8949.serde_cbor_axioms]) code_simp

section \<open>Forwarding\<close>

text \<open>\<open>set_previous_node\<close> makes the given endpoint the previous node of the bundle, keeps the
  primary block, the payload and all other blocks, and keeps the block numbers distinct unless the
  largest number is in use.\<close>

theorem set_previous_node_correct:
  "previous_node_of (set_previous_node e b) = Some e
   \<and> primary_block (set_previous_node e b) = primary_block b
   \<and> payload_block (set_previous_node e b) = (payload_block b :: (PayloadBlock, unit) result)
   \<and> filter (\<lambda>c. \<not> is_previous_node (block c)) (blocks (set_previous_node e b))
     = filter (\<lambda>c. \<not> is_previous_node (block c)) (blocks b)
   \<and> (distinct (map block_number (blocks b)) \<and> list_all (\<lambda>c. block_number c \<noteq> - 1) (blocks b)
      \<longrightarrow> distinct (map block_number (blocks (set_previous_node e b))))"
  using distinct_set_previous_node [of b e] other_blocks_set_previous_node [of e b]
  by (simp add: payload_block_def list_all_iff)

theorem set_previous_node_correct_witness:
  "distinct (map block_number (blocks (set_previous_node (IPN \<lparr>node = 1, service = 0\<rparr>) example_bundle)))
   \<and> previous_node_of (set_previous_node (IPN \<lparr>node = 1, service = 0\<rparr>) example_bundle)
     = Some (IPN \<lparr>node = 1, service = 0\<rparr>)"
proof -
  have "distinct (map block_number (blocks example_bundle)) \<and> list_all (\<lambda>c. block_number c \<noteq> - 1) (blocks example_bundle)"
    by (simp add: example_bundle_def example_payload_def example_hop_count_def)
  then show ?thesis
    using set_previous_node_correct [of "IPN \<lparr>node = 1, service = 0\<rparr>" example_bundle] by blast
qed

text \<open>\<open>inc_hop_count\<close> implements the abstract step on the hop count of the bundle: it starts a
  count at zero, or adds one and compares with the limit; nothing else in the bundle changes.\<close>

theorem inc_hop_count_step:
  "hop_step hop_limit (hop_count_of b)
     = (the (hop_count_of (fst (inc_hop_count hop_limit b))), snd (inc_hop_count hop_limit b))
   \<and> hop_count_of (fst (inc_hop_count hop_limit b)) \<noteq> None
   \<and> primary_block (fst (inc_hop_count hop_limit b)) = primary_block b
   \<and> payload_block (fst (inc_hop_count hop_limit b)) = (payload_block b :: (PayloadBlock, unit) result)
   \<and> filter (\<lambda>c. \<not> is_hop_count (block c)) (blocks (fst (inc_hop_count hop_limit b)))
     = filter (\<lambda>c. \<not> is_hop_count (block c)) (blocks b)"
  using inc_hop_count_refines [of hop_limit b] other_blocks_inc_hop_count [of hop_limit b]
  by (auto simp: payload_block_def)

lemma hop_count_of_inc:
  "hop_count_of b = Some h \<Longrightarrow>
   hop_count_of (fst (inc_hop_count l b)) = Some (h\<lparr>hop_count := hop_count h + 1\<rparr>)
   \<and> snd (inc_hop_count l b) = (hop_count h + 1 \<le> limit h)"
  using inc_hop_count_refines [of l b] by auto

lemma hop_count_of_inc_times:
  "hop_count_of b = Some h \<Longrightarrow>
   hop_count_of (((\<lambda>b. fst (inc_hop_count l b)) ^^ n) b) = Some (h\<lparr>hop_count := hop_count h + of_nat n\<rparr>)"
proof (induction n)
  case (Suc n)
  then show ?case
    using hop_count_of_inc [OF Suc.IH [OF Suc.prems], of l] by (simp add: algebra_simps)
qed simp

text \<open>C17. Which hops are accepted: the hop number \<open>n + 1\<close> after a bundle had the count \<open>c\<close> and the limit
  \<open>l\<close> is accepted exactly if \<open>c + n + 1\<close>, reduced modulo 256, is at most \<open>l\<close>. Up to 255 hops this is the
  limit; a count of 255 wraps to zero and is accepted.\<close>

theorem hop_limit_enforced:
  assumes "hop_count_of b = Some h"
  shows "snd (inc_hop_count l (((\<lambda>b. fst (inc_hop_count l b)) ^^ n) b))
         \<longleftrightarrow> (unat (hop_count h) + n + 1) mod 256 \<le> unat (limit h)"
proof -
  have "unat (hop_count h + of_nat n + 1 :: u8) = (unat (hop_count h) + n + 1) mod 256"
    by (simp add: unat_word_ariths unat_of_nat mod_simps)
  then show ?thesis
    using hop_count_of_inc [OF hop_count_of_inc_times [OF assms], of l n]
    by (simp add: word_le_nat_alt)
qed

theorem hop_limit_enforced_witness:
  "snd (inc_hop_count 0 (((\<lambda>b. fst (inc_hop_count 0 b)) ^^ 28) example_bundle))
   \<and> \<not> snd (inc_hop_count 0 (((\<lambda>b. fst (inc_hop_count 0 b)) ^^ 29) example_bundle))
   \<and> snd (inc_hop_count 0 (((\<lambda>b. fst (inc_hop_count 0 b)) ^^ 252) example_bundle))"
proof -
  have "hop_count_of example_bundle = Some \<lparr>limit = 32, hop_count = 3\<rparr>"
    by (simp add: hop_count_of_def example_bundle_def example_hop_count_def)
  note hop_limit_enforced [OF this]
  then show ?thesis by simp
qed

section \<open>Endpoints and times\<close>



text \<open>Parsing the printed form of an endpoint gives the endpoint back for \<open>dtn\<close> endpoints that start
  with two slashes, and for no other: the null endpoint and every \<open>ipn\<close> endpoint are refused.\<close>

theorem endpoint_text:
  "Endpoint_new (fmt_Endpoint e) =
     (case e of DTN d \<Rightarrow> if starts_with ''//'' (uri d) then Some e else None | IPN _ \<Rightarrow> None)"
proof (cases e)
  case (DTN d)
  then show ?thesis
    using Endpoint_new_fmt_dtn [of d]
    by (cases "starts_with ''//'' (uri d)") (auto simp: Endpoint_new_def fmt_DTNEndpoint_def DTNEndpoint_from_str_def)
next
  case (IPN i)
  then show ?thesis using Endpoint_new_fmt_ipn [of i] by simp
qed

text \<open>DTN times below \<open>2 ^ 62\<close> milliseconds convert to calendar time and back without loss, if
  the calendar library can represent them.\<close>

theorem time_roundtrip:
  assumes "uint t < 2 ^ 62" and "representable (uint t + 946684800000)"
  shows "and_then (DateTime_from_DtnTime representable t) DtnTime_from_DateTime = Ok t"
  using assms by (simp add: DateTime_from_DtnTime_small DtnTime_from_DateTime_small)

theorem time_roundtrip_witness:
  "and_then (DateTime_from_DtnTime (\<lambda>ms. \<bar>ms\<bar> < 8210266876800000) 1000) DtnTime_from_DateTime
   = (Ok 1000 :: (DtnTime, unit) result)"
  by (rule time_roundtrip) simp_all

text \<open>Hexadecimal output identifies the bundle: two well-formed bundles with the same output are
  equal.\<close>

theorem as_hex_inject:
  assumes "serde_cbor enc dec" and "bundle_wf enc a" and "bundle_wf enc b" and "as_hex enc a = as_hex enc b"
  shows "a = b"
proof -
  have "primary_wf (primary_block a)" "primary_wf (primary_block b)"
    using assms(2,3) by (simp_all add: bundle_wf_def primary_serializable_def)
  then have "enc (bundle_cbor enc a) = enc (bundle_cbor enc b)"
    using assms(4) by (simp add: as_hex_def Bundle_to_vec_Ok hex_inject)
  then show ?thesis
    using Bundle_to_vec_inject [OF assms(1-3)] \<open>primary_wf (primary_block a)\<close> \<open>primary_wf (primary_block b)\<close>
    by (simp add: Bundle_to_vec_Ok)
qed

theorem as_hex_inject_witness:
  "as_hex encode example_bundle \<noteq> as_hex encode (set_previous_node (IPN \<lparr>node = 1, service = 0\<rparr>) example_bundle)"
proof
  let ?b = "set_previous_node (IPN \<lparr>node = 1, service = 0\<rparr>) example_bundle"
  assume eq: "as_hex encode example_bundle = as_hex encode ?b"
  have "bundle_wf encode ?b"
    by code_simp
  then have "example_bundle = ?b"
    using as_hex_inject [OF rfc8949.serde_cbor_axioms example_bundle_wf _ eq] by blast
  moreover have "previous_node_of example_bundle \<noteq> previous_node_of ?b"
    by code_simp
  ultimately show False by metis
qed

end
