(* ===== verification/Fragmentation.thy ===== *)
theory Fragmentation
  imports Reassembly
begin

text \<open>
  \<open>bp7/src/bundle.rs\<close>, \<open>Bundle::fragment\<close>: splitting a bundle into fragments of a maximal size. The
  lemmas show what the loop cuts, that the pieces are slices of the payload, and how large each
  fragment can get; the main results are in \<open>Fragmentation_Results\<close>.
\<close>

section \<open>Fragmenting\<close>

definition BUNDLE_SERIALIZATION_OVERHEAD :: nat where
  "BUNDLE_SERIALIZATION_OVERHEAD = 2"

definition PAYLOAD_BLOCK_SERIALIZATION_OVERHEAD :: nat where
  "PAYLOAD_BLOCK_SERIALIZATION_OVERHEAD = 128"

text \<open>The loop that adds up the two minimal sizes.\<close>

fun add_block_sizes :: "(cbor \<Rightarrow> bytes) \<Rightarrow> CanonicalBlock list \<Rightarrow> nat \<times> nat \<Rightarrow> nat \<times> nat" where
  "add_block_sizes enc [] (first_fragment_min_size, fragment_min_size) =
     (first_fragment_min_size, fragment_min_size)"
| "add_block_sizes enc (c # cs) (first_fragment_min_size, fragment_min_size) =
     (if is_payload (block c) then add_block_sizes enc cs (first_fragment_min_size, fragment_min_size)
      else let block_size = length (enc (serialize_CanonicalBlock enc c))
           in add_block_sizes enc cs
                (first_fragment_min_size + block_size,
                 if contains (block_flags c) MUST_REPLICATE_TO_ALL_FRAGMENTS
                 then fragment_min_size + block_size else fragment_min_size))"

text \<open>The local variables the fragment loop reads.\<close>

record fragment_locals =
  max_size :: nat
  first_fragment_min_size :: nat
  fragment_min_size :: nat
  global_payload_offset :: u64
  new_primary_block :: PrimaryBlock
  first_fragment_blocks :: "CanonicalBlock list"
  fragment_blocks :: "CanonicalBlock list"
  new_payload_block :: CanonicalBlock
  payload_data :: bytes

text \<open>One fragment, with \<open>n\<close> bytes of the payload from offset \<open>off\<close> on.\<close>

definition fragment_at :: "fragment_locals \<Rightarrow> nat \<Rightarrow> nat \<Rightarrow> Bundle" where
  "fragment_at l off n =
     \<lparr>primary_block = (new_primary_block l)\<lparr>fragment_offset := Some (global_payload_offset l + of_nat off)\<rparr>,
      blocks = (if off = 0 then first_fragment_blocks l else fragment_blocks l)
        @ [(new_payload_block l)\<lparr>block := Payload \<lparr>data = take n (drop off (payload_data l))\<rparr>\<rparr>]\<rparr>"

definition payload_length_for_fragment :: "fragment_locals \<Rightarrow> nat \<Rightarrow> nat" where
  "payload_length_for_fragment l off =
     (let fragment_size = if off = 0 then first_fragment_min_size l else fragment_min_size l
      in min (length (payload_data l) - off) (max_size l - fragment_size))"

function fragment_loop :: "(cbor \<Rightarrow> bytes) \<Rightarrow> fragment_locals \<Rightarrow> nat \<Rightarrow> (Bundle list, 'e) result" where
  "fragment_loop enc l off =
     (if off < length (payload_data l) then
        let n = payload_length_for_fragment l off
        in if n < 1 then Panic
           else and_then (Bundle_to_vec enc (fragment_at l off n)) (\<lambda>bytes.
                if length bytes > max_size l then Panic
                else and_then (fragment_loop enc l (off + n)) (\<lambda>fragments.
                     Ok (fragment_at l off n # fragments)))
      else Ok [])"
  by pat_completeness auto
termination
  by (relation "measure (\<lambda>(enc, l, off). length (payload_data l) - off)") auto

declare fragment_loop.simps [simp del]

definition fragment_header :: "nat \<Rightarrow> Bundle \<Rightarrow> PrimaryBlock" where
  "fragment_header payload_length b =
     (let total_data_length' = case total_data_length (primary_block b) of
            None \<Rightarrow> of_nat payload_length | Some e \<Rightarrow> e
      in (primary_block b)
           \<lparr>bundle_processing_flags := bundle_processing_flags (primary_block b) OR FRAGMENT,
            fragment_offset := Some 0, total_data_length := Some total_data_length'\<rparr>)"

definition min_sizes :: "(cbor \<Rightarrow> bytes) \<Rightarrow> Bundle \<Rightarrow> (nat \<times> nat, 'e) result" where
  "min_sizes enc b =
     and_then (serialize_PrimaryBlock (primary_block b)) (\<lambda>primary.
     let size = length (enc primary) + PAYLOAD_BLOCK_SERIALIZATION_OVERHEAD + BUNDLE_SERIALIZATION_OVERHEAD
     in Ok (add_block_sizes enc (blocks b) (size, size)))"

definition fragment :: "(cbor \<Rightarrow> bytes) \<Rightarrow> Bundle \<Rightarrow> nat \<Rightarrow> (Bundle list \<times> u64 \<times> u64, FragmentationError) result" where
  "fragment enc self mx =
     and_then (Bundle_to_vec enc self) (\<lambda>bytes.
     if \<not> length bytes > mx then Panic
     else if contains (bundle_processing_flags (primary_block self)) MUST_NOT_FRAGMENT
     then Err MustNotFragment
     else if contains (bundle_processing_flags (primary_block self)) FRAGMENT
       \<and> (fragment_offset (primary_block self) = None \<or> total_data_length (primary_block self) = None)
     then Err BundleInvalid
     else and_then (min_sizes enc self) (\<lambda>(first_min, later_min).
     if first_min > mx \<or> later_min > mx then Err (CanNotFragmentThatSmall (of_nat first_min))
     else and_then (payload_block self) (\<lambda>payload.
     and_then (traverse CanonicalBlock_clone (filter (\<lambda>c. \<not> is_payload (block c)) (blocks self))) (\<lambda>first.
     and_then (traverse CanonicalBlock_clone
       (filter (\<lambda>c. \<not> is_payload (block c)
          \<and> \<not> contains (block_flags c) MUST_REPLICATE_TO_ALL_FRAGMENTS) (blocks self))) (\<lambda>later.
     and_then (payload_canonical_block self) (\<lambda>current.
     let l = \<lparr>max_size = mx, first_fragment_min_size = first_min, fragment_min_size = later_min,
              global_payload_offset = (case fragment_offset (primary_block self) of None \<Rightarrow> 0 | Some e \<Rightarrow> e),
              new_primary_block = fragment_header (length (data payload)) self,
              first_fragment_blocks = first, fragment_blocks = later,
              new_payload_block = \<lparr>block = Payload \<lparr>data = data payload\<rparr>,
                block_number = block_number current, block_flags = block_flags current,
                block_crc = block_crc current\<rparr>,
              payload_data = data payload\<rparr>
     in and_then (fragment_loop enc l 0) (\<lambda>fragments.
        Ok (fragments, of_nat first_min, of_nat later_min))))))))"

section \<open>Properties\<close>

subsection \<open>The loop cuts the payload into consecutive pieces\<close>

fun fragments_of :: "fragment_locals \<Rightarrow> nat \<Rightarrow> nat list \<Rightarrow> Bundle list" where
  "fragments_of l off [] = []"
| "fragments_of l off (n # ns) = fragment_at l off n # fragments_of l (off + n) ns"

lemma fragment_loop_Ok:
  assumes "fragment_loop enc l off = (Ok fs :: (Bundle list, 'e) result)" and "off \<le> length (payload_data l)"
  shows "\<exists>ns. fs = fragments_of l off ns \<and> off + sum_list ns = length (payload_data l)
           \<and> list_all (\<lambda>n. 0 < n) ns
           \<and> list_all (\<lambda>f. \<exists>bytes. Bundle_to_vec enc f = (Ok bytes :: (bytes, 'e) result)
               \<and> length bytes \<le> max_size l) fs"
  using assms
proof (induction "length (payload_data l) - off" arbitrary: off fs rule: less_induct)
  case less
  show ?case
  proof (cases "off < length (payload_data l)")
    case False
    then have "fs = []" using less.prems by (simp add: fragment_loop.simps)
    then show ?thesis using False less.prems by (intro exI [of _ "[]"]) auto
  next
    case True
    let ?n = "payload_length_for_fragment l off"
    from less.prems(1) True obtain bytes rest where n: "0 < ?n"
      and bytes: "Bundle_to_vec enc (fragment_at l off ?n) = (Ok bytes :: (bytes, 'e) result)" "length bytes \<le> max_size l"
      and rest: "fragment_loop enc l (off + ?n) = (Ok rest :: (Bundle list, 'e) result)"
      and fs: "fs = fragment_at l off ?n # rest"
      by (subst (asm) fragment_loop.simps) (auto simp: Let_def result_simps split: if_splits)
    have le: "off + ?n \<le> length (payload_data l)"
      using True by (simp add: payload_length_for_fragment_def Let_def)
    have "length (payload_data l) - (off + ?n) < length (payload_data l) - off"
      using True n by linarith
    from less.hyps [OF this rest le] obtain ns where "rest = fragments_of l (off + ?n) ns"
      "off + ?n + sum_list ns = length (payload_data l)" "list_all (\<lambda>n. 0 < n) ns"
      "list_all (\<lambda>f. \<exists>bytes. Bundle_to_vec enc f = (Ok bytes :: (bytes, 'e) result) \<and> length bytes \<le> max_size l) rest"
      by blast
    then show ?thesis
      using n bytes fs by (intro exI [of _ "?n # ns"]) auto
  qed
qed

text \<open>The loop returns when every piece it may cut is not empty and fits.\<close>

lemma fragment_loop_returns:
  assumes room: "\<And>off. off < length (payload_data l) \<Longrightarrow> 0 < payload_length_for_fragment l off"
    and fits: "\<And>off. off < length (payload_data l) \<Longrightarrow>
      \<exists>bytes. Bundle_to_vec enc (fragment_at l off (payload_length_for_fragment l off))
                = (Ok bytes :: (bytes, 'e) result) \<and> length bytes \<le> max_size l"
  shows "\<exists>fs. fragment_loop enc l off = (Ok fs :: (Bundle list, 'e) result)"
proof (induction "length (payload_data l) - off" arbitrary: off rule: less_induct)
  case less
  show ?case
  proof (cases "off < length (payload_data l)")
    case False
    then show ?thesis by (simp add: fragment_loop.simps)
  next
    case True
    let ?n = "payload_length_for_fragment l off"
    obtain bytes where "Bundle_to_vec enc (fragment_at l off ?n) = (Ok bytes :: (bytes, 'e) result)"
      "length bytes \<le> max_size l"
      using fits [OF True] by blast
    moreover have "length (payload_data l) - (off + ?n) < length (payload_data l) - off"
      using True room [OF True] by linarith
    from less.hyps [OF this] obtain fs where "fragment_loop enc l (off + ?n) = (Ok fs :: (Bundle list, 'e) result)"
      by blast
    ultimately show ?thesis
      using True room [OF True] by (subst fragment_loop.simps) (simp add: Let_def)
  qed
qed

subsection \<open>Fragments are slices of the payload\<close>

definition locals_ok :: "fragment_locals \<Rightarrow> bytes \<Rightarrow> bool" where
  "locals_ok l xs \<longleftrightarrow>
     list_all (\<lambda>c. \<not> is_payload (block c)) (first_fragment_blocks l)
     \<and> list_all (\<lambda>c. \<not> is_payload (block c)) (fragment_blocks l)
     \<and> slice_of xs (unat (global_payload_offset l), payload_data l) \<and> length xs < 2 ^ 64"

lemma bundle_slice_fragment_at:
  assumes "locals_ok l xs" and "off + n \<le> length (payload_data l)"
  shows "bundle_slice (fragment_at l off n)
         = (unat (global_payload_offset l) + off, take n (drop off (payload_data l)))"
proof -
  have "unat (global_payload_offset l) + off < 2 ^ 64"
    using assms by (simp add: locals_ok_def slice_of_def)
  then have "unat (global_payload_offset l + of_nat off) = unat (global_payload_offset l) + off"
    by (simp add: unat_word_ariths unat_u64_of_nat)
  then show ?thesis
    using assms by (simp add: bundle_slice_def fragment_at_def payload_of_def locals_ok_def)
qed

lemma slice_of_trans:
  assumes "slice_of xs (k, ys)" and "off + n \<le> length ys"
  shows "slice_of xs (k + off, take n (drop off ys))"
proof -
  define m where "m = length ys"
  have ys: "ys = take m (drop k xs)" and m: "k + m \<le> length xs" "off + n \<le> m"
    using assms by (simp_all add: slice_of_def m_def)
  have "take n (drop off (take m (drop k xs))) = take n (drop (k + off) xs)"
    using m by (simp add: drop_take min_def add.commute)
  then have "take n (drop off ys) = take n (drop (k + off) xs)"
    using ys by simp
  then show ?thesis
    using m by (simp add: slice_of_def)
qed

lemma fragment_at_ok:
  assumes "locals_ok l xs" and "off + n \<le> length (payload_data l)"
  shows "fragment_ok (new_primary_block l) xs (fragment_at l off n)"
proof -
  have "slice_of xs (bundle_slice (fragment_at l off n))"
    using slice_of_trans [of xs "unat (global_payload_offset l)" "payload_data l" off n] assms
    by (simp add: bundle_slice_fragment_at [OF assms]) (simp add: locals_ok_def)
  then show ?thesis
    by (simp add: fragment_ok_def fragment_at_def has_payload_def)
qed

lemma fragments_of_ok:
  assumes "locals_ok l xs" and "off + sum_list ns \<le> length (payload_data l)" and "f \<in> set (fragments_of l off ns)"
  shows "fragment_ok (new_primary_block l) xs f"
  using assms(2,3)
proof (induction ns arbitrary: off)
  case (Cons n ns)
  then show ?case
    using fragment_at_ok [OF assms(1), of off n] Cons.IH [of "off + n"] by auto
qed simp

text \<open>Together they cover the range of the payload.\<close>

lemma fragments_of_cover:
  assumes l: "locals_ok l xs" and "off + sum_list ns \<le> length (payload_data l)"
    and "unat (global_payload_offset l) + off \<le> i" and "i < unat (global_payload_offset l) + off + sum_list ns"
  shows "\<exists>f \<in> set (fragments_of l off ns). in_slice i (bundle_slice f)"
  using assms(2-)
proof (induction ns arbitrary: off)
  case (Cons n ns)
  show ?case
  proof (cases "i < unat (global_payload_offset l) + off + n")
    case True
    then have "in_slice i (bundle_slice (fragment_at l off n))"
      using Cons.prems bundle_slice_fragment_at [OF l, of off n] by (simp add: in_slice_def)
    then show ?thesis by simp
  next
    case False
    then show ?thesis using Cons.IH [of "off + n"] Cons.prems by (simp add: add.assoc)
  qed
qed simp

subsection \<open>What \<open>fragment\<close> returns\<close>

lemma traverse_clone [simp]:
  "list_all (\<lambda>c. \<not> is_payload (block c)) cs \<Longrightarrow> traverse CanonicalBlock_clone cs = Ok cs"
proof (induction cs)
  case (Cons c cs)
  then show ?case by (cases "block c") (simp_all add: CanonicalBlock_clone_def)
qed simp

definition extension_blocks :: "Bundle \<Rightarrow> CanonicalBlock list" where
  "extension_blocks b = filter (\<lambda>c. \<not> is_payload (block c)) (blocks b)"

definition unreplicated_blocks :: "Bundle \<Rightarrow> CanonicalBlock list" where
  "unreplicated_blocks b = filter (\<lambda>c. \<not> is_payload (block c)
     \<and> \<not> contains (block_flags c) MUST_REPLICATE_TO_ALL_FRAGMENTS) (blocks b)"

definition payload_canonical_of :: "Bundle \<Rightarrow> CanonicalBlock" where
  "payload_canonical_of b = the (find (\<lambda>c. is_payload (block c)) (blocks b))"

lemma payload_canonical_block_eq:
  assumes "has_payload b"
  shows "payload_canonical_block b = Ok (payload_canonical_of b)"
    "block (payload_canonical_of b) = Payload \<lparr>data = payload_of b\<rparr>"
proof -
  obtain c where c: "find (\<lambda>c. is_payload (block c)) (blocks b) = Some c"
    using assms by (cases "find (\<lambda>c. is_payload (block c)) (blocks b)")
      (auto simp: has_payload_def list_ex_iff find_None_iff)
  then have "is_payload (block c)"
    by (auto simp: find_Some_iff)
  then show "payload_canonical_block b = Ok (payload_canonical_of b)"
    "block (payload_canonical_of b) = Payload \<lparr>data = payload_of b\<rparr>"
    using c by (cases "block c";
      auto simp: payload_canonical_block_def payload_canonical_of_def payload_of_def)+
qed

text \<open>The local variables of a run on bundle \<open>b\<close>.\<close>

definition locals_of :: "Bundle \<Rightarrow> nat \<Rightarrow> nat \<Rightarrow> nat \<Rightarrow> fragment_locals" where
  "locals_of b mx first_min later_min =
     \<lparr>max_size = mx, first_fragment_min_size = first_min, fragment_min_size = later_min,
      global_payload_offset = (case fragment_offset (primary_block b) of None \<Rightarrow> 0 | Some e \<Rightarrow> e),
      new_primary_block = fragment_header (length (payload_of b)) b,
      first_fragment_blocks = extension_blocks b, fragment_blocks = unreplicated_blocks b,
      new_payload_block = payload_canonical_of b, payload_data = payload_of b\<rparr>"

lemma max_size_locals_of [simp]: "max_size (locals_of b mx f m) = mx"
  by (simp add: locals_of_def)

lemma extension_blocks_no_payload [simp]:
  "list_all (\<lambda>c. \<not> is_payload (block c)) (extension_blocks b)"
  "list_all (\<lambda>c. \<not> is_payload (block c)) (unreplicated_blocks b)"
  by (auto simp: extension_blocks_def unreplicated_blocks_def list_all_iff)

lemma fragment_unfold:
  assumes "has_payload b"
  shows "fragment enc b mx =
    and_then (Bundle_to_vec enc b) (\<lambda>bytes.
    if \<not> length bytes > mx then Panic
    else if contains (bundle_processing_flags (primary_block b)) MUST_NOT_FRAGMENT then Err MustNotFragment
    else if contains (bundle_processing_flags (primary_block b)) FRAGMENT
      \<and> (fragment_offset (primary_block b) = None \<or> total_data_length (primary_block b) = None)
    then Err BundleInvalid
    else and_then (min_sizes enc b) (\<lambda>(first_min, later_min).
    if first_min > mx \<or> later_min > mx then Err (CanNotFragmentThatSmall (of_nat first_min))
    else and_then (fragment_loop enc (locals_of b mx first_min later_min) 0) (\<lambda>fragments.
         Ok (fragments, of_nat first_min, of_nat later_min))))"
proof -
  have p: "\<lparr>block = Payload \<lparr>data = payload_of b\<rparr>, block_number = block_number (payload_canonical_of b),
      block_flags = block_flags (payload_canonical_of b), block_crc = block_crc (payload_canonical_of b)\<rparr>
      = payload_canonical_of b"
    using payload_canonical_block_eq(2) [OF assms] by (metis CanonicalBlock.surjective old.unit.exhaust)
  show ?thesis
    by (simp add: fragment_def payload_block_eq [OF assms] payload_canonical_block_eq(1) [OF assms] p
        locals_of_def flip: extension_blocks_def unreplicated_blocks_def cong: if_cong)
qed

lemma payload_block_Panic: "\<not> has_payload b \<Longrightarrow> payload_block b = Panic"
  by (simp add: has_payload_def payload_block_def payload_canonical_block_def list_ex_iff list_all_iff)

lemma fragment_OkE:
  assumes "fragment enc b mx = Ok (fs, m1, m2)"
  obtains first_min later_min ns where
    "has_payload b" "min_sizes enc b = (Ok (first_min, later_min) :: (nat \<times> nat, FragmentationError) result)"
    "m1 = of_nat first_min" "m2 = of_nat later_min" "first_min \<le> mx" "later_min \<le> mx"
    "fs = fragments_of (locals_of b mx first_min later_min) 0 ns" "sum_list ns = length (payload_of b)"
    "list_all (\<lambda>n. 0 < n) ns"
    "list_all (\<lambda>f. \<exists>bytes. Bundle_to_vec enc f = (Ok bytes :: (bytes, FragmentationError) result)
       \<and> length bytes \<le> mx) fs"
    "\<not> contains (bundle_processing_flags (primary_block b)) MUST_NOT_FRAGMENT"
    "contains (bundle_processing_flags (primary_block b)) FRAGMENT \<Longrightarrow>
       fragment_offset (primary_block b) \<noteq> None \<and> total_data_length (primary_block b) \<noteq> None"
proof -
  have payload: "has_payload b"
    using assms by (rule contrapos_pp)
      (auto simp: fragment_def payload_block_Panic result_simps split: if_splits)
  from assms obtain first_min later_min where
    sizes: "min_sizes enc b = (Ok (first_min, later_min) :: (nat \<times> nat, FragmentationError) result)"
      "m1 = of_nat first_min" "m2 = of_nat later_min" "first_min \<le> mx" "later_min \<le> mx"
    and loop: "fragment_loop enc (locals_of b mx first_min later_min) 0
      = (Ok fs :: (Bundle list, FragmentationError) result)"
    and guards: "\<not> contains (bundle_processing_flags (primary_block b)) MUST_NOT_FRAGMENT"
      "contains (bundle_processing_flags (primary_block b)) FRAGMENT \<Longrightarrow>
       fragment_offset (primary_block b) \<noteq> None \<and> total_data_length (primary_block b) \<noteq> None"
    by (auto simp: fragment_unfold [OF payload] result_simps split: if_splits)
  from fragment_loop_Ok [OF loop] show ?thesis
    using that [OF payload sizes] guards by (auto simp: locals_of_def)
qed

lemma fragment_ok_offset [simp]: "fragment_ok (h\<lparr>fragment_offset := off\<rparr>) xs b = fragment_ok h xs b"
  by (simp add: fragment_ok_def)

text \<open>A bundle that is no fragment is cut into fragments of its payload ...\<close>

lemma locals_ok_whole:
  assumes "fragment_offset (primary_block b) = None" and "length (payload_of b) < 2 ^ 64"
  shows "locals_ok (locals_of b mx first_min later_min) (payload_of b)"
  using assms by (simp add: locals_ok_def locals_of_def slice_of_def)

text \<open>... and a fragment of a payload into smaller fragments of it.\<close>

lemma locals_ok_fragment:
  assumes "fragment_ok h xs b" and "length xs < 2 ^ 64"
  shows "locals_ok (locals_of b mx first_min later_min) xs"
  using assms by (auto simp: locals_ok_def locals_of_def fragment_ok_def bundle_slice_def)

lemma fragment_header_fragment:
  assumes "fragment_ok h xs b" and "header_ok h xs"
  shows "fragment_ok (fragment_header n b) xs f = fragment_ok h xs f"
proof -
  obtain off where b: "primary_block b = h\<lparr>fragment_offset := off\<rparr>"
    using assms(1) by (auto simp: fragment_ok_def)
  then have "fragment_header n b = h\<lparr>fragment_offset := Some 0\<rparr>"
    using assms(2) by (simp add: fragment_header_def header_ok_def Let_def or_contained)
  then show ?thesis by simp
qed

subsection \<open>Fragmenting and reassembling\<close>

lemma hd_sort_key:
  assumes "x \<in> set xs" and "\<And>y. y \<in> set xs \<Longrightarrow> y \<noteq> x \<Longrightarrow> f x < f y"
  shows "hd (sort_key f xs) = x"
proof -
  have ne: "sort_key f xs \<noteq> []"
    using assms(1) by (metis empty_iff list.set(1) set_sort)
  then obtain y ys where ys: "sort_key f xs = y # ys"
    by (meson neq_Nil_conv)
  have "x \<in> set (y # ys)"
    using assms(1) ys by (metis set_sort)
  moreover have "sorted (map f (y # ys))"
    using sorted_sort_key [of f xs] ys by simp
  ultimately have "f y \<le> f x"
    by auto
  moreover have "y \<in> set xs"
    using ys by (metis list.set_intros(1) set_sort)
  ultimately show ?thesis
    using assms(2) ys by fastforce
qed

lemma fragments_of_later:
  assumes "list_all (\<lambda>n. 0 < n) ns" and "f \<in> set (fragments_of l off ns)"
  shows "\<exists>k n. f = fragment_at l k n \<and> off \<le> k \<and> k + n \<le> off + sum_list ns \<and> 0 < n"
  using assms
proof (induction ns arbitrary: off)
  case (Cons n ns)
  show ?case
  proof (cases "f = fragment_at l off n")
    case True
    then show ?thesis using Cons.prems by (intro exI [of _ off] exI [of _ n]) auto
  next
    case False
    then have "f \<in> set (fragments_of l (off + n) ns)" using Cons.prems by simp
    then obtain k m where "f = fragment_at l k m \<and> off + n \<le> k \<and> k + m \<le> off + n + sum_list ns \<and> 0 < m"
      using Cons.IH [of "off + n"] Cons.prems by auto
    then show ?thesis by (intro exI [of _ k] exI [of _ m]) auto
  qed
qed simp

lemma offset_key_fragment_at:
  "global_payload_offset l = 0 \<Longrightarrow> off < 2 ^ 64 \<Longrightarrow> unat (offset_key (fragment_at l off n)) = off"
  by (simp add: offset_key_def fragment_at_def unat_u64_of_nat)

lemma set_payload_data_other [simp]: "\<not> is_payload (block c) \<Longrightarrow> set_payload_data d c = c"
  by (cases "block c") (simp_all add: set_payload_data_def)

lemma map_set_payload_data_other [simp]:
  "list_all (\<lambda>c. \<not> is_payload (block c)) cs \<Longrightarrow> map (set_payload_data d) cs = cs"
  by (induction cs) simp_all

text \<open>The bundle a complete set of its fragments gives: the payload block becomes the last one.\<close>

definition payload_last :: "Bundle \<Rightarrow> Bundle" where
  "payload_last b = b\<lparr>blocks := extension_blocks b @ [payload_canonical_of b]\<rparr>"

lemma reassembled_first:
  assumes "fragment_offset (primary_block b) = None" "total_data_length (primary_block b) = None"
    and "\<not> contains (bundle_processing_flags (primary_block b)) FRAGMENT" and "has_payload b"
  shows "reassembled (fragment_at (locals_of b mx first_min later_min) 0 n) (payload_of b) = payload_last b"
proof -
  have "unfragmented ((fragment_header k b)\<lparr>fragment_offset := off\<rparr>) = primary_block b" for k off
    using assms by (cases "primary_block b")
      (simp add: unfragmented_def fragment_header_def Let_def remove_insert_FRAGMENT)
  moreover have "set_payload_data (payload_of b) ((payload_canonical_of b)\<lparr>block := Payload \<lparr>data = xs\<rparr>\<rparr>)
      = payload_canonical_of b" for xs
    using payload_canonical_block_eq(2) [OF assms(4)]
    by (cases "payload_canonical_of b") (simp add: set_payload_data_def)
  ultimately show ?thesis
    by (cases b) (simp add: reassembled_def fragment_at_def locals_of_def payload_last_def)
qed

lemma fragment_reassemble_aux:
  assumes frag: "fragment enc b mx = Ok (fs, m1, m2)"
    and whole: "fragment_offset (primary_block b) = None" "total_data_length (primary_block b) = None"
    and size: "0 < length (payload_of b)" "length (payload_of b) < 2 ^ 64"
    and received: "set received = set fs"
  shows "reassemble_bundles enc received = Bundle_to_vec enc (payload_last b)"
proof -
  from frag obtain first_min later_min ns where payload: "has_payload b"
    and fs: "fs = fragments_of (locals_of b mx first_min later_min) 0 ns"
    and ns: "sum_list ns = length (payload_of b)" "list_all (\<lambda>n. 0 < n) ns"
    and nofrag: "\<not> contains (bundle_processing_flags (primary_block b)) FRAGMENT"
    by (rule fragment_OkE) (use whole in auto)
  let ?l = "locals_of b mx first_min later_min" and ?xs = "payload_of b"
  have l: "locals_ok ?l ?xs" "global_payload_offset ?l = 0" "payload_data ?l = ?xs"
    using locals_ok_whole [OF whole(1) size(2)] whole by (simp_all add: locals_of_def)
  obtain n ns' where n: "ns = n # ns'"
    using ns(1) size(1) by (cases ns) auto
  have ok: "fragment_ok (new_primary_block ?l) ?xs f" if "f \<in> set received" for f
    using fragments_of_ok [OF l(1), of 0 ns f] that received fs ns(1) l(3) by simp
  have header: "header_ok (new_primary_block ?l) ?xs"
    using whole size(2) by (simp add: header_ok_def locals_of_def fragment_header_def Let_def)
  have cov: "covers (map bundle_slice received) (length ?xs)"
    using fragments_of_cover [OF l(1), of 0 ns] received fs ns(1) l(2,3) by (simp add: covers_iff)
  have "hd (sort_key offset_key received) = fragment_at ?l 0 n"
  proof (rule hd_sort_key)
    show "fragment_at ?l 0 n \<in> set received" using received fs n by simp
    fix y assume y: "y \<in> set received" "y \<noteq> fragment_at ?l 0 n"
    then have "y \<in> set (fragments_of ?l n ns')" using received fs n by simp
    then obtain k m where "y = fragment_at ?l k m" "n \<le> k" "k + m \<le> n + sum_list ns'"
      using fragments_of_later [of ns' y ?l n] ns(2) n by auto
    moreover have "0 < n" using ns(2) n by simp
    ultimately have "unat (offset_key (fragment_at ?l 0 n)) < unat (offset_key y)"
      using offset_key_fragment_at [OF l(2), of 0 n] offset_key_fragment_at [OF l(2), of k m] ns(1) n size(2)
      by simp
    then show "offset_key (fragment_at ?l 0 n) < offset_key y"
      by (simp add: word_less_nat_alt)
  qed
  moreover have "received \<noteq> []"
    using received fs n by auto
  ultimately show ?thesis
    using reassemble_covers [OF _ ok header cov] reassembled_first [OF whole nofrag payload] by simp
qed

subsection \<open>Sizes\<close>

definition block_size :: "(cbor \<Rightarrow> bytes) \<Rightarrow> CanonicalBlock \<Rightarrow> nat" where
  "block_size enc c = length (enc (serialize_CanonicalBlock enc c))"

definition replicated_blocks :: "Bundle \<Rightarrow> CanonicalBlock list" where
  "replicated_blocks b = filter (\<lambda>c. \<not> is_payload (block c)
     \<and> contains (block_flags c) MUST_REPLICATE_TO_ALL_FRAGMENTS) (blocks b)"

definition blocks_size :: "(cbor \<Rightarrow> bytes) \<Rightarrow> CanonicalBlock list \<Rightarrow> nat" where
  "blocks_size enc cs = sum_list (map (block_size enc) cs)"

lemma add_block_sizes_eq:
  "add_block_sizes enc cs (x, y) =
     (x + blocks_size enc (filter (\<lambda>c. \<not> is_payload (block c)) cs),
      y + blocks_size enc (filter (\<lambda>c. \<not> is_payload (block c)
            \<and> contains (block_flags c) MUST_REPLICATE_TO_ALL_FRAGMENTS) cs))"
  by (induction cs arbitrary: x y) (simp_all add: blocks_size_def block_size_def Let_def)

lemma min_sizes_eq:
  assumes "primary_wf (primary_block b)"
  shows "min_sizes enc b =
    Ok (length (enc (primary_cbor (primary_block b))) + 130 + blocks_size enc (extension_blocks b),
        length (enc (primary_cbor (primary_block b))) + 130 + blocks_size enc (replicated_blocks b))"
  using assms by (simp add: min_sizes_def serialize_primary_cbor add_block_sizes_eq Let_def
      extension_blocks_def replicated_blocks_def PAYLOAD_BLOCK_SERIALIZATION_OVERHEAD_def
      BUNDLE_SERIALIZATION_OVERHEAD_def)

lemma head_size_small: "n < 24 \<Longrightarrow> head_size n = 1"
  by (simp add: head_size_def)

lemma cbor_size_CRCType [simp]: "cbor_size (serialize_CRCType c) = 1"
  by (cases c) (simp_all add: head_size_def)

lemma head_size_u8: "head_size (unat (x :: u8)) \<le> 2"
  using unat_u8_less [of x] by (simp add: head_size_def del: unat_u8_less)

lemma crc_content_size: "sum_list (map cbor_size (serialize_crc_content c)) \<le> 9"
proof (cases c rule: serialize_crc_content.cases)
  case (2 a b)
  then show ?thesis using head_size_u8 [of a] head_size_u8 [of b] by (simp add: head_size_def)
next
  case (3 a b x d)
  then show ?thesis
    using head_size_u8 [of a] head_size_u8 [of b] head_size_u8 [of x] head_size_u8 [of d]
    by (simp add: head_size_small)
qed simp

text \<open>Turning a header into that of a fragment adds at most 26 bytes.\<close>

lemma primary_size_fragment:
  "cbor_size (primary_cbor (pb\<lparr>bundle_processing_flags := fs, fragment_offset := Some off,
       total_data_length := Some len\<rparr>)) \<le> cbor_size (primary_cbor pb) + 26"
proof -
  have le: "length (serialize_crc_content (crc pb)) \<le> 1" by (rule length_serialize_crc_content)
  show ?thesis
    using head_size_le [of "unat fs"] head_size_le [of "unat off"] head_size_le [of "unat len"]
      head_size_pos [of "unat (bundle_processing_flags pb)"] le
    by (cases "fragment_offset pb")
      (simp_all add: primary_cbor_def serialize_BundleFlags_def head_size_small)
qed

text \<open>A payload block adds at most 39 bytes to its data.\<close>

lemma payload_block_size:
  "cbor_size (serialize_CanonicalBlock enc (c\<lparr>block := Payload \<lparr>data = d\<rparr>\<rparr>)) \<le> length d + 39"
proof -
  have le: "length (serialize_crc_content (block_crc c)) \<le> 1" by (rule length_serialize_crc_content)
  show ?thesis
    using head_size_le [of "unat (block_number c)"] head_size_le [of "unat (block_flags c)"]
      head_size_le [of "length d"] crc_content_size [of "block_crc c"] le
    by (simp add: serialize_CanonicalBlock_def serialize_PayloadBlock_def serialize_BlockFlags_def head_size_small)
qed

lemma primary_ok_fragment:
  "cbor_ok (primary_cbor pb) \<Longrightarrow>
   cbor_ok (primary_cbor (pb\<lparr>bundle_processing_flags := fs, fragment_offset := Some off,
     total_data_length := Some len\<rparr>))"
  using length_serialize_crc_content [of "crc pb"]
  by (auto simp: primary_cbor_def serialize_BundleFlags_def list_all_iff simp del: length_serialize_crc_content)

lemma primary_block_fragment_at:
  "\<exists>off' len. primary_block (fragment_at (locals_of b mx f m) off n)
     = (primary_block b)\<lparr>bundle_processing_flags := bundle_processing_flags (primary_block b) OR FRAGMENT,
        fragment_offset := Some off', total_data_length := Some len\<rparr>"
  by (rule exI [of _ "global_payload_offset (locals_of b mx f m) + of_nat off"],
      rule exI [of _ "case total_data_length (primary_block b) of
        None \<Rightarrow> of_nat (length (payload_of b)) | Some e \<Rightarrow> e"])
    (simp add: fragment_at_def locals_of_def fragment_header_def Let_def)

lemma payload_piece_ok:
  "length d < 2 ^ 64 \<Longrightarrow> cbor_ok (serialize_CanonicalBlock enc (c\<lparr>block := Payload \<lparr>data = d\<rparr>\<rparr>))"
  using length_serialize_crc_content [of "block_crc c"]
  by (auto simp: serialize_CanonicalBlock_def serialize_PayloadBlock_def serialize_BlockFlags_def
      list_all_iff simp del: length_serialize_crc_content)

lemma bundle_ok_fragment:
  assumes ok: "cbor_ok (bundle_cbor enc b)" and payload: "has_payload b" "length (payload_of b) < 2 ^ 64"
  shows "cbor_ok (bundle_cbor enc (fragment_at (locals_of b mx f m) off n))"
proof -
  let ?l = "locals_of b mx f m"
  let ?cs = "if off = 0 then extension_blocks b else unreplicated_blocks b"
  have "cbor_ok (primary_cbor (primary_block (fragment_at ?l off n)))"
    using primary_block_fragment_at [of b mx f m off n] primary_ok_fragment [of "primary_block b"] ok
    by (auto simp: bundle_cbor_def)
  moreover have "cbor_ok (serialize_CanonicalBlock enc c)" if "c \<in> set ?cs" for c
    using that ok by (auto simp: bundle_cbor_def list_all_iff extension_blocks_def unreplicated_blocks_def split: if_splits)
  moreover have "length ?cs < length (blocks b)"
    using payload(1) unfolding has_payload_def list_ex_iff extension_blocks_def unreplicated_blocks_def
    by (auto intro!: length_filter_less)
  ultimately show ?thesis
    using ok payload_piece_ok [of "take n (drop off (payload_of b))"] payload(2)
    by (auto simp: bundle_cbor_def fragment_at_def locals_of_def list_all_iff split: if_splits)
qed

lemma fragment_at_fits:
  assumes codec: "serde_cbor_sized enc dec" and wf: "primary_wf (primary_block b)"
    and ok: "cbor_ok (bundle_cbor enc b)" and payload: "has_payload b" "length (payload_of b) < 2 ^ 64"
  shows "Bundle_to_vec enc (fragment_at (locals_of b mx f m) off n)
      = Ok (enc (bundle_cbor enc (fragment_at (locals_of b mx f m) off n)))"
    and "length (enc (bundle_cbor enc (fragment_at (locals_of b mx f m) off n)))
      \<le> length (enc (primary_cbor (primary_block b))) + 67 + n
        + blocks_size enc (if off = 0 then extension_blocks b else unreplicated_blocks b)"
proof -
  let ?l = "locals_of b mx f m" and ?pb = "primary_block b"
  let ?cs = "if off = 0 then extension_blocks b else unreplicated_blocks b"
  let ?frag = "fragment_at ?l off n"
  obtain off' len where prim: "primary_block ?frag
     = ?pb\<lparr>bundle_processing_flags := bundle_processing_flags ?pb OR FRAGMENT,
           fragment_offset := Some off', total_data_length := Some len\<rparr>"
    using primary_block_fragment_at by blast
  then have "primary_wf (primary_block ?frag)"
    using wf by (simp add: primary_wf_def known_bits_or)
  then show "Bundle_to_vec enc ?frag = Ok (enc (bundle_cbor enc ?frag))"
    by (rule Bundle_to_vec_Ok)
  have size: "length (enc v) = cbor_size v" if "cbor_ok v" for v
    using codec that by (simp add: serde_cbor_sized.length_to_vec)
  have "blocks_size enc ?cs = sum_list (map (\<lambda>c. cbor_size (serialize_CanonicalBlock enc c)) ?cs)"
    using ok size unfolding blocks_size_def block_size_def
    by (intro arg_cong [where f = sum_list] map_cong)
      (auto simp: bundle_cbor_def list_all_iff extension_blocks_def unreplicated_blocks_def split: if_splits)
  moreover have "cbor_size (primary_cbor (primary_block ?frag)) \<le> length (enc (primary_cbor ?pb)) + 26"
    using primary_size_fragment [where pb = ?pb] prim size ok by (simp add: bundle_cbor_def)
  moreover have "cbor_size (serialize_CanonicalBlock enc (last (blocks ?frag))) \<le> n + 39"
    using payload_block_size [of enc "take n (drop off (payload_of b))" "payload_canonical_of b"]
    by (simp add: fragment_at_def locals_of_def)
  moreover have "sum_list (map (\<lambda>c. cbor_size (serialize_CanonicalBlock enc c)) (blocks ?frag))
      = sum_list (map (\<lambda>c. cbor_size (serialize_CanonicalBlock enc c)) ?cs)
        + cbor_size (serialize_CanonicalBlock enc (last (blocks ?frag)))"
    by (simp add: fragment_at_def locals_of_def)
  moreover have "cbor_size (bundle_cbor enc ?frag) = 2 + cbor_size (primary_cbor (primary_block ?frag))
      + sum_list (map (\<lambda>c. cbor_size (serialize_CanonicalBlock enc c)) (blocks ?frag))"
    by (simp add: bundle_cbor_def comp_def)
  ultimately show "length (enc (bundle_cbor enc ?frag))
      \<le> length (enc (primary_cbor ?pb)) + 67 + n + blocks_size enc ?cs"
    using size [OF bundle_ok_fragment [OF ok payload, of mx f m off n]] by linarith
qed

subsection \<open>Every fragment\<close>

lemma fragments_of_nth:
  "i < length ns \<Longrightarrow> fragments_of l off ns ! i = fragment_at l (off + sum_list (take i ns)) (ns ! i)"
  by (induction ns arbitrary: off i) (simp_all add: nth_Cons' take_Cons' add.assoc)

lemma length_fragments_of [simp]: "length (fragments_of l off ns) = length ns"
  by (induction ns arbitrary: off) simp_all

lemma take_fragments_of: "take i (fragments_of l off ns) = fragments_of l off (take i ns)"
  by (induction ns arbitrary: off i) (simp_all add: take_Cons')

lemma payload_of_fragment_at [simp]:
  "payload_of (fragment_at (locals_of b mx f m) off n) = take n (drop off (payload_of b))"
proof -
  have "payload_of \<lparr>primary_block = p, blocks = cs @ [c\<lparr>block := Payload \<lparr>data = d\<rparr>\<rparr>]\<rparr> = d"
    if "list_all (\<lambda>c. \<not> is_payload (block c)) cs" for p cs c d
    using that by (simp add: payload_of_def)
  then show ?thesis
    by (simp add: fragment_at_def locals_of_def)
qed

lemma concat_fragments_of:
  "concat (map payload_of (fragments_of (locals_of b mx f m) off ns)) = take (sum_list ns) (drop off (payload_of b))"
  by (induction ns arbitrary: off) (simp_all add: take_add add.commute)

lemma sum_list_take_pos:
  "list_all (\<lambda>n. 0 < n) ns \<Longrightarrow> i < length ns \<Longrightarrow> sum_list (take i ns) = (0 :: nat) \<longleftrightarrow> i = 0"
  by (cases ns; cases i) auto

lemma sum_list_take_le: "sum_list (take i ns) + ns ! i \<le> (sum_list ns :: nat)" if "i < length ns"
  using that by (metis id_take_nth_drop le_add1 sum_list.Cons sum_list_append add.assoc)

text \<open>The abstract result: the fragment number \<open>i\<close> when the payload is cut into the pieces \<open>ps\<close>.\<close>

definition expected_fragment :: "Bundle \<Rightarrow> bytes list \<Rightarrow> nat \<Rightarrow> Bundle" where
  "expected_fragment b ps i =
     \<lparr>primary_block = (fragment_header (length (payload_of b)) b)\<lparr>fragment_offset :=
        Some ((case fragment_offset (primary_block b) of None \<Rightarrow> 0 | Some e \<Rightarrow> e)
          + of_nat (length (concat (take i ps))))\<rparr>,
      blocks = (if i = 0 then extension_blocks b else unreplicated_blocks b)
        @ [(payload_canonical_of b)\<lparr>block := Payload \<lparr>data = ps ! i\<rparr>\<rparr>]\<rparr>"

lemma fragments_of_expected:
  assumes ns: "sum_list ns = length (payload_of b)" "list_all (\<lambda>n. 0 < n) ns" and i: "i < length ns"
    and fs: "fs = fragments_of (locals_of b mx f m) 0 ns"
  shows "fs ! i = expected_fragment b (map payload_of fs) i" and "payload_of (fs ! i) \<noteq> []"
proof -
  have nth: "fs ! i = fragment_at (locals_of b mx f m) (sum_list (take i ns)) (ns ! i)"
    using fragments_of_nth [OF i] by (simp add: fs)
  have le: "sum_list (take i ns) + ns ! i \<le> length (payload_of b)"
    using sum_list_take_le [OF i] ns(1) by simp
  have len: "length (concat (take i (map payload_of fs))) = sum_list (take i ns)"
    using le by (simp add: fs take_map take_fragments_of concat_fragments_of)
  have piece: "map payload_of fs ! i = take (ns ! i) (drop (sum_list (take i ns)) (payload_of b))"
    using i nth by (simp add: fs)
  show "fs ! i = expected_fragment b (map payload_of fs) i"
    unfolding expected_fragment_def len piece nth using sum_list_take_pos [OF ns(2) i]
    by (simp add: fragment_at_def locals_of_def)
  have "0 < ns ! i"
    using ns(2) i by (simp add: list_all_length)
  then show "payload_of (fs ! i) \<noteq> []"
    using le unfolding nth payload_of_fragment_at by simp
qed

lemma blocks_size_replicated: "blocks_size enc (replicated_blocks b) \<le> blocks_size enc (extension_blocks b)"
proof -
  have "blocks_size enc (filter (\<lambda>c. \<not> is_payload (block c) \<and> P c) cs)
      \<le> blocks_size enc (filter (\<lambda>c. \<not> is_payload (block c)) cs)" for P cs
    by (induction cs) (auto simp: blocks_size_def)
  then show ?thesis
    by (simp add: replicated_blocks_def extension_blocks_def)
qed

subsection \<open>All fragments\<close>

lemma fragment_output_aux:
  assumes "fragment enc b mx = Ok (fs, m1, m2)"
  shows "\<exists>ps. concat ps = payload_of b \<and> [] \<notin> set ps
    \<and> fs = map (expected_fragment b ps) [0..<length ps]
    \<and> list_all (\<lambda>f. \<exists>bytes. Bundle_to_vec enc f = (Ok bytes :: (bytes, FragmentationError) result)
         \<and> length bytes \<le> mx) fs"
proof -
  from assms obtain f m ns where fs: "fs = fragments_of (locals_of b mx f m) 0 ns"
    and ns: "sum_list ns = length (payload_of b)" "list_all (\<lambda>n. 0 < n) ns"
    and fit: "list_all (\<lambda>f. \<exists>bytes. Bundle_to_vec enc f = (Ok bytes :: (bytes, FragmentationError) result)
       \<and> length bytes \<le> mx) fs"
    by (rule fragment_OkE) auto
  have len: "length fs = length ns"
    by (simp add: fs)
  have "concat (map payload_of fs) = payload_of b"
    using ns(1) by (simp add: fs concat_fragments_of)
  moreover have "[] \<notin> set (map payload_of fs)"
    using fragments_of_expected(2) [OF ns _ fs] len by (metis in_set_conv_nth length_map nth_map)
  moreover have "fs = map (expected_fragment b (map payload_of fs)) [0..<length (map payload_of fs)]"
    using fragments_of_expected(1) [OF ns _ fs] len by (intro nth_equalityI) auto
  ultimately show ?thesis
    using fit by blast
qed

lemma refragment_aux:
  assumes b: "fragment_ok h xs b" and h: "header_ok h xs" and frag: "fragment enc b mx = Ok (fs, m1, m2)"
  shows "f \<in> set fs \<Longrightarrow> fragment_ok h xs f"
    and "(\<exists>f \<in> set fs. in_slice i (bundle_slice f)) \<longleftrightarrow> in_slice i (bundle_slice b)"
proof -
  from frag obtain f1 m ns where fs: "fs = fragments_of (locals_of b mx f1 m) 0 ns"
    and ns: "sum_list ns = length (payload_of b)" "list_all (\<lambda>n. 0 < n) ns"
    by (rule fragment_OkE) auto
  let ?l = "locals_of b mx f1 m"
  have len: "length xs < 2 ^ 64"
    using h by (simp add: header_ok_def)
  have l: "locals_ok ?l xs"
    using locals_ok_fragment [OF b len] .
  have d: "payload_data ?l = payload_of b" "new_primary_block ?l = fragment_header (length (payload_of b)) b"
    "unat (global_payload_offset ?l) = fst (bundle_slice b)"
    using b by (auto simp: locals_of_def bundle_slice_def fragment_ok_def)
  show "fragment_ok h xs f" if "f \<in> set fs"
    using fragments_of_ok [OF l, of 0 ns f] that fs ns(1) d fragment_header_fragment [OF b h] by simp
  show "(\<exists>f \<in> set fs. in_slice i (bundle_slice f)) \<longleftrightarrow> in_slice i (bundle_slice b)"
  proof
    assume "\<exists>f \<in> set fs. in_slice i (bundle_slice f)"
    then obtain k n where "in_slice i (bundle_slice (fragment_at ?l k n))" "k + n \<le> length (payload_of b)"
      using fragments_of_later [OF ns(2)] fs ns(1) by fastforce
    then show "in_slice i (bundle_slice b)"
      using bundle_slice_fragment_at [OF l, of k n] d by (auto simp: in_slice_def bundle_slice_def [of b])
  next
    assume "in_slice i (bundle_slice b)"
    then show "\<exists>f \<in> set fs. in_slice i (bundle_slice f)"
      using fragments_of_cover [OF l, of 0 ns i] fs ns(1) d by (auto simp: in_slice_def bundle_slice_def [of b])
  qed
qed

end
