(* ===== verification/Fragmentation_Results.thy ===== *)
theory Fragmentation_Results
  imports Fragmentation Examples
begin

text \<open>
  The main results on fragmentation and reassembly (\<open>bp7/src/bundle.rs\<close>): fragmenting is undone by
  reassembling, what fragmenting returns and when it succeeds, and which sets of fragments are complete.
\<close>

section \<open>Examples\<close>

lemma example_large_fragment:
  obtains fs m1 m2 where "fragment encode example_large 265 = Ok (fs, m1, m2)" "length fs = 3"
proof -
  have "case fragment encode example_large 265 of Ok (fs, _, _) \<Rightarrow> length fs = 3 | _ \<Rightarrow> False"
    by code_simp
  then show ?thesis
    using that by (auto split: result.splits)
qed

section \<open>Fragmenting\<close>

lemma fragment_loop_no_room:
  "payload_of b \<noteq> [] \<Longrightarrow> fragment_loop enc (locals_of b mx mx m) 0 = Panic"
  by (subst fragment_loop.simps) (simp add: payload_length_for_fragment_def locals_of_def)

text \<open>C2. Fragmenting a bundle and reassembling any collection of the fragments, in any order and with
  duplicates, gives the bytes of the original bundle with its payload block moved to the end.\<close>

theorem fragment_reassemble:
  assumes "fragment enc b mx = Ok (fs, m1, m2)"
    and "fragment_offset (primary_block b) = None" "total_data_length (primary_block b) = None"
    and "payload_of b \<noteq> []" "length (payload_of b) < 2 ^ 64"
    and "set received = set fs"
  shows "reassemble_bundles enc received = Bundle_to_vec enc (payload_last b)"
  using fragment_reassemble_aux [OF assms(1-3) _ assms(5,6)] assms(4) by simp

theorem fragment_reassemble_witness:
  "\<exists>fs m1 m2. fragment encode example_large 265 = Ok (fs, m1, m2) \<and> length fs = 3
     \<and> reassemble_bundles encode (rev fs @ fs) = Bundle_to_vec encode (payload_last example_large)"
proof -
  obtain fs m1 m2 where fs: "fragment encode example_large 265 = Ok (fs, m1, m2)" "length fs = 3"
    by (rule example_large_fragment)
  have "reassemble_bundles encode (rev fs @ fs) = Bundle_to_vec encode (payload_last example_large)"
    by (rule fragment_reassemble [OF fs(1)]) (code_simp, code_simp, code_simp, code_simp, simp)
  then show ?thesis using fs by blast
qed



text \<open>C4. Fragmenting succeeds, with no panic, whenever the limit exceeds the sizes computed for the
  first and the later fragments and the blocks without the replicate flag are at most 63 bytes larger
  than those with it.\<close>

theorem fragment_succeeds:
  assumes codec: "serde_cbor_sized enc dec" and wf: "primary_wf (primary_block b)" "cbor_ok (bundle_cbor enc b)"
    and payload: "has_payload b" "length (payload_of b) < 2 ^ 64"
    and flags: "\<not> contains (bundle_processing_flags (primary_block b)) MUST_NOT_FRAGMENT"
      "contains (bundle_processing_flags (primary_block b)) FRAGMENT \<Longrightarrow> fragment_offset (primary_block b) \<noteq> None"
    and big: "mx < length (enc (bundle_cbor enc b))"
    and room: "length (enc (primary_cbor (primary_block b))) + 130 + blocks_size enc (extension_blocks b) < mx"
    and later: "blocks_size enc (unreplicated_blocks b) \<le> blocks_size enc (replicated_blocks b) + 63"
  shows "\<exists>fs m1 m2. fragment enc b mx = Ok (fs, m1, m2)"
proof -
  let ?P = "length (enc (primary_cbor (primary_block b)))"
  let ?f = "?P + 130 + blocks_size enc (extension_blocks b)"
  let ?m = "?P + 130 + blocks_size enc (replicated_blocks b)"
  let ?l = "locals_of b mx ?f ?m"
  have m: "?m < mx"
    using room blocks_size_replicated [of enc b] by simp
  have n: "payload_length_for_fragment ?l off
      = min (length (payload_of b) - off) (mx - (if off = 0 then ?f else ?m))" for off
    by (simp add: payload_length_for_fragment_def locals_of_def)
  have "\<exists>fs. fragment_loop enc ?l 0 = (Ok fs :: (Bundle list, FragmentationError) result)"
  proof (rule fragment_loop_returns)
    fix off assume "off < length (payload_data ?l)"
    then show "0 < payload_length_for_fragment ?l off"
      using room m by (simp add: n) (auto simp: locals_of_def)
    let ?n = "payload_length_for_fragment ?l off"
    have "?n \<le> mx - (if off = 0 then ?f else ?m)"
      by (simp add: n)
    then have "?P + 67 + ?n + blocks_size enc (if off = 0 then extension_blocks b else unreplicated_blocks b) \<le> mx"
      using room m later by (cases "off = 0") auto
    then show "\<exists>bytes. Bundle_to_vec enc (fragment_at ?l off ?n)
        = (Ok bytes :: (bytes, FragmentationError) result) \<and> length bytes \<le> max_size ?l"
      using fragment_at_fits(2) [OF codec wf payload, of mx ?f ?m off ?n]
      by (simp add: fragment_at_fits(1) [OF codec wf payload])
  qed
  then show ?thesis
    using big flags room m wf(1)
    by (auto simp: fragment_unfold [OF payload(1)] Bundle_to_vec_Ok min_sizes_eq primary_wf_def)
qed

theorem fragment_succeeds_witness:
  "\<exists>fs m1 m2. fragment encode example_large 265 = Ok (fs, m1, m2)"
  by (rule fragment_succeeds [OF rfc8949.serde_cbor_sized_axioms]; code_simp)

text \<open>C13. A fragment can be fragmented again: the pieces are fragments of the same payload under the
  same header, and together they cover exactly the range of the fragment that was cut.\<close>

theorem refragment:
  assumes "fragment_ok h xs b" and "header_ok h xs" and "fragment enc b mx = Ok (fs, m1, m2)"
  shows "list_all (fragment_ok h xs) fs
    \<and> list_ex (\<lambda>f. in_slice i (bundle_slice f)) fs = in_slice i (bundle_slice b)"
  using refragment_aux [OF assms] by (simp add: list_all_iff list_ex_iff)

lemma example_fragment_cut: "case fragment encode example_fragment 260 of Ok (fs, _, _) \<Rightarrow> length fs = 3 | _ \<Rightarrow> False"
  by code_simp

theorem refragment_witness:
  "\<exists>fs m1 m2. fragment encode example_fragment 260 = Ok (fs, m1, m2) \<and> length fs = 3
     \<and> list_all (fragment_ok example_fragment_header (replicate 300 7)) fs
     \<and> list_ex (\<lambda>f. in_slice 249 (bundle_slice f)) fs"
proof -
  obtain fs m1 m2 where fs: "fragment encode example_fragment 260 = Ok (fs, m1, m2)" "length fs = 3"
    using example_fragment_cut by (auto split: result.splits)
  have "fragment_ok example_fragment_header (replicate 300 7) example_fragment"
    "header_ok example_fragment_header (replicate 300 7)" "in_slice 249 (bundle_slice example_fragment)"
    by code_simp+
  with fs refragment [OF this(1,2) fs(1), of 249] show ?thesis by auto
qed

text \<open>C14. Blocks that ask to be replicated are in no fragment but the first: the filter for the later
  fragments keeps the blocks without the flag.\<close>

theorem replicated_blocks_dropped:
  assumes "fragment enc b mx = Ok (fs, m1, m2)" and "f \<in> set (tl fs)" and "c \<in> set (replicated_blocks b)"
  shows "c \<notin> set (blocks f)"
proof -
  obtain ps where "fs = map (expected_fragment b ps) [0..<length ps]"
    using fragment_output_aux [OF assms(1)] by blast
  with assms(2) obtain i where "f = expected_fragment b ps (Suc i)"
    by (auto simp: in_set_conv_nth nth_tl)
  then show ?thesis
    using assms(3) by (auto simp: expected_fragment_def replicated_blocks_def unreplicated_blocks_def)
qed

theorem replicated_blocks_dropped_witness:
  "\<exists>fs m1 m2 f. fragment encode example_large 265 = Ok (fs, m1, m2) \<and> f \<in> set (tl fs)
     \<and> example_hop_count \<in> set (replicated_blocks example_large) \<and> example_hop_count \<notin> set (blocks f)"
proof -
  obtain fs m1 m2 where fs: "fragment encode example_large 265 = Ok (fs, m1, m2)" "length fs = 3"
    by (rule example_large_fragment)
  then obtain f where f: "f \<in> set (tl fs)"
    by (cases fs rule: remdups_adj.cases) auto
  have hop: "example_hop_count \<in> set (replicated_blocks example_large)"
    by code_simp
  show ?thesis
    using replicated_blocks_dropped [OF fs(1) f hop] fs(1) f hop by blast
qed

text \<open>At exactly the size that the error for too small limits reports as the minimum,
  fragmenting panics instead of returning fragments or an error.\<close>

theorem fragment_minimum_panics:
  assumes "primary_wf (primary_block b)" and "has_payload b" "payload_of b \<noteq> []"
    and "\<not> contains (bundle_processing_flags (primary_block b)) MUST_NOT_FRAGMENT"
    and "contains (bundle_processing_flags (primary_block b)) FRAGMENT \<Longrightarrow> fragment_offset (primary_block b) \<noteq> None"
    and "mx < length (enc (bundle_cbor enc b))"
    and "min_sizes enc b = (Ok (mx, later_min) :: (nat \<times> nat, FragmentationError) result)"
  shows "fragment enc b mx = Panic"
proof -
  have "later_min \<le> mx"
    using assms(1,7) blocks_size_replicated [of enc b] by (auto simp: min_sizes_eq)
  then show ?thesis
    using assms by (auto simp: fragment_unfold Bundle_to_vec_Ok fragment_loop_no_room primary_wf_def)
qed

theorem fragment_minimum_panics_witness: "fragment encode example_large 187 = Panic"
  by (rule fragment_minimum_panics [where later_min = 187]; code_simp)

section \<open>Reassembling\<close>

text \<open>C12. The test for completeness decides coverage: for fragments of one payload it accepts exactly
  when every position of the payload lies in some fragment, and it leaves the fragments ordered by
  offset.\<close>

theorem can_reassemble_exact:
  assumes "bs \<noteq> []" and "list_all (fragment_ok h xs) bs" and "header_ok h xs"
  shows "can_reassemble_bundles bs
         = Ok (covers (map bundle_slice bs) (length xs), sort_key offset_key bs)"
  using assms by (intro can_reassemble_covers) (auto simp: list_all_iff)

theorem can_reassemble_exact_witness:
  "can_reassemble_bundles example_incomplete
     = (Ok (False, [example_piece 0 5, example_piece 6 4]) :: (bool \<times> Bundle list, unit) result)
   \<and> can_reassemble_bundles example_complete
     = (Ok (True, [example_piece 0 5, example_piece 3 4, example_piece 6 4]) :: (bool \<times> Bundle list, unit) result)"
  using can_reassemble_exact [OF example_pieces_ok(1,3,5), where ?'a = unit]
    can_reassemble_exact [OF example_pieces_ok(2,4,5), where ?'a = unit]
  by (simp add: example_pieces_sorted example_pieces_covers)

text \<open>C3. Reassembly is correct for every family of fragments of one payload, overlapping or duplicated
  and in any order: a complete family gives the bytes of the bundle with the whole payload and without
  the fragment fields, an incomplete one is handed back, only reordered.\<close>

theorem reassemble_exact:
  assumes "bs \<noteq> []" and "list_all (fragment_ok h xs) bs" and "header_ok h xs"
  shows "reassemble_bundles enc bs =
    (if covers (map bundle_slice bs) (length xs)
     then Bundle_to_vec enc (reassembled (hd (sort_key offset_key bs)) xs)
     else Err (sort_key offset_key bs))"
  using assms reassemble_covers [of bs h xs enc] reassemble_incomplete [of bs h xs enc]
  by (auto simp: list_all_iff)

theorem reassemble_exact_witness:
  "reassemble_bundles encode example_complete
     = Bundle_to_vec encode \<lparr>primary_block = example_primary, blocks = [example_payload example_ten]\<rparr>
   \<and> reassemble_bundles encode example_incomplete = Err [example_piece 0 5, example_piece 6 4]"
proof -
  have "reassembled (example_piece 0 5) example_ten
      = \<lparr>primary_block = example_primary, blocks = [example_payload example_ten]\<rparr>"
    by code_simp
  then show ?thesis
    using reassemble_exact [OF example_pieces_ok(1,3,5)] reassemble_exact [OF example_pieces_ok(2,4,5)]
    by (simp add: example_pieces_sorted example_pieces_covers)
qed

end
