(* ===== verification/Tcpcl_Buffer.thy ===== *)
theory Tcpcl_Buffer
  imports Prelude
begin

text \<open>
  The read and write operations of the \<open>bytes\<close> buffers that the TCPCL message codecs of
  \<open>tcpcl/src/v4/messages\<close> use. A \<open>BytesMut\<close> is the list of the bytes that are still to be read.
  A read past the end is the panic of \<open>Buf::get_u8\<close>, \<open>Buf::advance\<close> or of a slice index, as the
  documentation of these operations states.
\<close>

named_theorems buffer_simps \<open>reading back what was just written\<close>

section \<open>Reading\<close>

fun get_u8 :: "bytes \<Rightarrow> (u8 \<times> bytes, 'e) result" where
  "get_u8 [] = Panic"
| "get_u8 (b # r) = Ok (b, r)"

definition get_be :: "nat \<Rightarrow> bytes \<Rightarrow> (nat \<times> bytes, 'e) result" where
  "get_be k src = (if length src < k then Panic else Ok (be_nat (take k src), drop k src))"

definition get_u16 :: "bytes \<Rightarrow> (u16 \<times> bytes, 'e) result" where
  "get_u16 src = map_ok (\<lambda>(n, r). (of_nat n, r)) (get_be 2 src)"

definition get_u32 :: "bytes \<Rightarrow> (u32 \<times> bytes, 'e) result" where
  "get_u32 src = map_ok (\<lambda>(n, r). (of_nat n, r)) (get_be 4 src)"

definition get_u64 :: "bytes \<Rightarrow> (u64 \<times> bytes, 'e) result" where
  "get_u64 src = map_ok (\<lambda>(n, r). (of_nat n, r)) (get_be 8 src)"

text \<open>\<open>src.advance(n)\<close>, the slice \<open>src[a..b]\<close>, and \<open>src.get(0..n).unwrap()\<close> followed by
  \<open>src.advance(n)\<close>.\<close>

definition advance :: "nat \<Rightarrow> bytes \<Rightarrow> (bytes, 'e) result" where
  "advance n src = (if length src < n then Panic else Ok (drop n src))"

definition index_range :: "nat \<Rightarrow> nat \<Rightarrow> bytes \<Rightarrow> (bytes, 'e) result" where
  "index_range a b src = (if a \<le> b \<and> b \<le> length src then Ok (take (b - a) (drop a src)) else Panic)"

definition split_to :: "nat \<Rightarrow> bytes \<Rightarrow> (bytes \<times> bytes, 'e) result" where
  "split_to n src = (if length src < n then Panic else Ok (take n src, drop n src))"

section \<open>Writing\<close>

definition put_u16 :: "u16 \<Rightarrow> bytes" where
  "put_u16 w = be_bytes 2 (unat w)"

definition put_u32 :: "u32 \<Rightarrow> bytes" where
  "put_u32 w = be_bytes 4 (unat w)"

definition put_u64 :: "u64 \<Rightarrow> bytes" where
  "put_u64 w = be_bytes 8 (unat w)"

text \<open>\<open>len.try_into().unwrap()\<close> to an unsigned type of \<open>k\<close> bytes, then written.\<close>

definition put_len :: "nat \<Rightarrow> nat \<Rightarrow> (bytes, 'e) result" where
  "put_len k n = (if n < 256 ^ k then Ok (be_bytes k n) else Panic)"

section \<open>Reading back what was written\<close>

lemma length_put [simp]:
  "length (put_u16 a) = 2" "length (put_u32 b) = 4" "length (put_u64 c) = 8"
  by (simp_all only: put_u16_def put_u32_def put_u64_def length_be_bytes)

lemma get_be_append [buffer_simps]: "length bs = k \<Longrightarrow> get_be k (bs @ r) = Ok (be_nat bs, r)"
  by (simp add: get_be_def)

lemma get_put_u16 [buffer_simps]: "get_u16 (put_u16 w @ r) = Ok (w, r)"
  using unat_u16_less [of w]
  by (simp add: get_u16_def put_u16_def get_be_append del: be_bytes_numeral)

lemma get_put_u32 [buffer_simps]: "get_u32 (put_u32 w @ r) = Ok (w, r)"
  using unat_u32_less [of w]
  by (simp add: get_u32_def put_u32_def get_be_append del: be_bytes_numeral)

lemma get_put_u64 [buffer_simps]: "get_u64 (put_u64 w @ r) = Ok (w, r)"
  using unat_u64_less [of w]
  by (simp add: get_u64_def put_u64_def get_be_append del: be_bytes_numeral)

lemma get_u8_Cons [buffer_simps]: "get_u8 (b # r) = Ok (b, r)"
  by simp

lemma advance_append [buffer_simps]: "length a = n \<Longrightarrow> advance n (a @ r) = Ok r"
  by (simp add: advance_def)

lemma split_to_append [buffer_simps]: "length a = n \<Longrightarrow> split_to n (a @ r) = Ok (a, r)"
  by (simp add: split_to_def)

lemma index_range_append [buffer_simps]:
  "length a = m \<Longrightarrow> length b + m = n \<Longrightarrow> index_range m n (a @ b @ r) = Ok b"
  by (auto simp: index_range_def)

lemma put_len_eq [simp]: "n < 256 ^ k \<Longrightarrow> put_len k n = Ok (be_bytes k n)"
  by (simp add: put_len_def)

lemma put_len_Ok_iff [result_simps]: "put_len k n = Ok bs \<longleftrightarrow> n < 256 ^ k \<and> bs = be_bytes k n"
  by (auto simp: put_len_def)

lemma be_nat_be_bytes_less [simp]: "n < 256 ^ k \<Longrightarrow> be_nat (be_bytes k n) = n"
  by simp

lemma get_u16_be [buffer_simps]: "n < 65536 \<Longrightarrow> get_u16 (be_bytes 2 n @ r) = Ok (of_nat n, r)"
  by (simp add: get_u16_def get_be_append del: be_bytes_numeral)

lemma get_u32_be [buffer_simps]: "n < 4294967296 \<Longrightarrow> get_u32 (be_bytes 4 n @ r) = Ok (of_nat n, r)"
  by (simp add: get_u32_def get_be_append del: be_bytes_numeral)

section \<open>How far a read goes\<close>

lemma get_u8_length: "get_u8 src = Ok (b, r) \<Longrightarrow> length src = Suc (length r)"
  by (cases src) auto

lemma get_be_length: "get_be k src = Ok (n, r) \<Longrightarrow> length src = k + length r"
  by (auto simp: get_be_def split: if_splits)

lemma get_wide_length:
  "get_u16 src = Ok (a, r) \<Longrightarrow> length src = 2 + length r"
  "get_u32 src = Ok (b, r) \<Longrightarrow> length src = 4 + length r"
  "get_u64 src = Ok (c, r) \<Longrightarrow> length src = 8 + length r"
  by (auto simp: get_u16_def get_u32_def get_u64_def result_simps dest: get_be_length)

lemma split_to_length: "split_to n src = Ok (a, r) \<Longrightarrow> length src = n + length r \<and> length a = n"
  by (auto simp: split_to_def split: if_splits)

lemmas read_length = get_u8_length get_wide_length split_to_length

lemma get_Panic_iff [no_panic]:
  "get_u8 src = Panic \<longleftrightarrow> length src < 1"
  "get_u16 src = Panic \<longleftrightarrow> length src < 2"
  "get_u32 src = Panic \<longleftrightarrow> length src < 4"
  "get_u64 src = Panic \<longleftrightarrow> length src < 8"
  "advance n src = Panic \<longleftrightarrow> length src < n"
  "split_to n src = Panic \<longleftrightarrow> length src < n"
  by (cases src; simp add: get_u16_def get_u32_def get_u64_def get_be_def advance_def split_to_def no_panic)+

end
