(* ===== verification/Tcpcl_Messages.thy ===== *)
theory Tcpcl_Messages
  imports Tcpcl_Buffer
begin

text \<open>
  The messages of the TCP convergence layer: \<open>tcpcl/src/v4/messages/*.rs\<close>, one section per file
  with its type, its constructor and its \<open>encode\<close> and \<open>decode\<close>. A decoder is called on whatever
  has arrived so far: it answers \<open>None\<close> when it waits for more, and leaves the buffer alone then.
  The locale \<open>message_codec\<close> is the contract a message owes to the stream codec (what was
  encoded is decoded again, and the bytes behind it stay in the buffer);
  \<open>incremental_codec\<close> adds what a decoder owes to a stream that delivers frames in pieces.
\<close>

section \<open>Errors\<close>

type_synonym io_error = string

datatype Errors =
    IoError io_error
  | InvalidMessageType u8
  | InvalidHeader
  | UnkownCriticalSessionExtension u16
  | UnkownCriticalTransferExtension u16
  | SegmentTooLong
  | NodeIdInvalid
  | InvalidACKValue

type_synonym 'm decoded = "('m option \<times> bytes, Errors) result"
type_synonym encoded = "(bytes, Errors) result"

section \<open>Contact header\<close>

definition CAN_TLS :: u8 where
  [flag_defs]: "CAN_TLS = 0x01"

definition DTN_MAGIC_BYTES :: bytes where
  "DTN_MAGIC_BYTES = [0x64, 0x74, 0x6E, 0x21]"

record ContactHeader =
  ch_magic :: bytes
  ch_version :: u8
  ch_flags :: u8

definition ContactHeader_new :: "bool \<Rightarrow> ContactHeader" where
  "ContactHeader_new can_tls =
     \<lparr>ch_magic = DTN_MAGIC_BYTES, ch_version = 4, ch_flags = (if can_tls then 0 OR CAN_TLS else 0)\<rparr>"

definition can_tls :: "ContactHeader \<Rightarrow> bool" where
  "can_tls ch = contains (ch_flags ch) CAN_TLS"

definition ContactHeader_decode :: "bytes \<Rightarrow> ContactHeader decoded" where
  "ContactHeader_decode src =
     (if length src < 6 then Ok (None, src)
      else and_then (split_to 4 src) (\<lambda>(m, src).
        if m \<noteq> DTN_MAGIC_BYTES then Err InvalidHeader
        else and_then (get_u8 src) (\<lambda>(v, src).
             and_then (get_u8 src) (\<lambda>(f, src).
               Ok (Some \<lparr>ch_magic = m, ch_version = v, ch_flags = f AND CAN_TLS\<rparr>, src)))))"

definition ContactHeader_encode :: "ContactHeader \<Rightarrow> encoded" where
  "ContactHeader_encode ch = Ok (ch_magic ch @ [ch_version ch] @ [ch_flags ch])"

section \<open>Keepalive\<close>

datatype Keepalive = Keepalive_new

definition Keepalive_decode :: "bytes \<Rightarrow> Keepalive decoded" where
  "Keepalive_decode src = Ok (Some Keepalive_new, src)"

definition Keepalive_encode :: "Keepalive \<Rightarrow> encoded" where
  "Keepalive_encode k = Ok []"

section \<open>Message rejection\<close>

datatype RejectReason =
    Reject_Unkown
  | MessageTypeUnkown
  | MessageUnsupported
  | MessageUnexpected

fun reject_code :: "RejectReason \<Rightarrow> u8" where
  "reject_code Reject_Unkown = 0x00"
| "reject_code MessageTypeUnkown = 0x01"
| "reject_code MessageUnsupported = 0x02"
| "reject_code MessageUnexpected = 0x03"

text \<open>\<open>try_into().unwrap_or(ReasonCode::Unkown)\<close>.\<close>

definition reject_reason :: "u8 \<Rightarrow> RejectReason" where
  "reject_reason b =
     (if b = 0x01 then MessageTypeUnkown
      else if b = 0x02 then MessageUnsupported
      else if b = 0x03 then MessageUnexpected
      else Reject_Unkown)"

record MsgReject =
  mr_reason :: RejectReason
  mr_message_header :: u8

definition MsgReject_new :: "RejectReason \<Rightarrow> u8 \<Rightarrow> MsgReject" where
  "MsgReject_new r h = \<lparr>mr_reason = r, mr_message_header = h\<rparr>"

definition MsgReject_decode :: "bytes \<Rightarrow> MsgReject decoded" where
  "MsgReject_decode src =
     (if length src < 2 then Ok (None, src)
      else and_then (get_u8 src) (\<lambda>(r, src).
           and_then (get_u8 src) (\<lambda>(h, src).
             Ok (Some \<lparr>mr_reason = reject_reason r, mr_message_header = h\<rparr>, src))))"

definition MsgReject_encode :: "MsgReject \<Rightarrow> encoded" where
  "MsgReject_encode m = Ok ([reject_code (mr_reason m)] @ [mr_message_header m])"

section \<open>Session termination\<close>

definition REPLY :: u8 where
  [flag_defs]: "REPLY = 0x01"

datatype TermReason =
    Term_Unkown
  | IdleTimeout
  | VersionMissmatch
  | Busy
  | ContactFailure
  | ResourceExhaustion

fun term_code :: "TermReason \<Rightarrow> u8" where
  "term_code Term_Unkown = 0x00"
| "term_code IdleTimeout = 0x01"
| "term_code VersionMissmatch = 0x02"
| "term_code Busy = 0x03"
| "term_code ContactFailure = 0x04"
| "term_code ResourceExhaustion = 0x05"

definition term_reason :: "u8 \<Rightarrow> TermReason" where
  "term_reason b =
     (if b = 0x01 then IdleTimeout
      else if b = 0x02 then VersionMissmatch
      else if b = 0x03 then Busy
      else if b = 0x04 then ContactFailure
      else if b = 0x05 then ResourceExhaustion
      else Term_Unkown)"

record SessTerm =
  st_flags :: u8
  st_reason :: TermReason

definition SessTerm_new :: "TermReason \<Rightarrow> bool \<Rightarrow> SessTerm" where
  "SessTerm_new r reply = \<lparr>st_flags = (if reply then REPLY else 0), st_reason = r\<rparr>"

definition SessTerm_decode :: "bytes \<Rightarrow> SessTerm decoded" where
  "SessTerm_decode src =
     (if length src < 2 then Ok (None, src)
      else and_then (get_u8 src) (\<lambda>(f, src).
           and_then (get_u8 src) (\<lambda>(r, src).
             Ok (Some \<lparr>st_flags = f AND REPLY, st_reason = term_reason r\<rparr>, src))))"

definition SessTerm_encode :: "SessTerm \<Rightarrow> encoded" where
  "SessTerm_encode m = Ok ([st_flags m] @ [term_code (st_reason m)])"

section \<open>Session initialisation\<close>

definition KEEPALIVE_DEFAULT_INTERVAL :: u16 where
  "KEEPALIVE_DEFAULT_INTERVAL = 60"

definition MAX_SEGMENT_MRU :: nat where
  "MAX_SEGMENT_MRU = 100 * 1024"

definition MAX_TRANSFER_MRU :: nat where
  "MAX_TRANSFER_MRU = 1024 * 1024"

definition CRITICAL :: u8 where
  [flag_defs]: "CRITICAL = 0x01"

record SessionExtension =
  se_flags :: u8
  se_extension_type :: u16
  se_value :: bytes

definition SessionExtension_decode :: "bytes \<Rightarrow> (SessionExtension \<times> bytes, Errors) result" where
  "SessionExtension_decode src =
     and_then (get_u8 src) (\<lambda>(f, src).
     and_then (get_u16 src) (\<lambda>(t, src).
     and_then (get_u16 src) (\<lambda>(n, src).
     and_then (split_to (unat n) src) (\<lambda>(v, src).
       Ok (\<lparr>se_flags = f AND CRITICAL, se_extension_type = t, se_value = v\<rparr>, src)))))"

definition SessionExtension_write :: "SessionExtension \<Rightarrow> encoded" where
  "SessionExtension_write e =
     and_then (put_len 2 (length (se_value e))) (\<lambda>l.
       Ok ([se_flags e] @ put_u16 (se_extension_type e) @ l @ se_value e))"

record SessInit =
  keepalive_interval :: u16
  segment_mru :: u64
  transfer_mru :: u64
  node_id :: string
  session_extensions :: "SessionExtension list"

definition SessInit_new :: "string \<Rightarrow> SessInit" where
  "SessInit_new n =
     \<lparr>keepalive_interval = KEEPALIVE_DEFAULT_INTERVAL, segment_mru = of_nat MAX_SEGMENT_MRU,
      transfer_mru = of_nat MAX_TRANSFER_MRU, node_id = n, session_extensions = []\<rparr>"

lemma SessionExtension_decode_shorter:
  "SessionExtension_decode src = Ok (e, r) \<Longrightarrow> length r < length src"
  by (auto simp: SessionExtension_decode_def result_simps dest!: read_length)

text \<open>The loop over the session extensions, which runs until \<open>target\<close> bytes or fewer are left.\<close>

function session_extensions_loop ::
  "nat \<Rightarrow> bytes \<Rightarrow> (SessionExtension list \<times> bytes, Errors) result" where
  "session_extensions_loop target src =
     (if length src > target then
        (case SessionExtension_decode src of
           Ok (se, r) \<Rightarrow>
             if contains (se_flags se) CRITICAL
             then Err (UnkownCriticalSessionExtension (se_extension_type se))
             else and_then (session_extensions_loop target r) (\<lambda>(ses, r). Ok (se # ses, r))
         | Err e \<Rightarrow> Err e
         | Panic \<Rightarrow> Panic)
      else Ok ([], src))"
  by pat_completeness auto
termination
  by (relation "measure (\<lambda>(t, src). length src)") (auto dest: SessionExtension_decode_shorter)

declare session_extensions_loop.simps [simp del]

definition SessInit_decode :: "bytes \<Rightarrow> SessInit decoded" where
  "SessInit_decode src =
     (if length src < 24 then Ok (None, src)
      else and_then (index_range 18 20 src) (\<lambda>nl. let n = be_nat nl in
           and_then (index_range (20 + n) (24 + n) src) (\<lambda>el. let x = be_nat el in
           if length src < 24 + n + x then Ok (None, src)
           else and_then (get_u16 src) (\<lambda>(k, src).
                and_then (get_u64 src) (\<lambda>(sm, src).
                and_then (get_u64 src) (\<lambda>(tm, src).
                and_then (advance 2 src) (\<lambda>src.
                and_then (split_to n src) (\<lambda>(nv, src).
                if \<not> utf8_valid nv then Err NodeIdInvalid
                else and_then (advance 4 src) (\<lambda>src.
                     and_then (session_extensions_loop (length src - x) src) (\<lambda>(ses, src).
                       Ok (Some \<lparr>keepalive_interval = k, segment_mru = sm, transfer_mru = tm,
                                 node_id = from_bytes nv, session_extensions = ses\<rparr>, src)))))))))))"

definition SessInit_encode :: "SessInit \<Rightarrow> encoded" where
  "SessInit_encode m =
     and_then (put_len 2 (length (node_id m))) (\<lambda>nl.
     and_then (traverse SessionExtension_write (session_extensions m)) (\<lambda>ebs.
     and_then (put_len 4 (length (concat ebs))) (\<lambda>el.
       Ok (put_u16 (keepalive_interval m) @ put_u64 (segment_mru m) @ put_u64 (transfer_mru m)
           @ nl @ as_bytes (node_id m) @ el @ concat ebs))))"

section \<open>Transfer acknowledgement\<close>

definition END :: u8 where
  [flag_defs]: "END = 0x01"

definition START :: u8 where
  [flag_defs]: "START = 0x02"

record XferAck =
  xa_flags :: u8
  xa_transfer_id :: u64
  acknowleged_length :: u64

definition XferAck_new :: "u8 \<Rightarrow> u64 \<Rightarrow> u64 \<Rightarrow> XferAck" where
  "XferAck_new f i n = \<lparr>xa_flags = f, xa_transfer_id = i, acknowleged_length = n\<rparr>"

definition XferAck_decode :: "bytes \<Rightarrow> XferAck decoded" where
  "XferAck_decode src =
     (if length src < 9 then Ok (None, src)
      else and_then (get_u8 src) (\<lambda>(f, src).
           and_then (get_u64 src) (\<lambda>(i, src).
           and_then (get_u64 src) (\<lambda>(n, src).
             Ok (Some \<lparr>xa_flags = f AND (END OR START), xa_transfer_id = i, acknowleged_length = n\<rparr>, src)))))"

definition XferAck_encode :: "XferAck \<Rightarrow> encoded" where
  "XferAck_encode m = Ok ([xa_flags m] @ put_u64 (xa_transfer_id m) @ put_u64 (acknowleged_length m))"

section \<open>Transfer refusal\<close>

datatype RefuseReason =
    Refuse_Unkown
  | Completed
  | NoResources
  | Retransmit
  | NotAcceptable
  | ExtensionFailure
  | SessionTerminating

fun refuse_code :: "RefuseReason \<Rightarrow> u8" where
  "refuse_code Refuse_Unkown = 0x00"
| "refuse_code Completed = 0x01"
| "refuse_code NoResources = 0x02"
| "refuse_code Retransmit = 0x03"
| "refuse_code NotAcceptable = 0x04"
| "refuse_code ExtensionFailure = 0x05"
| "refuse_code SessionTerminating = 0x06"

definition refuse_reason :: "u8 \<Rightarrow> RefuseReason" where
  "refuse_reason b =
     (if b = 0x01 then Completed
      else if b = 0x02 then NoResources
      else if b = 0x03 then Retransmit
      else if b = 0x04 then NotAcceptable
      else if b = 0x05 then ExtensionFailure
      else if b = 0x06 then SessionTerminating
      else Refuse_Unkown)"

record XferRefuse =
  xr_reason :: RefuseReason
  xr_transfer_id :: u64

definition XferRefuse_new :: "u64 \<Rightarrow> XferRefuse" where
  "XferRefuse_new i = \<lparr>xr_reason = Refuse_Unkown, xr_transfer_id = i\<rparr>"

definition XferRefuse_decode :: "bytes \<Rightarrow> XferRefuse decoded" where
  "XferRefuse_decode src =
     (if length src < 5 then Ok (None, src)
      else and_then (get_u8 src) (\<lambda>(r, src).
           and_then (get_u64 src) (\<lambda>(i, src).
             Ok (Some \<lparr>xr_reason = refuse_reason r, xr_transfer_id = i\<rparr>, src))))"

definition XferRefuse_encode :: "XferRefuse \<Rightarrow> encoded" where
  "XferRefuse_encode m = Ok ([refuse_code (xr_reason m)] @ put_u64 (xr_transfer_id m))"

section \<open>Transfer segments\<close>

record TransferExtension =
  te_flags :: u8
  te_extension_type :: u16
  te_value :: bytes

text \<open>The value buffer is created with \<open>value_length\<close> zero bytes and the value is put behind them.\<close>

definition TransferExtension_decode :: "bytes \<Rightarrow> (TransferExtension \<times> bytes, Errors) result" where
  "TransferExtension_decode src =
     and_then (get_u8 src) (\<lambda>(f, src).
     and_then (get_u16 src) (\<lambda>(t, src).
     and_then (get_u16 src) (\<lambda>(n, src).
     assert_then (length src \<ge> unat n)
       (Ok (\<lparr>te_flags = f AND CRITICAL, te_extension_type = t,
             te_value = replicate (unat n) 0 @ take (unat n) src\<rparr>, drop (unat n) src)))))"

definition TransferExtension_write :: "TransferExtension \<Rightarrow> encoded" where
  "TransferExtension_write e =
     and_then (put_len 2 (length (te_value e))) (\<lambda>l.
       Ok ([te_flags e] @ put_u16 (te_extension_type e) @ l @ te_value e))"

record XferSegment =
  xs_flags :: u8
  xs_transfer_id :: u64
  transfer_extensions :: "TransferExtension list"
  xs_data :: bytes

definition XferSegment_new :: "u8 \<Rightarrow> u64 \<Rightarrow> bytes \<Rightarrow> XferSegment" where
  "XferSegment_new f i d =
     \<lparr>xs_flags = f, xs_transfer_id = i, transfer_extensions = [], xs_data = d\<rparr>"

definition to_xfer_ack :: "XferSegment \<Rightarrow> u64 \<Rightarrow> XferAck" where
  "to_xfer_ack s n = XferAck_new (xs_flags s) (xs_transfer_id s) n"

lemma TransferExtension_decode_shorter:
  "TransferExtension_decode src = Ok (e, r) \<Longrightarrow> length r < length src"
  by (auto simp: TransferExtension_decode_def result_simps dest!: read_length)

function transfer_extensions_loop ::
  "nat \<Rightarrow> bytes \<Rightarrow> (TransferExtension list \<times> bytes, Errors) result" where
  "transfer_extensions_loop target src =
     (if length src > target then
        (case TransferExtension_decode src of
           Ok (te, r) \<Rightarrow>
             if contains (te_flags te) CRITICAL
             then Err (UnkownCriticalTransferExtension (te_extension_type te))
             else and_then (transfer_extensions_loop target r) (\<lambda>(tes, r). Ok (te # tes, r))
         | Err e \<Rightarrow> Err e
         | Panic \<Rightarrow> Panic)
      else Ok ([], src))"
  by pat_completeness auto
termination
  by (relation "measure (\<lambda>(t, src). length src)") (auto dest: TransferExtension_decode_shorter)

declare transfer_extensions_loop.simps [simp del]

text \<open>The first part of \<open>XferSegment::decode\<close>: the size of the frame up to its data, \<open>None\<close> when too
  little has arrived to tell.\<close>

definition segment_min_size :: "u8 \<Rightarrow> bytes \<Rightarrow> (nat option, Errors) result" where
  "segment_min_size f src =
     (if contains f START
      then and_then (index_range 9 13 src) (\<lambda>el.
             let m = 17 + 4 + be_nat el in Ok (if length src < m then None else Some m))
      else Ok (Some 17))"

text \<open>The part of \<open>XferSegment::decode\<close> that reads the transfer extensions, present in a first
  segment only.\<close>

definition segment_extensions :: "u8 \<Rightarrow> bytes \<Rightarrow> (TransferExtension list \<times> bytes, Errors) result" where
  "segment_extensions f src =
     (if contains f START
      then assert_then (length src \<ge> 12)
             (and_then (get_u32 src) (\<lambda>(x, src).
              assert_then (length src \<ge> unat x)
                (transfer_extensions_loop (length src - unat x) src)))
      else Ok ([], src))"

definition XferSegment_decode :: "bytes \<Rightarrow> XferSegment decoded" where
  "XferSegment_decode src =
     (if length src < 10 then Ok (None, src)
      else let f = hd src AND (END OR START) in
        and_then (segment_min_size f src) (\<lambda>ms. case ms of
          None \<Rightarrow> Ok (None, src)
        | Some m \<Rightarrow>
            and_then (index_range (m - 8) m src) (\<lambda>dl. let n = be_nat dl in
            if n > MAX_SEGMENT_MRU then Err SegmentTooLong
            else if length src < m + n then Ok (None, src)
            else and_then (advance 1 src) (\<lambda>src.
                 and_then (get_u64 src) (\<lambda>(i, src).
                 and_then (segment_extensions f src) (\<lambda>(tes, src).
                 and_then (advance 8 src) (\<lambda>src.
                 assert_then (length src \<ge> n)
                   (Ok (Some \<lparr>xs_flags = f, xs_transfer_id = i, transfer_extensions = tes,
                              xs_data = take n src\<rparr>, drop n src)))))))))"

definition XferSegment_encode :: "XferSegment \<Rightarrow> encoded" where
  "XferSegment_encode m =
     and_then
       (if contains (xs_flags m) START
        then and_then (traverse TransferExtension_write (transfer_extensions m)) (\<lambda>ebs.
             and_then (put_len 4 (length (concat ebs))) (\<lambda>el. Ok (el @ concat ebs)))
        else Ok []) (\<lambda>exts.
     and_then (put_len 8 (length (xs_data m))) (\<lambda>dl.
       Ok ([xs_flags m] @ put_u64 (xs_transfer_id m) @ exts @ dl @ xs_data m)))"

section \<open>The contract of a message codec\<close>

text \<open>
  \<open>wf\<close> singles out the values the type invariants of the Rust types allow and whose lengths fit
  the length fields.
\<close>

locale message_codec =
  fixes wf :: "'m \<Rightarrow> bool"
    and enc :: "'m \<Rightarrow> encoded"
    and dec :: "bytes \<Rightarrow> 'm decoded"
  assumes enc_Ok: "wf m \<Longrightarrow> \<exists>bs. enc m = Ok bs"
    and dec_enc: "wf m \<Longrightarrow> enc m = Ok bs \<Longrightarrow> dec (bs @ rest) = Ok (Some m, rest)"
begin

lemma enc_inject: "wf m \<Longrightarrow> wf m' \<Longrightarrow> enc m = enc m' \<Longrightarrow> m = m'"
  using enc_Ok [of m] dec_enc [of m _ "[]"] dec_enc [of m' _ "[]"] by auto

text \<open>No encoding is a proper prefix of another one: the frames delimit themselves.\<close>

lemma enc_prefix_free:
  assumes "wf m" "wf m'" "enc m = Ok bs" "enc m' = Ok (bs @ r)"
  shows "r = [] \<and> m' = m"
  using dec_enc [OF assms(1,3), of r] dec_enc [OF assms(2,4), of "[]"] by simp

end

text \<open>A decoder that can be called at any time: on an incomplete frame it waits.\<close>

locale incremental_codec = message_codec +
  assumes partial: "wf m \<Longrightarrow> enc m = Ok (p @ q) \<Longrightarrow> q \<noteq> [] \<Longrightarrow> dec p = Ok (None, p)"
begin

text \<open>A frame that arrives in two pieces is read as if it had arrived at once.\<close>

lemma two_pieces:
  assumes "wf m" "enc m = Ok (p @ q)" "q \<noteq> []"
  shows "\<exists>p'. dec p = Ok (None, p') \<and> dec (p' @ q @ rest) = Ok (Some m, rest)"
  using partial [OF assms] dec_enc [OF assms(1,2), of rest] by simp

end

end
