(* ===== verification/Tcpcl_Message_Laws.thy ===== *)
theory Tcpcl_Message_Laws
  imports Tcpcl_Messages
begin

text \<open>
  The codecs of the TCPCL messages keep the contract \<open>message_codec\<close>; those of the contact header,
  of the keepalive, of the session termination and of the rejection are incremental as well. The
  others are not: the length tests of \<open>XferAck\<close>, \<open>XferRefuse\<close>, \<open>XferSegment\<close> and \<open>SessInit\<close> let a
  frame through that has arrived in part, and reading it panics.
\<close>

section \<open>Well-formed messages\<close>

definition ContactHeader_wf :: "ContactHeader \<Rightarrow> bool" where
  "ContactHeader_wf m \<longleftrightarrow> ch_magic m = DTN_MAGIC_BYTES \<and> known_bits CAN_TLS (ch_flags m)"

definition SessTerm_wf :: "SessTerm \<Rightarrow> bool" where
  "SessTerm_wf m \<longleftrightarrow> known_bits REPLY (st_flags m)"

definition SessionExtension_wf :: "SessionExtension \<Rightarrow> bool" where
  "SessionExtension_wf e \<longleftrightarrow>
     known_bits CRITICAL (se_flags e) \<and> \<not> contains (se_flags e) CRITICAL \<and> length (se_value e) < 65536"

text \<open>The bytes of an extension: a header of five bytes and the value.\<close>

definition SessInit_wf :: "SessInit \<Rightarrow> bool" where
  "SessInit_wf m \<longleftrightarrow>
     rust_string (node_id m) \<and> length (node_id m) < 65536
     \<and> list_all SessionExtension_wf (session_extensions m)
     \<and> (\<Sum>e\<leftarrow>session_extensions m. 5 + length (se_value e)) < 2 ^ 32"

definition XferAck_wf :: "XferAck \<Rightarrow> bool" where
  "XferAck_wf m \<longleftrightarrow> known_bits (END OR START) (xa_flags m)"

definition XferSegment_wf :: "XferSegment \<Rightarrow> bool" where
  "XferSegment_wf m \<longleftrightarrow>
     known_bits (END OR START) (xs_flags m) \<and> transfer_extensions m = []
     \<and> length (xs_data m) \<le> MAX_SEGMENT_MRU"

lemma reject_reason_code [simp]: "reject_reason (reject_code r) = r"
  by (cases r) (simp_all add: reject_reason_def)

lemma term_reason_code [simp]: "term_reason (term_code r) = r"
  by (cases r) (simp_all add: term_reason_def)

lemma refuse_reason_code [simp]: "refuse_reason (refuse_code r) = r"
  by (cases r) (simp_all add: refuse_reason_def)

lemma split_short: "length (p @ q) = n \<Longrightarrow> q \<noteq> [] \<Longrightarrow> length p < n"
  by (cases q) auto

section \<open>Fixed-size messages\<close>

interpretation contact_header: incremental_codec ContactHeader_wf ContactHeader_encode ContactHeader_decode
proof
  fix m bs rest p q
  show "ContactHeader_wf m \<Longrightarrow> \<exists>bs. ContactHeader_encode m = Ok bs"
    by (simp add: ContactHeader_encode_def)
  show "ContactHeader_wf m \<Longrightarrow> ContactHeader_encode m = Ok bs
    \<Longrightarrow> ContactHeader_decode (bs @ rest) = Ok (Some m, rest)"
    by (auto simp: ContactHeader_encode_def ContactHeader_decode_def ContactHeader_wf_def
        DTN_MAGIC_BYTES_def split_to_def known_bits_def)
  show "ContactHeader_wf m \<Longrightarrow> ContactHeader_encode m = Ok (p @ q) \<Longrightarrow> q \<noteq> []
    \<Longrightarrow> ContactHeader_decode p = Ok (None, p)"
    using split_short [of p q 6]
    by (auto simp: ContactHeader_encode_def ContactHeader_decode_def ContactHeader_wf_def
        DTN_MAGIC_BYTES_def dest: arg_cong [where f = length])
qed

interpretation keepalive: incremental_codec "\<lambda>m. True" Keepalive_encode Keepalive_decode
  by unfold_locales (simp_all add: Keepalive_encode_def Keepalive_decode_def, metis Keepalive.exhaust)

interpretation msg_reject: incremental_codec "\<lambda>m. True" MsgReject_encode MsgReject_decode
proof
  fix m bs rest p q
  show "\<exists>bs. MsgReject_encode m = Ok bs"
    by (simp add: MsgReject_encode_def)
  show "MsgReject_encode m = Ok bs \<Longrightarrow> MsgReject_decode (bs @ rest) = Ok (Some m, rest)"
    by (auto simp: MsgReject_encode_def MsgReject_decode_def)
  show "MsgReject_encode m = Ok (p @ q) \<Longrightarrow> q \<noteq> [] \<Longrightarrow> MsgReject_decode p = Ok (None, p)"
    using split_short [of p q 2]
    by (auto simp: MsgReject_encode_def MsgReject_decode_def dest: arg_cong [where f = length])
qed

interpretation sess_term: incremental_codec SessTerm_wf SessTerm_encode SessTerm_decode
proof
  fix m bs rest p q
  show "SessTerm_wf m \<Longrightarrow> \<exists>bs. SessTerm_encode m = Ok bs"
    by (simp add: SessTerm_encode_def)
  show "SessTerm_wf m \<Longrightarrow> SessTerm_encode m = Ok bs \<Longrightarrow> SessTerm_decode (bs @ rest) = Ok (Some m, rest)"
    by (auto simp: SessTerm_encode_def SessTerm_decode_def SessTerm_wf_def known_bits_def)
  show "SessTerm_wf m \<Longrightarrow> SessTerm_encode m = Ok (p @ q) \<Longrightarrow> q \<noteq> []
    \<Longrightarrow> SessTerm_decode p = Ok (None, p)"
    using split_short [of p q 2]
    by (auto simp: SessTerm_encode_def SessTerm_decode_def dest: arg_cong [where f = length])
qed

interpretation xfer_ack: message_codec XferAck_wf XferAck_encode XferAck_decode
proof
  fix m bs rest
  show "XferAck_wf m \<Longrightarrow> \<exists>bs. XferAck_encode m = Ok bs"
    by (simp add: XferAck_encode_def)
  show "XferAck_wf m \<Longrightarrow> XferAck_encode m = Ok bs \<Longrightarrow> XferAck_decode (bs @ rest) = Ok (Some m, rest)"
    by (auto simp: XferAck_encode_def XferAck_decode_def XferAck_wf_def known_bits_def buffer_simps)
qed

interpretation xfer_refuse: message_codec "\<lambda>m. True" XferRefuse_encode XferRefuse_decode
proof
  fix m bs rest
  show "\<exists>bs. XferRefuse_encode m = Ok bs"
    by (simp add: XferRefuse_encode_def)
  show "XferRefuse_encode m = Ok bs \<Longrightarrow> XferRefuse_decode (bs @ rest) = Ok (Some m, rest)"
    by (auto simp: XferRefuse_encode_def XferRefuse_decode_def buffer_simps)
qed

section \<open>Session initialisation\<close>

lemma SessionExtension_write_Ok:
  "SessionExtension_wf e \<Longrightarrow> \<exists>bs. SessionExtension_write e = Ok bs \<and> length bs = 5 + length (se_value e)"
  by (simp add: SessionExtension_write_def SessionExtension_wf_def del: be_bytes_numeral)

lemma SessionExtension_decode_write:
  "SessionExtension_wf e \<Longrightarrow> SessionExtension_write e = Ok bs
    \<Longrightarrow> SessionExtension_decode (bs @ rest) = Ok (e, rest)"
  by (auto simp: SessionExtension_write_def SessionExtension_decode_def SessionExtension_wf_def
      known_bits_def buffer_simps unat_of_nat take_bit_nat_eq_self simp del: be_bytes_numeral)

lemma session_extensions_written:
  assumes "list_all SessionExtension_wf es"
  shows "\<exists>ebs. traverse SessionExtension_write es = Ok ebs
    \<and> length (concat ebs) = (\<Sum>e\<leftarrow>es. 5 + length (se_value e))"
  using assms
proof (induction es)
  case (Cons e es)
  then obtain bs ebs where "SessionExtension_write e = Ok bs" "length bs = 5 + length (se_value e)"
    "traverse SessionExtension_write es = Ok ebs"
    "length (concat ebs) = (\<Sum>e\<leftarrow>es. 5 + length (se_value e))"
    using SessionExtension_write_Ok [of e] by auto
  then show ?case by simp
qed simp

lemma session_extensions_loop_written:
  assumes "list_all SessionExtension_wf es" "traverse SessionExtension_write es = Ok ebs"
  shows "session_extensions_loop (length rest) (concat ebs @ rest) = Ok (es, rest)"
  using assms
proof (induction es arbitrary: ebs)
  case Nil
  then show ?case by (simp add: session_extensions_loop.simps)
next
  case (Cons e es)
  then obtain bs ebs' where bs: "SessionExtension_write e = Ok bs"
    and rest: "traverse SessionExtension_write es = Ok ebs'" "ebs = bs # ebs'"
    by (auto simp: result_simps)
  have "length bs = 5 + length (se_value e)"
    using SessionExtension_write_Ok [of e] bs Cons.prems(1) by auto
  moreover have "SessionExtension_decode (bs @ concat ebs' @ rest) = Ok (e, concat ebs' @ rest)"
    using SessionExtension_decode_write [OF _ bs] Cons.prems(1) by simp
  ultimately show ?case
    using Cons rest
    by (simp add: session_extensions_loop.simps [of _ "bs @ concat ebs' @ rest"] SessionExtension_wf_def)
qed

lemma SessInit_encode_cases:
  assumes "SessInit_wf m"
  obtains ebs where "traverse SessionExtension_write (session_extensions m) = Ok ebs"
    "length (concat ebs) < 4294967296"
    "SessInit_encode m = Ok (put_u16 (keepalive_interval m) @ put_u64 (segment_mru m)
       @ put_u64 (transfer_mru m) @ be_bytes 2 (length (node_id m)) @ as_bytes (node_id m)
       @ be_bytes 4 (length (concat ebs)) @ concat ebs)"
proof -
  obtain ebs where ebs: "traverse SessionExtension_write (session_extensions m) = Ok ebs"
    "length (concat ebs) = (\<Sum>e\<leftarrow>session_extensions m. 5 + length (se_value e))"
    using session_extensions_written assms unfolding SessInit_wf_def by blast
  with assms have "length (concat ebs) < 4294967296" "length (node_id m) < 65536"
    by (simp_all add: SessInit_wf_def)
  with ebs(1) show thesis
    by (intro that [of ebs]) (simp_all add: SessInit_encode_def del: be_bytes_numeral length_concat)
qed

lemma SessInit_decode_encode:
  assumes "SessInit_wf m" "SessInit_encode m = Ok bs"
  shows "SessInit_decode (bs @ rest) = Ok (Some m, rest)"
proof -
  obtain ebs where ebs: "traverse SessionExtension_write (session_extensions m) = Ok ebs"
    and short: "length (concat ebs) < 4294967296"
    and bs: "bs = put_u16 (keepalive_interval m) @ put_u64 (segment_mru m)
       @ put_u64 (transfer_mru m) @ be_bytes 2 (length (node_id m)) @ as_bytes (node_id m)
       @ be_bytes 4 (length (concat ebs)) @ concat ebs"
    using SessInit_encode_cases [OF assms(1)] assms(2) by auto
  let ?n = "length (node_id m)" and ?x = "length (concat ebs)"
  let ?a = "put_u16 (keepalive_interval m) @ put_u64 (segment_mru m) @ put_u64 (transfer_mru m)"
  have n: "?n < 65536" "utf8_valid (as_bytes (node_id m))"
    using assms(1) by (simp_all add: SessInit_wf_def rust_string_def)
  have "index_range 18 20 (bs @ rest) = (Ok (be_bytes 2 ?n) :: (bytes, Errors) result)"
    unfolding bs using index_range_append [of ?a 18 "be_bytes 2 ?n" 20]
    by (simp del: be_bytes_numeral)
  moreover have "index_range (20 + ?n) (24 + ?n) (bs @ rest) = (Ok (be_bytes 4 ?x) :: (bytes, Errors) result)"
    unfolding bs using index_range_append [of "?a @ be_bytes 2 ?n @ as_bytes (node_id m)" "20 + ?n"
        "be_bytes 4 ?x" "24 + ?n" "concat ebs @ rest"]
    by (simp del: be_bytes_numeral length_concat)
  moreover have "length (bs @ rest) = 24 + ?n + ?x + length rest"
    unfolding bs by (simp del: be_bytes_numeral)
  moreover have "get_u16 (bs @ rest) = (Ok (keepalive_interval m, put_u64 (segment_mru m)
       @ put_u64 (transfer_mru m) @ be_bytes 2 ?n @ as_bytes (node_id m)
       @ be_bytes 4 ?x @ concat ebs @ rest) :: (u16 \<times> bytes, Errors) result)"
    unfolding bs by (simp add: buffer_simps del: be_bytes_numeral length_concat)
  moreover have "session_extensions_loop (length rest) (concat ebs @ rest) = Ok (session_extensions m, rest)"
    using session_extensions_loop_written [OF _ ebs] assms(1) by (simp add: SessInit_wf_def)
  ultimately show ?thesis
    using n short
    by (simp add: SessInit_decode_def Let_def buffer_simps del: be_bytes_numeral length_concat append_assoc)
qed

interpretation sess_init: message_codec SessInit_wf SessInit_encode SessInit_decode
  by unfold_locales (auto elim: SessInit_encode_cases intro: SessInit_decode_encode)

section \<open>Transfer segments\<close>

lemma XferSegment_encode_wf:
  assumes "XferSegment_wf m"
  shows "XferSegment_encode m =
    Ok ([xs_flags m] @ put_u64 (xs_transfer_id m)
        @ (if contains (xs_flags m) START then be_bytes 4 0 else [])
        @ be_bytes 8 (length (xs_data m)) @ xs_data m)"
  using assms
  by (simp add: XferSegment_encode_def XferSegment_wf_def MAX_SEGMENT_MRU_def del: be_bytes_numeral)

lemma XferSegment_decode_encode:
  assumes "XferSegment_wf m" "XferSegment_encode m = Ok bs"
  shows "XferSegment_decode (bs @ rest) = Ok (Some m, rest)"
proof -
  let ?n = "length (xs_data m)" and ?i = "put_u64 (xs_transfer_id m)"
  have n: "?n \<le> 102400" "?n < 256 ^ 8" "transfer_extensions m = []"
    and f: "xs_flags m AND (END OR START) = xs_flags m"
    using assms(1) by (simp_all add: XferSegment_wf_def MAX_SEGMENT_MRU_def known_bits_def)
  show ?thesis
  proof (cases "contains (xs_flags m) START")
    case True
    then have bs: "bs = [xs_flags m] @ ?i @ be_bytes 4 0 @ be_bytes 8 ?n @ xs_data m"
      using assms XferSegment_encode_wf by simp
    have "index_range 9 13 (bs @ rest) = (Ok (be_bytes 4 0) :: (bytes, Errors) result)"
      unfolding bs using index_range_append [of "xs_flags m # ?i" 9 "be_bytes 4 0" 13]
      by (simp del: be_bytes_numeral)
    moreover have "index_range 13 21 (bs @ rest) = (Ok (be_bytes 8 ?n) :: (bytes, Errors) result)"
      unfolding bs using index_range_append [of "xs_flags m # ?i @ be_bytes 4 0" 13 "be_bytes 8 ?n" 21]
      by (simp del: be_bytes_numeral)
    moreover have "length (bs @ rest) = 21 + ?n + length rest"
      unfolding bs by (simp del: be_bytes_numeral)
    ultimately show ?thesis
      using n f True unfolding XferSegment_decode_def bs
      by (simp add: Let_def segment_min_size_def segment_extensions_def buffer_simps advance_def
          MAX_SEGMENT_MRU_def transfer_extensions_loop.simps assert_then_def del: be_bytes_numeral)
  next
    case False
    then have bs: "bs = [xs_flags m] @ ?i @ be_bytes 8 ?n @ xs_data m"
      using assms XferSegment_encode_wf by simp
    have "index_range 9 17 (bs @ rest) = (Ok (be_bytes 8 ?n) :: (bytes, Errors) result)"
      unfolding bs using index_range_append [of "xs_flags m # ?i" 9 "be_bytes 8 ?n" 17]
      by (simp del: be_bytes_numeral)
    moreover have "length (bs @ rest) = 17 + ?n + length rest"
      unfolding bs by (simp del: be_bytes_numeral)
    ultimately show ?thesis
      using n f False unfolding XferSegment_decode_def bs
      by (simp add: Let_def segment_min_size_def segment_extensions_def buffer_simps advance_def
          MAX_SEGMENT_MRU_def assert_then_def del: be_bytes_numeral)
  qed
qed

interpretation xfer_segment: message_codec XferSegment_wf XferSegment_encode XferSegment_decode
  by unfold_locales (simp_all add: XferSegment_encode_wf XferSegment_decode_encode)

section \<open>Frames that have arrived in part\<close>

lemma XferAck_decode_short: "length p < 9 \<Longrightarrow> XferAck_decode p = Ok (None, p)"
  by (simp add: XferAck_decode_def)

lemma XferAck_decode_panic_iff: "XferAck_decode p = Panic \<longleftrightarrow> 9 \<le> length p \<and> length p < 17"
  by (cases p) (auto simp: XferAck_decode_def get_u64_def get_be_def)

lemma XferRefuse_decode_panic_iff: "XferRefuse_decode p = Panic \<longleftrightarrow> 5 \<le> length p \<and> length p < 9"
  by (cases p) (simp_all add: XferRefuse_decode_def get_u64_def get_be_def)

lemma index_range_Panic_iff [no_panic]:
  "index_range a b src = Panic \<longleftrightarrow> \<not> (a \<le> b \<and> b \<le> length src)"
  by (simp add: index_range_def)

text \<open>A first segment of which ten to twelve bytes have arrived, a later one of which ten to sixteen
  have.\<close>

lemma XferSegment_decode_panic:
  assumes "10 \<le> length p" "length p < (if contains (hd p AND (END OR START)) START then 13 else 17)"
  shows "XferSegment_decode p = Panic"
  using assms
  by (auto simp: XferSegment_decode_def segment_min_size_def index_range_def split: if_splits)

text \<open>A session initialisation of which the fixed part has arrived and the node id has not.\<close>

lemma SessInit_decode_panic:
  assumes "24 \<le> length p" "length p < 24 + be_nat (take 2 (drop 18 p))"
  shows "SessInit_decode p = Panic"
  using assms by (simp add: SessInit_decode_def index_range_def Let_def)

text \<open>The value of a transfer extension comes back behind as many zero bytes.\<close>

lemma TransferExtension_decode_write:
  assumes "known_bits CRITICAL (te_flags e)" "length (te_value e) < 65536"
    "TransferExtension_write e = Ok bs"
  shows "TransferExtension_decode (bs @ rest)
    = Ok (e\<lparr>te_value := replicate (length (te_value e)) 0 @ te_value e\<rparr>, rest)"
  using assms
  by (auto simp: TransferExtension_write_def TransferExtension_decode_def known_bits_def
      buffer_simps unat_of_nat take_bit_nat_eq_self assert_then_def simp del: be_bytes_numeral)

end
