(* ===== verification/Tcpcl_Codec.thy ===== *)
theory Tcpcl_Codec
  imports Tcpcl_Message_Laws
begin

text \<open>
  The stream codec of \<open>tcpcl/src/v4/messages/mod.rs\<close>: the message enumeration, the message types
  and the \<open>Decoder\<close> and \<open>Encoder\<close> implementations of \<open>Codec\<close>. The codec remembers whether the contact
  header has been read and the type byte of a frame whose body has not arrived completely.
\<close>

section \<open>Messages and message types\<close>

datatype Messages =
    ContactHeader ContactHeader
  | SessInit SessInit
  | SessTerm SessTerm
  | Keepalive Keepalive
  | MsgReject MsgReject
  | XferSegment XferSegment
  | XferAck XferAck
  | XferRefuse XferRefuse

datatype MessageType =
    MT_SessInit
  | MT_SessTerm
  | MT_XferSegment
  | MT_XferAck
  | MT_XferRefuse
  | MT_Keepalive
  | MT_MsgReject

fun message_type_code :: "MessageType \<Rightarrow> u8" where
  "message_type_code MT_SessInit = 0x07"
| "message_type_code MT_SessTerm = 0x05"
| "message_type_code MT_XferSegment = 0x01"
| "message_type_code MT_XferAck = 0x02"
| "message_type_code MT_XferRefuse = 0x03"
| "message_type_code MT_Keepalive = 0x04"
| "message_type_code MT_MsgReject = 0x06"

definition message_type_of :: "u8 \<Rightarrow> MessageType option" where
  "message_type_of b =
     (if b = 0x07 then Some MT_SessInit
      else if b = 0x05 then Some MT_SessTerm
      else if b = 0x01 then Some MT_XferSegment
      else if b = 0x02 then Some MT_XferAck
      else if b = 0x03 then Some MT_XferRefuse
      else if b = 0x04 then Some MT_Keepalive
      else if b = 0x06 then Some MT_MsgReject
      else None)"

fun get_message_type :: "Messages \<Rightarrow> (MessageType, 'e) result" where
  "get_message_type (ContactHeader m) = Panic"
| "get_message_type (SessInit m) = Ok MT_SessInit"
| "get_message_type (SessTerm m) = Ok MT_SessTerm"
| "get_message_type (Keepalive m) = Ok MT_Keepalive"
| "get_message_type (MsgReject m) = Ok MT_MsgReject"
| "get_message_type (XferSegment m) = Ok MT_XferSegment"
| "get_message_type (XferAck m) = Ok MT_XferAck"
| "get_message_type (XferRefuse m) = Ok MT_XferRefuse"

section \<open>The codec\<close>

record Codec =
  contact_header_done :: bool
  curr_message_type :: "MessageType option"

definition Codec_default :: Codec where
  "Codec_default = \<lparr>contact_header_done = False, curr_message_type = None\<rparr>"

text \<open>\<open>decode(src).map(|o| o.map(f))\<close>.\<close>

definition map_decoded :: "('m \<Rightarrow> Messages) \<Rightarrow> 'm decoded \<Rightarrow> Messages decoded" where
  "map_decoded f r = map_ok (\<lambda>(m, src). (map_option f m, src)) r"

fun decode_body :: "MessageType \<Rightarrow> bytes \<Rightarrow> Messages decoded" where
  "decode_body MT_SessInit src = map_decoded SessInit (SessInit_decode src)"
| "decode_body MT_SessTerm src = map_decoded SessTerm (SessTerm_decode src)"
| "decode_body MT_XferSegment src = map_decoded XferSegment (XferSegment_decode src)"
| "decode_body MT_XferAck src = map_decoded XferAck (XferAck_decode src)"
| "decode_body MT_XferRefuse src = map_decoded XferRefuse (XferRefuse_decode src)"
| "decode_body MT_Keepalive src = map_decoded Keepalive (Keepalive_decode src)"
| "decode_body MT_MsgReject src = map_decoded MsgReject (MsgReject_decode src)"

definition Codec_decode :: "Codec \<Rightarrow> bytes \<Rightarrow> (Messages option \<times> bytes \<times> Codec, Errors) result" where
  "Codec_decode c src =
     (if \<not> contact_header_done c then
        map_ok (\<lambda>(m, src). (m, src, if m \<noteq> None then c\<lparr>contact_header_done := True\<rparr> else c))
          (map_decoded ContactHeader (ContactHeader_decode src))
      else if src = [] then Ok (None, src, c)
      else
        and_then
          (case curr_message_type c of
             Some mt \<Rightarrow> Ok (mt, src)
           | None \<Rightarrow> and_then (get_u8 src) (\<lambda>(b, src).
               case message_type_of b of Some mt \<Rightarrow> Ok (mt, src) | None \<Rightarrow> Err (InvalidMessageType b)))
          (\<lambda>(mt, src).
             map_ok (\<lambda>(m, src).
                 (m, src, if m \<noteq> None then c\<lparr>curr_message_type := None\<rparr> else c\<lparr>curr_message_type := Some mt\<rparr>))
               (decode_body mt src)))"

fun Codec_encode :: "Messages \<Rightarrow> encoded" where
  "Codec_encode (ContactHeader m) = ContactHeader_encode m"
| "Codec_encode (SessInit m) = map_ok ((#) (message_type_code MT_SessInit)) (SessInit_encode m)"
| "Codec_encode (SessTerm m) = map_ok ((#) (message_type_code MT_SessTerm)) (SessTerm_encode m)"
| "Codec_encode (Keepalive m) = map_ok ((#) (message_type_code MT_Keepalive)) (Keepalive_encode m)"
| "Codec_encode (MsgReject m) = map_ok ((#) (message_type_code MT_MsgReject)) (MsgReject_encode m)"
| "Codec_encode (XferSegment m) = map_ok ((#) (message_type_code MT_XferSegment)) (XferSegment_encode m)"
| "Codec_encode (XferAck m) = map_ok ((#) (message_type_code MT_XferAck)) (XferAck_encode m)"
| "Codec_encode (XferRefuse m) = map_ok ((#) (message_type_code MT_XferRefuse)) (XferRefuse_encode m)"

fun Messages_wf :: "Messages \<Rightarrow> bool" where
  "Messages_wf (ContactHeader m) = ContactHeader_wf m"
| "Messages_wf (SessInit m) = SessInit_wf m"
| "Messages_wf (SessTerm m) = SessTerm_wf m"
| "Messages_wf (Keepalive m) = True"
| "Messages_wf (MsgReject m) = True"
| "Messages_wf (XferSegment m) = XferSegment_wf m"
| "Messages_wf (XferAck m) = XferAck_wf m"
| "Messages_wf (XferRefuse m) = True"

definition is_ContactHeader :: "Messages \<Rightarrow> bool" where
  "is_ContactHeader m = (case m of ContactHeader _ \<Rightarrow> True | _ \<Rightarrow> False)"

end
