(* ===== verification/Tcpcl_Statemachine.thy ===== *)
theory Tcpcl_Statemachine
  imports Tcpcl_Codec
begin

text \<open>
  The protocol state machine of a TCPCL session: \<open>tcpcl/src/v4/statemachine.rs\<close>, with the error
  types of \<open>tcpcl/src/errors.rs\<close> and the transfer of \<open>tcpcl/src/transfer.rs\<close>. Every method is a
  function from the machine to the machine; \<open>Panic\<close> is a failed assertion or an unexpected state.
  The writer is an argument: \<open>w m\<close> is the outcome of handing the message \<open>m\<close> to the framed writer.
\<close>

section \<open>Errors and transfers\<close>

datatype SessionErrors =
    MessageTypeInappropriate MessageType
  | RemoteRejected
  | DoesNotSpeakTCPCL
  | TLSNameMissmatch string
  | MessageError Errors

datatype ErrorType =
    IOError io_error
  | SSLError
  | TCPCLError SessionErrors
  | DnsError

datatype TransferSendErrors = BundleTooLarge u64

record Transfer =
  transfer_id :: u64
  transfer_data :: bytes

record TransferTracker =
  transfer :: Transfer
  pos :: nat
  pos_acked :: nat

section \<open>States\<close>

datatype States =
    ActiveSendContactHeader
  | PassiveWaitContactHeader
  | ActiveWaitContactHeader
  | PassiveSendContactHeader
  | ActiveSendSessInit
  | PassiveWaitSessInit
  | ActiveWaitSessInit
  | PassiveSendSessInit
  | SessionEstablished
  | SendXferAck XferAck
  | SendXferSegments TransferTracker
  | SendXferSegmentsAndAck TransferTracker XferAck
  | SendKeepalive States
  | SendSessTerm "TermReason option"
  | WaitSessTerm
  | SendMsgReject RejectReason u8
  | ConnectionClose
  | ShouldNeverExist

record StateMachine =
  state :: States
  sm_can_tls :: bool
  my_node_id :: string
  last_used_transfer_id :: u64
  my_contact_header :: "ContactHeader option"
  peer_contact_header :: "ContactHeader option"
  my_sess_init :: "SessInit option"
  peer_sess_init :: "SessInit option"
  terminating :: bool

type_synonym 'a run = "('a, io_error) result"

definition new_active :: "string \<Rightarrow> bool \<Rightarrow> StateMachine" where
  "new_active n tls =
     \<lparr>state = ActiveSendContactHeader, sm_can_tls = tls, my_node_id = n, last_used_transfer_id = 0,
      my_contact_header = None, peer_contact_header = None, my_sess_init = None, peer_sess_init = None,
      terminating = False\<rparr>"

definition new_passive :: "string \<Rightarrow> bool \<Rightarrow> StateMachine" where
  "new_passive n tls =
     \<lparr>state = PassiveWaitContactHeader, sm_can_tls = tls, my_node_id = n, last_used_transfer_id = 0,
      my_contact_header = None, peer_contact_header = None, my_sess_init = None, peer_sess_init = None,
      terminating = False\<rparr>"

section \<open>Sending\<close>

definition send_complete :: "StateMachine \<Rightarrow> StateMachine run" where
  "send_complete sm =
     (case state sm of
        ActiveSendContactHeader \<Rightarrow> Ok (sm\<lparr>state := ActiveWaitContactHeader\<rparr>)
      | PassiveSendContactHeader \<Rightarrow> Ok (sm\<lparr>state := PassiveWaitSessInit\<rparr>)
      | ActiveSendSessInit \<Rightarrow> Ok (sm\<lparr>state := ActiveWaitSessInit\<rparr>)
      | PassiveSendSessInit \<Rightarrow> Ok (sm\<lparr>state := SessionEstablished\<rparr>)
      | SendXferAck _ \<Rightarrow> Ok (sm\<lparr>state := SessionEstablished\<rparr>)
      | SendXferSegmentsAndAck tt _ \<Rightarrow> Ok (sm\<lparr>state := SendXferSegments tt\<rparr>)
      | SendXferSegments tt \<Rightarrow>
          (if pos tt = length (transfer_data (transfer tt)) \<and> pos tt = pos_acked tt
           then Ok (sm\<lparr>state := SessionEstablished\<rparr>)
           else Ok (sm\<lparr>state := SendXferSegments tt\<rparr>))
      | SendKeepalive s \<Rightarrow> Ok (sm\<lparr>state := s\<rparr>)
      | SendSessTerm _ \<Rightarrow>
          (if terminating sm then Ok (sm\<lparr>state := ConnectionClose\<rparr>)
           else Ok (sm\<lparr>terminating := True, state := WaitSessTerm\<rparr>))
      | SendMsgReject _ _ \<Rightarrow> Ok (sm\<lparr>terminating := True, state := ConnectionClose\<rparr>)
      | _ \<Rightarrow> Panic)"

text \<open>\<open>writer.send(m).await?\<close> and then \<open>self.send_complete()\<close>; the message is returned for the log of
  what was written.\<close>

definition send_and_complete ::
  "(Messages \<Rightarrow> unit run) \<Rightarrow> Messages \<Rightarrow> StateMachine \<Rightarrow> (StateMachine \<times> Messages list) run" where
  "send_and_complete w m sm = and_then (w m) (\<lambda>_. map_ok (\<lambda>sm. (sm, [m])) (send_complete sm))"

text \<open>The end of the next segment. The addition is on 64-bit words and wraps.\<close>

definition segment_end :: "u64 \<Rightarrow> TransferTracker \<Rightarrow> nat" where
  "segment_end mru tt = min (unat (of_nat (pos tt) + mru)) (length (transfer_data (transfer tt)))"

definition segment_flags :: "TransferTracker \<Rightarrow> nat \<Rightarrow> u8" where
  "segment_flags tt end_pos =
     (if pos tt = 0 then START else 0)
     OR (if end_pos = length (transfer_data (transfer tt)) then END else 0)"

definition next_segment :: "u64 \<Rightarrow> TransferTracker \<Rightarrow> XferSegment run" where
  "next_segment mru tt =
     (let e = segment_end mru tt in
      and_then (index_range (pos tt) e (transfer_data (transfer tt))) (\<lambda>d.
        Ok (XferSegment_new (segment_flags tt e) (transfer_id (transfer tt)) d)))"

definition send_message ::
  "(Messages \<Rightarrow> unit run) \<Rightarrow> StateMachine \<Rightarrow> (StateMachine \<times> Messages list) run" where
  "send_message w sm =
     (let send_ch = (let ch = ContactHeader_new (sm_can_tls sm) in
            send_and_complete w (ContactHeader ch) (sm\<lparr>my_contact_header := Some ch\<rparr>));
          send_si = (let si = SessInit_new (my_node_id sm) in
            send_and_complete w (SessInit si) (sm\<lparr>my_sess_init := Some si\<rparr>))
      in case state sm of
        ActiveSendContactHeader \<Rightarrow> send_ch
      | PassiveSendContactHeader \<Rightarrow> send_ch
      | ActiveSendSessInit \<Rightarrow> send_si
      | PassiveSendSessInit \<Rightarrow> send_si
      | SendXferAck a \<Rightarrow> send_and_complete w (XferAck a) sm
      | SendXferSegmentsAndAck _ a \<Rightarrow> send_and_complete w (XferAck a) sm
      | SendSessTerm r \<Rightarrow>
          send_and_complete w
            (SessTerm (SessTerm_new (case r of Some x \<Rightarrow> x | None \<Rightarrow> Term_Unkown) (terminating sm))) sm
      | SendXferSegments tt \<Rightarrow>
          and_then (unwrap (peer_sess_init sm)) (\<lambda>si.
            if pos tt = length (transfer_data (transfer tt)) then Ok (sm, [])
            else and_then (next_segment (segment_mru si) tt) (\<lambda>seg.
                 send_and_complete w (XferSegment seg)
                   (sm\<lparr>state := SendXferSegments (tt\<lparr>pos := segment_end (segment_mru si) tt\<rparr>)\<rparr>)))
      | SendKeepalive _ \<Rightarrow> send_and_complete w (Keepalive Keepalive_new) sm
      | SendMsgReject r t \<Rightarrow> send_and_complete w (MsgReject (MsgReject_new r t)) sm
      | _ \<Rightarrow> Panic)"

section \<open>Receiving\<close>

text \<open>What the reader hands over: a message or the error of the codec.\<close>

type_synonym received = "Errors + Messages"

text \<open>The state machine with a rejection to send.\<close>

definition reject :: "Messages \<Rightarrow> StateMachine \<Rightarrow> (StateMachine \<times> (SessionErrors + Messages)) run" where
  "reject m sm = and_then (get_message_type m) (\<lambda>mt.
     Ok (sm\<lparr>state := SendMsgReject MessageUnexpected (message_type_code mt)\<rparr>,
         Inl (MessageTypeInappropriate mt)))"

text \<open>The branch for \<open>Messages::XferAck\<close>: \<open>after\<close> is the state once the transfer is complete, \<open>with\<close>
  puts the tracker back into the current state.\<close>

definition receive_ack ::
  "XferAck \<Rightarrow> TransferTracker \<Rightarrow> (TransferTracker \<Rightarrow> States) \<Rightarrow> States \<Rightarrow> StateMachine
    \<Rightarrow> (StateMachine \<times> (SessionErrors + Messages)) run" where
  "receive_ack xa tt upd after sm =
     assert_then (transfer_id (transfer tt) = xa_transfer_id xa)
       (let tt' = tt\<lparr>pos_acked := unat (acknowleged_length xa)\<rparr> in
        if pos_acked tt' > pos tt'
        then Ok (sm\<lparr>state := upd tt'\<rparr>, Inl (MessageError InvalidACKValue))
        else if pos_acked tt' = length (transfer_data (transfer tt'))
        then Ok (sm\<lparr>state := after\<rparr>, Inr (XferAck xa))
        else Ok (sm\<lparr>state := upd tt'\<rparr>, Inr (XferAck xa)))"

text \<open>The states in which a session can be terminated by the peer and segments are accepted.\<close>

definition transferring :: "States \<Rightarrow> bool" where
  "transferring s = (case s of SessionEstablished \<Rightarrow> True | SendXferSegments _ \<Rightarrow> True
     | SendXferSegmentsAndAck _ _ \<Rightarrow> True | _ \<Rightarrow> False)"

definition decode_session_message ::
  "StateMachine \<Rightarrow> received \<Rightarrow> (StateMachine \<times> (SessionErrors + Messages)) run" where
  "decode_session_message sm msg =
     (case msg of
        Inl (InvalidMessageType n) \<Rightarrow>
          Ok (sm\<lparr>state := SendMsgReject MessageTypeUnkown n\<rparr>, Inl (MessageError (InvalidMessageType n)))
      | Inl e \<Rightarrow> Ok (sm, Inl (MessageError e))
      | Inr m \<Rightarrow>
          (case m of
             SessInit si \<Rightarrow>
               (if state sm = ActiveWaitSessInit
                then Ok (sm\<lparr>peer_sess_init := Some si, state := SessionEstablished\<rparr>, Inr m)
                else if state sm = PassiveWaitSessInit
                then Ok (sm\<lparr>peer_sess_init := Some si, state := PassiveSendSessInit\<rparr>, Inr m)
                else reject m sm)
           | SessTerm st \<Rightarrow>
               (if state sm = WaitSessTerm then Ok (sm\<lparr>state := ConnectionClose\<rparr>, Inr m)
                else if transferring (state sm)
                then Ok (sm\<lparr>state := SendSessTerm (Some (st_reason st)), terminating := True\<rparr>, Inr m)
                else reject m sm)
           | XferSegment _ \<Rightarrow> (if transferring (state sm) then Ok (sm, Inr m) else reject m sm)
           | XferAck xa \<Rightarrow>
               (case state sm of
                  SendXferSegments tt \<Rightarrow> receive_ack xa tt SendXferSegments SessionEstablished sm
                | SendXferSegmentsAndAck tt a \<Rightarrow>
                    receive_ack xa tt (\<lambda>tt. SendXferSegmentsAndAck tt a) (SendXferAck a) sm
                | _ \<Rightarrow> reject m sm)
           | Keepalive _ \<Rightarrow> Ok (sm, Inr m)
           | MsgReject _ \<Rightarrow> Ok (sm, Inr m)
           | _ \<Rightarrow> reject m sm))"

definition decode_contact_header ::
  "States \<Rightarrow> StateMachine \<Rightarrow> received \<Rightarrow> (StateMachine \<times> (SessionErrors + Messages)) run" where
  "decode_contact_header next_state sm msg =
     (case msg of
        Inr (ContactHeader ch) \<Rightarrow>
          Ok (sm\<lparr>peer_contact_header := Some ch, state := next_state\<rparr>, Inr (ContactHeader ch))
      | Inl InvalidHeader \<Rightarrow> Ok (sm, Inl DoesNotSpeakTCPCL)
      | _ \<Rightarrow> Panic)"

definition decode_message ::
  "StateMachine \<Rightarrow> received \<Rightarrow> (StateMachine \<times> (SessionErrors + Messages)) run" where
  "decode_message sm msg =
     (case state sm of
        PassiveWaitContactHeader \<Rightarrow> decode_contact_header PassiveSendContactHeader sm msg
      | ActiveWaitContactHeader \<Rightarrow> decode_contact_header ActiveSendSessInit sm msg
      | ActiveWaitSessInit \<Rightarrow> decode_session_message sm msg
      | PassiveWaitSessInit \<Rightarrow> decode_session_message sm msg
      | WaitSessTerm \<Rightarrow> decode_session_message sm msg
      | SessionEstablished \<Rightarrow> decode_session_message sm msg
      | SendXferSegments _ \<Rightarrow> decode_session_message sm msg
      | SendXferSegmentsAndAck _ _ \<Rightarrow> decode_session_message sm msg
      | SendKeepalive _ \<Rightarrow> decode_session_message sm msg
      | _ \<Rightarrow> Panic)"

section \<open>Requests and queries\<close>

text \<open>\<open>Interest::READABLE\<close> and \<open>Interest::WRITABLE\<close>.\<close>

definition get_interests :: "StateMachine \<Rightarrow> (bool \<times> bool) run" where
  "get_interests sm =
     (case state sm of
        ActiveSendContactHeader \<Rightarrow> Ok (False, True)
      | PassiveSendContactHeader \<Rightarrow> Ok (False, True)
      | ActiveSendSessInit \<Rightarrow> Ok (False, True)
      | PassiveSendSessInit \<Rightarrow> Ok (False, True)
      | SendXferAck _ \<Rightarrow> Ok (False, True)
      | SendSessTerm _ \<Rightarrow> Ok (False, True)
      | SendXferSegmentsAndAck _ _ \<Rightarrow> Ok (False, True)
      | SendKeepalive _ \<Rightarrow> Ok (False, True)
      | SendMsgReject _ _ \<Rightarrow> Ok (False, True)
      | PassiveWaitContactHeader \<Rightarrow> Ok (True, False)
      | ActiveWaitContactHeader \<Rightarrow> Ok (True, False)
      | ActiveWaitSessInit \<Rightarrow> Ok (True, False)
      | PassiveWaitSessInit \<Rightarrow> Ok (True, False)
      | SessionEstablished \<Rightarrow> Ok (True, False)
      | WaitSessTerm \<Rightarrow> Ok (True, False)
      | SendXferSegments tt \<Rightarrow>
          (if pos tt < length (transfer_data (transfer tt)) then Ok (True, True) else Ok (True, False))
      | ConnectionClose \<Rightarrow> Panic
      | ShouldNeverExist \<Rightarrow> Panic)"

definition send_transfer ::
  "bytes \<Rightarrow> StateMachine \<Rightarrow> (StateMachine \<times> (TransferSendErrors + unit)) run" where
  "send_transfer d sm =
     and_then (unwrap (peer_sess_init sm)) (\<lambda>si.
       if transfer_mru si < of_nat (length d) then Ok (sm, Inl (BundleTooLarge (transfer_mru si)))
       else let tracker = \<lparr>transfer = \<lparr>transfer_id = last_used_transfer_id sm, transfer_data = d\<rparr>,
                          pos = 0, pos_acked = 0\<rparr>;
                sm = sm\<lparr>last_used_transfer_id := last_used_transfer_id sm + 1\<rparr>
            in case state sm of
                 SendXferAck ack \<Rightarrow> Ok (sm\<lparr>state := SendXferSegmentsAndAck tracker ack\<rparr>, Inr ())
               | SessionEstablished \<Rightarrow> Ok (sm\<lparr>state := SendXferSegments tracker\<rparr>, Inr ())
               | _ \<Rightarrow> Panic)"

definition send_ack :: "XferAck \<Rightarrow> StateMachine \<Rightarrow> StateMachine run" where
  "send_ack ack sm =
     (case state sm of
        SendXferSegments tt \<Rightarrow> Ok (sm\<lparr>state := SendXferSegmentsAndAck tt ack\<rparr>)
      | SessionEstablished \<Rightarrow> Ok (sm\<lparr>state := SendXferAck ack\<rparr>)
      | _ \<Rightarrow> Panic)"

definition send_keepalive :: "StateMachine \<Rightarrow> StateMachine" where
  "send_keepalive sm = sm\<lparr>state := SendKeepalive (state sm)\<rparr>"

definition is_established :: "StateMachine \<Rightarrow> bool" where
  "is_established sm = (state sm = SessionEstablished)"

definition could_send_transfer :: "StateMachine \<Rightarrow> bool" where
  "could_send_transfer sm = (state sm = SessionEstablished)"

definition should_close :: "StateMachine \<Rightarrow> bool" where
  "should_close sm = (state sm = ConnectionClose)"

definition close_connection :: "TermReason option \<Rightarrow> StateMachine \<Rightarrow> StateMachine run" where
  "close_connection r sm = assert_then (is_established sm) (Ok (sm\<lparr>state := SendSessTerm r\<rparr>))"

definition connection_closing :: "StateMachine \<Rightarrow> bool" where
  "connection_closing sm =
     (case state sm of SendSessTerm _ \<Rightarrow> True | WaitSessTerm \<Rightarrow> True | ConnectionClose \<Rightarrow> True | _ \<Rightarrow> False)"

definition get_peer_node_id :: "StateMachine \<Rightarrow> string run" where
  "get_peer_node_id sm =
     assert_then (is_established sm) (and_then (unwrap (peer_sess_init sm)) (\<lambda>si. Ok (node_id si)))"

definition get_peer_mru :: "StateMachine \<Rightarrow> u64 run" where
  "get_peer_mru sm =
     assert_then (is_established sm) (and_then (unwrap (peer_sess_init sm)) (\<lambda>si. Ok (transfer_mru si)))"

definition get_keepalive_interval :: "StateMachine \<Rightarrow> u16 option run" where
  "get_keepalive_interval sm =
     assert_then (is_established sm)
       (and_then (unwrap (my_sess_init sm)) (\<lambda>mine.
        and_then (unwrap (peer_sess_init sm)) (\<lambda>peer.
          let k = min (keepalive_interval mine) (keepalive_interval peer)
          in Ok (if k = 0 then None else Some k))))"

definition sm_contact_header_done :: "StateMachine \<Rightarrow> bool" where
  "sm_contact_header_done sm \<longleftrightarrow>
     state sm \<notin> {ActiveSendContactHeader, ActiveWaitContactHeader, PassiveSendContactHeader,
                 PassiveWaitContactHeader}"

definition should_use_tls :: "StateMachine \<Rightarrow> bool run" where
  "should_use_tls sm =
     assert_then (\<not> (my_contact_header sm = None \<or> peer_contact_header sm = None))
       (and_then (unwrap (my_contact_header sm)) (\<lambda>mine.
        and_then (unwrap (peer_contact_header sm)) (\<lambda>peer.
          Ok (can_tls mine \<and> can_tls peer))))"

end
