(* ===== verification/Tcpcl_Session.thy ===== *)
theory Tcpcl_Session
  imports Tcpcl_Statemachine
begin

text \<open>
  The driver of a TCPCL session: \<open>tcpcl/src/session.rs\<close> with \<open>tcpcl/src/connection_info.rs\<close>. The
  loop of \<open>drive_statemachine\<close> is an iteration: the bookkeeping before the \<open>select!\<close> (\<open>prepare\<close>) and
  the branch that \<open>select!\<close> takes, which is an event of the environment (\<open>select\<close>), guarded as in
  the source. Channels are the lists of what was put into them, the written messages stand in the
  stream. TLS itself is an argument: \<open>tls\<close> is the outcome of the handshake, the certificate of the
  peer or an error; certificates are the parsed structure that \<open>x509_parser\<close> hands over.
\<close>

section \<open>Certificates\<close>

datatype GeneralName = OtherName string bytes | DNSName string | OtherGeneralName

datatype ParsedExtension = SubjectAlternativeName "GeneralName list" | OtherExtension

text \<open>\<open>None\<close>: the certificate cannot be converted to DER or parsed back.\<close>

type_synonym X509 = "ParsedExtension list option"

datatype Host = Domain string | IpHost string

record Url =
  url_text :: string
  url_host :: "Host option"

definition BUNDLE_EID_OID :: string where
  "BUNDLE_EID_OID = ''1.3.6.1.5.5.7.8.11''"

text \<open>The loop over the names: an \<open>OtherName\<close> with the right identifier and the node id behind the
  four bytes of the ASN.1 header. The slice panics on a shorter value.\<close>

fun match_other_name :: "string \<Rightarrow> GeneralName list \<Rightarrow> bool run" where
  "match_other_name n [] = Ok False"
| "match_other_name n (OtherName oid v # sans) =
     (if oid = BUNDLE_EID_OID
      then and_then (index_range 4 (length v) v) (\<lambda>s.
             if s = as_bytes n then Ok True else match_other_name n sans)
      else match_other_name n sans)"
| "match_other_name n (_ # sans) = match_other_name n sans"

definition match_dns_name :: "Url \<Rightarrow> GeneralName list \<Rightarrow> bool run" where
  "match_dns_name url sans =
     and_then (unwrap (url_host url)) (\<lambda>h.
       case h of Domain d \<Rightarrow> Ok (DNSName d \<in> set sans) | IpHost _ \<Rightarrow> Ok False)"

fun match_extensions :: "string \<Rightarrow> Url \<Rightarrow> ParsedExtension list \<Rightarrow> bool run" where
  "match_extensions n url [] = Ok False"
| "match_extensions n url (SubjectAlternativeName sans # es) =
     and_then (match_other_name n sans) (\<lambda>a.
       if a then Ok True
       else and_then (match_dns_name url sans) (\<lambda>b.
              if b then Ok True else match_extensions n url es))"
| "match_extensions n url (OtherExtension # es) = match_extensions n url es"

definition validate_peer_certificate :: "string \<Rightarrow> Url \<Rightarrow> X509 option \<Rightarrow> bool run" where
  "validate_peer_certificate n url x509 =
     (case x509 of
        Some (Some es) \<Rightarrow> match_extensions n url es
      | Some None \<Rightarrow> Ok False
      | None \<Rightarrow> Ok False)"

section \<open>The session\<close>

record ConnectionInfo =
  peer_endpoint :: "string option"
  peer_url :: Url
  max_bundle_size :: "u64 option"

record Stream =
  peer_cert :: "X509 option"
  written :: "Messages list"

text \<open>The sender of a transfer is told the outcome through a one-shot channel, named by a number.\<close>

type_synonym result_sender = nat

record TCPCLSession =
  is_server :: bool
  stream :: "Stream option"
  ssl_context :: bool
  statemachine :: StateMachine
  receiving_transfer :: "Transfer option"
  connection_info :: ConnectionInfo
  established_channel :: bool
  established_sent :: "ConnectionInfo list"
  receive_channel :: "Transfer list"
  last_received_keepalive :: nat
  initialized_keepalive :: bool
  initialized_tls :: bool
  transfer_result_sender :: "result_sender option"
  transfer_results :: "(result_sender \<times> (TransferSendErrors + unit)) list"
  send_channel_open :: bool
  keepalive_timer :: "u16 option"

definition STARTUP_IDLE_INTERVAL :: u16 where
  "STARTUP_IDLE_INTERVAL = 60"

definition initial_session :: "bool \<Rightarrow> bool \<Rightarrow> StateMachine \<Rightarrow> Url \<Rightarrow> TCPCLSession" where
  "initial_session server tls sm url =
     \<lparr>is_server = server, stream = Some \<lparr>peer_cert = None, written = []\<rparr>, ssl_context = tls,
      statemachine = sm, receiving_transfer = None,
      connection_info = \<lparr>peer_endpoint = None, peer_url = url, max_bundle_size = None\<rparr>,
      established_channel = True, established_sent = [], receive_channel = [],
      last_received_keepalive = 0, initialized_keepalive = False, initialized_tls = False,
      transfer_result_sender = None, transfer_results = [], send_channel_open = True,
      keepalive_timer = Some STARTUP_IDLE_INTERVAL\<rparr>"

text \<open>\<open>TCPCLSession::new\<close> for an accepted connection, \<open>TCPCLSession::connect\<close> for an outgoing one.\<close>

definition session_new :: "string \<Rightarrow> bool \<Rightarrow> Url \<Rightarrow> TCPCLSession" where
  "session_new n tls url = initial_session True tls (new_passive n tls) url"

definition session_connect :: "string \<Rightarrow> bool \<Rightarrow> Url \<Rightarrow> TCPCLSession" where
  "session_connect n tls url = initial_session False tls (new_active n tls) url"

type_synonym 'a step = "('a, ErrorType) result"

definition lift_run :: "'a run \<Rightarrow> 'a step" where
  "lift_run r = map_err IOError r"

section \<open>The bookkeeping of an iteration\<close>

definition prepare_tls ::
  "(bool \<Rightarrow> X509 option step) \<Rightarrow> TCPCLSession \<Rightarrow> TCPCLSession step" where
  "prepare_tls tls s =
     (if \<not> initialized_tls s \<and> sm_contact_header_done (statemachine s)
      then and_then (lift_run (should_use_tls (statemachine s))) (\<lambda>use.
           and_then
             (if use
              then assert_then (ssl_context s)
                     (and_then (unwrap (stream s)) (\<lambda>str.
                      and_then (tls (is_server s)) (\<lambda>cert.
                        Ok (s\<lparr>stream := Some (str\<lparr>peer_cert := cert\<rparr>)\<rparr>))))
              else Ok s)
             (\<lambda>s. Ok (s\<lparr>initialized_tls := True\<rparr>)))
      else Ok s)"

definition prepare_established :: "TCPCLSession \<Rightarrow> TCPCLSession step" where
  "prepare_established s =
     (if is_established (statemachine s) \<and> established_channel s
      then and_then (lift_run (get_peer_node_id (statemachine s))) (\<lambda>n.
           and_then (lift_run (get_peer_mru (statemachine s))) (\<lambda>mru.
             let ci = (connection_info s)\<lparr>peer_endpoint := Some n, max_bundle_size := Some mru\<rparr>
             in Ok (s\<lparr>connection_info := ci, established_channel := False,
                      established_sent := established_sent s @ [ci]\<rparr>)))
      else Ok s)"

definition prepare_keepalive :: "TCPCLSession \<Rightarrow> TCPCLSession step" where
  "prepare_keepalive s =
     (if \<not> initialized_keepalive s \<and> is_established (statemachine s)
      then and_then (lift_run (get_keepalive_interval (statemachine s))) (\<lambda>k.
             Ok (s\<lparr>keepalive_timer := k, initialized_keepalive := True\<rparr>))
      else Ok s)"

definition prepare_result :: "TCPCLSession \<Rightarrow> TCPCLSession" where
  "prepare_result s =
     (case transfer_result_sender s of
        Some r \<Rightarrow>
          (if could_send_transfer (statemachine s)
           then s\<lparr>transfer_result_sender := None, transfer_results := transfer_results s @ [(r, Inr ())]\<rparr>
           else s)
      | None \<Rightarrow> s)"

definition prepare :: "(bool \<Rightarrow> X509 option step) \<Rightarrow> TCPCLSession \<Rightarrow> TCPCLSession step" where
  "prepare tls s =
     and_then (prepare_tls tls s) (\<lambda>s.
     and_then (prepare_established s) (\<lambda>s.
     and_then (prepare_keepalive s) (\<lambda>s.
       Ok (prepare_result s))))"

section \<open>Messages that have been read\<close>

text \<open>The end of the branch for a segment: \<open>t\<close> is the transfer with the data of the segment.\<close>

definition finish_segment :: "XferSegment \<Rightarrow> Transfer \<Rightarrow> XferAck \<Rightarrow> TCPCLSession \<Rightarrow> TCPCLSession step" where
  "finish_segment x t ack s =
     (let s = (if contains (xs_flags x) END
               then s\<lparr>receiving_transfer := None, receive_channel := receive_channel s @ [t]\<rparr>
               else s\<lparr>receiving_transfer := Some t\<rparr>)
      in and_then (lift_run (send_ack ack (statemachine s))) (\<lambda>sm. Ok (s\<lparr>statemachine := sm\<rparr>)))"

definition receive_segment :: "XferSegment \<Rightarrow> TCPCLSession \<Rightarrow> TCPCLSession step" where
  "receive_segment x s =
     (case receiving_transfer s of
        Some t \<Rightarrow>
          (if transfer_id t = xs_transfer_id x
           then let d = transfer_data t @ xs_data x
                in finish_segment x (t\<lparr>transfer_data := d\<rparr>) (to_xfer_ack x (of_nat (length d))) s
           else Ok s)
      | None \<Rightarrow>
          finish_segment x \<lparr>transfer_id = xs_transfer_id x, transfer_data = xs_data x\<rparr>
            (to_xfer_ack x (of_nat (length (xs_data x)))) s)"

definition receive_sess_init :: "SessInit \<Rightarrow> TCPCLSession \<Rightarrow> TCPCLSession step" where
  "receive_sess_init si s =
     and_then (lift_run (should_use_tls (statemachine s))) (\<lambda>use.
       if use
       then and_then (unwrap (stream s)) (\<lambda>str.
            and_then (lift_run (validate_peer_certificate (node_id si) (peer_url (connection_info s)) (peer_cert str)))
              (\<lambda>valid. if valid then Ok s else Err (TCPCLError (TLSNameMissmatch (node_id si)))))
       else Ok s)"

definition read_message :: "nat \<Rightarrow> received \<Rightarrow> TCPCLSession \<Rightarrow> TCPCLSession step" where
  "read_message now msg s =
     and_then (lift_run (decode_message (statemachine s) msg)) (\<lambda>(sm, out).
       let s = s\<lparr>statemachine := sm\<rparr> in
       case out of
         Inr (ContactHeader _) \<Rightarrow> Ok s
       | Inr (SessInit si) \<Rightarrow> receive_sess_init si s
       | Inr (SessTerm _) \<Rightarrow> Ok s
       | Inr (Keepalive _) \<Rightarrow> Ok (s\<lparr>last_received_keepalive := now\<rparr>)
       | Inr (XferSegment x) \<Rightarrow> receive_segment x s
       | Inr (XferAck _) \<Rightarrow> Ok s
       | Inr (XferRefuse _) \<Rightarrow> Ok s
       | Inr (MsgReject _) \<Rightarrow> Err (TCPCLError RemoteRejected)
       | Inl (MessageError (InvalidMessageType _)) \<Rightarrow> Ok s
       | Inl (MessageTypeInappropriate _) \<Rightarrow> Ok s
       | Inl RemoteRejected \<Rightarrow> Ok s
       | Inl (TLSNameMissmatch _) \<Rightarrow> Ok s
       | Inl e \<Rightarrow> Err (TCPCLError e))"

section \<open>The events of an iteration\<close>

text \<open>
  The branches of \<open>select!\<close>: something was read (\<open>None\<close> is the end of the stream) at a point in time,
  the writer is ready, the channel of transfer requests yields one or is closed, the keepalive
  timer ticks, the owner asks to close the session. Times are in nanoseconds.
\<close>

datatype event =
    Read nat "received option"
  | Write
  | TransferRequest "(bytes \<times> result_sender) option"
  | Tick nat
  | CloseRequest

definition enabled :: "event \<Rightarrow> TCPCLSession \<Rightarrow> bool run" where
  "enabled ev s =
     map_ok (\<lambda>(readable, writable).
       case ev of
         Read _ _ \<Rightarrow> readable
       | Write \<Rightarrow> writable
       | TransferRequest _ \<Rightarrow> send_channel_open s \<and> could_send_transfer (statemachine s)
       | Tick _ \<Rightarrow> keepalive_timer s \<noteq> None
       | CloseRequest \<Rightarrow> \<not> connection_closing (statemachine s) \<and> is_established (statemachine s))
     (get_interests (statemachine s))"

datatype 'a flow = Continue 'a | Return 'a

definition on_write :: "(Messages \<Rightarrow> unit run) \<Rightarrow> TCPCLSession \<Rightarrow> TCPCLSession step" where
  "on_write w s =
     and_then (unwrap (stream s)) (\<lambda>str.
     and_then (lift_run (send_message w (statemachine s))) (\<lambda>(sm, ms).
       Ok (s\<lparr>statemachine := sm, stream := Some (str\<lparr>written := written str @ ms\<rparr>)\<rparr>)))"

definition on_transfer :: "(bytes \<times> result_sender) option \<Rightarrow> TCPCLSession \<Rightarrow> TCPCLSession step" where
  "on_transfer req s =
     (case req of
        Some (d, sender) \<Rightarrow>
          and_then (lift_run (send_transfer d (statemachine s))) (\<lambda>(sm, out).
            case out of
              Inl e \<Rightarrow> Ok (s\<lparr>statemachine := sm, transfer_results := transfer_results s @ [(sender, Inl e)]\<rparr>)
            | Inr _ \<Rightarrow> Ok (s\<lparr>statemachine := sm, transfer_result_sender := Some sender\<rparr>))
      | None \<Rightarrow> Ok (s\<lparr>send_channel_open := False\<rparr>))"

definition idle_limit :: "u16 option \<Rightarrow> nat" where
  "idle_limit k = unat (case k of Some x \<Rightarrow> x | None \<Rightarrow> STARTUP_IDLE_INTERVAL) * 1000000000 * 2"

definition on_tick :: "nat \<Rightarrow> TCPCLSession \<Rightarrow> TCPCLSession step" where
  "on_tick now s =
     and_then
       (if is_established (statemachine s)
        then and_then (lift_run (get_keepalive_interval (statemachine s))) (\<lambda>k.
               if now - last_received_keepalive s > idle_limit k
               then and_then (lift_run (close_connection (Some IdleTimeout) (statemachine s))) (\<lambda>sm.
                      Ok (s\<lparr>statemachine := sm\<rparr>))
               else Ok s)
        else Ok s)
       (\<lambda>s. Ok (if initialized_keepalive s then s\<lparr>statemachine := send_keepalive (statemachine s)\<rparr> else s))"

definition on_close :: "TCPCLSession \<Rightarrow> TCPCLSession step" where
  "on_close s =
     and_then (lift_run (close_connection (Some ResourceExhaustion) (statemachine s))) (\<lambda>sm.
       Ok (s\<lparr>statemachine := sm\<rparr>))"

definition select ::
  "(Messages \<Rightarrow> unit run) \<Rightarrow> event \<Rightarrow> TCPCLSession \<Rightarrow> TCPCLSession flow step" where
  "select w ev s =
     (case ev of
        Read now None \<Rightarrow> Ok (Return s)
      | Read now (Some msg) \<Rightarrow> map_ok Continue (read_message now msg s)
      | Write \<Rightarrow> map_ok Continue (on_write w s)
      | TransferRequest req \<Rightarrow> map_ok Continue (on_transfer req s)
      | Tick now \<Rightarrow> map_ok Continue (on_tick now s)
      | CloseRequest \<Rightarrow> map_ok Continue (on_close s))"

text \<open>
  One iteration of the loop. A session that should close shuts its stream down and returns.
  An event whose guard does not hold is not chosen; the iteration is then \<open>None\<close>.
\<close>

definition iterate ::
  "(bool \<Rightarrow> X509 option step) \<Rightarrow> (Messages \<Rightarrow> unit run) \<Rightarrow> event \<Rightarrow> TCPCLSession
    \<Rightarrow> TCPCLSession flow option step" where
  "iterate tls w ev s =
     and_then (prepare tls s) (\<lambda>s.
       if should_close (statemachine s)
       then and_then (unwrap (stream s)) (\<lambda>str. Ok (Some (Return (s\<lparr>stream := None\<rparr>))))
       else and_then (unwrap (stream s)) (\<lambda>str.
            and_then (lift_run (enabled ev s)) (\<lambda>en.
              if en then map_ok Some (select w ev s) else Ok None)))"

text \<open>\<open>manage_connection\<close> starts the clock of the keepalive supervision, then runs the loop.\<close>

definition start_managing :: "nat \<Rightarrow> TCPCLSession \<Rightarrow> TCPCLSession" where
  "start_managing now s = s\<lparr>last_received_keepalive := now\<rparr>"

end
