(* ===== verification/Tcpcl_Invariant.thy ===== *)
theory Tcpcl_Invariant
  imports Tcpcl_Session
begin

text \<open>
  The invariant of a TCPCL session and that every event keeps it. The state machine is wired so
  that a getter is called only when its answer exists, a message is read only in a state that
  accepts one, and an acknowledgement is queued only where there is room for it. What is left are
  the panics that the peer can provoke; \<open>peer_fault\<close> lists them.
\<close>

section \<open>The state machine\<close>

definition headers_known :: "StateMachine \<Rightarrow> bool" where
  "headers_known sm \<longleftrightarrow> my_contact_header sm \<noteq> None \<and> peer_contact_header sm \<noteq> None"

definition session_up :: "StateMachine \<Rightarrow> bool" where
  "session_up sm \<longleftrightarrow> headers_known sm \<and> my_sess_init sm \<noteq> None \<and> peer_sess_init sm \<noteq> None"

text \<open>The position is at the start, at the end, or at least one full segment into the data. A
  \<open>Vec\<close> holds fewer than two to the 63 bytes.\<close>

definition tracker_ok :: "u64 \<Rightarrow> TransferTracker \<Rightarrow> bool" where
  "tracker_ok mru tt \<longleftrightarrow>
     (let n = length (transfer_data (transfer tt)) in
      n < 2 ^ 63 \<and> pos tt \<le> n \<and> (pos tt = 0 \<or> pos tt = n \<or> unat mru \<le> pos tt)
      \<and> (pos_acked tt = n \<longrightarrow> n = 0))"

definition peer_segment_mru :: "StateMachine \<Rightarrow> u64" where
  "peer_segment_mru sm = (case peer_sess_init sm of Some si \<Rightarrow> segment_mru si | None \<Rightarrow> 0)"

fun handshaking :: "States \<Rightarrow> bool" where
  "handshaking ActiveSendContactHeader = True"
| "handshaking PassiveWaitContactHeader = True"
| "handshaking ActiveWaitContactHeader = True"
| "handshaking PassiveSendContactHeader = True"
| "handshaking ActiveSendSessInit = True"
| "handshaking PassiveWaitSessInit = True"
| "handshaking ActiveWaitSessInit = True"
| "handshaking PassiveSendSessInit = True"
| "handshaking _ = False"

fun state_ok :: "StateMachine \<Rightarrow> States \<Rightarrow> bool" where
  "state_ok sm ActiveSendContactHeader = True"
| "state_ok sm PassiveWaitContactHeader = True"
| "state_ok sm ActiveWaitContactHeader = (my_contact_header sm \<noteq> None)"
| "state_ok sm PassiveSendContactHeader = (peer_contact_header sm \<noteq> None)"
| "state_ok sm ActiveSendSessInit = headers_known sm"
| "state_ok sm PassiveWaitSessInit = headers_known sm"
| "state_ok sm ActiveWaitSessInit = (headers_known sm \<and> my_sess_init sm \<noteq> None)"
| "state_ok sm PassiveSendSessInit = (headers_known sm \<and> peer_sess_init sm \<noteq> None)"
| "state_ok sm SessionEstablished = session_up sm"
| "state_ok sm (SendXferAck _) = session_up sm"
| "state_ok sm (SendXferSegments tt) = (session_up sm \<and> tracker_ok (peer_segment_mru sm) tt)"
| "state_ok sm (SendXferSegmentsAndAck tt _) = (session_up sm \<and> tracker_ok (peer_segment_mru sm) tt)"
| "state_ok sm (SendKeepalive s) = (session_up sm \<and> \<not> handshaking s \<and> s \<noteq> ConnectionClose \<and> state_ok sm s)"
| "state_ok sm (SendSessTerm _) = session_up sm"
| "state_ok sm WaitSessTerm = session_up sm"
| "state_ok sm (SendMsgReject _ _) = headers_known sm"
| "state_ok sm ConnectionClose = headers_known sm"
| "state_ok sm ShouldNeverExist = False"

definition sm_inv :: "StateMachine \<Rightarrow> bool" where
  "sm_inv sm \<longleftrightarrow>
     (\<forall>h. my_contact_header sm = Some h \<longrightarrow> h = ContactHeader_new (sm_can_tls sm))
     \<and> state_ok sm (state sm)"

named_theorems sm_ops \<open>the operations of the state machine\<close>

lemmas [sm_ops] = send_message_def send_complete_def send_and_complete_def decode_message_def
  decode_session_message_def decode_contact_header_def receive_ack_def reject_def get_interests_def
  send_transfer_def send_ack_def send_keepalive_def close_connection_def get_peer_node_id_def
  get_peer_mru_def get_keepalive_interval_def should_use_tls_def

lemma headers_known_update [simp]:
  "headers_known (sm\<lparr>state := s\<rparr>) = headers_known sm"
  "headers_known (sm\<lparr>terminating := b\<rparr>) = headers_known sm"
  "headers_known (sm\<lparr>last_used_transfer_id := i\<rparr>) = headers_known sm"
  "headers_known (sm\<lparr>my_sess_init := x\<rparr>) = headers_known sm"
  "headers_known (sm\<lparr>peer_sess_init := x\<rparr>) = headers_known sm"
  by (simp_all add: headers_known_def)

lemma session_up_update [simp]:
  "session_up (sm\<lparr>state := s\<rparr>) = session_up sm"
  "session_up (sm\<lparr>terminating := b\<rparr>) = session_up sm"
  "session_up (sm\<lparr>last_used_transfer_id := i\<rparr>) = session_up sm"
  by (simp_all add: session_up_def)

lemma peer_segment_mru_update [simp]:
  "peer_segment_mru (sm\<lparr>state := s\<rparr>) = peer_segment_mru sm"
  "peer_segment_mru (sm\<lparr>terminating := b\<rparr>) = peer_segment_mru sm"
  "peer_segment_mru (sm\<lparr>last_used_transfer_id := i\<rparr>) = peer_segment_mru sm"
  by (simp_all add: peer_segment_mru_def)

lemma state_ok_update [simp]:
  "state_ok (sm\<lparr>state := t\<rparr>) s = state_ok sm s"
  "state_ok (sm\<lparr>terminating := b\<rparr>) s = state_ok sm s"
  "state_ok (sm\<lparr>last_used_transfer_id := i\<rparr>) s = state_ok sm s"
  by (induction s) simp_all

lemma session_upD:
  assumes "session_up sm"
  obtains h h' mine peer where "my_contact_header sm = Some h" "peer_contact_header sm = Some h'"
    "my_sess_init sm = Some mine" "peer_sess_init sm = Some peer" "peer_segment_mru sm = segment_mru peer"
  using assms by (auto simp: session_up_def headers_known_def peer_segment_mru_def)

lemma state_ok_headers: "state_ok sm s \<Longrightarrow> \<not> handshaking s \<Longrightarrow> headers_known sm"
  by (cases s) (auto simp: session_up_def)

subsection \<open>Sending\<close>

lemma segment_end_bounds:
  assumes "tracker_ok mru tt" "pos tt < length (transfer_data (transfer tt))"
  shows "segment_end mru tt = min (pos tt + unat mru) (length (transfer_data (transfer tt)))"
    and "pos tt \<le> segment_end mru tt" "segment_end mru tt \<le> length (transfer_data (transfer tt))"
proof -
  let ?n = "length (transfer_data (transfer tt))"
  have n: "?n < 9223372036854775808" and p: "pos tt = 0 \<or> unat mru \<le> pos tt"
    using assms by (auto simp: tracker_ok_def Let_def)
  have "pos tt + unat mru < 2 ^ 64"
    using p assms(2) n unat_u64_less [of mru] by (auto simp del: unat_u64_less)
  then have "unat (of_nat (pos tt) + mru) = pos tt + unat mru"
    by (simp add: unat_plus_if' unat_of_nat take_bit_nat_eq_self)
  then show "segment_end mru tt = min (pos tt + unat mru) ?n"
    by (simp add: segment_end_def)
  then show "pos tt \<le> segment_end mru tt" "segment_end mru tt \<le> ?n"
    using assms(2) by simp_all
qed

lemma tracker_ok_advance:
  assumes "tracker_ok mru tt" "pos tt < length (transfer_data (transfer tt))"
  shows "tracker_ok mru (tt\<lparr>pos := segment_end mru tt\<rparr>)"
  using assms segment_end_bounds [OF assms] by (auto simp: tracker_ok_def Let_def)

lemma next_segment_ok:
  assumes "tracker_ok mru tt" "pos tt < length (transfer_data (transfer tt))"
  shows "next_segment mru tt = Ok (XferSegment_new (segment_flags tt (segment_end mru tt))
    (transfer_id (transfer tt))
    (take (segment_end mru tt - pos tt) (drop (pos tt) (transfer_data (transfer tt)))))"
  using segment_end_bounds [OF assms] by (simp add: next_segment_def index_range_def Let_def)


text \<open>What an operation on a session keeps of the machine.\<close>

definition sm_next :: "StateMachine \<Rightarrow> StateMachine \<Rightarrow> bool" where
  "sm_next sm sm' \<longleftrightarrow>
     sm_inv sm' \<and> sm_can_tls sm' = sm_can_tls sm \<and> (session_up sm \<longrightarrow> session_up sm')
     \<and> (\<not> handshaking (state sm) \<longrightarrow> \<not> handshaking (state sm'))"

lemma sm_next_state:
  assumes "sm_inv sm" "state_ok sm s" "\<not> handshaking (state sm) \<longrightarrow> \<not> handshaking s"
  shows "sm_next sm (sm\<lparr>state := s\<rparr>)"
  using assms by (simp add: sm_next_def sm_inv_def)

lemma send_complete_next:
  assumes "sm_inv sm" "send_complete sm = Ok sm'" "state sm \<notin> {ActiveSendContactHeader, PassiveSendContactHeader, ActiveSendSessInit, PassiveSendSessInit}"
  shows "sm_next sm sm'"
  using assms state_ok_headers [of sm]
  by (auto simp: send_complete_def sm_inv_def sm_next_def session_up_def split: States.splits if_splits)

lemma send_message_next:
  assumes "sm_inv sm" "send_message w sm = Ok (sm', ms)"
  shows "sm_next sm sm'"
proof -
  have inv: "state_ok sm (state sm)" "my_contact_header sm = Some h \<Longrightarrow> h = ContactHeader_new (sm_can_tls sm)" for h
    using assms(1) by (auto simp: sm_inv_def)
  show ?thesis
  proof (cases "state sm")
    case (SendXferSegments tt)
    then obtain peer where peer: "peer_sess_init sm = Some peer" "peer_segment_mru sm = segment_mru peer"
      and tt: "session_up sm" "tracker_ok (segment_mru peer) tt"
      using inv by (auto elim: session_upD)
    show ?thesis
    proof (cases "pos tt = length (transfer_data (transfer tt))")
      case True
      with assms SendXferSegments peer show ?thesis
        by (simp add: send_message_def sm_next_def)
    next
      case False
      let ?sm = "sm\<lparr>state := SendXferSegments (tt\<lparr>pos := segment_end (segment_mru peer) tt\<rparr>)\<rparr>"
      have "pos tt < length (transfer_data (transfer tt))"
        using False tt(2) by (auto simp: tracker_ok_def Let_def)
      then have "tracker_ok (segment_mru peer) (tt\<lparr>pos := segment_end (segment_mru peer) tt\<rparr>)"
        using tracker_ok_advance tt(2) by blast
      then have "sm_inv ?sm" "sm_next sm ?sm"
        using assms(1) tt(1) peer SendXferSegments by (auto intro!: sm_next_state simp: sm_inv_def)
      moreover have "send_complete ?sm = Ok sm'"
        using assms(2) False SendXferSegments peer
        by (auto simp: send_message_def send_and_complete_def result_simps)
      ultimately show ?thesis
        using send_complete_next [of ?sm sm'] by (auto simp: sm_next_def)
    qed
  qed (use assms inv in \<open>auto simp: send_message_def send_and_complete_def send_complete_def result_simps
      sm_next_def sm_inv_def session_up_def headers_known_def Let_def state_ok_headers split: if_splits\<close>)
qed


lemma send_message_safe:
  assumes "sm_inv sm" "get_interests sm = Ok (r, True)" "\<And>m. w m \<noteq> Panic"
  shows "send_message w sm \<noteq> Panic"
proof (cases "state sm")
  case (SendXferSegments tt)
  then obtain peer where peer: "peer_sess_init sm = Some peer"
    and tt: "tracker_ok (segment_mru peer) tt" "pos tt < length (transfer_data (transfer tt))"
    using assms(1,2) by (auto simp: sm_inv_def get_interests_def elim!: session_upD split: if_splits)
  then show ?thesis
    using SendXferSegments assms(3)
    by (auto simp: send_message_def next_segment_ok send_and_complete_def send_complete_def no_panic split: if_splits)
qed (use assms in \<open>auto simp: send_message_def send_and_complete_def send_complete_def get_interests_def
    no_panic Let_def\<close>)

subsection \<open>Receiving\<close>

text \<open>
  What a peer can do to make the receiving side panic: not sending a contact header and breaking
  the connection meanwhile, and acknowledging a transfer other than the current one.
\<close>

definition protocol_fault :: "StateMachine \<Rightarrow> received \<Rightarrow> bool" where
  "protocol_fault sm msg \<longleftrightarrow>
     (\<not> sm_contact_header_done sm \<and> (\<exists>e. msg = Inl e \<and> e \<noteq> InvalidHeader))
     \<or> (\<exists>tt xa. state sm = SendXferSegments tt \<and> msg = Inr (XferAck xa)
          \<and> transfer_id (transfer tt) \<noteq> xa_transfer_id xa)"

text \<open>The codec hands out the contact header first and then never again.\<close>

definition in_order :: "StateMachine \<Rightarrow> received \<Rightarrow> bool" where
  "in_order sm msg \<longleftrightarrow> (\<forall>m. msg = Inr m \<longrightarrow> is_ContactHeader m = (\<not> sm_contact_header_done sm))"

lemma get_message_type_Panic_iff [no_panic]: "get_message_type m = Panic \<longleftrightarrow> is_ContactHeader m"
  by (cases m) (simp_all add: is_ContactHeader_def)

lemma decode_message_panic_iff:
  assumes "get_interests sm = Ok (True, wr)" "in_order sm msg"
  shows "decode_message sm msg = Panic \<longleftrightarrow> protocol_fault sm msg"
  using assms
  by (cases "state sm"; cases msg)
    (auto simp: decode_message_def decode_session_message_def decode_contact_header_def receive_ack_def
      reject_def get_interests_def in_order_def protocol_fault_def sm_contact_header_done_def
      is_ContactHeader_def assert_then_def Let_def no_panic split: Messages.splits Errors.splits if_splits)

lemma receive_ack_next:
  assumes "sm_inv sm" "session_up sm" "tracker_ok (peer_segment_mru sm) tt"
    and "\<And>tt'. tracker_ok (peer_segment_mru sm) tt' \<Longrightarrow> state_ok sm (upd tt') \<and> \<not> handshaking (upd tt')"
    and "state_ok sm after" "\<not> handshaking after"
    and "receive_ack xa tt upd after sm = Ok (sm', Inr m)"
  shows "sm_next sm sm'"
proof -
  let ?tt = "tt\<lparr>pos_acked := unat (acknowleged_length xa)\<rparr>"
  consider "sm' = sm\<lparr>state := after\<rparr>" | "sm' = sm\<lparr>state := upd ?tt\<rparr>" "tracker_ok (peer_segment_mru sm) ?tt"
    using assms(3,7) by (auto simp: receive_ack_def tracker_ok_def result_simps Let_def split: if_splits)
  then show ?thesis
  proof cases
    case 1
    with assms show ?thesis by (auto intro: sm_next_state)
  next
    case 2
    with assms(1) assms(4) [OF 2(2)] show ?thesis by (auto intro: sm_next_state)
  qed
qed

lemma reject_next: "sm_inv sm \<Longrightarrow> headers_known sm \<Longrightarrow> reject m sm = Ok (sm', out) \<Longrightarrow> sm_next sm sm'"
  by (auto simp: reject_def result_simps intro: sm_next_state)


text \<open>The states in which the driver reads, and what holds of them.\<close>

fun reading :: "States \<Rightarrow> bool" where
  "reading PassiveWaitSessInit = True"
| "reading ActiveWaitSessInit = True"
| "reading SessionEstablished = True"
| "reading WaitSessTerm = True"
| "reading (SendXferSegments _) = True"
| "reading _ = False"

lemma decode_session_message_next:
  assumes inv: "sm_inv sm" and rd: "reading (state sm)"
    and dec: "decode_session_message sm msg = Ok (sm', out)" and ack: "out \<noteq> Inl (MessageError InvalidACKValue)"
  shows "sm_next sm sm'"
proof -
  have ok: "state_ok sm (state sm)" and hdr: "headers_known sm"
    using inv rd by (cases "state sm"; auto simp: sm_inv_def session_up_def)+
  have same: "sm_next sm sm" using inv by (simp add: sm_next_def)
  show ?thesis
  proof (cases msg)
    case (Inl e)
    then show ?thesis
      using dec inv hdr same
      by (cases e) (auto simp: decode_session_message_def intro!: sm_next_state)
  next
    case (Inr m)
    show ?thesis
    proof (cases m)
      case (SessInit si)
      show ?thesis
      proof (cases "state sm = ActiveWaitSessInit \<or> state sm = PassiveWaitSessInit")
        case True
        then show ?thesis
          using Inr SessInit dec inv ok
          by (auto simp: decode_session_message_def sm_next_def sm_inv_def session_up_def headers_known_def)
      next
        case False
        then show ?thesis
          using Inr SessInit dec reject_next [OF inv hdr] by (auto simp: decode_session_message_def)
      qed
    next
      case (SessTerm st)
      show ?thesis
      proof (cases "state sm = WaitSessTerm \<or> transferring (state sm)")
        case True
        then show ?thesis
          using Inr SessTerm dec inv ok hdr
          by (auto simp: decode_session_message_def sm_next_def sm_inv_def session_up_def transferring_def
              split: if_splits States.splits)
      next
        case False
        then show ?thesis
          using Inr SessTerm dec reject_next [OF inv hdr] by (auto simp: decode_session_message_def)
      qed
    next
      case (XferAck xa)
      show ?thesis
      proof (cases "\<exists>tt. state sm = SendXferSegments tt")
        case True
        then obtain tt where tt: "state sm = SendXferSegments tt" by blast
        have "\<exists>m'. out = Inr m'"
          using dec Inr XferAck tt ack
          by (auto simp: decode_session_message_def receive_ack_def result_simps Let_def split: if_splits)
        then show ?thesis
          using dec Inr XferAck tt ok
            receive_ack_next [OF inv, of tt SendXferSegments SessionEstablished xa sm']
          by (auto simp: decode_session_message_def)
      next
        case False
        then have "reject m sm = Ok (sm', out)"
          using dec Inr XferAck rd by (cases "state sm") (auto simp: decode_session_message_def)
        then show ?thesis by (rule reject_next [OF inv hdr])
      qed
    qed (use Inr dec same reject_next [OF inv hdr] in \<open>auto simp: decode_session_message_def split: if_splits\<close>)
  qed
qed

lemma decode_message_next:
  assumes inv: "sm_inv sm" and rd: "get_interests sm = Ok (True, wr)"
    and dec: "decode_message sm msg = Ok (sm', out)" and ack: "out \<noteq> Inl (MessageError InvalidACKValue)"
  shows "sm_next sm sm'"
proof (cases "sm_contact_header_done sm")
  case False
  then show ?thesis
    using assms
    by (cases "state sm")
      (auto simp: decode_message_def decode_contact_header_def get_interests_def sm_contact_header_done_def
        sm_next_def sm_inv_def headers_known_def session_up_def split: sum.splits Messages.splits Errors.splits)
next
  case True
  then have "reading (state sm)" "decode_session_message sm msg = Ok (sm', out)"
    using rd dec by (cases "state sm"; auto simp: get_interests_def decode_message_def sm_contact_header_done_def)+
  then show ?thesis using decode_session_message_next [OF inv] ack by blast
qed

text \<open>A segment is handed on only in a state that has room for its acknowledgement.\<close>

lemma decode_message_segment:
  assumes "get_interests sm = Ok (True, wr)" "decode_message sm msg = Ok (sm', Inr (XferSegment x))"
  shows "sm' = sm \<and> (state sm = SessionEstablished \<or> (\<exists>tt. state sm = SendXferSegments tt))"
  using assms
  by (cases "state sm"; cases msg)
    (auto simp: decode_message_def decode_session_message_def decode_contact_header_def receive_ack_def
      reject_def get_interests_def transferring_def result_simps Let_def
      split: Messages.splits Errors.splits if_splits)

lemma decode_message_sess_init:
  assumes "get_interests sm = Ok (True, wr)" "decode_message sm msg = Ok (sm', Inr (SessInit x))"
  shows "msg = Inr (SessInit x) \<and> (state sm = ActiveWaitSessInit \<or> state sm = PassiveWaitSessInit)"
  using assms
  by (cases "state sm"; cases msg)
    (auto simp: decode_message_def decode_session_message_def decode_contact_header_def receive_ack_def
      reject_def get_interests_def transferring_def result_simps Let_def
      split: Messages.splits Errors.splits if_splits)

end
