(* ===== verification/Tcpcl_Safety.thy ===== *)
theory Tcpcl_Safety
  imports Tcpcl_Invariant
begin

text \<open>
  The invariant of the session driver. Every iteration of the loop keeps it, and an iteration
  panics exactly when the peer has provoked it. \<open>reachable\<close> is the set of sessions that a sequence
  of events leads to; the invariant holds there by rule induction.
\<close>

definition sess_inv :: "TCPCLSession \<Rightarrow> bool" where
  "sess_inv s \<longleftrightarrow>
     sm_inv (statemachine s) \<and> stream s \<noteq> None \<and> ssl_context s = sm_can_tls (statemachine s)
     \<and> (initialized_keepalive s \<longrightarrow> session_up (statemachine s) \<and> \<not> handshaking (state (statemachine s)))"

text \<open>A certificate whose name does not have the form that the check expects.\<close>

definition certificate_fault :: "TCPCLSession \<Rightarrow> received \<Rightarrow> bool" where
  "certificate_fault s msg \<longleftrightarrow>
     (\<exists>si str. msg = Inr (SessInit si) \<and> state (statemachine s) \<in> {ActiveWaitSessInit, PassiveWaitSessInit}
        \<and> should_use_tls (statemachine s) = Ok True \<and> stream s = Some str
        \<and> validate_peer_certificate (node_id si) (peer_url (connection_info s)) (peer_cert str) = Panic)"

definition peer_fault :: "event \<Rightarrow> TCPCLSession \<Rightarrow> bool" where
  "peer_fault ev s \<longleftrightarrow>
     (\<exists>now msg. ev = Read now (Some msg) \<and> (protocol_fault (statemachine s) msg \<or> certificate_fault s msg))"

definition event_ok :: "event \<Rightarrow> TCPCLSession \<Rightarrow> bool" where
  "event_ok ev s =
     (case ev of
        Read _ (Some msg) \<Rightarrow> in_order (statemachine s) msg
      | TransferRequest (Some (d, _)) \<Rightarrow> length d < 2 ^ 63
      | _ \<Rightarrow> True)"

lemma lift_run_simps [simp]: "lift_run (Ok x) = Ok x" "lift_run Panic = Panic" "lift_run (Err e) = Err (IOError e)"
  by (simp_all add: lift_run_def)

lemma lift_run_Ok_iff [result_simps]: "lift_run r = Ok x \<longleftrightarrow> r = Ok x"
  by (cases r) simp_all

lemma lift_run_Panic_iff [no_panic]: "lift_run r = Panic \<longleftrightarrow> r = Panic"
  by (cases r) simp_all

section \<open>Starting\<close>

lemma session_new_inv: "sess_inv (session_new n tls url)"
  by (simp add: sess_inv_def session_new_def initial_session_def new_passive_def sm_inv_def)

lemma session_connect_inv: "sess_inv (session_connect n tls url)"
  by (simp add: sess_inv_def session_connect_def initial_session_def new_active_def sm_inv_def)

section \<open>The bookkeeping\<close>

lemma sm_inv_tls:
  assumes "sm_inv sm" "sm_contact_header_done sm"
  obtains b where "should_use_tls sm = Ok b" "b \<Longrightarrow> sm_can_tls sm"
proof -
  have "headers_known sm"
    using assms by (cases "state sm") (auto simp: sm_inv_def sm_contact_header_done_def session_up_def)
  then obtain h h' where h: "my_contact_header sm = Some h" "peer_contact_header sm = Some h'"
    by (auto simp: headers_known_def)
  moreover have "h = ContactHeader_new (sm_can_tls sm)"
    using assms(1) h by (simp add: sm_inv_def)
  ultimately show thesis
    by (intro that [of "can_tls h \<and> can_tls h'"])
      (auto simp: should_use_tls_def assert_then_def can_tls_def ContactHeader_new_def contains_def flag_defs
        split: if_splits)
qed

lemma prepare_tls_inv:
  assumes "sess_inv s" "\<And>b. tls b \<noteq> Panic"
  shows "prepare_tls tls s \<noteq> Panic"
    and "prepare_tls tls s = Ok s' \<Longrightarrow> sess_inv s' \<and> statemachine s' = statemachine s"
proof -
  have "prepare_tls tls s \<noteq> Panic \<and> (\<forall>s'. prepare_tls tls s = Ok s' \<longrightarrow> sess_inv s' \<and> statemachine s' = statemachine s)"
  proof (cases "\<not> initialized_tls s \<and> sm_contact_header_done (statemachine s)")
    case True
    have "sm_inv (statemachine s)" using assms(1) by (simp add: sess_inv_def)
    then obtain b where "should_use_tls (statemachine s) = Ok b" "b \<Longrightarrow> sm_can_tls (statemachine s)"
      using True sm_inv_tls by blast
    then show ?thesis
      using assms True
      by (auto simp: prepare_tls_def sess_inv_def assert_then_def no_panic result_simps split: if_splits)
  next
    case False
    then show ?thesis using assms by (auto simp: prepare_tls_def)
  qed
  then show "prepare_tls tls s \<noteq> Panic"
    and "prepare_tls tls s = Ok s' \<Longrightarrow> sess_inv s' \<and> statemachine s' = statemachine s"
    by blast+
qed

lemma established_up: "sm_inv sm \<Longrightarrow> is_established sm \<Longrightarrow> session_up sm"
  by (simp add: sm_inv_def is_established_def)

lemma getters_defined:
  assumes "sm_inv sm" "is_established sm"
  obtains n m k where "get_peer_node_id sm = Ok n" "get_peer_mru sm = Ok m" "get_keepalive_interval sm = Ok k"
  using established_up [OF assms] assms(2)
  by (auto simp: get_peer_node_id_def get_peer_mru_def get_keepalive_interval_def assert_then_def Let_def elim!: session_upD)

lemma prepare_established_inv:
  assumes "sess_inv s"
  shows "\<exists>s'. prepare_established s = Ok s' \<and> sess_inv s' \<and> statemachine s' = statemachine s"
proof (cases "is_established (statemachine s)")
  case True
  moreover have "sm_inv (statemachine s)" using assms by (simp add: sess_inv_def)
  ultimately obtain n m k where "get_peer_node_id (statemachine s) = Ok n" "get_peer_mru (statemachine s) = Ok m"
    using getters_defined by blast
  with assms show ?thesis by (simp add: prepare_established_def sess_inv_def Let_def)
qed (use assms in \<open>simp add: prepare_established_def\<close>)

lemma prepare_keepalive_inv:
  assumes "sess_inv s"
  shows "\<exists>s'. prepare_keepalive s = Ok s' \<and> sess_inv s' \<and> statemachine s' = statemachine s"
proof (cases "is_established (statemachine s)")
  case True
  moreover have inv: "sm_inv (statemachine s)" using assms by (simp add: sess_inv_def)
  ultimately obtain n m k where "get_keepalive_interval (statemachine s) = Ok k"
    using getters_defined by blast
  with assms True established_up [OF inv True] show ?thesis
    by (simp add: prepare_keepalive_def sess_inv_def is_established_def)
qed (use assms in \<open>simp add: prepare_keepalive_def\<close>)

lemma prepare_result_inv:
  "sess_inv s \<Longrightarrow> sess_inv (prepare_result s) \<and> statemachine (prepare_result s) = statemachine s"
  by (simp add: prepare_result_def sess_inv_def split: option.splits)

lemma prepare_rest:
  assumes "sess_inv s"
  shows "\<exists>s'. and_then (prepare_established s) (\<lambda>s. and_then (prepare_keepalive s) (\<lambda>s. Ok (prepare_result s))) = Ok s'
    \<and> sess_inv s' \<and> statemachine s' = statemachine s"
proof -
  obtain s1 where s1: "prepare_established s = Ok s1" "sess_inv s1" "statemachine s1 = statemachine s"
    using prepare_established_inv [OF assms] by blast
  obtain s2 where s2: "prepare_keepalive s1 = Ok s2" "sess_inv s2" "statemachine s2 = statemachine s1"
    using prepare_keepalive_inv [OF s1(2)] by blast
  show ?thesis using s1 s2 prepare_result_inv [OF s2(2)] by simp
qed

lemma prepare_inv:
  assumes "sess_inv s" "\<And>b. tls b \<noteq> Panic"
  shows "prepare tls s \<noteq> Panic"
    and "prepare tls s = Ok s' \<Longrightarrow> sess_inv s' \<and> statemachine s' = statemachine s"
proof -
  note tls_inv = prepare_tls_inv [of s tls, OF assms]
  have "prepare tls s \<noteq> Panic \<and> (prepare tls s = Ok s' \<longrightarrow> sess_inv s' \<and> statemachine s' = statemachine s)" for s'
  proof (cases "prepare_tls tls s")
    case (Ok s1)
    then have s1: "sess_inv s1" "statemachine s1 = statemachine s" using tls_inv(2) by simp_all
    from prepare_rest [OF s1(1)] s1(2) Ok show ?thesis unfolding prepare_def by auto
  qed (use tls_inv(1) in \<open>auto simp: prepare_def\<close>)
  then show "prepare tls s \<noteq> Panic" "prepare tls s = Ok s' \<Longrightarrow> sess_inv s' \<and> statemachine s' = statemachine s"
    by blast+
qed

section \<open>The events\<close>

lemma sess_inv_next:
  assumes "sess_inv s" "sm_next (statemachine s) sm" "statemachine s' = sm" "stream s' \<noteq> None"
    "ssl_context s' = ssl_context s" "initialized_keepalive s' = initialized_keepalive s"
  shows "sess_inv s'"
  using assms by (auto simp: sess_inv_def sm_next_def)

text \<open>The states in which a segment can be acknowledged.\<close>

definition ack_room :: "StateMachine \<Rightarrow> bool" where
  "ack_room sm \<longleftrightarrow> state sm = SessionEstablished \<or> (\<exists>tt. state sm = SendXferSegments tt)"

lemma send_ack_next:
  assumes "sm_inv sm" "ack_room sm"
  shows "\<exists>sm'. send_ack a sm = Ok sm' \<and> sm_next sm sm'"
  using assms sm_next_state [OF assms(1), of "SendXferAck a"] sm_next_state [OF assms(1), of "SendXferSegmentsAndAck _ a"]
  by (auto simp: ack_room_def send_ack_def sm_inv_def)

lemma finish_segment_inv:
  assumes "sess_inv s" "ack_room (statemachine s)"
  shows "\<exists>s'. finish_segment x t a s = Ok s' \<and> sess_inv s'"
proof -
  obtain sm where "send_ack a (statemachine s) = Ok sm" "sm_next (statemachine s) sm"
    using assms send_ack_next by (auto simp: sess_inv_def)
  with assms(1) show ?thesis
    by (auto simp: finish_segment_def sess_inv_def sm_next_def)
qed

lemma receive_segment_inv:
  assumes "sess_inv s" "ack_room (statemachine s)"
  shows "\<exists>s'. receive_segment x s = Ok s' \<and> sess_inv s'"
  using assms finish_segment_inv [OF assms] by (simp add: receive_segment_def Let_def split: option.splits)

text \<open>The check of the peer's certificate, once its session initialisation has been accepted.\<close>

lemma receive_sess_init_inv:
  assumes "sess_inv s" "get_interests (statemachine s) = Ok (True, wr)"
    and dec: "decode_message (statemachine s) msg = Ok (sm, Inr (SessInit si))"
    and inv': "sess_inv (s\<lparr>statemachine := sm\<rparr>)"
  shows "receive_sess_init si (s\<lparr>statemachine := sm\<rparr>) = Panic \<longleftrightarrow> certificate_fault s msg"
    and "receive_sess_init si (s\<lparr>statemachine := sm\<rparr>) = Ok s' \<Longrightarrow> sess_inv s'"
proof -
  have msg: "msg = Inr (SessInit si)" "state (statemachine s) = ActiveWaitSessInit \<or> state (statemachine s) = PassiveWaitSessInit"
    using decode_message_sess_init [OF assms(2) dec] by simp_all
  then have tls: "should_use_tls sm = should_use_tls (statemachine s)"
    using dec by (auto simp: decode_message_def decode_session_message_def should_use_tls_def)
  have "sm_inv (statemachine s)" "sm_contact_header_done (statemachine s)"
    using assms(1) msg(2) by (auto simp: sess_inv_def sm_contact_header_done_def)
  then obtain b where b: "should_use_tls (statemachine s) = Ok b"
    using sm_inv_tls by blast
  obtain str where str: "stream s = Some str" using assms(1) by (auto simp: sess_inv_def)
  show "receive_sess_init si (s\<lparr>statemachine := sm\<rparr>) = Panic \<longleftrightarrow> certificate_fault s msg"
    using msg tls b str by (auto simp: receive_sess_init_def certificate_fault_def no_panic)
  show "receive_sess_init si (s\<lparr>statemachine := sm\<rparr>) = Ok s' \<Longrightarrow> sess_inv s'"
    using inv' tls b str by (auto simp: receive_sess_init_def result_simps split: if_splits)
qed

lemma certificate_fault_accepted:
  assumes "certificate_fault s msg"
  shows "\<exists>sm si. decode_message (statemachine s) msg = Ok (sm, Inr (SessInit si))"
  using assms by (auto simp: certificate_fault_def decode_message_def decode_session_message_def)

lemma read_message_inv:
  assumes inv: "sess_inv s" and rd: "get_interests (statemachine s) = Ok (True, wr)"
    and order: "in_order (statemachine s) msg"
  shows "read_message now msg s = Panic \<longleftrightarrow> protocol_fault (statemachine s) msg \<or> certificate_fault s msg"
    and "read_message now msg s = Ok s' \<Longrightarrow> sess_inv s'"
proof -
  note panic = decode_message_panic_iff [OF rd order]
  have smi: "sm_inv (statemachine s)" using inv by (simp add: sess_inv_def)
  have "(read_message now msg s = Panic \<longleftrightarrow> protocol_fault (statemachine s) msg \<or> certificate_fault s msg)
    \<and> (read_message now msg s = Ok s' \<longrightarrow> sess_inv s')" for s'
  proof (cases "decode_message (statemachine s) msg")
    case (Ok v)
    obtain sm out where v: "v = (sm, out)" by (cases v)
    note dec = Ok [unfolded v]
    have nofault: "\<not> protocol_fault (statemachine s) msg" using dec panic by simp
    show ?thesis
    proof (cases "out = Inl (MessageError InvalidACKValue)")
      case True
      then have "\<not> certificate_fault s msg"
        using dec certificate_fault_accepted [of s msg] by auto
      with True dec nofault show ?thesis by (simp add: read_message_def Let_def)
    next
      case False
      have nxt: "sm_next (statemachine s) sm"
        by (rule decode_message_next [OF smi rd dec False])
      then have inv': "sess_inv (s\<lparr>statemachine := sm\<rparr>)"
        using inv by (auto simp: sess_inv_def sm_next_def)
      show ?thesis
      proof (cases "\<exists>si. out = Inr (SessInit si)")
        case True
        then show ?thesis
          using receive_sess_init_inv [OF inv rd _ inv'] dec nofault by (auto simp: read_message_def Let_def)
      next
        case notinit: False
        then have nocert: "\<not> certificate_fault s msg"
          using dec certificate_fault_accepted [of s msg] by auto
        show ?thesis
        proof (cases "\<exists>x. out = Inr (XferSegment x)")
          case True
          then obtain x where x: "out = Inr (XferSegment x)" by blast
          then have "ack_room (statemachine (s\<lparr>statemachine := sm\<rparr>))"
            using decode_message_segment [OF rd] dec by (auto simp: ack_room_def)
          then obtain s1 where "receive_segment x (s\<lparr>statemachine := sm\<rparr>) = Ok s1" "sess_inv s1"
            using receive_segment_inv [OF inv'] by blast
          with x dec nofault nocert show ?thesis by (auto simp: read_message_def Let_def)
        next
          case False
          with notinit dec nofault nocert inv' show ?thesis
            by (auto simp: read_message_def Let_def sess_inv_def
                split: sum.splits Messages.splits SessionErrors.splits Errors.splits)
        qed
      qed
    qed
  qed (use panic certificate_fault_accepted [of s msg] in \<open>auto simp: read_message_def\<close>)
  then show "read_message now msg s = Panic \<longleftrightarrow> protocol_fault (statemachine s) msg \<or> certificate_fault s msg"
    and "read_message now msg s = Ok s' \<Longrightarrow> sess_inv s'"
    by blast+
qed


lemma on_write_inv:
  assumes "sess_inv s" "get_interests (statemachine s) = Ok (r, True)" "\<And>m. w m \<noteq> Panic"
  shows "on_write w s \<noteq> Panic" and "on_write w s = Ok s' \<Longrightarrow> sess_inv s'"
proof -
  have smi: "sm_inv (statemachine s)" using assms(1) by (simp add: sess_inv_def)
  show "on_write w s \<noteq> Panic"
    using assms(1) send_message_safe [OF smi assms(2,3)]
    by (auto simp: on_write_def sess_inv_def no_panic)
  assume "on_write w s = Ok s'"
  then obtain sm ms str where sm: "send_message w (statemachine s) = Ok (sm, ms)"
    and s': "s' = s\<lparr>statemachine := sm, stream := Some (str\<lparr>written := written str @ ms\<rparr>)\<rparr>"
    by (auto simp: on_write_def result_simps)
  show "sess_inv s'"
    by (rule sess_inv_next [OF assms(1) send_message_next [OF smi sm]]) (simp_all add: s')
qed

lemma send_transfer_next:
  assumes "sm_inv sm" "could_send_transfer sm" "length d < 2 ^ 63"
  shows "\<exists>sm' out. send_transfer d sm = Ok (sm', out) \<and> sm_next sm sm'"
proof -
  have up: "session_up sm" "state sm = SessionEstablished"
    using assms by (auto simp: sm_inv_def could_send_transfer_def)
  obtain peer where peer: "peer_sess_init sm = Some peer" using up(1) by (auto elim: session_upD)
  let ?tt = "\<lparr>transfer = \<lparr>transfer_id = last_used_transfer_id sm, transfer_data = d\<rparr>, pos = 0, pos_acked = 0\<rparr>"
  have "sm_next sm sm" using assms(1) by (simp add: sm_next_def)
  moreover have "sm_next sm (sm\<lparr>last_used_transfer_id := last_used_transfer_id sm + 1, state := SendXferSegments ?tt\<rparr>)"
    using assms up by (auto simp: sm_next_def sm_inv_def tracker_ok_def Let_def)
  ultimately show ?thesis
    using up(2) peer by (auto simp: send_transfer_def Let_def)
qed

lemma on_transfer_inv:
  assumes "sess_inv s" "could_send_transfer (statemachine s)" "event_ok (TransferRequest req) s"
  shows "\<exists>s'. on_transfer req s = Ok s' \<and> sess_inv s'"
proof (cases req)
  case None
  with assms(1) show ?thesis by (simp add: on_transfer_def sess_inv_def)
next
  case (Some p)
  obtain d snd where p: "p = (d, snd)" by (cases p)
  then obtain sm out where "send_transfer d (statemachine s) = Ok (sm, out)" "sm_next (statemachine s) sm"
    using send_transfer_next [of "statemachine s" d] assms Some by (auto simp: sess_inv_def event_ok_def)
  with assms(1) Some p show ?thesis
    by (auto simp: on_transfer_def sess_inv_def sm_next_def split: sum.splits)
qed

lemma close_connection_next:
  assumes "sm_inv sm" "is_established sm"
  shows "\<exists>sm'. close_connection r sm = Ok sm' \<and> sm_next sm sm' \<and> \<not> handshaking (state sm') \<and> state sm' \<noteq> ConnectionClose"
  using assms sm_next_state [OF assms(1), of "SendSessTerm r"]
  by (auto simp: close_connection_def assert_then_def is_established_def sm_inv_def)

lemma send_keepalive_next:
  assumes "sm_inv sm" "session_up sm" "\<not> handshaking (state sm)" "state sm \<noteq> ConnectionClose"
  shows "sm_next sm (send_keepalive sm)"
  using assms by (auto simp: send_keepalive_def sm_inv_def intro!: sm_next_state)

lemma on_tick_inv:
  assumes "sess_inv s" "get_interests (statemachine s) = Ok i"
  shows "\<exists>s'. on_tick now s = Ok s' \<and> sess_inv s'"
proof -
  let ?sm = "statemachine s"
  have smi: "sm_inv ?sm" using assms(1) by (simp add: sess_inv_def)
  have opn: "state ?sm \<noteq> ConnectionClose" using assms(2) by (auto simp: get_interests_def)
  have keep: "sess_inv (if initialized_keepalive s1 then s1\<lparr>statemachine := send_keepalive (statemachine s1)\<rparr> else s1)"
    if "sess_inv s1" "state (statemachine s1) \<noteq> ConnectionClose" for s1
    using that send_keepalive_next [of "statemachine s1"] by (auto simp: sess_inv_def sm_next_def)
  show ?thesis
  proof (cases "is_established ?sm")
    case True
    obtain n m k where k: "get_keepalive_interval ?sm = Ok k" using getters_defined [OF smi True] by blast
    obtain sm' where sm': "close_connection (Some IdleTimeout) ?sm = Ok sm'" "sm_next ?sm sm'" "state sm' \<noteq> ConnectionClose"
      using close_connection_next [OF smi True] by blast
    have "stream s \<noteq> None" using assms(1) by (simp add: sess_inv_def)
    then have "sess_inv (s\<lparr>statemachine := sm'\<rparr>)"
      by (intro sess_inv_next [OF assms(1) sm'(2)]) simp_all
    then have closed: "sess_inv (if initialized_keepalive s then s\<lparr>statemachine := send_keepalive sm'\<rparr>
        else s\<lparr>statemachine := sm'\<rparr>)"
      using keep [of "s\<lparr>statemachine := sm'\<rparr>"] sm'(3) by (cases "initialized_keepalive s") simp_all
    show ?thesis
    proof (cases "now - last_received_keepalive s > idle_limit k")
      case True
      with \<open>is_established ?sm\<close> k sm'(1) closed show ?thesis
        by (cases "initialized_keepalive s") (simp_all add: on_tick_def)
    next
      case False
      with \<open>is_established ?sm\<close> k keep [OF assms(1) opn] show ?thesis by (simp add: on_tick_def)
    qed
  next
    case False
    with keep [OF assms(1) opn] show ?thesis by (simp add: on_tick_def)
  qed
qed

lemma on_close_inv:
  assumes "sess_inv s" "is_established (statemachine s)"
  shows "\<exists>s'. on_close s = Ok s' \<and> sess_inv s'"
proof -
  have "sm_inv (statemachine s)" using assms(1) by (simp add: sess_inv_def)
  then obtain sm' where "close_connection (Some ResourceExhaustion) (statemachine s) = Ok sm'" "sm_next (statemachine s) sm'"
    using close_connection_next assms(2) by blast
  with assms(1) show ?thesis by (auto simp: on_close_def sess_inv_def sm_next_def)
qed


section \<open>An iteration\<close>

lemma select_inv:
  assumes inv: "sess_inv s" and en: "enabled ev s = Ok True" and ok: "event_ok ev s" and w: "\<And>m. w m \<noteq> Panic"
  shows "select w ev s = Panic \<longleftrightarrow> peer_fault ev s"
    and "select w ev s = Ok (Continue s') \<Longrightarrow> sess_inv s'"
proof -
  obtain r wr where i: "get_interests (statemachine s) = Ok (r, wr)"
    using en by (auto simp: enabled_def result_simps)
  have "(select w ev s = Panic \<longleftrightarrow> peer_fault ev s) \<and> (select w ev s = Ok (Continue s') \<longrightarrow> sess_inv s')" for s'
  proof (cases ev)
    case (Read now x)
    show ?thesis
    proof (cases x)
      case None
      with Read show ?thesis by (simp add: select_def peer_fault_def)
    next
      case (Some msg)
      with Read en i have rd: "get_interests (statemachine s) = Ok (True, wr)" by (simp add: enabled_def)
      have order: "in_order (statemachine s) msg" using ok Read Some by (simp add: event_ok_def)
      show ?thesis
        using Read Some read_message_inv [OF inv rd order, of now]
        by (auto simp: select_def peer_fault_def no_panic result_simps)
    qed
  next
    case Write
    with en i have "get_interests (statemachine s) = Ok (r, True)" by (simp add: enabled_def)
    from on_write_inv [where w = w, OF inv this w] Write show ?thesis
      by (auto simp: select_def peer_fault_def no_panic result_simps)
  next
    case (TransferRequest req)
    with en i have "could_send_transfer (statemachine s)" by (simp add: enabled_def)
    from on_transfer_inv [OF inv this] TransferRequest ok obtain s1 where "on_transfer req s = Ok s1" "sess_inv s1"
      by auto
    with TransferRequest show ?thesis by (auto simp: select_def peer_fault_def)
  next
    case (Tick now)
    obtain s1 where "on_tick now s = Ok s1" "sess_inv s1" using on_tick_inv [OF inv i] by blast
    with Tick show ?thesis by (auto simp: select_def peer_fault_def)
  next
    case CloseRequest
    with en i have "is_established (statemachine s)" by (simp add: enabled_def)
    from on_close_inv [OF inv this] obtain s1 where "on_close s = Ok s1" "sess_inv s1" by blast
    with CloseRequest show ?thesis by (auto simp: select_def peer_fault_def)
  qed
  then show "select w ev s = Panic \<longleftrightarrow> peer_fault ev s" "select w ev s = Ok (Continue s') \<Longrightarrow> sess_inv s'"
    by blast+
qed

lemma enabled_defined:
  assumes "sess_inv s" "\<not> should_close (statemachine s)"
  shows "\<exists>b. enabled ev s = Ok b"
  using assms
  by (cases "state (statemachine s)")
    (auto simp: enabled_def get_interests_def sess_inv_def sm_inv_def should_close_def)

lemma iterate_inv:
  assumes inv: "sess_inv s" and ok: "event_ok ev s" and tls: "\<And>b. tls b \<noteq> Panic" and w: "\<And>m. w m \<noteq> Panic"
  shows "iterate tls w ev s = Panic \<longleftrightarrow>
      (\<exists>s1. prepare tls s = Ok s1 \<and> \<not> should_close (statemachine s1) \<and> enabled ev s1 = Ok True \<and> peer_fault ev s1)"
    and "iterate tls w ev s = Ok (Some (Continue s')) \<Longrightarrow> sess_inv s'"
proof -
  note prep = prepare_inv [of s tls, OF inv tls]
  have "(iterate tls w ev s = Panic \<longleftrightarrow>
      (\<exists>s1. prepare tls s = Ok s1 \<and> \<not> should_close (statemachine s1) \<and> enabled ev s1 = Ok True \<and> peer_fault ev s1))
    \<and> (iterate tls w ev s = Ok (Some (Continue s')) \<longrightarrow> sess_inv s')" for s'
  proof (cases "prepare tls s")
    case (Ok s1)
    have s1: "sess_inv s1" "statemachine s1 = statemachine s" using prep(2) [OF Ok] by simp_all
    then obtain str where str: "stream s1 = Some str" by (auto simp: sess_inv_def)
    show ?thesis
    proof (cases "should_close (statemachine s1)")
      case True
      with Ok str show ?thesis by (simp add: iterate_def)
    next
      case False
      then obtain b where b: "enabled ev s1 = Ok b" using enabled_defined [OF s1(1)] by blast
      have ok1: "event_ok ev s1" using ok s1(2) by (simp add: event_ok_def split: event.splits option.splits)
      show ?thesis
        using Ok str False b select_inv [where w = w, OF s1(1) _ ok1 w]
        by (cases b) (auto simp: iterate_def no_panic result_simps)
    qed
  qed (use prep(1) in \<open>auto simp: iterate_def\<close>)
  then show "iterate tls w ev s = Panic \<longleftrightarrow>
      (\<exists>s1. prepare tls s = Ok s1 \<and> \<not> should_close (statemachine s1) \<and> enabled ev s1 = Ok True \<and> peer_fault ev s1)"
    and "iterate tls w ev s = Ok (Some (Continue s')) \<Longrightarrow> sess_inv s'"
    by blast+
qed

section \<open>Reachable sessions\<close>

inductive reachable ::
  "(bool \<Rightarrow> X509 option step) \<Rightarrow> (Messages \<Rightarrow> unit run) \<Rightarrow> TCPCLSession \<Rightarrow> TCPCLSession \<Rightarrow> bool"
  for tls w s0 where
  start: "reachable tls w s0 s0"
| iteration: "reachable tls w s0 s \<Longrightarrow> event_ok ev s \<Longrightarrow> iterate tls w ev s = Ok (Some (Continue s'))
    \<Longrightarrow> reachable tls w s0 s'"

lemma reachable_inv:
  assumes "reachable tls w s0 s" "sess_inv s0" "\<And>b. tls b \<noteq> Panic" "\<And>m. w m \<noteq> Panic"
  shows "sess_inv s"
  using assms by (induction rule: reachable.induct) (auto intro: iterate_inv(2))

end
