(* ===== verification/Tcpcl_Transfer.thy ===== *)
theory Tcpcl_Transfer
  imports Tcpcl_Safety
begin

text \<open>
  A transfer between two sessions. The sender cuts its data into segments of the size the peer
  announced, the receiver puts them together, acknowledges each of them and passes the complete
  transfer up. \<open>link_step\<close> interleaves the two sides and the two directions of the connection in
  any order. The invariant counts segments: \<open>p\<close> were written, \<open>r\<close> were read, \<open>q\<close> were acknowledged,
  and \<open>a\<close> acknowledgements have come back.
\<close>

section \<open>The segments of a transfer\<close>

definition segment_count :: "nat \<Rightarrow> bytes \<Rightarrow> nat" where
  "segment_count m d = (length d + m - 1) div m"

definition bound :: "nat \<Rightarrow> bytes \<Rightarrow> nat \<Rightarrow> nat" where
  "bound m d k = min (k * m) (length d)"

definition seg_flags :: "nat \<Rightarrow> bytes \<Rightarrow> nat \<Rightarrow> u8" where
  "seg_flags m d k = (if k = 0 then START else 0) OR (if Suc k = segment_count m d then END else 0)"

definition seg :: "u64 \<Rightarrow> nat \<Rightarrow> bytes \<Rightarrow> nat \<Rightarrow> XferSegment" where
  "seg i m d k = XferSegment_new (seg_flags m d k) i (take m (drop (k * m) d))"

definition seg_ack :: "u64 \<Rightarrow> nat \<Rightarrow> bytes \<Rightarrow> nat \<Rightarrow> XferAck" where
  "seg_ack i m d k = XferAck_new (seg_flags m d k) i (of_nat (bound m d (Suc k)))"

lemma less_segment_count: "0 < m \<Longrightarrow> k < segment_count m d \<longleftrightarrow> k * m < length d"
proof -
  assume m: "0 < m"
  have "k < segment_count m d \<longleftrightarrow> Suc k \<le> (length d + m - 1) div m"
    by (auto simp: segment_count_def)
  also have "\<dots> \<longleftrightarrow> Suc k * m \<le> length d + m - 1"
    using m by (simp add: less_eq_div_iff_mult_less_eq)
  also have "\<dots> \<longleftrightarrow> k * m < length d"
    using m by auto
  finally show ?thesis .
qed

lemma bound_0 [simp]: "bound m d 0 = 0"
  by (simp add: bound_def)

lemma bound_less: "0 < m \<Longrightarrow> k < segment_count m d \<Longrightarrow> bound m d k = k * m \<and> k * m < length d"
  by (simp add: less_segment_count bound_def)

lemma bound_full: "0 < m \<Longrightarrow> bound m d k = length d \<longleftrightarrow> segment_count m d \<le> k"
  using less_segment_count [of m k d] by (auto simp: bound_def min_def)

lemma bound_le [simp]: "bound m d k \<le> length d"
  by (simp add: bound_def)

lemma bound_Suc: "0 < m \<Longrightarrow> bound m d (Suc k) = min (bound m d k + m) (length d)"
  by (auto simp: bound_def)

lemma Suc_bound_full:
  "0 < m \<Longrightarrow> k < segment_count m d \<Longrightarrow> bound m d (Suc k) = length d \<longleftrightarrow> Suc k = segment_count m d"
  using bound_full [of m d "Suc k"] by auto

lemma segment_count_pos: "0 < m \<Longrightarrow> d \<noteq> [] \<Longrightarrow> 0 < segment_count m d"
  by (simp add: less_segment_count)

text \<open>The segments put together are the data, and each holds at most \<open>m\<close> bytes.\<close>

lemma take_bound_Suc:
  assumes "0 < m" "k < segment_count m d"
  shows "take (bound m d k) d @ take m (drop (k * m) d) = take (bound m d (Suc k)) d"
proof -
  have "take (bound m d (Suc k)) d = take (k * m + m) d"
    by (simp add: bound_def min_def add.commute)
  then show ?thesis
    using bound_less [OF assms] by (simp add: take_add)
qed

lemma seg_data_length:
  assumes "0 < m" "k < segment_count m d"
  shows "length (take m (drop (k * m) d)) = bound m d (Suc k) - bound m d k"
  using assms bound_less [OF assms] by (auto simp: bound_def min_def)

section \<open>The sender\<close>

text \<open>The tracker after \<open>p\<close> segments and \<open>a\<close> acknowledgements.\<close>

definition tracker :: "u64 \<Rightarrow> nat \<Rightarrow> bytes \<Rightarrow> nat \<Rightarrow> nat \<Rightarrow> TransferTracker" where
  "tracker i m d p a =
     \<lparr>transfer = \<lparr>transfer_id = i, transfer_data = d\<rparr>, pos = bound m d p, pos_acked = bound m d a\<rparr>"

lemma tracker_simps [simp]:
  "transfer (tracker i m d p a) = \<lparr>transfer_id = i, transfer_data = d\<rparr>"
  "pos (tracker i m d p a) = bound m d p" "pos_acked (tracker i m d p a) = bound m d a"
  "(tracker i m d p a)\<lparr>pos := bound m d p'\<rparr> = tracker i m d p' a"
  "(tracker i m d p a)\<lparr>pos_acked := bound m d a'\<rparr> = tracker i m d p a'"
  by (simp_all add: tracker_def)

lemma tracker_tracker_ok:
  assumes "0 < unat mru" "length d < 2 ^ 63" "p \<le> segment_count (unat mru) d" "a < segment_count (unat mru) d"
  shows "tracker_ok mru (tracker i (unat mru) d p a)"
proof -
  have "bound (unat mru) d a \<noteq> length d"
    using bound_full [OF assms(1), of d a] assms(4) by simp
  moreover have "p = 0 \<or> bound (unat mru) d p = length d \<or> unat mru \<le> bound (unat mru) d p"
    by (cases p) (auto simp: bound_def min_def)
  ultimately show ?thesis
    using assms(2) by (auto simp: tracker_ok_def Let_def)
qed

lemma send_segment:
  assumes m: "0 < unat mru" and d: "length d < 2 ^ 63"
    and p: "p < segment_count (unat mru) d" and a: "a < segment_count (unat mru) d" "a \<le> p"
    and st: "state sm = SendXferSegments (tracker i (unat mru) d p a)"
    and peer: "peer_sess_init sm = Some si" "segment_mru si = mru"
    and w: "\<And>x. w x = Ok ()"
  shows "send_message w sm =
    Ok (sm\<lparr>state := SendXferSegments (tracker i (unat mru) d (Suc p) a)\<rparr>, [XferSegment (seg i (unat mru) d p)])"
proof -
  let ?m = "unat mru" and ?tt = "tracker i (unat mru) d p a"
  note pb = bound_less [OF m p]
  have tt: "tracker_ok mru ?tt" using tracker_tracker_ok [OF m d _ a(1)] p by simp
  have lt: "pos ?tt < length (transfer_data (transfer ?tt))" using pb by simp
  have e: "segment_end mru ?tt = bound ?m d (Suc p)"
    using segment_end_bounds(1) [OF tt lt] m by (simp add: bound_Suc)
  have "segment_flags ?tt (segment_end mru ?tt) = seg_flags ?m d p"
    unfolding e using m pb by (simp add: segment_flags_def seg_flags_def Suc_bound_full p)
  moreover have "take (segment_end mru ?tt - pos ?tt) (drop (pos ?tt) d) = take ?m (drop (p * ?m) d)"
    unfolding e using pb seg_data_length [OF m p] by (simp add: bound_Suc [OF m] min_def)
  ultimately have "next_segment mru ?tt = Ok (seg i ?m d p)"
    using next_segment_ok [OF tt lt] by (simp add: seg_def)
  moreover have "bound ?m d a \<noteq> length d" using bound_full [OF m, of d a] a by simp
  ultimately show ?thesis
    using st peer w lt e
    by (auto simp: send_message_def send_and_complete_def send_complete_def)
qed


lemma bound_mono: "k \<le> l \<Longrightarrow> bound m d k \<le> bound m d l"
  unfolding bound_def by (rule min.mono [OF mult_le_mono1 order.refl])

lemma receive_segment_ack:
  assumes m: "0 < m" and d: "length d < 2 ^ 63"
    and p: "p \<le> segment_count m d" and a: "a < p"
    and st: "state sm = SendXferSegments (tracker i m d p a)"
  shows "decode_message sm (Inr (XferAck (seg_ack i m d a))) =
    Ok (sm\<lparr>state := if Suc a = segment_count m d then SessionEstablished
                   else SendXferSegments (tracker i m d p (Suc a))\<rparr>, Inr (XferAck (seg_ack i m d a)))"
proof -
  have "bound m d (Suc a) < 2 ^ 64"
    using le_less_trans [OF bound_le d, of m "Suc a"] by simp
  then have "unat (of_nat (bound m d (Suc a)) :: u64) = bound m d (Suc a)"
    by simp
  moreover have "bound m d (Suc a) \<le> bound m d p" using a by (simp add: bound_mono)
  moreover have "bound m d (Suc a) = length d \<longleftrightarrow> Suc a = segment_count m d"
    using Suc_bound_full [OF m] a p by simp
  ultimately show ?thesis
    using st by (simp add: decode_message_def decode_session_message_def receive_ack_def assert_then_def
        seg_ack_def XferAck_new_def)
qed

section \<open>The receiver\<close>

lemma seg_flags_END: "contains (seg_flags m d k) END \<longleftrightarrow> Suc k = segment_count m d"
  by (simp add: seg_flags_def contains_def flag_defs)

text \<open>The transfer of which \<open>r\<close> segments have been read.\<close>

definition receiving :: "u64 \<Rightarrow> nat \<Rightarrow> bytes \<Rightarrow> nat \<Rightarrow> Transfer option" where
  "receiving i m d r =
     (if r = 0 \<or> r = segment_count m d then None
      else Some \<lparr>transfer_id = i, transfer_data = take (bound m d r) d\<rparr>)"

lemma read_message_segment:
  assumes m: "0 < m" and r: "r < segment_count m d"
    and st: "state (statemachine s) = SessionEstablished" and rt: "receiving_transfer s = receiving i m d r"
  shows "read_message now (Inr (XferSegment (seg i m d r))) s =
    Ok (s\<lparr>receiving_transfer := receiving i m d (Suc r),
          receive_channel := (if Suc r = segment_count m d
            then receive_channel s @ [\<lparr>transfer_id = i, transfer_data = d\<rparr>] else receive_channel s),
          statemachine := (statemachine s)\<lparr>state := SendXferAck (seg_ack i m d r)\<rparr>\<rparr>)"
proof -
  let ?x = "seg i m d r" and ?t = "\<lparr>transfer_id = i, transfer_data = take (bound m d (Suc r)) d\<rparr>"
  have x: "xs_transfer_id ?x = i" "xs_data ?x = take m (drop (r * m) d)" "xs_flags ?x = seg_flags m d r"
    by (simp_all add: seg_def XferSegment_new_def)
  have last: "bound m d (Suc r) = length d \<longleftrightarrow> Suc r = segment_count m d"
    by (rule Suc_bound_full [OF m r])
  have ack: "to_xfer_ack ?x (of_nat (bound m d (Suc r))) = seg_ack i m d r"
    by (simp add: to_xfer_ack_def seg_ack_def x)
  have len: "length (take (bound m d (Suc r)) d) = bound m d (Suc r)" by simp
  have "receive_segment ?x s = finish_segment ?x ?t (to_xfer_ack ?x (of_nat (bound m d (Suc r)))) s"
  proof (cases "r = 0")
    case True
    then have data: "xs_data ?x = take (bound m d (Suc r)) d"
      using take_bound_Suc [OF m r] x(2) by simp
    have none: "receiving_transfer s = None" using True rt by (simp add: receiving_def)
    show ?thesis
      unfolding receive_segment_def none option.case x(1) data len by (rule refl)
  next
    case False
    then have t: "receiving_transfer s = Some \<lparr>transfer_id = i, transfer_data = take (bound m d r) d\<rparr>"
      using rt r by (simp add: receiving_def)
    have join: "take (bound m d r) d @ xs_data ?x = take (bound m d (Suc r)) d"
      using take_bound_Suc [OF m r] x by simp
    show ?thesis
      unfolding receive_segment_def t Let_def option.case using join len x by simp
  qed
  then have "receive_segment ?x s = finish_segment ?x ?t (seg_ack i m d r) s"
    by (simp only: ack)
  moreover have "read_message now (Inr (XferSegment ?x)) s = receive_segment ?x s"
    using st by (simp add: read_message_def decode_message_def decode_session_message_def transferring_def)
  ultimately show ?thesis
    using st last m r by (auto simp: finish_segment_def x seg_flags_END send_ack_def receiving_def)
qed

lemma write_segment_ack:
  assumes "state sm = SendXferAck a" "\<And>x. w x = Ok ()"
  shows "send_message w sm = Ok (sm\<lparr>state := SessionEstablished\<rparr>, [XferAck a])"
  using assms by (simp add: send_message_def send_and_complete_def send_complete_def)


section \<open>Two sessions and the connection between them\<close>

record link =
  l_sender :: StateMachine
  l_forward :: "XferSegment list"
  l_receiver :: TCPCLSession
  l_backward :: "XferAck list"

inductive link_step :: "(Messages \<Rightarrow> unit run) \<Rightarrow> link \<Rightarrow> link \<Rightarrow> bool" for w where
  write_segment:
    "get_interests (l_sender n) = Ok (rd, True) \<Longrightarrow> send_message w (l_sender n) = Ok (sm, [XferSegment x])
     \<Longrightarrow> link_step w n (n\<lparr>l_sender := sm, l_forward := l_forward n @ [x]\<rparr>)"
| read_segment:
    "get_interests (statemachine (l_receiver n)) = Ok (True, wr) \<Longrightarrow> l_forward n = x # xs
     \<Longrightarrow> read_message now (Inr (XferSegment x)) (l_receiver n) = Ok s
     \<Longrightarrow> link_step w n (n\<lparr>l_receiver := s, l_forward := xs\<rparr>)"
| write_ack:
    "get_interests (statemachine (l_receiver n)) = Ok (rd, True)
     \<Longrightarrow> send_message w (statemachine (l_receiver n)) = Ok (sm, [XferAck a])
     \<Longrightarrow> link_step w n (n\<lparr>l_receiver := (l_receiver n)\<lparr>statemachine := sm\<rparr>, l_backward := l_backward n @ [a]\<rparr>)"
| read_ack:
    "get_interests (l_sender n) = Ok (True, wr) \<Longrightarrow> l_backward n = a # as
     \<Longrightarrow> decode_message (l_sender n) (Inr (XferAck a)) = Ok (sm, Inr m)
     \<Longrightarrow> link_step w n (n\<lparr>l_sender := sm, l_backward := as\<rparr>)"

definition sender_at :: "u64 \<Rightarrow> u64 \<Rightarrow> bytes \<Rightarrow> nat \<Rightarrow> nat \<Rightarrow> StateMachine \<Rightarrow> bool" where
  "sender_at mru i d p a sm \<longleftrightarrow>
     state sm = (if a = segment_count (unat mru) d then SessionEstablished
                 else SendXferSegments (tracker i (unat mru) d p a))
     \<and> (\<exists>si. peer_sess_init sm = Some si \<and> segment_mru si = mru)"

definition receiver_at :: "nat \<Rightarrow> u64 \<Rightarrow> bytes \<Rightarrow> Transfer list \<Rightarrow> nat \<Rightarrow> nat \<Rightarrow> TCPCLSession \<Rightarrow> bool" where
  "receiver_at m i d before r q s \<longleftrightarrow>
     state (statemachine s) = (if q = r then SessionEstablished else SendXferAck (seg_ack i m d q))
     \<and> r \<le> Suc q \<and> receiving_transfer s = receiving i m d r
     \<and> receive_channel s = before @ (if r = segment_count m d then [\<lparr>transfer_id = i, transfer_data = d\<rparr>] else [])"

definition link_at :: "u64 \<Rightarrow> u64 \<Rightarrow> bytes \<Rightarrow> Transfer list \<Rightarrow> nat \<Rightarrow> nat \<Rightarrow> nat \<Rightarrow> nat \<Rightarrow> link \<Rightarrow> bool" where
  "link_at mru i d before p r q a n \<longleftrightarrow>
     a \<le> q \<and> q \<le> r \<and> r \<le> p \<and> p \<le> segment_count (unat mru) d
     \<and> sender_at mru i d p a (l_sender n) \<and> receiver_at (unat mru) i d before r q (l_receiver n)
     \<and> l_forward n = map (seg i (unat mru) d) [r..<p] \<and> l_backward n = map (seg_ack i (unat mru) d) [a..<q]"

lemma upt_head: "map f [i..<j] = x # xs \<Longrightarrow> i < j \<and> x = f i \<and> xs = map f [Suc i..<j]"
  by (cases "i < j") (auto simp: upt_conv_Cons)

text \<open>A step moves exactly one of the four counters.\<close>

lemma link_step_at:
  assumes step: "link_step w n n'" and at: "link_at mru i d before p r q a n"
    and m: "0 < unat mru" and d: "length d < 2 ^ 63" and w: "\<And>x. w x = Ok ()"
  shows "\<exists>p' r' q' a'. link_at mru i d before p' r' q' a' n' \<and> p' + r' + q' + a' = Suc (p + r + q + a)"
  using step
proof cases
  case (write_segment rd sm x)
  have a: "a < segment_count (unat mru) d"
    using at write_segment(2) by (auto simp: link_at_def sender_at_def get_interests_def split: if_splits)
  then have st: "state (l_sender n) = SendXferSegments (tracker i (unat mru) d p a)"
    using at by (auto simp: link_at_def sender_at_def)
  have p: "p < segment_count (unat mru) d"
    using write_segment(2) st bound_full [OF m, of d p] by (auto simp: get_interests_def split: if_splits)
  obtain si where si: "peer_sess_init (l_sender n) = Some si" "segment_mru si = mru"
    using at by (auto simp: link_at_def sender_at_def)
  have "a \<le> p" using at by (simp add: link_at_def)
  from send_segment [OF m d p a this st si, where w = w, OF w] write_segment(3)
  have sm: "sm = (l_sender n)\<lparr>state := SendXferSegments (tracker i (unat mru) d (Suc p) a)\<rparr>" "x = seg i (unat mru) d p"
    by auto
  have "link_at mru i d before (Suc p) r q a n'"
    using at p a unfolding write_segment(1) sm by (auto simp: link_at_def sender_at_def)
  then show ?thesis by (intro exI [of _ "Suc p"] exI [of _ r] exI [of _ q] exI [of _ a]) simp
next
  case (read_segment wr x xs now s)
  have rx: "r < p" "x = seg i (unat mru) d r" "xs = map (seg i (unat mru) d) [Suc r..<p]"
    using upt_head [of "seg i (unat mru) d" r p x xs] at read_segment(3) by (auto simp: link_at_def)
  then have r: "r < segment_count (unat mru) d" using at by (simp add: link_at_def)
  have st: "q = r" "state (statemachine (l_receiver n)) = SessionEstablished"
    using at read_segment(2) by (auto simp: link_at_def receiver_at_def get_interests_def split: if_splits)
  have rt: "receiving_transfer (l_receiver n) = receiving i (unat mru) d r"
    using at by (simp add: link_at_def receiver_at_def)
  have "link_at mru i d before p (Suc r) q a n'"
    using at rx r st read_segment(4) read_message_segment [OF m r st(2) rt, of now]
    unfolding read_segment(1) by (auto simp: link_at_def receiver_at_def)
  then show ?thesis by (intro exI [of _ p] exI [of _ "Suc r"] exI [of _ q] exI [of _ a]) simp
next
  case (write_ack rd sm x)
  have st: "r = Suc q" "state (statemachine (l_receiver n)) = SendXferAck (seg_ack i (unat mru) d q)"
    using at write_ack(2) by (auto simp: link_at_def receiver_at_def get_interests_def split: if_splits)
  have sm: "sm = (statemachine (l_receiver n))\<lparr>state := SessionEstablished\<rparr>" "x = seg_ack i (unat mru) d q"
    using write_segment_ack [where w = w, OF st(2) w] write_ack(3) by auto
  have "link_at mru i d before p r (Suc q) a n'"
    using at st unfolding write_ack(1) sm by (auto simp: link_at_def receiver_at_def)
  then show ?thesis by (intro exI [of _ p] exI [of _ r] exI [of _ "Suc q"] exI [of _ a]) simp
next
  case (read_ack wr x as sm m')
  have ax: "a < q" "x = seg_ack i (unat mru) d a" "as = map (seg_ack i (unat mru) d) [Suc a..<q]"
    using upt_head [of "seg_ack i (unat mru) d" a q x as] at read_ack(3) by (auto simp: link_at_def)
  then have a: "a < p" "p \<le> segment_count (unat mru) d" using at by (auto simp: link_at_def)
  then have st: "state (l_sender n) = SendXferSegments (tracker i (unat mru) d p a)"
    using at by (auto simp: link_at_def sender_at_def)
  have "link_at mru i d before p r q (Suc a) n'"
    using at ax a read_ack(4) receive_segment_ack [OF m d a(2,1) st]
    unfolding read_ack(1) by (auto simp: link_at_def sender_at_def)
  then show ?thesis by (intro exI [of _ p] exI [of _ r] exI [of _ q] exI [of _ "Suc a"]) simp
qed


lemma link_progress:
  assumes at: "link_at mru i d before p r q a n"
    and m: "0 < unat mru" and d: "length d < 2 ^ 63" and w: "\<And>x. w x = Ok ()"
    and more: "a < segment_count (unat mru) d"
  shows "\<exists>n'. link_step w n n'"
proof -
  let ?N = "segment_count (unat mru) d"
  have le: "a \<le> q" "q \<le> r" "r \<le> p" "p \<le> ?N" "r \<le> Suc q"
    using at by (auto simp: link_at_def receiver_at_def)
  have st: "state (l_sender n) = SendXferSegments (tracker i (unat mru) d p a)"
    using at more by (auto simp: link_at_def sender_at_def)
  consider (wseg) "p < ?N" | (read) "p = ?N" "r < p" "q = r" | (ack) "r = Suc q" | (rack) "a < q"
    using le more by linarith
  then show ?thesis
  proof cases
    case wseg
    obtain si where si: "peer_sess_init (l_sender n) = Some si" "segment_mru si = mru"
      using at by (auto simp: link_at_def sender_at_def)
    have "get_interests (l_sender n) = Ok (True, True)"
      using st bound_less [OF m wseg] by (simp add: get_interests_def)
    with send_segment [OF m d wseg more _ st si, where w = w, OF _ w] le show ?thesis
      by (auto intro: link_step.write_segment)
  next
    case read
    have "l_forward n = seg i (unat mru) d r # map (seg i (unat mru) d) [Suc r..<p]"
      using at read by (simp add: link_at_def upt_conv_Cons)
    moreover have rcv: "state (statemachine (l_receiver n)) = SessionEstablished"
      "receiving_transfer (l_receiver n) = receiving i (unat mru) d r"
      using at read by (auto simp: link_at_def receiver_at_def)
    moreover have "get_interests (statemachine (l_receiver n)) = Ok (True, False)"
      using rcv by (simp add: get_interests_def)
    ultimately show ?thesis
      using read_message_segment [OF m _ rcv] read by (auto intro: link_step.read_segment)
  next
    case ack
    then have st: "state (statemachine (l_receiver n)) = SendXferAck (seg_ack i (unat mru) d q)"
      using at by (simp add: link_at_def receiver_at_def)
    then have "get_interests (statemachine (l_receiver n)) = Ok (False, True)"
      by (simp add: get_interests_def)
    from link_step.write_ack [OF this write_segment_ack [where w = w, OF st w]] show ?thesis by blast
  next
    case rack
    have "l_backward n = seg_ack i (unat mru) d a # map (seg_ack i (unat mru) d) [Suc a..<q]"
      using at rack by (simp add: link_at_def upt_conv_Cons)
    moreover obtain wr where "get_interests (l_sender n) = Ok (True, wr)"
      using st by (cases "bound (unat mru) d p < length d") (simp_all add: get_interests_def)
    ultimately show ?thesis
      using receive_segment_ack [OF m d le(4) _ st] rack le by (auto intro: link_step.read_ack)
  qed
qed

lemma link_run:
  assumes "(link_step w ^^ k) n0 n" "link_at mru i d before 0 0 0 0 n0"
    and "0 < unat mru" "length d < 2 ^ 63" "\<And>x. w x = Ok ()"
  shows "\<exists>p r q a. link_at mru i d before p r q a n \<and> p + r + q + a = k"
  using assms(1)
proof (induction k arbitrary: n)
  case 0
  with assms(2) show ?case by auto
next
  case (Suc k)
  then obtain n1 where n1: "(link_step w ^^ k) n0 n1" "link_step w n1 n" by auto
  from Suc.IH [OF n1(1)] obtain p r q a where "link_at mru i d before p r q a n1" "p + r + q + a = k"
    by blast
  with link_step_at [OF n1(2) _ assms(3-5)] show ?case by metis
qed

text \<open>A run can go on until everything is acknowledged, and then the transfer was passed up.\<close>

lemma link_continues:
  assumes "link_at mru i d before 0 0 0 0 n0" "0 < unat mru" "length d < 2 ^ 63" "\<And>x. w x = Ok ()"
    and "k \<le> 4 * segment_count (unat mru) d"
  shows "\<exists>n. (link_step w ^^ k) n0 n"
  using assms(5)
proof (induction k)
  case (Suc k)
  then obtain n where n: "(link_step w ^^ k) n0 n"
    by auto
  from link_run [where w = w, OF n assms(1-4)] obtain p r q a where at: "link_at mru i d before p r q a n" "p + r + q + a = k"
    by blast
  then have "a < segment_count (unat mru) d"
    using Suc.prems by (auto simp: link_at_def)
  from link_progress [where w = w, OF at(1) assms(2-4) this] n show ?case
    by auto
qed auto

lemma link_complete:
  assumes "link_at mru i d before 0 0 0 0 n0" "0 < unat mru" "length d < 2 ^ 63" "\<And>x. w x = Ok ()"
    and "(link_step w ^^ (4 * segment_count (unat mru) d)) n0 n"
  shows "could_send_transfer (l_sender n)"
    and "receive_channel (l_receiver n) = before @ [\<lparr>transfer_id = i, transfer_data = d\<rparr>]"
proof -
  let ?N = "segment_count (unat mru) d"
  from link_run [where w = w, OF assms(5,1-4)] obtain p r q a where at: "link_at mru i d before p r q a n" "p + r + q + a = 4 * ?N"
    by blast
  then have "a = ?N" "r = ?N"
    by (auto simp: link_at_def)
  with at show "could_send_transfer (l_sender n)"
    "receive_channel (l_receiver n) = before @ [\<lparr>transfer_id = i, transfer_data = d\<rparr>]"
    by (auto simp: link_at_def sender_at_def receiver_at_def could_send_transfer_def)
qed

text \<open>The start of a transfer: the sender's machine has just accepted the data.\<close>

lemma link_start:
  assumes "could_send_transfer sm" "send_transfer d sm = Ok (sm', Inr ())" "peer_sess_init sm = Some si"
    "is_established (statemachine s)" "receiving_transfer s = None" "0 < unat (segment_mru si)" "d \<noteq> []"
  shows "link_at (segment_mru si) (last_used_transfer_id sm) d (receive_channel s) 0 0 0 0
    \<lparr>l_sender = sm', l_forward = [], l_receiver = s, l_backward = []\<rparr>"
  using assms segment_count_pos [OF assms(6,7)]
  by (auto simp: link_at_def sender_at_def receiver_at_def receiving_def send_transfer_def Let_def tracker_def
      could_send_transfer_def is_established_def split: if_splits)

end
