(* ===== verification/Tcpcl_Stability.thy ===== *)
theory Tcpcl_Stability
  imports Tcpcl_Codec
begin

text \<open>
  More bytes never change an answer a decoder has given. The locale \<open>stable_decoder\<close> states it, and
  every message decoder of \<open>tcpcl/src/v4/messages\<close> is an interpretation: a decoder that waits
  leaves its buffer alone, and one that has read a message or failed would do the same with more
  bytes behind its input. The exception is a panic, which more bytes may avoid.
\<close>

section \<open>Decoders and more input\<close>

text \<open>Reading with more bytes behind: the same value, and the additional bytes stay.\<close>

definition more :: "bytes \<Rightarrow> ('a \<times> bytes, 'e) result \<Rightarrow> ('a \<times> bytes, 'e) result" where
  "more q r = map_ok (\<lambda>(a, s). (a, s @ q)) r"

lemma more_simps [simp]:
  "more q (Ok (a, s)) = Ok (a, s @ q)" "more q (Err e) = Err e" "more q Panic = Panic"
  by (simp_all add: more_def)

locale stable_decoder =
  fixes dec :: "bytes \<Rightarrow> 'm decoded"
  assumes stable: "dec p \<noteq> Panic \<Longrightarrow> dec p \<noteq> Ok (None, p) \<Longrightarrow>
    dec (p @ q) = more q (dec p) \<and> (\<forall>r. dec p \<noteq> Ok (None, r))"
begin

lemma map_stable: "stable_decoder (\<lambda>p. map_decoded f (dec p))"
proof
  fix p q
  assume "map_decoded f (dec p) \<noteq> Panic" "map_decoded f (dec p) \<noteq> Ok (None, p)"
  then have "dec p \<noteq> Panic" "dec p \<noteq> Ok (None, p)"
    by (auto simp: map_decoded_def)
  then show "map_decoded f (dec (p @ q)) = more q (map_decoded f (dec p))
      \<and> (\<forall>r. map_decoded f (dec p) \<noteq> Ok (None, r))"
    using stable [of p q] by (cases "dec p") (auto simp: map_decoded_def)
qed

end

text \<open>
  A reader that finds at least \<open>n\<close> bytes gives the same answer when more bytes are behind them. The
  rules follow the structure of a decoder; each read lowers the number of bytes that are known
  to be left.
\<close>

definition extends :: "nat \<Rightarrow> (bytes \<Rightarrow> ('a \<times> bytes, 'e) result) \<Rightarrow> bool" where
  "extends n f \<longleftrightarrow> (\<forall>p q. n \<le> length p \<longrightarrow> f p \<noteq> Panic \<longrightarrow> f (p @ q) = more q (f p))"

named_theorems extends_intros \<open>readers that ignore what is behind their input\<close>

lemma extendsI: "(\<And>p q. n \<le> length p \<Longrightarrow> f p \<noteq> Panic \<Longrightarrow> f (p @ q) = more q (f p)) \<Longrightarrow> extends n f"
  by (simp add: extends_def)

lemma extendsD: "extends n f \<Longrightarrow> n \<le> length p \<Longrightarrow> f p \<noteq> Panic \<Longrightarrow> f (p @ q) = more q (f p)"
  by (simp add: extends_def)

lemma index_range_more:
  "(index_range a b p :: (bytes, 'e) result) \<noteq> Panic
    \<Longrightarrow> index_range a b (p @ q) = (index_range a b p :: (bytes, 'e) result)"
  by (auto simp: index_range_def split: if_splits)

lemma extends_mono: "extends m f \<Longrightarrow> m \<le> n \<Longrightarrow> extends n f"
  by (auto simp: extends_def)

lemma extends_and_then:
  assumes f: "extends 0 f" "\<And>p a r. f p = Ok (a, r) \<Longrightarrow> length p = k + length r"
    and g: "\<And>a. extends (n - k) (\<lambda>s. g (a, s))"
  shows "extends n (\<lambda>s. and_then (f s) g)"
proof (rule extendsI)
  fix p q
  assume n: "n \<le> length p" and ok: "and_then (f p) g \<noteq> Panic"
  then have fp: "f (p @ q) = more q (f p)"
    using extendsD [OF f(1), of p q] by (cases "f p") auto
  show "and_then (f (p @ q)) g = more q (and_then (f p) g)"
  proof (cases "f p")
    case (Ok v)
    obtain a r where "v = (a, r)" by (cases v)
    with Ok f(2) n have "n - k \<le> length r" by fastforce
    with Ok ok \<open>v = (a, r)\<close> fp show ?thesis
      using extendsD [OF g [of a], of r q] by simp
  qed (use fp in simp_all)
qed

lemma get_u8_more: "get_u8 p \<noteq> Panic \<Longrightarrow> get_u8 (p @ q) = more q (get_u8 p)"
  by (cases p) simp_all

lemma extends_read:
  "extends 0 get_u8" "extends 0 get_u16" "extends 0 get_u32" "extends 0 get_u64" "extends 0 (split_to k)"
  by (rule extendsI; simp add: get_u8_more)
    (rule extendsI; simp add: more_def get_u16_def get_u32_def get_u64_def get_be_def split_to_def split: if_splits)+

lemma extends_then [extends_intros]:
  "(\<And>a. extends (n - 1) (\<lambda>s. g (a, s))) \<Longrightarrow> extends n (\<lambda>s. and_then (get_u8 s) g)"
  "(\<And>a. extends (n - 2) (\<lambda>s. h (a, s))) \<Longrightarrow> extends n (\<lambda>s. and_then (get_u16 s) h)"
  "(\<And>a. extends (n - 4) (\<lambda>s. i (a, s))) \<Longrightarrow> extends n (\<lambda>s. and_then (get_u32 s) i)"
  "(\<And>a. extends (n - 8) (\<lambda>s. j (a, s))) \<Longrightarrow> extends n (\<lambda>s. and_then (get_u64 s) j)"
  "(\<And>a. extends (n - k) (\<lambda>s. l (a, s))) \<Longrightarrow> extends n (\<lambda>s. and_then (split_to k s) l)"
  by (rule extends_and_then, rule extends_read, simp add: read_length, simp)+

lemma extends_advance [extends_intros]:
  assumes "extends (n - k) g"
  shows "extends n (\<lambda>s. and_then (advance k s) g)"
  using assms by (auto simp: extends_def advance_def)

lemma extends_base [extends_intros]:
  "extends n (\<lambda>s. Ok (a, s))" "extends n (\<lambda>s. Err e)"
  by (simp_all add: extends_def)

lemma extends_if [extends_intros]:
  "(b \<Longrightarrow> extends n f) \<Longrightarrow> (\<not> b \<Longrightarrow> extends n g) \<Longrightarrow> extends n (\<lambda>s. if b then f s else g s)"
  by (cases b) simp_all

lemma extends_take [extends_intros]:
  "extends n (\<lambda>s. assert_then (k \<le> length s) (Ok (f (take k s), drop k s)))"
  by (auto simp: extends_def assert_then_def)

text \<open>A decoder that waits for a fixed number of bytes and then reads.\<close>

lemma stable_decoderI:
  assumes "\<And>p. dec p = (if length p < k then Ok (None, p) else body p)" "extends k body"
    and "\<And>p r. body p \<noteq> Ok (None, r)"
  shows "stable_decoder dec"
  by unfold_locales (use assms in \<open>auto simp: extends_def split: if_splits\<close>)

interpretation contact_header_stable: stable_decoder ContactHeader_decode
  by (rule stable_decoderI [OF ContactHeader_decode_def])
    (auto simp: result_simps intro!: extends_intros split: if_splits)

interpretation keepalive_stable: stable_decoder Keepalive_decode
  by unfold_locales (simp add: Keepalive_decode_def)

interpretation msg_reject_stable: stable_decoder MsgReject_decode
  by (rule stable_decoderI [OF MsgReject_decode_def]) (auto simp: result_simps intro!: extends_intros)

interpretation sess_term_stable: stable_decoder SessTerm_decode
  by (rule stable_decoderI [OF SessTerm_decode_def]) (auto simp: result_simps intro!: extends_intros)

interpretation xfer_ack_stable: stable_decoder XferAck_decode
  by (rule stable_decoderI [OF XferAck_decode_def]) (auto simp: result_simps intro!: extends_intros)

interpretation xfer_refuse_stable: stable_decoder XferRefuse_decode
  by (rule stable_decoderI [OF XferRefuse_decode_def]) (auto simp: result_simps intro!: extends_intros)


subsection \<open>Session initialisation\<close>

lemma SessionExtension_extends: "extends n SessionExtension_decode"
  unfolding SessionExtension_decode_def by (auto intro!: extends_intros)

lemma session_extensions_loop_more:
  "session_extensions_loop t p \<noteq> Panic \<Longrightarrow>
    session_extensions_loop (t + length q) (p @ q) = more q (session_extensions_loop t p)"
proof (induction t p rule: session_extensions_loop.induct)
  case (1 t p)
  show ?case
  proof (cases "t < length p")
    case True
    with "1.prems" have np: "SessionExtension_decode p \<noteq> Panic"
      by (auto simp: session_extensions_loop.simps [of t p])
    then have dp: "SessionExtension_decode (p @ q) = more q (SessionExtension_decode p)"
      using extendsD [OF SessionExtension_extends [of 0]] by simp
    show ?thesis
    proof (cases "SessionExtension_decode p")
      case (Ok v)
      obtain se r where v: "v = (se, r)" by (cases v)
      show ?thesis
        using True Ok v dp "1.prems" "1.IH" [OF True Ok v [symmetric]]
        by (cases "contains (se_flags se) CRITICAL"; cases "session_extensions_loop t r")
          (auto simp: session_extensions_loop.simps [of t p] session_extensions_loop.simps [of _ "p @ q"])
    qed (use True dp np in \<open>auto simp: session_extensions_loop.simps [of t p] session_extensions_loop.simps [of _ "p @ q"]\<close>)
  qed (simp add: session_extensions_loop.simps)
qed

lemma session_extensions_extends [extends_intros]:
  assumes "x \<le> n" "\<And>ses. extends 0 (\<lambda>s. g (ses, s))"
  shows "extends n (\<lambda>s. and_then (session_extensions_loop (length s - x) s) g)"
proof (rule extendsI)
  fix p q
  assume n: "n \<le> length p" and ok: "and_then (session_extensions_loop (length p - x) p) g \<noteq> Panic"
  have "length (p @ q) - x = length p - x + length q" using n assms(1) by simp
  with ok have "session_extensions_loop (length (p @ q) - x) (p @ q)
      = more q (session_extensions_loop (length p - x) p)"
    using session_extensions_loop_more [of "length p - x" p q]
    by (cases "session_extensions_loop (length p - x) p") auto
  then show "and_then (session_extensions_loop (length (p @ q) - x) (p @ q)) g
      = more q (and_then (session_extensions_loop (length p - x) p) g)"
    using ok extendsD [OF assms(2)]
    by (cases "session_extensions_loop (length p - x) p") auto
qed

text \<open>The part of \<open>SessInit::decode\<close> that runs once the whole frame is there.\<close>

definition SessInit_read :: "nat \<Rightarrow> nat \<Rightarrow> bytes \<Rightarrow> SessInit decoded" where
  "SessInit_read n x src =
     and_then (get_u16 src) (\<lambda>(k, src).
     and_then (get_u64 src) (\<lambda>(sm, src).
     and_then (get_u64 src) (\<lambda>(tm, src).
     and_then (advance 2 src) (\<lambda>src.
     and_then (split_to n src) (\<lambda>(nv, src).
     if \<not> utf8_valid nv then Err NodeIdInvalid
     else and_then (advance 4 src) (\<lambda>src.
          and_then (session_extensions_loop (length src - x) src) (\<lambda>(ses, src).
            Ok (Some \<lparr>keepalive_interval = k, segment_mru = sm, transfer_mru = tm,
                      node_id = from_bytes nv, session_extensions = ses\<rparr>, src))))))))"

lemma SessInit_read_extends: "extends (24 + n + x) (SessInit_read n x)"
  unfolding SessInit_read_def by (auto intro!: extends_intros)

lemma SessInit_read_not_None: "SessInit_read n x p \<noteq> Ok (None, r)"
  by (auto simp: SessInit_read_def result_simps split: if_splits)

interpretation sess_init_stable: stable_decoder SessInit_decode
proof
  fix p q
  assume np: "SessInit_decode p \<noteq> Panic" and full: "SessInit_decode p \<noteq> Ok (None, p)"
  let ?n = "be_nat (take 2 (drop 18 p))"
  let ?x = "be_nat (take 4 (drop (20 + ?n) p))"
  have dec: "SessInit_decode p' = (if length p' < 24 then Ok (None, p')
     else if length p' < 24 + be_nat (take 2 (drop 18 p')) then Panic
     else let n = be_nat (take 2 (drop 18 p')); x = be_nat (take 4 (drop (20 + n) p')) in
       if length p' < 24 + n + x then Ok (None, p') else SessInit_read n x p')" for p'
    by (auto simp: SessInit_decode_def SessInit_read_def index_range_def Let_def)
  have size: "24 + ?n + ?x \<le> length p"
    using np full by (auto simp: dec Let_def split: if_splits)
  then have p: "SessInit_decode p = SessInit_read ?n ?x p"
    by (simp add: dec Let_def)
  moreover have "SessInit_decode (p @ q) = SessInit_read ?n ?x (p @ q)"
    using size by (simp add: dec Let_def)
  ultimately show "SessInit_decode (p @ q) = more q (SessInit_decode p)
      \<and> (\<forall>r. SessInit_decode p \<noteq> Ok (None, r))"
    using extendsD [OF SessInit_read_extends size] np SessInit_read_not_None by simp
qed


subsection \<open>Transfer segments\<close>

lemma TransferExtension_extends: "extends n TransferExtension_decode"
  unfolding TransferExtension_decode_def
  by (auto intro!: extends_intros extends_take [where f = "\<lambda>v. \<lparr>te_flags = _, te_extension_type = _, te_value = replicate _ 0 @ v\<rparr>"])

lemma transfer_extensions_loop_more:
  "transfer_extensions_loop t p \<noteq> Panic \<Longrightarrow>
    transfer_extensions_loop (t + length q) (p @ q) = more q (transfer_extensions_loop t p)"
proof (induction t p rule: transfer_extensions_loop.induct)
  case (1 t p)
  show ?case
  proof (cases "t < length p")
    case True
    with "1.prems" have np: "TransferExtension_decode p \<noteq> Panic"
      by (auto simp: transfer_extensions_loop.simps [of t p])
    then have dp: "TransferExtension_decode (p @ q) = more q (TransferExtension_decode p)"
      using extendsD [OF TransferExtension_extends [of 0]] by simp
    show ?thesis
    proof (cases "TransferExtension_decode p")
      case (Ok v)
      obtain se r where v: "v = (se, r)" by (cases v)
      show ?thesis
        using True Ok v dp "1.prems" "1.IH" [OF True Ok v [symmetric]]
        by (cases "contains (te_flags se) CRITICAL"; cases "transfer_extensions_loop t r")
          (auto simp: transfer_extensions_loop.simps [of t p] transfer_extensions_loop.simps [of _ "p @ q"])
    qed (use True dp np in \<open>auto simp: transfer_extensions_loop.simps [of t p] transfer_extensions_loop.simps [of _ "p @ q"]\<close>)
  qed (simp add: transfer_extensions_loop.simps)
qed

lemma segment_extensions_extends: "extends 0 (segment_extensions f)"
proof (cases "contains f START")
  case True
  have "extends 0 (\<lambda>s. assert_then (unat x \<le> length s) (transfer_extensions_loop (length s - unat x) s))" for x :: u32
  proof (rule extendsI)
    fix p q
    assume ok: "assert_then (unat x \<le> length p) (transfer_extensions_loop (length p - unat x) p) \<noteq> Panic"
    then have "unat x \<le> length p" and "length (p @ q) - unat x = length p - unat x + length q"
      by (auto simp: assert_then_def split: if_splits)
    with ok show "assert_then (unat x \<le> length (p @ q))
        (transfer_extensions_loop (length (p @ q) - unat x) (p @ q))
      = more q (assert_then (unat x \<le> length p) (transfer_extensions_loop (length p - unat x) p))"
      using transfer_extensions_loop_more [of "length p - unat x" p q]
      by (simp only: assert_then_def) simp
  qed
  then have "extends 0 (\<lambda>s. and_then (get_u32 s) (\<lambda>(x, s).
      assert_then (unat x \<le> length s) (transfer_extensions_loop (length s - unat x) s)))"
    by (auto intro!: extends_intros)
  with True show ?thesis
    by (auto simp: extends_def segment_extensions_def assert_then_def split: if_splits)
next
  case False
  then show ?thesis by (simp add: extends_def segment_extensions_def)
qed

text \<open>The part of \<open>XferSegment::decode\<close> that runs once the whole frame is there.\<close>

definition XferSegment_read :: "u8 \<Rightarrow> nat \<Rightarrow> bytes \<Rightarrow> XferSegment decoded" where
  "XferSegment_read f n src =
     and_then (advance 1 src) (\<lambda>src.
     and_then (get_u64 src) (\<lambda>(i, src).
     and_then (segment_extensions f src) (\<lambda>(tes, src).
     and_then (advance 8 src) (\<lambda>src.
     assert_then (length src \<ge> n)
       (Ok (Some \<lparr>xs_flags = f, xs_transfer_id = i, transfer_extensions = tes,
                  xs_data = take n src\<rparr>, drop n src))))))"

lemma XferSegment_read_extends: "extends 0 (XferSegment_read f n)"
proof -
  have rest: "extends 0 (\<lambda>s. and_then (advance 8 s) (\<lambda>src. assert_then (length src \<ge> n)
       (Ok (Some \<lparr>xs_flags = f, xs_transfer_id = i, transfer_extensions = tes,
                  xs_data = take n src\<rparr>, drop n src))))" for i tes
    by (intro extends_advance extends_take)
  have "extends 0 (\<lambda>s. and_then (segment_extensions f s) (\<lambda>(tes, src).
     and_then (advance 8 src) (\<lambda>src. assert_then (length src \<ge> n)
       (Ok (Some \<lparr>xs_flags = f, xs_transfer_id = i, transfer_extensions = tes,
                  xs_data = take n src\<rparr>, drop n src)))))" (is "extends 0 (\<lambda>s. and_then (segment_extensions f s) ?g)") for i
  proof (rule extendsI)
    fix p q
    assume ok: "and_then (segment_extensions f p) ?g \<noteq> Panic"
    then have "segment_extensions f (p @ q) = more q (segment_extensions f p)"
      using extendsD [OF segment_extensions_extends, of p] by (cases "segment_extensions f p") auto
    then show "and_then (segment_extensions f (p @ q)) ?g = more q (and_then (segment_extensions f p) ?g)"
      using ok extendsD [OF rest] by (cases "segment_extensions f p") auto
  qed
  then show ?thesis
    unfolding XferSegment_read_def by (auto intro!: extends_intros)
qed

lemma XferSegment_read_not_None: "XferSegment_read f n p \<noteq> Ok (None, r)"
  by (auto simp: XferSegment_read_def result_simps split: if_splits)

lemma segment_min_size_not_Err: "segment_min_size f p \<noteq> Err e"
  by (simp add: segment_min_size_def index_range_def Let_def)

interpretation xfer_segment_stable: stable_decoder XferSegment_decode
proof
  fix p q
  assume np: "XferSegment_decode p \<noteq> Panic" and full: "XferSegment_decode p \<noteq> Ok (None, p)"
  define f where "f = hd p AND (END OR START)"
  have dec: "XferSegment_decode p' = (if length p' < 10 then Ok (None, p')
     else and_then (segment_min_size (hd p' AND (END OR START)) p') (\<lambda>ms. case ms of None \<Rightarrow> Ok (None, p')
       | Some m \<Rightarrow> and_then (index_range (m - 8) m p') (\<lambda>dl.
          if be_nat dl > MAX_SEGMENT_MRU then Err SegmentTooLong
          else if length p' < m + be_nat dl then Ok (None, p')
          else XferSegment_read (hd p' AND (END OR START)) (be_nat dl) p')))" for p'
    unfolding XferSegment_decode_def XferSegment_read_def Let_def by (rule refl)
  have "10 \<le> length p"
    using full by (auto simp: dec split: if_splits)
  then have ten: "10 \<le> length p" "hd (p @ q) = hd p"
    by (cases p; simp)+
  from np full ten obtain m where m: "segment_min_size f p = Ok (Some m)"
    by (cases "segment_min_size f p") (auto simp: dec f_def segment_min_size_not_Err split: option.splits)
  moreover from m have "segment_min_size f (p @ q) = Ok (Some m)"
    by (auto simp: segment_min_size_def index_range_def Let_def split: if_splits)
  moreover obtain dl where dl: "index_range (m - 8) m p = (Ok dl :: (bytes, Errors) result)"
    using np m ten by (cases "index_range (m - 8) m p :: (bytes, Errors) result") (auto simp: dec f_def index_range_def split: if_splits)
  moreover from dl have "index_range (m - 8) m (p @ q) = (Ok dl :: (bytes, Errors) result)"
    by (simp add: index_range_more)
  ultimately show "XferSegment_decode (p @ q) = more q (XferSegment_decode p)
      \<and> (\<forall>r. XferSegment_decode p \<noteq> Ok (None, r))"
    using np full ten extendsD [OF XferSegment_read_extends, where p = p and q = q] XferSegment_read_not_None
    by (auto simp: dec f_def [symmetric] split: if_splits)
qed


section \<open>The codec\<close>

lemma stable_decoder_eq: "stable_decoder g \<Longrightarrow> (\<And>p. f p = g p) \<Longrightarrow> stable_decoder f"
  by (simp add: stable_decoder_def)

lemma decode_body_stable: "stable_decoder (decode_body mt)"
proof (cases mt)
  case MT_SessInit
  show ?thesis by (rule stable_decoder_eq [OF sess_init_stable.map_stable]) (simp add: MT_SessInit)
next
  case MT_SessTerm
  show ?thesis by (rule stable_decoder_eq [OF sess_term_stable.map_stable]) (simp add: MT_SessTerm)
next
  case MT_XferSegment
  show ?thesis by (rule stable_decoder_eq [OF xfer_segment_stable.map_stable]) (simp add: MT_XferSegment)
next
  case MT_XferAck
  show ?thesis by (rule stable_decoder_eq [OF xfer_ack_stable.map_stable]) (simp add: MT_XferAck)
next
  case MT_XferRefuse
  show ?thesis by (rule stable_decoder_eq [OF xfer_refuse_stable.map_stable]) (simp add: MT_XferRefuse)
next
  case MT_Keepalive
  show ?thesis by (rule stable_decoder_eq [OF keepalive_stable.map_stable]) (simp add: MT_Keepalive)
next
  case MT_MsgReject
  show ?thesis by (rule stable_decoder_eq [OF msg_reject_stable.map_stable]) (simp add: MT_MsgReject)
qed

interpretation body_stable: stable_decoder "decode_body mt" for mt
  by (rule decode_body_stable)

interpretation header_stable: stable_decoder "\<lambda>p. map_decoded ContactHeader (ContactHeader_decode p)"
  by (rule contact_header_stable.map_stable)

text \<open>The codec once it knows the type of the frame.\<close>

definition decode_frame :: "Codec \<Rightarrow> MessageType \<Rightarrow> bytes \<Rightarrow> (Messages option \<times> bytes \<times> Codec, Errors) result" where
  "decode_frame c mt src =
     map_ok (\<lambda>(m, src).
         (m, src, if m \<noteq> None then c\<lparr>curr_message_type := None\<rparr> else c\<lparr>curr_message_type := Some mt\<rparr>))
       (decode_body mt src)"

lemma Codec_decode_frame:
  assumes "contact_header_done c"
  shows "Codec_decode c [] = Ok (None, [], c)"
    and "curr_message_type c = Some mt \<Longrightarrow> p \<noteq> [] \<Longrightarrow> Codec_decode c p = decode_frame c mt p"
    and "curr_message_type c = None \<Longrightarrow> Codec_decode c (b # p) =
      (case message_type_of b of Some mt \<Rightarrow> decode_frame c mt p | None \<Rightarrow> Err (InvalidMessageType b))"
  using assms by (auto simp: Codec_decode_def decode_frame_def split: option.splits)

text \<open>What a call of the codec says about the same call with more input.\<close>

definition stable_answer where
  "stable_answer c p q \<longleftrightarrow>
     (case Codec_decode c p of
        Panic \<Rightarrow> True
      | Err e \<Rightarrow> Codec_decode c (p @ q) = Err e
      | Ok (None, r, c') \<Rightarrow> Codec_decode c (p @ q) = Codec_decode c' (r @ q)
      | Ok (Some m, r, c') \<Rightarrow> Codec_decode c (p @ q) = Ok (Some m, r @ q, c'))"

lemma decode_frame_cases:
  obtains "decode_frame c mt p = Panic"
  | "decode_body mt p = Ok (None, p)"
  | e where "decode_frame c mt p = Err e" "\<And>q. decode_frame c mt (p @ q) = Err e"
  | m r where "decode_frame c mt p = Ok (Some m, r, c\<lparr>curr_message_type := None\<rparr>)"
      "\<And>q. decode_frame c mt (p @ q) = Ok (Some m, r @ q, c\<lparr>curr_message_type := None\<rparr>)"
proof (cases "decode_body mt p")
  case (Ok v)
  obtain m r where v: "v = (m, r)" by (cases v)
  show thesis
  proof (cases m)
    case None
    then have "decode_body mt p = Ok (None, p)"
      using Ok v body_stable.stable [of mt p "[]"] by auto
    then show thesis by (rule that(2))
  next
    case (Some n)
    then have "decode_body mt (p @ q) = Ok (Some n, r @ q)" for q
      using Ok v body_stable.stable [of mt p q] by auto
    then show thesis using Ok v Some by (intro that(4) [of n r]) (auto simp: decode_frame_def)
  qed
next
  case (Err e)
  then have "decode_body mt (p @ q) = Err e" for q
    using body_stable.stable [of mt p q] by auto
  with Err show thesis by (intro that(3) [of e]) (auto simp: decode_frame_def)
next
  case Panic
  then show thesis by (intro that(1)) (simp add: decode_frame_def)
qed

lemma curr_message_type_again:
  "c\<lparr>curr_message_type := a, curr_message_type := b\<rparr> = c\<lparr>curr_message_type := b\<rparr>" for c :: Codec
  by (cases c) simp

lemma decode_frame_again: "decode_frame (c\<lparr>curr_message_type := a\<rparr>) mt p = decode_frame c mt p"
  unfolding decode_frame_def curr_message_type_again by (rule refl)

lemma decode_frame_waiting:
  assumes "contact_header_done c" "decode_body mt p = Ok (None, p)"
  shows "decode_frame c mt (p @ q) = Codec_decode (c\<lparr>curr_message_type := Some mt\<rparr>) (p @ q)"
  using assms
  by (cases "p @ q = []") (auto simp: Codec_decode_frame decode_frame_again decode_frame_def [of c mt "[]"])

lemma Codec_decode_stable: "stable_answer c p q"
proof (cases "contact_header_done c")
  case False
  let ?h = "\<lambda>p. map_decoded ContactHeader (ContactHeader_decode p)"
  have dec: "Codec_decode c p =
      map_ok (\<lambda>(m, src). (m, src, if m \<noteq> None then c\<lparr>contact_header_done := True\<rparr> else c)) (?h p)" for p
    using False by (simp add: Codec_decode_def)
  consider "?h p = Panic" | "?h p = Ok (None, p)" | "?h (p @ q) = more q (?h p)" "\<And>r. ?h p \<noteq> Ok (None, r)"
    using header_stable.stable [of p q] by blast
  then show ?thesis
  proof cases
    case 3
    then show ?thesis
      by (cases "?h p") (auto simp: stable_answer_def dec split: option.splits)
  qed (simp_all add: stable_answer_def dec)
next
  case True
  note frame = Codec_decode_frame [OF True] and waiting = decode_frame_waiting [OF True]
  show ?thesis
  proof (cases "curr_message_type c")
    case (Some mt)
    show ?thesis
    proof (cases "p = []")
      case False
      with Some show ?thesis
        by (cases rule: decode_frame_cases [of c mt p])
          (auto simp: stable_answer_def frame waiting decode_frame_def [of c mt p])
    qed (simp add: stable_answer_def frame)
  next
    case None
    show ?thesis
    proof (cases p)
      case (Cons b s)
      show ?thesis
      proof (cases "message_type_of b")
        case (Some mt)
        with Cons None show ?thesis
          by (cases rule: decode_frame_cases [of c mt s])
            (auto simp: stable_answer_def frame waiting decode_frame_def [of c mt s])
      qed (simp add: stable_answer_def frame Cons None)
    qed (simp add: stable_answer_def frame)
  qed
qed

end
