(* ===== verification/Tcpcl_Stream.thy ===== *)
theory Tcpcl_Stream
  imports Tcpcl_Stability "HOL-Library.Sublist"
begin

text \<open>
  The codec on a stream of bytes. \<open>drain\<close> and \<open>feed\<close> are the documented behaviour of
  \<open>tokio_util::codec::FramedRead\<close>, the reader that \<open>tcpcl/src/session.rs\<close> puts around the socket: it
  appends what a read delivers to its buffer and calls \<open>decode\<close> until that waits for more or
  fails, and a failure ends the stream. The lemmas show that a stream of encoded messages is
  read back, and that the sizes of the reads matter only in that they can make a decoder panic.
\<close>

section \<open>Reading shortens the buffer\<close>

lemma session_extensions_loop_shorter:
  "session_extensions_loop t p = Ok (es, r) \<Longrightarrow> length r \<le> length p"
proof (induction t p arbitrary: es rule: session_extensions_loop.induct)
  case (1 t p)
  show ?case
  proof (cases "t < length p")
    case True
    with "1.prems" obtain se s es' where s: "SessionExtension_decode p = Ok (se, s)"
      "\<not> contains (se_flags se) CRITICAL" "session_extensions_loop t s = Ok (es', r)"
      by (auto simp: session_extensions_loop.simps [of t p] result_simps split: result.splits if_splits)
    then show ?thesis
      using "1.IH" [OF True s(1) refl s(2,3)] SessionExtension_decode_shorter by fastforce
  qed (use "1.prems" in \<open>simp add: session_extensions_loop.simps [of t p]\<close>)
qed

lemma transfer_extensions_loop_shorter:
  "transfer_extensions_loop t p = Ok (es, r) \<Longrightarrow> length r \<le> length p"
proof (induction t p arbitrary: es rule: transfer_extensions_loop.induct)
  case (1 t p)
  show ?case
  proof (cases "t < length p")
    case True
    with "1.prems" obtain se s es' where s: "TransferExtension_decode p = Ok (se, s)"
      "\<not> contains (te_flags se) CRITICAL" "transfer_extensions_loop t s = Ok (es', r)"
      by (auto simp: transfer_extensions_loop.simps [of t p] result_simps split: result.splits if_splits)
    then show ?thesis
      using "1.IH" [OF True s(1) refl s(2,3)] TransferExtension_decode_shorter by fastforce
  qed (use "1.prems" in \<open>simp add: transfer_extensions_loop.simps [of t p]\<close>)
qed

lemma advance_length: "advance n p = Ok r \<Longrightarrow> length p = n + length r"
  by (auto simp: advance_def split: if_splits)

lemma segment_extensions_shorter: "segment_extensions f p = Ok (es, r) \<Longrightarrow> length r \<le> length p"
  by (auto simp: segment_extensions_def result_simps split: if_splits
      dest!: read_length transfer_extensions_loop_shorter)

lemmas shorter = read_length advance_length session_extensions_loop_shorter segment_extensions_shorter

lemma decode_body_shorter:
  assumes "decode_body mt p = Ok (m, r)"
  shows "length r \<le> length p"
proof (cases mt)
  case MT_SessInit
  then show ?thesis using assms
    by (auto simp: map_decoded_def SessInit_decode_def Let_def result_simps split: if_splits dest!: shorter)
next
  case MT_XferSegment
  then show ?thesis using assms
    by (auto simp: map_decoded_def XferSegment_decode_def Let_def result_simps
        split: if_splits option.splits dest!: shorter)
qed (use assms in \<open>auto simp: map_decoded_def SessTerm_decode_def XferAck_decode_def XferRefuse_decode_def
      Keepalive_decode_def MsgReject_decode_def result_simps split: if_splits dest!: shorter\<close>)

text \<open>A message has been read: bytes are gone, or the type of the frame had been read before.\<close>

definition stream_size :: "Codec \<Rightarrow> bytes \<Rightarrow> nat" where
  "stream_size c p = 2 * length p + (if curr_message_type c = None then 0 else 1)"

lemma Codec_decode_progress:
  assumes "Codec_decode c p = Ok (Some m, r, c')"
  shows "stream_size c' r < stream_size c p"
proof (cases "contact_header_done c")
  case False
  then show ?thesis using assms
    by (auto simp: Codec_decode_def map_decoded_def ContactHeader_decode_def stream_size_def result_simps
        split: if_splits dest!: shorter)
next
  case True
  note frame = Codec_decode_frame [OF True]
  show ?thesis
  proof (cases "curr_message_type c")
    case (Some mt)
    with assms frame have "p \<noteq> []" by auto
    with assms Some show ?thesis
      by (auto simp: frame decode_frame_def stream_size_def result_simps dest!: decode_body_shorter)
  next
    case None
    with assms frame(1) obtain b s where p: "p = b # s" by (cases p) auto
    with assms None obtain mt where "decode_frame c mt s = Ok (Some m, r, c')"
      by (auto simp: frame split: option.splits)
    with p None show ?thesis
      by (auto simp: decode_frame_def stream_size_def result_simps dest!: decode_body_shorter)
  qed
qed

section \<open>The framed reader\<close>

datatype stream_end = Waiting Codec bytes | Failed Errors | Aborted

function drain :: "Codec \<Rightarrow> bytes \<Rightarrow> Messages list \<times> stream_end" where
  "drain c p =
     (case Codec_decode c p of
        Ok (Some m, r, c') \<Rightarrow> (case drain c' r of (ms, e) \<Rightarrow> (m # ms, e))
      | Ok (None, r, c') \<Rightarrow> ([], Waiting c' r)
      | Err e \<Rightarrow> ([], Failed e)
      | Panic \<Rightarrow> ([], Aborted))"
  by pat_completeness auto
termination
  by (relation "measure (\<lambda>(c, p). stream_size c p)") (auto dest: Codec_decode_progress)

declare drain.simps [simp del]

fun feed :: "Codec \<Rightarrow> bytes \<Rightarrow> bytes list \<Rightarrow> Messages list \<times> stream_end" where
  "feed c p [] = ([], Waiting c p)"
| "feed c p (chunk # chunks) =
     (case drain c (p @ chunk) of
        (ms, Waiting c' r) \<Rightarrow> (case feed c' r chunks of (ms', e) \<Rightarrow> (ms @ ms', e))
      | (ms, e) \<Rightarrow> (ms, e))"

lemma drain_more:
  "case drain c p of
     (ms, Waiting c' r) \<Rightarrow> drain c (p @ q) = (ms @ fst (drain c' (r @ q)), snd (drain c' (r @ q)))
   | (ms, Failed e) \<Rightarrow> drain c (p @ q) = (ms, Failed e)
   | (ms, Aborted) \<Rightarrow> prefix ms (fst (drain c (p @ q)))"
proof (induction c p rule: drain.induct)
  case (1 c p)
  note answer = Codec_decode_stable [of c p q, unfolded stable_answer_def]
  show ?case
  proof (cases "Codec_decode c p")
    case (Ok v)
    obtain m r c' where v: "v = (m, r, c')" by (cases v)
    show ?thesis
    proof (cases m)
      case None
      then show ?thesis
        using Ok v answer
        by (simp add: drain.simps [of c p] drain.simps [of c "p @ q"] drain.simps [of c' "r @ q"])
    next
      case (Some n)
      have "Codec_decode c (p @ q) = Ok (Some n, r @ q, c')"
        using Ok v Some answer by simp
      then show ?thesis
        using Ok v Some "1.IH" [OF Ok v [symmetric] Some refl]
        by (cases "drain c' r"; cases "snd (drain c' r)")
          (auto simp: drain.simps [of c p] drain.simps [of c "p @ q"] split: prod.splits)
    qed
  qed (use answer in \<open>simp_all add: drain.simps [of c p] drain.simps [of c "p @ q"]\<close>)
qed


lemma drain_idle: "drain c p = (ms, Waiting c' r) \<Longrightarrow> drain c' r = ([], Waiting c' r)"
proof (induction c p arbitrary: ms rule: drain.induct)
  case (1 c p)
  show ?case
  proof (cases "Codec_decode c p")
    case (Ok v)
    obtain m s d where v: "v = (m, s, d)" by (cases v)
    show ?thesis
    proof (cases m)
      case None
      then have "d = c'" "s = r"
        using Ok v "1.prems" by (simp_all add: drain.simps [of c p])
      then have "Codec_decode c' r = Ok (None, r, c')"
        using Ok v None Codec_decode_stable [of c p "[]"] by (simp add: stable_answer_def)
      then show ?thesis by (simp add: drain.simps [of c' r])
    next
      case (Some n)
      then show ?thesis
        using Ok v "1.prems" "1.IH" [OF Ok v [symmetric] Some refl]
        by (auto simp: drain.simps [of c p] split: prod.splits)
    qed
  qed (use "1.prems" in \<open>simp_all add: drain.simps [of c p]\<close>)
qed

text \<open>Cutting the stream into reads, from a reader that has nothing left to do.\<close>

lemma feed_drain:
  assumes "drain c p = ([], Waiting c p)"
  shows "feed c p chunks = drain c (p @ concat chunks)
    \<or> snd (feed c p chunks) = Aborted \<and> prefix (fst (feed c p chunks)) (fst (drain c (p @ concat chunks)))"
  using assms
proof (induction chunks arbitrary: c p)
  case Nil
  then show ?case by simp
next
  case (Cons x xs)
  note parts = drain_more [of c "p @ x" "concat xs"]
  show ?case
  proof (cases "drain c (p @ x)")
    case (Pair ms e)
    show ?thesis
    proof (cases e)
      case (Waiting c' r)
      note wait = Pair [unfolded Waiting]
      have "drain c (p @ x @ concat xs)
          = (ms @ fst (drain c' (r @ concat xs)), snd (drain c' (r @ concat xs)))"
        using parts wait by simp
      with Cons.IH [OF drain_idle [OF wait]] show ?thesis
        using wait by (cases "feed c' r xs"; cases "drain c' (r @ concat xs)") auto
    qed (use Pair parts in auto)
  qed
qed

lemma drain_start: "drain c [] = ([], Waiting c [])"
  by (cases "contact_header_done c")
    (simp_all add: drain.simps Codec_decode_def map_decoded_def ContactHeader_decode_def)

section \<open>Reading back what was encoded\<close>

lemma message_type_of_code [simp]: "message_type_of (message_type_code mt) = Some mt"
  by (cases mt) (simp_all add: message_type_of_def)

lemma Codec_encode_Ok: "Messages_wf m \<Longrightarrow> \<exists>bs. Codec_encode m = Ok bs"
  using contact_header.enc_Ok sess_init.enc_Ok sess_term.enc_Ok keepalive.enc_Ok msg_reject.enc_Ok
    xfer_segment.enc_Ok xfer_ack.enc_Ok xfer_refuse.enc_Ok
  by (cases m) (fastforce simp: result_simps)+

text \<open>Every message but the contact header: its type byte, then its body.\<close>

lemma Codec_encode_frame:
  assumes "Messages_wf m" "\<not> is_ContactHeader m" "Codec_encode m = Ok bs"
  obtains mt body where "bs = message_type_code mt # body" "get_message_type m = Ok mt"
    "\<And>rest. decode_body mt (body @ rest) = Ok (Some m, rest)"
  using assms sess_init.dec_enc sess_term.dec_enc keepalive.dec_enc msg_reject.dec_enc
    xfer_segment.dec_enc xfer_ack.dec_enc xfer_refuse.dec_enc
  by (cases m) (auto simp: is_ContactHeader_def result_simps map_decoded_def)

abbreviation ready :: Codec where
  "ready \<equiv> \<lparr>contact_header_done = True, curr_message_type = None\<rparr>"

lemma Codec_decode_encode:
  assumes "Messages_wf m" "\<not> is_ContactHeader m" "Codec_encode m = Ok bs"
  shows "Codec_decode ready (bs @ rest) = Ok (Some m, rest, ready)"
proof -
  obtain mt body where "bs = message_type_code mt # body"
    "\<And>rest. decode_body mt (body @ rest) = Ok (Some m, rest)"
    using Codec_encode_frame [OF assms] by metis
  then show ?thesis by (simp add: Codec_decode_frame decode_frame_def)
qed

lemma drain_encoded:
  assumes "list_all (\<lambda>m. Messages_wf m \<and> \<not> is_ContactHeader m) ms" "traverse Codec_encode ms = Ok bss"
  shows "drain ready (concat bss @ rest) = (ms @ fst (drain ready rest), snd (drain ready rest))"
  using assms
proof (induction ms arbitrary: bss)
  case (Cons m ms)
  then obtain bs bss' where "Codec_encode m = Ok bs" "traverse Codec_encode ms = Ok bss'" "bss = bs # bss'"
    by (auto simp: result_simps)
  with Cons show ?case
    using Codec_decode_encode [of m bs "concat bss' @ rest"]
    by (simp add: drain.simps [of ready "bs @ concat bss' @ rest"])
qed simp

lemma Codec_decode_contact_header:
  assumes "ContactHeader_wf h" "ContactHeader_encode h = Ok bs"
  shows "Codec_decode Codec_default (bs @ rest) = Ok (Some (ContactHeader h), rest, ready)"
  using contact_header.dec_enc [OF assms] by (simp add: Codec_decode_def Codec_default_def map_decoded_def)

lemma drain_session:
  assumes "ContactHeader_wf h" "list_all (\<lambda>m. Messages_wf m \<and> \<not> is_ContactHeader m) ms"
    "traverse Codec_encode (ContactHeader h # ms) = Ok bss"
  shows "drain Codec_default (concat bss) = (ContactHeader h # ms, Waiting ready [])"
proof -
  obtain hb bss' where hb: "ContactHeader_encode h = Ok hb" "traverse Codec_encode ms = Ok bss'" "bss = hb # bss'"
    using assms(3) by (auto simp: result_simps)
  then show ?thesis
    using Codec_decode_contact_header [OF assms(1) hb(1), of "concat bss'"]
      drain_encoded [OF assms(2) hb(2), of "[]"] drain_start [of ready]
    by (simp add: drain.simps [of Codec_default "hb @ concat bss'"])
qed

end
