(* ===== verification/Tcpcl_Handshake.thy ===== *)
theory Tcpcl_Handshake
  imports Tcpcl_Transfer Tcpcl_Stream
begin

text \<open>
  The two ends of a connection put together over the wire format: \<open>pass\<close> lets one state machine
  send, encodes the message, decodes the bytes with the codec of the other end and hands the result
  to its state machine. \<open>handshake\<close> is the exchange of contact headers and session
  initialisations that \<open>tcpcl/src/v4/statemachine.rs\<close> describes as its handshake and session
  initialisation states, \<open>terminate\<close> the exchange that closes a session.
\<close>

definition pass ::
  "(Messages \<Rightarrow> unit run) \<Rightarrow> StateMachine \<Rightarrow> StateMachine \<Rightarrow> Codec \<Rightarrow> (StateMachine \<times> StateMachine \<times> Codec) option" where
  "pass w from_sm to_sm c =
     (case send_message w from_sm of
        Ok (from_sm', [m]) \<Rightarrow>
          (case Codec_encode m of
             Ok bs \<Rightarrow>
               (case drain c bs of
                  ([m'], Waiting c' []) \<Rightarrow>
                    (case decode_message to_sm (Inr m') of
                       Ok (to_sm', Inr _) \<Rightarrow> Some (from_sm', to_sm', c')
                     | _ \<Rightarrow> None)
                | _ \<Rightarrow> None)
           | _ \<Rightarrow> None)
      | _ \<Rightarrow> None)"

definition handshake ::
  "(Messages \<Rightarrow> unit run) \<Rightarrow> StateMachine \<Rightarrow> StateMachine \<Rightarrow> (StateMachine \<times> StateMachine) option" where
  "handshake w a p =
     Option.bind (pass w a p Codec_default) (\<lambda>(a, p, cp).
     Option.bind (pass w p a Codec_default) (\<lambda>(p, a, ca).
     Option.bind (pass w a p cp) (\<lambda>(a, p, cp).
     Option.bind (pass w p a ca) (\<lambda>(p, a, ca).
       Some (a, p)))))"

definition terminate ::
  "(Messages \<Rightarrow> unit run) \<Rightarrow> TermReason option \<Rightarrow> StateMachine \<Rightarrow> StateMachine \<Rightarrow> (StateMachine \<times> StateMachine) option" where
  "terminate w r a p =
     (case close_connection r a of
        Ok a \<Rightarrow>
          Option.bind (pass w a p ready) (\<lambda>(a, p, cp).
          Option.bind (pass w p a ready) (\<lambda>(p, a, ca).
            Some (a, p)))
      | _ \<Rightarrow> None)"

lemma drain_one:
  assumes "Messages_wf m" "\<not> is_ContactHeader m" "Codec_encode m = Ok bs"
  shows "drain ready bs = ([m], Waiting ready [])"
  using drain_encoded [of "[m]" "[bs]" "[]"] assms drain_start [of ready] by simp

lemma drain_header:
  assumes "ContactHeader_wf h" "ContactHeader_encode h = Ok bs"
  shows "drain Codec_default bs = ([ContactHeader h], Waiting ready [])"
  using drain_session [of h "[]" "[bs]"] assms by simp

lemma ContactHeader_new_wf [simp]: "ContactHeader_wf (ContactHeader_new b)"
  by (simp add: ContactHeader_wf_def ContactHeader_new_def known_bits_def flag_defs)

lemma can_tls_new [simp]: "can_tls (ContactHeader_new b) = b"
  by (simp add: can_tls_def ContactHeader_new_def contains_def flag_defs)

lemma SessInit_new_wf: "rust_string n \<Longrightarrow> length n < 65536 \<Longrightarrow> SessInit_wf (SessInit_new n)"
  by (simp add: SessInit_wf_def SessInit_new_def)

lemma SessTerm_new_wf [simp]: "SessTerm_wf (SessTerm_new r b)"
  by (simp add: SessTerm_wf_def SessTerm_new_def known_bits_def flag_defs)

lemma st_reason_new [simp]: "st_reason (SessTerm_new r b) = r"
  by (simp add: SessTerm_new_def)

lemma pass_header:
  assumes "send_message w a = Ok (a', [ContactHeader (ContactHeader_new b)])"
    "decode_message p (Inr (ContactHeader (ContactHeader_new b))) = Ok (p', Inr out)"
  shows "pass w a p Codec_default = Some (a', p', ready)"
proof -
  obtain bs where "ContactHeader_encode (ContactHeader_new b) = Ok bs"
    using contact_header.enc_Ok by fastforce
  with drain_header [of "ContactHeader_new b" bs] assms show ?thesis by (simp add: pass_def)
qed

lemma pass_message:
  assumes "send_message w a = Ok (a', [m])" "Messages_wf m" "\<not> is_ContactHeader m"
    "decode_message p (Inr m) = Ok (p', Inr out)"
  shows "pass w a p ready = Some (a', p', ready)"
proof -
  obtain bs where "Codec_encode m = Ok bs" using Codec_encode_Ok [OF assms(2)] by blast
  with drain_one [OF assms(2,3) this] assms(1,4) show ?thesis by (simp add: pass_def)
qed

lemmas machine_ops = send_message_def send_and_complete_def send_complete_def decode_message_def
  decode_contact_header_def decode_session_message_def transferring_def Let_def

text \<open>The machines after the handshake.\<close>

definition established_with :: "StateMachine \<Rightarrow> string \<Rightarrow> bool \<Rightarrow> StateMachine" where
  "established_with sm n tls =
     sm\<lparr>state := SessionEstablished, my_contact_header := Some (ContactHeader_new (sm_can_tls sm)),
        peer_contact_header := Some (ContactHeader_new tls), my_sess_init := Some (SessInit_new (my_node_id sm)),
        peer_sess_init := Some (SessInit_new n)\<rparr>"

lemma handshake_machines:
  assumes w: "\<And>m. w m = Ok ()" and n: "SessInit_wf (SessInit_new na)" "SessInit_wf (SessInit_new np)"
  shows "handshake w (new_active na ta) (new_passive np tp)
    = Some (established_with (new_active na ta) np tp, established_with (new_passive np tp) na ta)"
proof -
  let ?a0 = "new_active na ta" and ?p0 = "new_passive np tp"
  let ?a1 = "?a0\<lparr>my_contact_header := Some (ContactHeader_new ta), state := ActiveWaitContactHeader\<rparr>"
  let ?p1 = "?p0\<lparr>peer_contact_header := Some (ContactHeader_new ta), state := PassiveSendContactHeader\<rparr>"
  let ?p2 = "?p1\<lparr>my_contact_header := Some (ContactHeader_new tp), state := PassiveWaitSessInit\<rparr>"
  let ?a2 = "?a1\<lparr>peer_contact_header := Some (ContactHeader_new tp), state := ActiveSendSessInit\<rparr>"
  let ?a3 = "?a2\<lparr>my_sess_init := Some (SessInit_new na), state := ActiveWaitSessInit\<rparr>"
  let ?p3 = "?p2\<lparr>peer_sess_init := Some (SessInit_new na), state := PassiveSendSessInit\<rparr>"
  have "pass w ?a0 ?p0 Codec_default = Some (?a1, ?p1, ready)"
    by (rule pass_header [where b = ta]) (simp_all add: machine_ops new_active_def new_passive_def w)
  moreover have "pass w ?p1 ?a1 Codec_default = Some (?p2, ?a2, ready)"
    by (rule pass_header [where b = tp]) (simp_all add: machine_ops new_active_def new_passive_def w)
  moreover have "pass w ?a2 ?p2 ready = Some (?a3, ?p3, ready)"
    by (rule pass_message [where m = "SessInit (SessInit_new na)"])
      (simp_all add: machine_ops new_active_def new_passive_def w n is_ContactHeader_def)
  moreover have "pass w ?p3 ?a3 ready
      = Some (established_with ?p0 na ta, established_with ?a0 np tp, ready)"
    by (rule pass_message [where m = "SessInit (SessInit_new np)"])
      (simp_all add: machine_ops new_active_def new_passive_def w n is_ContactHeader_def established_with_def)
  ultimately show ?thesis by (simp add: handshake_def)
qed

lemma terminate_machines:
  assumes w: "\<And>m. w m = Ok ()" and a: "is_established a" "\<not> terminating a" and p: "is_established p"
  shows "terminate w r a p
    = Some (a\<lparr>state := ConnectionClose, terminating := True\<rparr>, p\<lparr>state := ConnectionClose, terminating := True\<rparr>)"
proof -
  let ?r = "case r of Some x \<Rightarrow> x | None \<Rightarrow> Term_Unkown"
  let ?a1 = "a\<lparr>state := SendSessTerm r\<rparr>" and ?a2 = "a\<lparr>terminating := True, state := WaitSessTerm\<rparr>"
  let ?p1 = "p\<lparr>state := SendSessTerm (Some ?r), terminating := True\<rparr>"
  have "close_connection r a = Ok ?a1"
    using a by (simp add: close_connection_def assert_then_def)
  moreover have "pass w ?a1 p ready = Some (?a2, ?p1, ready)"
    using a p
    by (intro pass_message [where m = "SessTerm (SessTerm_new ?r False)"])
      (auto simp: machine_ops is_established_def is_ContactHeader_def w split: option.splits)
  moreover have "pass w ?p1 ?a2 ready
      = Some (p\<lparr>state := ConnectionClose, terminating := True\<rparr>, a\<lparr>state := ConnectionClose, terminating := True\<rparr>, ready)"
    by (rule pass_message [where m = "SessTerm (SessTerm_new ?r True)"])
      (simp_all add: machine_ops is_ContactHeader_def w)
  ultimately show ?thesis by (simp add: terminate_def)
qed

end
