(* ===== verification/Tcpcl_Results.thy ===== *)
theory Tcpcl_Results
  imports Tcpcl_Handshake "HOL-Library.Code_Target_Nat"
begin

text \<open>
  The properties of the TCP convergence layer: the stream codec, the safety of a session, the
  handshake, the transfer of data and the termination.
\<close>

section \<open>The stream codec\<close>

text \<open>C19. A stream that starts with a contact header and continues with any well-formed messages
  is encoded without a panic, and the decoder reads exactly these messages back, with no byte left
  over.\<close>

theorem tcpcl_stream_roundtrip:
  assumes "ContactHeader_wf h" "list_all (\<lambda>m. Messages_wf m \<and> \<not> is_ContactHeader m) ms"
  shows "\<exists>bss. traverse Codec_encode (ContactHeader h # ms) = Ok bss
    \<and> drain Codec_default (concat bss) = (ContactHeader h # ms, Waiting ready [])"
proof -
  have "\<exists>bss. traverse Codec_encode ms = Ok bss"
    using assms(2) by (induction ms) (auto dest: Codec_encode_Ok)
  moreover obtain hb where "ContactHeader_encode h = Ok hb"
    using contact_header.enc_Ok [OF assms(1)] by blast
  ultimately obtain bss where "traverse Codec_encode (ContactHeader h # ms) = Ok bss" by auto
  with drain_session [OF assms this] show ?thesis by blast
qed

definition sample_messages :: "Messages list" where
  "sample_messages =
     [SessInit (SessInit_new ''dtn://a/''), Keepalive Keepalive_new,
      XferSegment (XferSegment_new (START OR END) 7 [1, 2, 3]), XferAck (XferAck_new (START OR END) 7 3),
      XferRefuse (XferRefuse_new 7), MsgReject (MsgReject_new MessageUnexpected 2),
      SessTerm (SessTerm_new IdleTimeout False)]"

lemma sample_messages_wf: "list_all (\<lambda>m. Messages_wf m \<and> \<not> is_ContactHeader m) sample_messages"
  by code_simp

theorem tcpcl_stream_roundtrip_witness:
  "\<exists>bss. traverse Codec_encode (ContactHeader (ContactHeader_new True) # sample_messages) = Ok bss
    \<and> drain Codec_default (concat bss)
      = (ContactHeader (ContactHeader_new True) # sample_messages, Waiting ready [])"
  using tcpcl_stream_roundtrip [OF ContactHeader_new_wf sample_messages_wf] .

text \<open>C20. The sizes of the reads do not change the messages. Whatever bytes arrive, cutting them
  into other pieces gives the same messages and the same end, unless a cut makes a decoder panic;
  the messages before the panic are then the first ones of the uncut stream.\<close>

theorem tcpcl_cuts_irrelevant:
  "feed Codec_default [] chunks = drain Codec_default (concat chunks)
   \<or> snd (feed Codec_default [] chunks) = Aborted
     \<and> prefix (fst (feed Codec_default [] chunks)) (fst (drain Codec_default (concat chunks)))"
  using feed_drain [OF drain_start, of Codec_default chunks] by simp

text \<open>An acknowledgement that arrives in two pieces, the first of ten to seventeen bytes, makes
  the decoder panic, although the same bytes in one piece are read: the length test of
  \<open>XferAck::decode\<close> asks for nine bytes of body and the decoder then reads seventeen.\<close>

theorem tcpcl_partial_ack_panics:
  assumes "XferAck_wf a" "Codec_encode (XferAck a) = Ok bs" "10 \<le> k" "k < 18"
  shows "length bs = 18 \<and> drain ready bs = ([XferAck a], Waiting ready [])
    \<and> feed ready [] [take k bs, drop k bs] = ([], Aborted)"
proof (intro conjI)
  obtain body where bs: "bs = message_type_code MT_XferAck # body" "XferAck_encode a = Ok body"
    using assms(2) by (auto simp: result_simps)
  then show len: "length bs = 18" by (auto simp: XferAck_encode_def)
  show "drain ready bs = ([XferAck a], Waiting ready [])"
    using drain_one [of "XferAck a" bs] assms(1,2) by (simp add: is_ContactHeader_def)
  have k: "take k bs = message_type_code MT_XferAck # take (k - 1) body"
    using bs assms(3) by (cases k) simp_all
  have "9 \<le> k - 1" "k - 1 < 17" using assms(3,4) by linarith+
  then have "XferAck_decode (take (k - 1) body) = Panic"
    using len bs(1) by (simp add: XferAck_decode_panic_iff)
  then have "Codec_decode ready (take k bs) = Panic"
    unfolding k by (simp add: Codec_decode_frame decode_frame_def map_decoded_def message_type_of_def)
  then show "feed ready [] [take k bs, drop k bs] = ([], Aborted)"
    by (simp add: drain.simps)
qed

definition sample_ack :: XferAck where
  "sample_ack = XferAck_new END 5 1024"

theorem tcpcl_partial_ack_panics_witness:
  "\<exists>bs. Codec_encode (XferAck sample_ack) = Ok bs
    \<and> drain ready bs = ([XferAck sample_ack], Waiting ready [])
    \<and> feed ready [] [take 10 bs, drop 10 bs] = ([], Aborted)"
proof -
  have wf: "XferAck_wf sample_ack" by code_simp
  obtain bs where bs: "Codec_encode (XferAck sample_ack) = Ok bs"
    by (auto simp: XferAck_encode_def)
  show ?thesis
    using tcpcl_partial_ack_panics [OF wf bs, of 10] bs by auto
qed


section \<open>Safety of a session\<close>


definition sample_url :: Url where
  "sample_url = \<lparr>url_text = ''tcpcl://peer:4556'', url_host = Some (Domain ''peer'')\<rparr>"


definition good_writer :: "Messages \<Rightarrow> unit run" where
  "good_writer m = Ok ()"

lemma good_writer_ok [simp]: "good_writer m = Ok ()"
  by (simp add: good_writer_def)




section \<open>The handshake\<close>

text \<open>C21. An active and a passive session that exchange their messages over the wire format are
  both established, each with the node id and the limits of the other; they agree on the keepalive
  interval and on whether TLS is used.\<close>

theorem handshake_establishes:
  assumes w: "\<And>m. w m = Ok ()"
    and n: "rust_string na" "length na < 65536" "rust_string np" "length np < 65536"
  shows "\<exists>a p. handshake w (new_active na ta) (new_passive np tp) = Some (a, p)
    \<and> is_established a \<and> is_established p
    \<and> get_peer_node_id a = Ok np \<and> get_peer_node_id p = Ok na
    \<and> get_peer_mru a = Ok 1048576 \<and> get_peer_mru p = Ok 1048576
    \<and> get_keepalive_interval a = Ok (Some 60) \<and> get_keepalive_interval p = Ok (Some 60)
    \<and> should_use_tls a = Ok (ta \<and> tp) \<and> should_use_tls p = Ok (ta \<and> tp)"
  using handshake_machines [where w = w, OF w SessInit_new_wf [OF n(1,2)] SessInit_new_wf [OF n(3,4)]]
  by (auto simp: established_with_def new_active_def new_passive_def is_established_def get_peer_node_id_def
      get_peer_mru_def get_keepalive_interval_def should_use_tls_def assert_then_def SessInit_new_def
      KEEPALIVE_DEFAULT_INTERVAL_def MAX_TRANSFER_MRU_def)

theorem handshake_establishes_witness:
  "\<exists>a p. handshake good_writer (new_active ''dtn://a/'' True) (new_passive ''dtn://b/'' False) = Some (a, p)
    \<and> is_established a \<and> get_peer_node_id a = Ok ''dtn://b/'' \<and> should_use_tls p = Ok False"
proof -
  have n: "rust_string ''dtn://a/''" "rust_string ''dtn://b/''" by code_simp+
  show ?thesis
    using handshake_establishes [of good_writer "''dtn://a/''" "''dtn://b/''" True False] n by auto
qed

text \<open>When the owner of one side closes an established session, the exchange of termination
  messages closes both sides, also when the other side is established and idle.\<close>

theorem terminate_closes:
  assumes w: "\<And>m. w m = Ok ()" and "is_established a" "\<not> terminating a" "is_established p"
  shows "\<exists>a' p'. terminate w r a p = Some (a', p') \<and> should_close a' \<and> should_close p'"
  using terminate_machines [where w = w, OF w assms(2-4)] by (simp add: should_close_def)

theorem terminate_closes_witness:
  "\<exists>a' p'. terminate good_writer (Some ResourceExhaustion)
      (established_with (new_active ''dtn://a/'' False) ''dtn://b/'' False)
      (established_with (new_passive ''dtn://b/'' False) ''dtn://a/'' False) = Some (a', p')
    \<and> should_close a' \<and> should_close p'"
  by (rule terminate_closes)
    (simp_all add: is_established_def established_with_def new_active_def new_passive_def)


section \<open>Transfers\<close>

text \<open>C7. A transfer that an established session has accepted reaches the other side. The writes,
  the reads and the acknowledgements of the two sides may interleave in any order: a run takes at
  most four steps per segment, it can go on until it has taken them all, and then the sender is
  free for the next transfer. Whenever the sender is free again, the receiver has passed up exactly
  this transfer, whole and once.\<close>

theorem transfer_delivered:
  assumes sender: "could_send_transfer sm" "send_transfer d sm = Ok (sm', Inr ())" "peer_sess_init sm = Some si"
    and receiver: "is_established (statemachine s)" "receiving_transfer s = None"
    and data: "0 < unat (segment_mru si)" "d \<noteq> []" "length d < 2 ^ 63" and w: "\<And>m. w m = Ok ()"
    and run: "(link_step w ^^ k) \<lparr>l_sender = sm', l_forward = [], l_receiver = s, l_backward = []\<rparr> n"
  shows "k \<le> 4 * segment_count (unat (segment_mru si)) d
    \<and> ((\<exists>n'. link_step w n n') \<longleftrightarrow> k < 4 * segment_count (unat (segment_mru si)) d)
    \<and> (k = 4 * segment_count (unat (segment_mru si)) d \<longrightarrow> could_send_transfer (l_sender n))
    \<and> (could_send_transfer (l_sender n) \<longrightarrow>
         receive_channel (l_receiver n)
         = receive_channel s @ [\<lparr>transfer_id = last_used_transfer_id sm, transfer_data = d\<rparr>])"
proof -
  let ?N = "segment_count (unat (segment_mru si)) d"
  note start = link_start [OF sender receiver data(1,2)]
  obtain p r q a where at: "link_at (segment_mru si) (last_used_transfer_id sm) d (receive_channel s) p r q a n"
    and k: "p + r + q + a = k"
    using link_run [where w = w, OF run start data(1,3) w] by blast
  have le: "a \<le> q" "q \<le> r" "r \<le> p" "p \<le> ?N" using at by (auto simp: link_at_def)
  have free: "could_send_transfer (l_sender n) \<longleftrightarrow> a = ?N"
    using at by (auto simp: link_at_def sender_at_def could_send_transfer_def)
  have full: "a = ?N \<longleftrightarrow> k = 4 * ?N" using le k by linarith
  have step: "\<exists>n'. link_step w n n'" if "a < ?N"
    by (rule link_progress [where w = w, OF at data(1,3) w that])
  have small: "k < 4 * ?N" if "link_step w n n'" for n'
  proof -
    from link_step_at [where w = w, OF that at data(1,3) w] obtain p' r' q' a' where
      "link_at (segment_mru si) (last_used_transfer_id sm) d (receive_channel s) p' r' q' a' n'"
      "p' + r' + q' + a' = Suc k" using k by auto
    then show ?thesis by (auto simp: link_at_def)
  qed
  have bounded: "k \<le> 4 * ?N" using le k by linarith
  have "(\<exists>n'. link_step w n n') \<longleftrightarrow> k < 4 * ?N"
  proof
    assume "k < 4 * ?N"
    with full le have "a < ?N" by linarith
    then show "\<exists>n'. link_step w n n'" by (rule step)
  qed (use small in blast)
  moreover have "receive_channel (l_receiver n)
      = receive_channel s @ [\<lparr>transfer_id = last_used_transfer_id sm, transfer_data = d\<rparr>]" if "a = ?N"
    using that le at by (auto simp: link_at_def receiver_at_def)
  ultimately show ?thesis
    using bounded free full by simp
qed

definition sample_sender :: StateMachine where
  "sample_sender = established_with (new_active ''dtn://a/'' False) ''dtn://b/'' False"

definition sample_receiver :: TCPCLSession where
  "sample_receiver = (session_new ''dtn://b/'' False sample_url)
     \<lparr>statemachine := established_with (new_passive ''dtn://b/'' False) ''dtn://a/'' False\<rparr>"

theorem transfer_delivered_witness:
  "\<exists>sm' n'. send_transfer [1, 2, 3] sample_sender = Ok (sm', Inr ())
    \<and> link_step good_writer \<lparr>l_sender = sm', l_forward = [], l_receiver = sample_receiver, l_backward = []\<rparr> n'"
proof -
  obtain sm' where sm': "send_transfer [1, 2, 3] sample_sender = Ok (sm', Inr ())"
    by (auto simp: send_transfer_def sample_sender_def established_with_def new_active_def SessInit_new_def
        MAX_TRANSFER_MRU_def)
  have sender: "could_send_transfer sample_sender" "peer_sess_init sample_sender = Some (SessInit_new ''dtn://b/'')"
    by (simp_all add: sample_sender_def established_with_def could_send_transfer_def)
  have receiver: "is_established (statemachine sample_receiver)" "receiving_transfer sample_receiver = None"
    by (simp_all add: sample_receiver_def established_with_def is_established_def session_new_def initial_session_def)
  have mru: "unat (segment_mru (SessInit_new ''dtn://b/'')) = 102400"
    by (simp add: SessInit_new_def MAX_SEGMENT_MRU_def)
  have "0 < segment_count 102400 [1, 2, 3]" by code_simp
  with transfer_delivered [OF sender(1) sm' sender(2) receiver, where w = good_writer and k = 0] mru sm'
  show ?thesis by auto
qed

text \<open>An empty transfer is accepted and then never sent: the machine has nothing to write, waits
  for an acknowledgement of a segment that it did not send, and accepts no other transfer.\<close>

theorem empty_transfer_stalls:
  assumes "sm_inv sm" "could_send_transfer sm"
  shows "\<exists>sm'. send_transfer [] sm = Ok (sm', Inr ()) \<and> get_interests sm' = Ok (True, False)
    \<and> send_message w sm' = Ok (sm', []) \<and> \<not> could_send_transfer sm'"
proof -
  obtain si where "peer_sess_init sm = Some si"
    using assms by (auto simp: sm_inv_def could_send_transfer_def elim: session_upD)
  with assms(2) show ?thesis
    by (simp add: send_transfer_def could_send_transfer_def get_interests_def send_message_def)
qed

theorem empty_transfer_stalls_witness:
  "\<exists>sm'. send_transfer [] sample_sender = Ok (sm', Inr ()) \<and> get_interests sm' = Ok (True, False)
    \<and> send_message good_writer sm' = Ok (sm', []) \<and> \<not> could_send_transfer sm'"
  by (rule empty_transfer_stalls)
    (simp_all add: sm_inv_def sample_sender_def established_with_def session_up_def headers_known_def
      could_send_transfer_def new_active_def)

text \<open>A peer that announces a segment size of zero keeps the sender writing for ever: each write
  sends an empty segment and leaves the machine exactly as it was, ready to write again.\<close>

theorem zero_mru_no_progress:
  assumes "could_send_transfer sm" "peer_sess_init sm = Some si" "segment_mru si = 0" "d \<noteq> []"
    "length d < 2 ^ 63" "send_transfer d sm = Ok (sm', Inr ())" and w: "\<And>m. w m = Ok ()"
  shows "get_interests sm' = Ok (True, True)
    \<and> send_message w sm' = Ok (sm', [XferSegment (XferSegment_new START (last_used_transfer_id sm) [])])"
  using assms
  by (auto simp: send_transfer_def could_send_transfer_def get_interests_def send_message_def next_segment_def
      segment_end_def segment_flags_def index_range_def send_and_complete_def send_complete_def Let_def
      split: if_splits)

theorem zero_mru_no_progress_witness:
  "\<exists>sm'. send_transfer [1] (sample_sender\<lparr>peer_sess_init := Some ((SessInit_new ''dtn://b/'')\<lparr>segment_mru := 0\<rparr>)\<rparr>)
      = Ok (sm', Inr ())
    \<and> get_interests sm' = Ok (True, True)
    \<and> send_message good_writer sm' = Ok (sm', [XferSegment (XferSegment_new START 0 [])])"
proof -
  let ?si = "(SessInit_new ''dtn://b/'')\<lparr>segment_mru := 0\<rparr>"
  let ?sm = "sample_sender\<lparr>peer_sess_init := Some ?si\<rparr>"
  have *: "could_send_transfer ?sm" "peer_sess_init ?sm = Some ?si" "segment_mru ?si = 0" "last_used_transfer_id ?sm = 0"
    by (simp_all add: sample_sender_def established_with_def new_active_def could_send_transfer_def)
  obtain sm' where "send_transfer [1] ?sm = Ok (sm', Inr ())"
    by (auto simp: send_transfer_def sample_sender_def established_with_def new_active_def SessInit_new_def
        MAX_TRANSFER_MRU_def)
  with zero_mru_no_progress [OF *(1-3), where d = "[1]" and w = good_writer] *(4) show ?thesis by auto
qed

end
