(* ===== verification/Rust_Collections.thy ===== *)
theory Rust_Collections
  imports Main "HOL-Library.AList" "HOL-Library.Multiset"
begin

text \<open>
  The operations of the standard collections that the agents of the daemon use. A \<open>HashMap\<close> is the
  association list of its entries in iteration order, without duplicate keys, with the operations of
  the library theory on association lists; a \<open>HashSet\<close> and a \<open>Vec\<close> are lists.
\<close>

section \<open>Hash maps\<close>

text \<open>\<open>collect\<close> into a \<open>HashMap\<close>: a later entry replaces an earlier one of the same key.\<close>

definition collect_map :: "('k \<times> 'v) list \<Rightarrow> ('k \<times> 'v) list" where
  "collect_map ps = fold (\<lambda>(k, v). AList.update k v) ps []"

text \<open>\<open>HashMap::eq\<close>: the same keys with the same values.\<close>

definition hash_map_eq :: "('k \<times> 'v) list \<Rightarrow> ('k \<times> 'v) list \<Rightarrow> bool" where
  "hash_map_eq a b \<longleftrightarrow> (\<forall>k \<in> set (map fst a @ map fst b). map_of a k = map_of b k)"

section \<open>Vectors\<close>

text \<open>\<open>iter().position(p)\<close>.\<close>

fun position :: "('a \<Rightarrow> bool) \<Rightarrow> 'a list \<Rightarrow> nat option" where
  "position p [] = None"
| "position p (x # xs) = (if p x then Some 0 else map_option Suc (position p xs))"

text \<open>\<open>Vec::remove(i)\<close> for an index in range.\<close>

definition vec_remove :: "nat \<Rightarrow> 'a list \<Rightarrow> 'a list" where
  "vec_remove i xs = take i xs @ drop (Suc i) xs"

section \<open>Lemmas\<close>

lemma map_of_collect_map: "map_of (collect_map ps) = map_of (rev ps)"
proof -
  have "map_of (fold (\<lambda>(k, v). AList.update k v) ps al) = map_of al ++ map_of (rev ps)" for al
    by (induction ps arbitrary: al) (auto simp: update_conv' fun_eq_iff map_add_def split: option.splits)
  from this [of "[]"] show ?thesis
    by (simp add: collect_map_def)
qed

lemma distinct_collect_map: "distinct (map fst (collect_map ps))"
proof -
  have "distinct (map fst al) \<Longrightarrow> distinct (map fst (fold (\<lambda>(k, v). AList.update k v) ps al))"
    for al :: "('a \<times> 'b) list"
    by (induction ps arbitrary: al) (auto simp: distinct_update)
  from this [of "[]"] show ?thesis
    by (simp add: collect_map_def)
qed

lemma map_of_update: "map_of (AList.update k v al) k' = (if k' = k then Some v else map_of al k')"
  by (simp add: update_conv')

lemma position_Some: "position p xs = Some i \<Longrightarrow> i < length xs \<and> p (xs ! i)"
  by (induction xs arbitrary: i) (auto split: if_splits)

lemma position_None: "position p xs = None \<longleftrightarrow> (\<forall>x \<in> set xs. \<not> p x)"
  by (induction xs) auto

lemma set_vec_remove: "distinct xs \<Longrightarrow> i < length xs \<Longrightarrow> set (vec_remove i xs) = set xs - {xs ! i}"
proof -
  assume d: "distinct xs" and i: "i < length xs"
  have x: "xs = take i xs @ xs ! i # drop (Suc i) xs"
    by (rule id_take_nth_drop [OF i])
  have "distinct (take i xs @ xs ! i # drop (Suc i) xs)"
    using d x by simp
  moreover have "set xs = set (take i xs @ xs ! i # drop (Suc i) xs)"
    using x by simp
  ultimately show ?thesis
    by (auto simp: vec_remove_def)
qed

lemma map_vec_remove: "map f (vec_remove i xs) = vec_remove i (map f xs)"
  by (simp add: vec_remove_def take_map drop_map)

lemma distinct_vec_remove: "distinct xs \<Longrightarrow> distinct (vec_remove i xs)"
  by (simp add: vec_remove_def set_take_disj_set_drop_if_distinct)

lemma update_subset: "set (AList.update k v al) \<subseteq> insert (k, v) (set al)"
  by (induction al) auto

lemma vec_remove_subset: "set (vec_remove i xs) \<subseteq> set xs"
  by (auto simp: vec_remove_def dest: in_set_takeD in_set_dropD)

lemma mset_vec_remove: "i < length xs \<Longrightarrow> add_mset (xs ! i) (mset (vec_remove i xs)) = mset xs"
proof -
  assume "i < length xs"
  then have "xs = take i xs @ xs ! i # drop (Suc i) xs"
    by (rule id_take_nth_drop)
  then show ?thesis
    unfolding vec_remove_def by (metis mset.simps(2) mset_append union_mset_add_mset_right)
qed

end
