(* ===== verification/Dtrd_Storage.thy ===== *)
theory Dtrd_Storage
  imports Fragmentation Rust_Collections
begin

text \<open>
  \<open>dtrd/src/bundlestorageagent\<close>: the agent that owns all bundles of the node. It hands out
  references, moves bundles through their states, writes valid bundles to disk, fragments and
  reassembles.

  A bundle's bytes sit behind an \<open>Arc\<close>; a reference holds a \<open>Weak\<close> pointer to it. The model gives
  every \<open>Arc\<close> a number, and a weak pointer is that number. The storage directory is the association
  list of its files; which files can be written or removed is a parameter.
\<close>

section \<open>Stored bundles\<close>

datatype State =
    Received | Valid | DefragmentationPending | DeliveryQueued | Delivered | ForwardingQueued
  | Forwarded | Invalid

record StoredBundle =
  sb_arc :: nat
  sb_data :: bytes
  sb_state :: State
  sb_size :: u64
  sb_payload_size :: u64
  sb_min_size :: "u64 option"
  sb_primary_block :: PrimaryBlock

record StoredBundleRef =
  ref_arc :: nat
  ref_state :: State
  ref_size :: u64
  ref_payload_size :: u64
  ref_min_size :: "u64 option"
  ref_primary_block :: PrimaryBlock

definition id_from_pb :: "PrimaryBlock \<Rightarrow> u64 \<Rightarrow> string" where
  "id_from_pb pb sz =
     fmt_Endpoint (source_node pb) @ '':'' @
     show_u64 (creation_time (creation_timestamp pb)) @ '':'' @
     show_u64 (sequence_number (creation_timestamp pb)) @ '':'' @
     show_u64 (case fragment_offset pb of None \<Rightarrow> 0 | Some off \<Rightarrow> off) @ '':'' @
     show_u64 sz"

definition StoredBundle_get_id :: "StoredBundle \<Rightarrow> string" where
  "StoredBundle_get_id sb = id_from_pb (sb_primary_block sb) (sb_size sb)"

definition get_filename :: "StoredBundle \<Rightarrow> string" where
  "get_filename sb =
     map (\<lambda>c. if c = CHR ''/'' then CHR ''_'' else c) (id_from_pb (sb_primary_block sb) (sb_size sb))"

definition get_bundle :: "(bytes \<Rightarrow> cbor option) \<Rightarrow> StoredBundle \<Rightarrow> (Bundle, 'e) result" where
  "get_bundle dec sb = unwrap_result (Bundle_try_from dec (sb_data sb))"

definition get_ref :: "StoredBundle \<Rightarrow> StoredBundleRef" where
  "get_ref sb =
     \<lparr>ref_arc = sb_arc sb, ref_state = sb_state sb, ref_size = sb_size sb,
      ref_payload_size = sb_payload_size sb, ref_min_size = sb_min_size sb,
      ref_primary_block = sb_primary_block sb\<rparr>"

definition StoredBundleRef_get_id :: "StoredBundleRef \<Rightarrow> string" where
  "StoredBundleRef_get_id r = id_from_pb (ref_primary_block r) (ref_size r)"

text \<open>All equality instances compare the primary blocks only.\<close>

definition same_bundle :: "StoredBundle \<Rightarrow> StoredBundleRef \<Rightarrow> bool" where
  "same_bundle sb r \<longleftrightarrow> sb_primary_block sb = ref_primary_block r"

definition ref_eq :: "StoredBundleRef \<Rightarrow> StoredBundleRef \<Rightarrow> bool" where
  "ref_eq a b \<longleftrightarrow> ref_primary_block a = ref_primary_block b"

definition StoredBundle_from :: "(bytes \<Rightarrow> cbor option) \<Rightarrow> nat \<Rightarrow> bytes \<Rightarrow> (StoredBundle, 'e) result" where
  "StoredBundle_from dec arc bundle_data =
     and_then (unwrap_result (Bundle_try_from dec bundle_data)) (\<lambda>b.
     and_then (payload_block b) (\<lambda>p.
     Ok \<lparr>sb_arc = arc, sb_data = bundle_data, sb_state = Received,
         sb_size = of_nat (length bundle_data), sb_payload_size = of_nat (length (data p)),
         sb_min_size = None, sb_primary_block = primary_block b\<rparr>))"

section \<open>The agent\<close>

record storage_env =
  s_enc :: "cbor \<Rightarrow> bytes"
  s_dec :: "bytes \<Rightarrow> cbor option"
  s_writable :: "string \<Rightarrow> bool"
  s_removable :: "string \<Rightarrow> bool"

record StorageDaemon =
  bundles :: "StoredBundle list"
  storage_endpoint :: "Endpoint option"
  last_created_dtn_time :: "DtnTime option"
  last_sequence_number :: u64
  next_arc :: nat
  files :: "(string \<times> bytes) list"

text \<open>A handler returns the new state of the agent and the \<open>EventBundleUpdated\<close> messages it sends to
  the bundle protocol agent.\<close>

type_synonym 'e storage_act = "StorageDaemon \<Rightarrow> (StorageDaemon \<times> StoredBundleRef list, 'e) result"

definition write_bundle_to_file :: "storage_env \<Rightarrow> StoredBundle \<Rightarrow> StorageDaemon \<Rightarrow> StorageDaemon" where
  "write_bundle_to_file E sb d =
     (if s_writable E (get_filename sb)
      then d\<lparr>files := AList.update (get_filename sb) (sb_data sb) (files d)\<rparr> else d)"

definition delete_bundle_file :: "storage_env \<Rightarrow> StoredBundle \<Rightarrow> StorageDaemon \<Rightarrow> StorageDaemon" where
  "delete_bundle_file E sb d =
     (if s_removable E (get_filename sb)
      then d\<lparr>files := AList.delete (get_filename sb) (files d)\<rparr> else d)"

definition store_bundle ::
  "storage_env \<Rightarrow> bytes \<Rightarrow> u64 option \<Rightarrow> State \<Rightarrow> bool \<Rightarrow> 'e storage_act" where
  "store_bundle E bundle_data min_size state persist d =
     and_then (StoredBundle_from (s_dec E) (next_arc d) bundle_data) (\<lambda>sb.
     let sb = sb\<lparr>sb_min_size := min_size, sb_state := state\<rparr>;
         d = d\<lparr>next_arc := Suc (next_arc d)\<rparr>;
         d = (if persist then write_bundle_to_file E sb d else d)
     in Ok (d\<lparr>bundles := bundles d @ [sb]\<rparr>, [get_ref sb]))"

definition handle_StoreReceivedBundle :: "storage_env \<Rightarrow> bytes \<Rightarrow> 'e storage_act" where
  "handle_StoreReceivedBundle E bundle_data d = store_bundle E bundle_data None Received False d"

text \<open>The sequence number of a new bundle, counted per creation time.\<close>

definition next_sequence_number :: "DtnTime \<Rightarrow> StorageDaemon \<Rightarrow> StorageDaemon \<times> u64" where
  "next_sequence_number timestamp d =
     (if Some timestamp = last_created_dtn_time d
      then (d\<lparr>last_sequence_number := last_sequence_number d + 1\<rparr>, last_sequence_number d + 1)
      else (d\<lparr>last_created_dtn_time := Some timestamp, last_sequence_number := 0\<rparr>, 0))"

definition set_sequence_number :: "u64 \<Rightarrow> Bundle \<Rightarrow> Bundle" where
  "set_sequence_number n b =
     b\<lparr>primary_block := (primary_block b)
         \<lparr>creation_timestamp := (creation_timestamp (primary_block b))\<lparr>sequence_number := n\<rparr>\<rparr>\<rparr>"

definition handle_StoreNewBundle :: "storage_env \<Rightarrow> bytes \<Rightarrow> 'e storage_act" where
  "handle_StoreNewBundle E bundle_data d =
     and_then (unwrap_result (Bundle_try_from (s_dec E) bundle_data)) (\<lambda>b.
     and_then (unwrap (storage_endpoint d)) (\<lambda>e.
     and_then (matches_node (source_node (primary_block b)) e) (\<lambda>own.
     if \<not> own then Panic
     else assert_then (fragment_offset (primary_block b) = None)
       (let (d, n) = next_sequence_number (creation_time (creation_timestamp (primary_block b))) d
        in and_then (Bundle_to_vec (s_enc E) (set_sequence_number n b)) (\<lambda>bundle_data.
           and_then (StoredBundle_from (s_dec E) (next_arc d) bundle_data) (\<lambda>sb.
           Ok (d\<lparr>next_arc := Suc (next_arc d), bundles := bundles d @ [sb]\<rparr>, [get_ref sb])))))))"

text \<open>Every fragment is stored as a valid bundle; the first has its own smallest size.\<close>

fun store_fragments :: "storage_env \<Rightarrow> u64 \<Rightarrow> Bundle list \<Rightarrow> 'e storage_act" where
  "store_fragments E min_size [] d = Ok (d, [])"
| "store_fragments E min_size (b # bs) d =
     and_then (Bundle_to_vec (s_enc E) b) (\<lambda>bundle_data.
     and_then (store_bundle E bundle_data (Some min_size) Valid True d) (\<lambda>(d, es).
     and_then (store_fragments E min_size bs d) (\<lambda>(d, es').
     Ok (d, es @ es'))))"

definition handle_FragmentBundle :: "storage_env \<Rightarrow> StoredBundleRef \<Rightarrow> u64 \<Rightarrow> 'e storage_act" where
  "handle_FragmentBundle E r tsize d =
     (case position (\<lambda>b. same_bundle b r) (bundles d) of
        None \<Rightarrow> Ok (d, [])
      | Some idx \<Rightarrow>
          let sb = bundles d ! idx; d = d\<lparr>bundles := vec_remove idx (bundles d)\<rparr>
          in and_then (get_bundle (s_dec E) sb) (\<lambda>b.
             case fragment (s_enc E) b (unat tsize) of
               Ok ([], _, _) \<Rightarrow> Panic
             | Ok (f # fs, first_min_size, min_size) \<Rightarrow>
                 and_then (store_fragments E first_min_size [f] d) (\<lambda>(d, es).
                 and_then (store_fragments E min_size fs d) (\<lambda>(d, es').
                 Ok (delete_bundle_file E sb d, es @ es')))
             | Err (CanNotFragmentThatSmall min_size) \<Rightarrow>
                 (let sb = sb\<lparr>sb_min_size := Some min_size\<rparr>
                  in Ok (d\<lparr>bundles := bundles d @ [sb]\<rparr>, [get_ref sb]))
             | Err _ \<Rightarrow> Panic
             | Panic \<Rightarrow> Panic))"

text \<open>\<open>while i < bundles.len()\<close>: the bundles that belong together, and the others, in order.\<close>

fun take_fragments ::
  "(bytes \<Rightarrow> cbor option) \<Rightarrow> PrimaryBlock \<Rightarrow> StoredBundle list \<Rightarrow>
     (StoredBundle list \<times> StoredBundle list, 'e) result" where
  "take_fragments dec pb [] = Ok ([], [])"
| "take_fragments dec pb (sb # sbs) =
     and_then (get_bundle dec sb) (\<lambda>b.
     and_then (take_fragments dec pb sbs) (\<lambda>(fs, rest).
     Ok (if equals_ignoring_fragment_info (primary_block b) pb then (sb # fs, rest)
         else (fs, sb # rest))))"

definition try_defragment_bundle :: "storage_env \<Rightarrow> StoredBundleRef \<Rightarrow> 'e storage_act" where
  "try_defragment_bundle E r d =
     and_then (take_fragments (s_dec E) (ref_primary_block r) (bundles d)) (\<lambda>(fragments, rest).
     let d = d\<lparr>bundles := rest\<rparr> in
     assert_then (fragments \<noteq> [])
       (and_then (traverse (get_bundle (s_dec E)) fragments) (\<lambda>bs.
        case reassemble_bundles (s_enc E) bs of
          Ok bundledata \<Rightarrow>
            and_then (store_bundle E bundledata None Valid True d) (\<lambda>(d, es).
            Ok (fold (delete_bundle_file E) fragments d, es))
        | Err _ \<Rightarrow> Ok (d\<lparr>bundles := bundles d @ fragments\<rparr>, [])
        | Panic \<Rightarrow> Panic)))"

definition handle_UpdateBundle ::
  "storage_env \<Rightarrow> StoredBundleRef \<Rightarrow> State \<Rightarrow> bytes option \<Rightarrow> 'e storage_act" where
  "handle_UpdateBundle E r new_state new_data d =
     (case position (\<lambda>b. same_bundle b r) (bundles d) of
        None \<Rightarrow> Ok (d, [])
      | Some idx \<Rightarrow>
          let sb = bundles d ! idx;
              d = d\<lparr>bundles := vec_remove idx (bundles d)\<rparr>;
              d = (if new_state = Valid \<and> sb_state sb \<noteq> Valid then write_bundle_to_file E sb d else d)
          in if new_state \<in> {Valid, DeliveryQueued, ForwardingQueued} then
               let sb = sb\<lparr>sb_state := new_state\<rparr>;
                   (sb, d) = (case new_data of
                       Some dt \<Rightarrow> (sb\<lparr>sb_arc := next_arc d, sb_data := dt\<rparr>, d\<lparr>next_arc := Suc (next_arc d)\<rparr>)
                     | None \<Rightarrow> (sb, d))
               in Ok (d\<lparr>bundles := bundles d @ [sb]\<rparr>, [get_ref sb])
             else if new_state = DefragmentationPending then
               try_defragment_bundle E (get_ref sb) (d\<lparr>bundles := bundles d @ [sb]\<rparr>)
             else if new_state \<in> {Delivered, Forwarded, Invalid} then
               Ok (delete_bundle_file E sb d, [])
             else Panic)"

definition handle_GetBundleForDestination ::
  "storage_env \<Rightarrow> Endpoint \<Rightarrow> StorageDaemon \<Rightarrow> (StoredBundleRef list, 'e) result" where
  "handle_GetBundleForDestination E destination d =
     and_then (traverse (\<lambda>sb. map_ok (\<lambda>b. (sb, b)) (get_bundle (s_dec E) sb)) (bundles d)) (\<lambda>ps.
     Ok (map (get_ref \<circ> fst) (filter (\<lambda>(sb, b). destination_endpoint (primary_block b) = destination) ps)))"

definition handle_GetBundleForNode ::
  "storage_env \<Rightarrow> Endpoint \<Rightarrow> StorageDaemon \<Rightarrow> (StoredBundleRef list, 'e) result" where
  "handle_GetBundleForNode E destination d =
     and_then (traverse (\<lambda>sb. and_then (get_bundle (s_dec E) sb) (\<lambda>b.
         map_ok (Pair sb) (matches_node (destination_endpoint (primary_block b)) destination))) (bundles d)) (\<lambda>ps.
     Ok (map (get_ref \<circ> fst) (filter snd ps)))"

section \<open>Messages\<close>

datatype storage_message =
    StoreReceivedBundle bytes
  | StoreNewBundle bytes
  | FragmentBundle StoredBundleRef u64
  | UpdateBundle StoredBundleRef State "bytes option"

fun storage_step :: "storage_env \<Rightarrow> storage_message \<Rightarrow> 'e storage_act" where
  "storage_step E (StoreReceivedBundle x) d = handle_StoreReceivedBundle E x d"
| "storage_step E (StoreNewBundle x) d = handle_StoreNewBundle E x d"
| "storage_step E (FragmentBundle r n) d = handle_FragmentBundle E r n d"
| "storage_step E (UpdateBundle r st nd) d = handle_UpdateBundle E r st nd d"

section \<open>Starting\<close>

text \<open>\<open>started\<close>: every file of the storage directory is read back as a valid bundle.\<close>

fun load_bundles ::
  "(bytes \<Rightarrow> cbor option) \<Rightarrow> nat \<Rightarrow> (string \<times> bytes) list \<Rightarrow> (StoredBundle list, 'e) result" where
  "load_bundles dec arc [] = Ok []"
| "load_bundles dec arc ((name, content) # fs) =
     and_then (StoredBundle_from dec arc content) (\<lambda>sb.
     if get_filename sb \<noteq> name then Panic
     else and_then (load_bundles dec (Suc arc) fs) (\<lambda>sbs. Ok (sb\<lparr>sb_state := Valid\<rparr> # sbs)))"

definition storage_started ::
  "storage_env \<Rightarrow> string \<Rightarrow> (string \<times> bytes) list \<Rightarrow> (StorageDaemon \<times> StoredBundleRef list, 'e) result" where
  "storage_started E my_node_id dir =
     and_then (unwrap (Endpoint_new my_node_id)) (\<lambda>e.
     and_then (load_bundles (s_dec E) 0 dir) (\<lambda>sbs.
     Ok (\<lparr>bundles = sbs, storage_endpoint = Some e, last_created_dtn_time = None,
          last_sequence_number = 0, next_arc = length sbs, files = dir\<rparr>, map get_ref sbs)))"

end
