(* ===== verification/Dtrd_Routing.thy ===== *)
theory Dtrd_Routing
  imports Endpoint Rust_Collections
begin

text \<open>
  \<open>dtrd/src/routingagent\<close>: the routing agent. It keeps, for every target, the set of known routes
  and publishes to the bundle protocol agent the preferred next hop of every target that has one.


  \<open>sort_unstable_by_key\<close> is a parameter, since the standard library leaves the order of equal keys
  open.
\<close>

section \<open>Routes\<close>

datatype RouteType = Connected | Static

fun route_rank :: "RouteType \<Rightarrow> nat" where
  "route_rank Connected = 0"
| "route_rank Static = 1"

instantiation RouteType :: linorder
begin

definition less_eq_RouteType :: "RouteType \<Rightarrow> RouteType \<Rightarrow> bool" where
  "less_eq_RouteType a b \<longleftrightarrow> route_rank a \<le> route_rank b"

definition less_RouteType :: "RouteType \<Rightarrow> RouteType \<Rightarrow> bool" where
  "less_RouteType a b \<longleftrightarrow> route_rank a < route_rank b"

instance
proof
  fix a b :: RouteType
  show "a \<le> b \<Longrightarrow> b \<le> a \<Longrightarrow> a = b"
    by (cases a; cases b) (simp_all add: less_eq_RouteType_def)
qed (auto simp: less_eq_RouteType_def less_RouteType_def)

end

record RouteEntry =
  route_type :: RouteType
  next_hop :: Endpoint
  max_bundle_size :: "u64 option"

text \<open>\<open>RouteEntry::eq\<close> and \<open>RouteEntry::hash\<close> leave the maximal bundle size out.\<close>

definition RouteEntry_eq :: "RouteEntry \<Rightarrow> RouteEntry \<Rightarrow> bool" where
  "RouteEntry_eq a b \<longleftrightarrow> route_type a = route_type b \<and> next_hop a = next_hop b"

record RouteStatus =
  rs_target :: Endpoint
  rs_next_hop :: Endpoint
  rs_route_type :: RouteType
  rs_preferred :: bool
  rs_available :: bool
  rs_max_bundle_size :: "u64 option"

record NexthopInfo =
  nh_next_hop :: Endpoint
  nh_max_size :: "u64 option"

type_synonym RoutingTable = "(Endpoint \<times> NexthopInfo) list"

datatype EventRoutingTableUpdate = EventRoutingTableUpdate RoutingTable

datatype RouteMessage =
    AddRoute Endpoint RouteType Endpoint "u64 option"
  | RemoveRoute Endpoint RouteType Endpoint

record RoutingDaemon =
  routes :: "(Endpoint \<times> RouteEntry list) list"
  last_routing_table :: "RoutingTable option"

definition RoutingDaemon_default :: RoutingDaemon where
  "RoutingDaemon_default = \<lparr>routes = [], last_routing_table = None\<rparr>"

text \<open>\<open>entry(target).or_default()\<close>.\<close>

definition entries :: "(Endpoint \<times> RouteEntry list) list \<Rightarrow> Endpoint \<Rightarrow> RouteEntry list" where
  "entries rs t = (case map_of rs t of None \<Rightarrow> [] | Some es \<Rightarrow> es)"

section \<open>Choosing routes\<close>

definition get_connected_routes :: "RoutingDaemon \<Rightarrow> Endpoint list" where
  "get_connected_routes d =
     map fst (filter (\<lambda>(t, es). \<exists>r \<in> set es. route_type r = Connected) (routes d))"

definition route_status :: "Endpoint list \<Rightarrow> Endpoint \<Rightarrow> RouteEntry \<Rightarrow> RouteStatus" where
  "route_status conn t r =
     \<lparr>rs_target = t, rs_next_hop = next_hop r, rs_route_type = route_type r, rs_preferred = False,
      rs_available = (route_type r = Connected \<or> next_hop r \<in> set conn),
      rs_max_bundle_size = max_bundle_size r\<rparr>"

definition mark_preferred :: "RouteStatus list \<Rightarrow> RouteStatus list" where
  "mark_preferred rs =
     (case rs of
        [] \<Rightarrow> []
      | r # rest \<Rightarrow> if rs_available r then r\<lparr>rs_preferred := True\<rparr> # rest else rs)"

definition get_routes ::
  "(RouteStatus list \<Rightarrow> RouteStatus list) \<Rightarrow> RoutingDaemon \<Rightarrow> RouteStatus list" where
  "get_routes srt d =
     (let conn = get_connected_routes d in
      concat (map (\<lambda>(t, es). mark_preferred (srt (map (route_status conn t) es))) (routes d)))"

definition routing_table ::
  "(RouteStatus list \<Rightarrow> RouteStatus list) \<Rightarrow> RoutingDaemon \<Rightarrow> RoutingTable" where
  "routing_table srt d =
     collect_map (map (\<lambda>rs. (rs_target rs,
         \<lparr>nh_next_hop = rs_next_hop rs, nh_max_size = rs_max_bundle_size rs\<rparr>))
       (filter rs_preferred (get_routes srt d)))"

definition send_route_update ::
  "(RouteStatus list \<Rightarrow> RouteStatus list) \<Rightarrow> RoutingDaemon \<Rightarrow> EventRoutingTableUpdate list" where
  "send_route_update srt d =
     (let t = routing_table srt d in
      case last_routing_table d of
        Some lrt \<Rightarrow> if hash_map_eq lrt t then [] else [EventRoutingTableUpdate t]
      | None \<Rightarrow> [EventRoutingTableUpdate t])"

section \<open>Handlers\<close>

text \<open>Every handler returns the daemon it leaves behind and the messages it sends, in order.\<close>

definition handle_AddRoute ::
  "(RouteStatus list \<Rightarrow> RouteStatus list) \<Rightarrow> Endpoint \<Rightarrow> RouteType \<Rightarrow> Endpoint \<Rightarrow> u64 option \<Rightarrow>
     RoutingDaemon \<Rightarrow> RoutingDaemon \<times> EventRoutingTableUpdate list" where
  "handle_AddRoute srt tgt ty nh mx d =
     (let es = entries (routes d) tgt;
          e = \<lparr>route_type = ty, next_hop = nh, max_bundle_size = mx\<rparr>
      in if \<exists>x \<in> set es. RouteEntry_eq x e
         then (d\<lparr>routes := AList.update tgt es (routes d)\<rparr>, [])
         else let d' = d\<lparr>routes := AList.update tgt (es @ [e]) (routes d)\<rparr>
              in (d', send_route_update srt d'))"

definition handle_RemoveRoute ::
  "(RouteStatus list \<Rightarrow> RouteStatus list) \<Rightarrow> Endpoint \<Rightarrow> RouteType \<Rightarrow> Endpoint \<Rightarrow>
     RoutingDaemon \<Rightarrow> RoutingDaemon \<times> EventRoutingTableUpdate list" where
  "handle_RemoveRoute srt tgt ty nh d =
     (let es = entries (routes d) tgt;
          e = \<lparr>route_type = ty, next_hop = nh, max_bundle_size = None\<rparr>
      in if \<exists>x \<in> set es. RouteEntry_eq x e
         then let d' = d\<lparr>routes := AList.update tgt (filter (\<lambda>x. \<not> RouteEntry_eq x e) es) (routes d)\<rparr>
              in (d', send_route_update srt d')
         else (d\<lparr>routes := AList.update tgt es (routes d)\<rparr>, []))"

definition handle_ListRoutes ::
  "(RouteStatus list \<Rightarrow> RouteStatus list) \<Rightarrow> RoutingDaemon \<Rightarrow> RouteStatus list" where
  "handle_ListRoutes srt d = get_routes srt d"

fun routing_step ::
  "(RouteStatus list \<Rightarrow> RouteStatus list) \<Rightarrow> RouteMessage \<Rightarrow> RoutingDaemon \<Rightarrow>
     RoutingDaemon \<times> EventRoutingTableUpdate list" where
  "routing_step srt (AddRoute tgt ty nh mx) d = handle_AddRoute srt tgt ty nh mx d"
| "routing_step srt (RemoveRoute tgt ty nh) d = handle_RemoveRoute srt tgt ty nh d"

text \<open>The mailbox of the agent: the messages are handled one after the other.\<close>

fun routing_run ::
  "(RouteStatus list \<Rightarrow> RouteStatus list) \<Rightarrow> RouteMessage list \<Rightarrow> RoutingDaemon \<Rightarrow>
     RoutingDaemon \<times> EventRoutingTableUpdate list" where
  "routing_run srt [] d = (d, [])"
| "routing_run srt (m # ms) d =
     (let (d1, o1) = routing_step srt m d; (d2, o2) = routing_run srt ms d1 in (d2, o1 @ o2))"

section \<open>Entries of a target\<close>

lemma entries_update: "entries (AList.update t es rs) u = (if u = t then es else entries rs u)"
  by (simp add: entries_def map_of_update)

lemma entries_in: "distinct (map fst rs) \<Longrightarrow> (t, es) \<in> set rs \<Longrightarrow> entries rs t = es"
  by (simp add: entries_def)

lemma entries_Nil [simp]: "entries [] t = []"
  by (simp add: entries_def)

section \<open>The published table\<close>

text \<open>What the standard library documents of \<open>sort_unstable_by_key(|e| e.route_type)\<close>.\<close>

locale unstable_sort =
  fixes srt :: "RouteStatus list \<Rightarrow> RouteStatus list"
  assumes permutes: "mset (srt xs) = mset xs"
    and sorts: "sorted (map rs_route_type (srt xs))"
begin

lemma set_srt [simp]: "set (srt xs) = set xs"
  by (rule mset_eq_setD [OF permutes])

lemma srt_Nil [simp]: "srt [] = []"
  using permutes [of "[]"] by simp

lemma srt_head_least: "srt xs = r # rest \<Longrightarrow> x \<in> set xs \<Longrightarrow> rs_route_type r \<le> rs_route_type x"
proof -
  assume r: "srt xs = r # rest" and x: "x \<in> set xs"
  have "x \<in> set (r # rest)"
    using x set_srt [of xs] by (simp add: r)
  then show ?thesis
    using sorts [of xs] by (auto simp: r)
qed

end

interpretation stable_sort: unstable_sort "sort_key rs_route_type"
  by unfold_locales simp_all

definition routing_inv :: "RoutingDaemon \<Rightarrow> bool" where
  "routing_inv d \<longleftrightarrow> distinct (map fst (routes d)) \<and> last_routing_table d = None \<and>
     (\<forall>(t, es) \<in> set (routes d). distinct (map (\<lambda>e. (route_type e, next_hop e)) es))"

definition is_available :: "RoutingDaemon \<Rightarrow> RouteEntry \<Rightarrow> bool" where
  "is_available d e \<longleftrightarrow> route_type e = Connected \<or>
     (\<exists>c \<in> set (entries (routes d) (next_hop e)). route_type c = Connected)"

definition to_nexthop :: "RouteEntry \<Rightarrow> NexthopInfo" where
  "to_nexthop e = \<lparr>nh_next_hop = next_hop e, nh_max_size = max_bundle_size e\<rparr>"

text \<open>What the published table promises for one target: a next hop comes from a route of the
  target that can be used now, a direct connection wins over every static route, and a target is
  left out only when it has no direct connection and one of its routes cannot be used.\<close>

definition good_choice :: "RoutingDaemon \<Rightarrow> Endpoint \<Rightarrow> NexthopInfo option \<Rightarrow> bool" where
  "good_choice d t c \<longleftrightarrow>
     (case c of
        Some nh \<Rightarrow> \<exists>e \<in> set (entries (routes d) t). nh = to_nexthop e \<and> is_available d e \<and>
          ((\<exists>x \<in> set (entries (routes d) t). route_type x = Connected) \<longrightarrow> route_type e = Connected)
      | None \<Rightarrow> (\<forall>x \<in> set (entries (routes d) t). route_type x = Static) \<and>
          (entries (routes d) t = [] \<or> (\<exists>x \<in> set (entries (routes d) t). \<not> is_available d x)))"

definition preferred_of ::
  "(RouteStatus list \<Rightarrow> RouteStatus list) \<Rightarrow> Endpoint list \<Rightarrow> Endpoint \<Rightarrow> RouteEntry list \<Rightarrow>
     RouteStatus option" where
  "preferred_of srt conn t es =
     (case srt (map (route_status conn t) es) of
        [] \<Rightarrow> None
      | r # rest \<Rightarrow> if rs_available r then Some r else None)"

definition status_nexthop :: "RouteStatus \<Rightarrow> NexthopInfo" where
  "status_nexthop r = \<lparr>nh_next_hop = rs_next_hop r, nh_max_size = rs_max_bundle_size r\<rparr>"

lemma in_get_connected_routes:
  "distinct (map fst (routes d)) \<Longrightarrow>
   t \<in> set (get_connected_routes d) \<longleftrightarrow> (\<exists>c \<in> set (entries (routes d) t). route_type c = Connected)"
  by (force simp: get_connected_routes_def entries_def split: option.splits dest: map_of_SomeD)

lemma available_status:
  "distinct (map fst (routes d)) \<Longrightarrow>
   rs_available (route_status (get_connected_routes d) t e) = is_available d e"
  by (simp add: route_status_def is_available_def in_get_connected_routes)

context unstable_sort
begin

lemma preferred_only_head:
  "map (\<lambda>r. (rs_target r, status_nexthop r))
       (filter rs_preferred (mark_preferred (srt (map (route_status conn t) es)))) =
   (case preferred_of srt conn t es of None \<Rightarrow> [] | Some r \<Rightarrow> [(t, status_nexthop r)])"
proof (cases "srt (map (route_status conn t) es)")
  case Nil
  then show ?thesis
    by (simp add: mark_preferred_def preferred_of_def)
next
  case (Cons r rest)
  have st: "\<exists>e. x = route_status conn t e" if "x \<in> set (r # rest)" for x
    using that set_srt [of "map (route_status conn t) es"] by (auto simp: Cons)
  have "\<not> rs_preferred x" if "x \<in> set rest" for x
    using st [of x] that by (auto simp: route_status_def)
  then have "filter rs_preferred rest = []"
    by (simp add: filter_empty_conv)
  then show ?thesis
    using st [of r] by (auto simp: mark_preferred_def preferred_of_def Cons route_status_def
        status_nexthop_def)
qed

lemma routing_table_lookup:
  assumes "distinct (map fst (routes d))"
  shows "map_of (routing_table srt d) t =
    map_option status_nexthop
      (preferred_of srt (get_connected_routes d) t (entries (routes d) t))"
proof -
  let ?conn = "get_connected_routes d"
  let ?one = "\<lambda>(t, es). case preferred_of srt ?conn t es of None \<Rightarrow> [] | Some r \<Rightarrow> [(t, status_nexthop r)]"
  have tab: "routing_table srt d = collect_map (concat (map ?one (routes d)))"
    by (simp add: routing_table_def get_routes_def Let_def map_concat filter_concat comp_def
        case_prod_unfold preferred_only_head [symmetric] status_nexthop_def)
  have none: "preferred_of srt ?conn t [] = None"
    by (simp add: preferred_of_def)
  have "map_of (rev (concat (map ?one rs))) t =
      (case map_of rs t of None \<Rightarrow> None | Some es \<Rightarrow> map_option status_nexthop (preferred_of srt ?conn t es))"
    if "distinct (map fst rs)" for rs
    using that
  proof (induction rs)
    case (Cons p rs)
    obtain u es where p: "p = (u, es)"
      by (cases p)
    have IH: "map_of (rev (concat (map ?one rs))) t =
        (case map_of rs t of None \<Rightarrow> None | Some es \<Rightarrow> map_option status_nexthop (preferred_of srt ?conn t es))"
      using Cons by simp
    show ?case
    proof (cases "t = u")
      case True
      then have "map_of rs t = None"
        using Cons.prems by (simp add: p map_of_eq_None_iff)
      then show ?thesis
        using IH by (simp add: p True map_add_def split: option.splits)
    next
      case False
      then show ?thesis
        using IH by (simp add: p map_add_def split: option.splits)
    qed
  qed simp
  then show ?thesis
    using assms none by (auto simp: tab map_of_collect_map entries_def split: option.splits)
qed

lemma routing_table_good:
  assumes "distinct (map fst (routes d))"
  shows "good_choice d t (map_of (routing_table srt d) t)"
proof (cases "srt (map (route_status (get_connected_routes d) t) (entries (routes d) t))")
  case Nil
  then have "set (map (route_status (get_connected_routes d) t) (entries (routes d) t)) = {}"
    using set_srt [of "map (route_status (get_connected_routes d) t) (entries (routes d) t)"] by simp
  then show ?thesis
    by (simp add: routing_table_lookup [OF assms] preferred_of_def Nil good_choice_def)
next
  case (Cons r rest)
  then obtain e where e: "e \<in> set (entries (routes d) t)" "r = route_status (get_connected_routes d) t e"
    using set_srt [of "map (route_status (get_connected_routes d) t) (entries (routes d) t)"] by auto
  have least: "route_type e \<le> route_type x" if "x \<in> set (entries (routes d) t)" for x
    using srt_head_least [OF Cons, of "route_status (get_connected_routes d) t x"] that
    by (simp add: e(2) route_status_def)
  have conn: "route_type x = Connected \<Longrightarrow> route_type e = Connected" if "x \<in> set (entries (routes d) t)" for x
    using least [OF that] by (cases "route_type e") (simp_all add: less_eq_RouteType_def)
  have av: "rs_available r = is_available d e"
    by (simp add: e(2) available_status [OF assms])
  have nh: "status_nexthop r = to_nexthop e"
    by (simp add: e(2) status_nexthop_def to_nexthop_def route_status_def)
  show ?thesis
  proof (cases "is_available d e")
    case True
    then show ?thesis
      using e(1) conn by (auto simp: routing_table_lookup [OF assms] preferred_of_def Cons av nh good_choice_def)
  next
    case False
    then have "route_type x = Static" if "x \<in> set (entries (routes d) t)" for x
      using conn [OF that] by (cases "route_type x") (auto simp: is_available_def)
    then show ?thesis
      using e(1) False
      by (auto simp: routing_table_lookup [OF assms] preferred_of_def Cons av good_choice_def)
  qed
qed

end

section \<open>Running the agent\<close>

text \<open>The abstract state is a set of routes, to which a message adds or from which it removes.\<close>

definition route_set :: "RoutingDaemon \<Rightarrow> (Endpoint \<times> RouteType \<times> Endpoint) set" where
  "route_set d = {(t, route_type e, next_hop e) |t e. e \<in> set (entries (routes d) t)}"

fun abs_route ::
  "RouteMessage \<Rightarrow> (Endpoint \<times> RouteType \<times> Endpoint) set \<Rightarrow> (Endpoint \<times> RouteType \<times> Endpoint) set"
where
  "abs_route (AddRoute t ty nh mx) S = insert (t, ty, nh) S"
| "abs_route (RemoveRoute t ty nh) S = S - {(t, ty, nh)}"

definition published :: "EventRoutingTableUpdate list \<Rightarrow> RoutingTable" where
  "published sent = (if sent = [] then [] else case last sent of EventRoutingTableUpdate t \<Rightarrow> t)"

lemma route_set_default [simp]: "route_set RoutingDaemon_default = {}"
  by (simp add: route_set_def RoutingDaemon_default_def)

lemma routing_inv_default [simp]: "routing_inv RoutingDaemon_default"
  by (simp add: routing_inv_def RoutingDaemon_default_def)

lemma in_route_set:
  "(t, ty, nh) \<in> route_set d \<longleftrightarrow> (\<exists>e \<in> set (entries (routes d) t). route_type e = ty \<and> next_hop e = nh)"
  by (auto simp: route_set_def)

lemma entries_distinct:
  "routing_inv d \<Longrightarrow> distinct (map (\<lambda>e. (route_type e, next_hop e)) (entries (routes d) t))"
  by (auto simp: routing_inv_def entries_def split: option.splits dest!: map_of_SomeD)

lemma routing_inv_update:
  assumes "routing_inv d" "distinct (map (\<lambda>e. (route_type e, next_hop e)) es)"
  shows "routing_inv (d\<lparr>routes := AList.update t es (routes d)\<rparr>)"
proof -
  have "set (AList.update t es rs) \<subseteq> insert (t, es) (set rs)" for rs
    by (induction rs) auto
  then show ?thesis
    using assms by (fastforce simp: routing_inv_def distinct_update)
qed

lemma routing_step_inv:
  assumes "routing_inv d"
  shows "routing_inv (fst (routing_step srt m d))"
  using entries_distinct [OF assms]
  by (cases m) (auto simp: handle_AddRoute_def handle_RemoveRoute_def Let_def RouteEntry_eq_def
      intro!: routing_inv_update [OF assms] distinct_map_filter)

lemma routing_step_abs: "route_set (fst (routing_step srt m d)) = abs_route m (route_set d)"
proof (cases m)
  case (AddRoute t ty nh mx)
  show ?thesis
    by (rule set_eqI) (auto simp: AddRoute handle_AddRoute_def Let_def RouteEntry_eq_def in_route_set
        entries_update split: if_splits)
next
  case (RemoveRoute t ty nh)
  show ?thesis
    by (rule set_eqI) (auto simp: RemoveRoute handle_RemoveRoute_def Let_def RouteEntry_eq_def
        in_route_set entries_update split: if_splits)
qed

lemma routing_step_cases:
  assumes "last_routing_table d = None"
  shows "(snd (routing_step srt m d) = [EventRoutingTableUpdate (routing_table srt (fst (routing_step srt m d)))]) \<or>
    (snd (routing_step srt m d) = [] \<and> (\<forall>t. entries (routes (fst (routing_step srt m d))) t = entries (routes d) t))"
  using assms
  by (cases m) (auto simp: handle_AddRoute_def handle_RemoveRoute_def Let_def send_route_update_def
      entries_update)

context unstable_sort
begin

lemma routing_table_cong:
  assumes "distinct (map fst (routes d))" "distinct (map fst (routes d'))"
    "\<And>t. entries (routes d') t = entries (routes d) t"
  shows "map_of (routing_table srt d') t = map_of (routing_table srt d) t"
proof -
  have "set (get_connected_routes d') = set (get_connected_routes d)"
    using assms by (auto simp: in_get_connected_routes)
  then have "route_status (get_connected_routes d') = route_status (get_connected_routes d)"
    by (simp add: route_status_def fun_eq_iff)
  then show ?thesis
    using assms by (simp add: routing_table_lookup preferred_of_def)
qed

lemma routing_run_published:
  assumes "routing_inv d" "\<And>t. map_of tab t = map_of (routing_table srt d) t"
  shows "map_of (if snd (routing_run srt ms d) = [] then tab else published (snd (routing_run srt ms d))) t =
    map_of (routing_table srt (fst (routing_run srt ms d))) t"
  using assms
proof (induction ms arbitrary: d tab)
  case Nil
  then show ?case
    by simp
next
  case (Cons m ms)
  obtain d1 o1 where s1: "routing_step srt m d = (d1, o1)"
    by (cases "routing_step srt m d")
  obtain d2 o2 where s2: "routing_run srt ms d1 = (d2, o2)"
    by (cases "routing_run srt ms d1")
  have inv1: "routing_inv d1"
    using routing_step_inv [OF Cons.prems(1), of srt m] by (simp add: s1)
  have l: "last_routing_table d = None"
    using Cons.prems(1) by (simp add: routing_inv_def)
  let ?tab1 = "if o1 = [] then tab else published o1"
  have tab1: "map_of ?tab1 t = map_of (routing_table srt d1) t" for t
    using routing_step_cases [OF l, of srt m]
  proof
    assume "snd (routing_step srt m d) = [EventRoutingTableUpdate (routing_table srt (fst (routing_step srt m d)))]"
    then show ?thesis
      by (simp add: s1 published_def)
  next
    assume a: "snd (routing_step srt m d) = [] \<and>
      (\<forall>t. entries (routes (fst (routing_step srt m d))) t = entries (routes d) t)"
    have "map_of (routing_table srt d1) t = map_of (routing_table srt d) t"
      by (rule routing_table_cong) (use a inv1 Cons.prems(1) in \<open>auto simp: s1 routing_inv_def\<close>)
    then show ?thesis
      using a Cons.prems(2) by (simp add: s1)
  qed
  have "map_of (if o2 = [] then ?tab1 else published o2) t = map_of (routing_table srt d2) t"
    using Cons.IH [OF inv1 tab1] by (simp only: s2 fst_conv snd_conv)
  then show ?case
    by (simp add: s1 s2 published_def split: if_splits)
qed

end

lemma routing_run_inv: "routing_inv d \<Longrightarrow> routing_inv (fst (routing_run srt ms d))"
proof (induction ms arbitrary: d)
  case (Cons m ms)
  then show ?case
    using routing_step_inv [OF Cons.prems, of srt m] by (simp add: case_prod_unfold Let_def)
qed simp

lemma routing_run_abs: "route_set (fst (routing_run srt ms d)) = fold abs_route ms (route_set d)"
  by (induction ms arbitrary: d) (simp_all add: case_prod_unfold Let_def routing_step_abs)

end
