(* ===== verification/Dtrd_Nodes.thy ===== *)
theory Dtrd_Nodes
  imports Dtrd_Routing
begin

text \<open>
  \<open>dtrd/src/nodeagent\<close>, \<open>dtrd/src/converganceagent\<close> and \<open>dtrd/src/tcpclconverganceagent\<close>: the
  agents that know the neighbours of this node. The node agent keeps the list of neighbours, the
  convergence agent the channels to the connected ones, the TCPCL server the running sessions.
  Every handler is a function from the agent's state to its new state and the messages it sends;
  \<open>net_run\<close> composes the agents with the routing agent.

  A \<open>Url\<close> is its text; the scheme that the \<open>url\<close> crate reads from it is a parameter. The address of
  an actor is a number.
\<close>

type_synonym Url = string
type_synonym addr = nat

section \<open>Messages\<close>

datatype net_message =
    AddNode Url
  | RemoveNode Url
  | TryConnect
  | NotifyNodeConnected Url Endpoint u64
  | NotifyNodeDisconnected Url
  | AgentConnectNode Url
  | AgentDisconnectNode Url
  | CLRegisterNode Url Endpoint u64 addr
  | CLUnregisterNode Url "Endpoint option"
  | ConnectRemote Url
  | DisconnectRemote Url
  | NewClientConnectedOnSocket Url
  | ToRouting RouteMessage

text \<open>Messages that leave these agents: to the bundle protocol agent and to the sessions.\<close>

datatype net_output =
    EventPeerConnected Endpoint addr
  | EventPeerDisconnected Endpoint
  | RoutingTableUpdate EventRoutingTableUpdate
  | ShutdownSession addr

section \<open>Node agent\<close>

datatype NodeConnectionStatus = Disconnected | Connected | Connecting | Disconnecting

fun fmt_NodeConnectionStatus :: "NodeConnectionStatus \<Rightarrow> string" where
  "fmt_NodeConnectionStatus Disconnected = ''Disconnected''"
| "fmt_NodeConnectionStatus Connected = ''Connected''"
| "fmt_NodeConnectionStatus Connecting = ''Connecting''"
| "fmt_NodeConnectionStatus Disconnecting = ''Disconnecting''"

record Node =
  url :: Url
  connection_status :: NodeConnectionStatus
  remote_endpoint :: "Endpoint option"
  temporary :: bool

definition Node_eq :: "Node \<Rightarrow> Node \<Rightarrow> bool" where
  "Node_eq a b \<longleftrightarrow> url a = url b"

record NodeDaemon =
  nodes :: "Node list"

definition handle_ListNodes :: "NodeDaemon \<Rightarrow> Node list" where
  "handle_ListNodes d = nodes d"

definition new_node :: "Url \<Rightarrow> Node" where
  "new_node u =
     \<lparr>url = u, connection_status = Disconnected, remote_endpoint = None, temporary = False\<rparr>"

definition handle_AddNode :: "Url \<Rightarrow> NodeDaemon \<Rightarrow> NodeDaemon \<times> net_message list" where
  "handle_AddNode u d =
     (if \<not> (\<exists>x \<in> set (nodes d). Node_eq x (new_node u))
      then (d\<lparr>nodes := nodes d @ [(new_node u)\<lparr>connection_status := Connecting\<rparr>]\<rparr>,
            [AgentConnectNode u])
      else (d, []))"

definition handle_RemoveNode :: "Url \<Rightarrow> NodeDaemon \<Rightarrow> NodeDaemon \<times> net_message list" where
  "handle_RemoveNode u d =
     (case position (\<lambda>x. Node_eq x (new_node u)) (nodes d) of
        Some pos \<Rightarrow>
          (d\<lparr>nodes := (nodes d)[pos := (nodes d ! pos)\<lparr>temporary := True,
                                              connection_status := Disconnecting\<rparr>]\<rparr>,
           [AgentDisconnectNode u])
      | None \<Rightarrow> (d, []))"

definition handle_NotifyNodeConnected ::
  "Url \<Rightarrow> Endpoint \<Rightarrow> u64 \<Rightarrow> NodeDaemon \<Rightarrow> NodeDaemon \<times> net_message list" where
  "handle_NotifyNodeConnected u e mx d =
     ((case position (\<lambda>n. url n = u) (nodes d) of
         Some pos \<Rightarrow>
           d\<lparr>nodes := (nodes d)[pos := (nodes d ! pos)\<lparr>connection_status := Connected,
                                              remote_endpoint := Some e\<rparr>]\<rparr>
       | None \<Rightarrow>
           d\<lparr>nodes := nodes d @ [\<lparr>url = u, connection_status = Connected,
                                 remote_endpoint = Some e, temporary = True\<rparr>]\<rparr>),
      [ToRouting (AddRoute e RouteType.Connected e (Some mx))])"

definition handle_NotifyNodeDisconnected ::
  "Url \<Rightarrow> NodeDaemon \<Rightarrow> NodeDaemon \<times> net_message list" where
  "handle_NotifyNodeDisconnected u d =
     (case position (\<lambda>n. url n = u) (nodes d) of
        Some pos \<Rightarrow>
          (let n = nodes d ! pos in
           (if temporary n then d\<lparr>nodes := vec_remove pos (nodes d)\<rparr>
            else d\<lparr>nodes := (nodes d)[pos := n\<lparr>connection_status := Disconnected,
                                               remote_endpoint := None\<rparr>]\<rparr>,
            case remote_endpoint n of
              Some e \<Rightarrow> [ToRouting (RemoveRoute e RouteType.Connected e)]
            | None \<Rightarrow> []))
      | None \<Rightarrow> (d, []))"

definition reconnects :: "Node \<Rightarrow> bool" where
  "reconnects n \<longleftrightarrow> connection_status n = Disconnected \<and> \<not> temporary n"

definition handle_TryConnect :: "NodeDaemon \<Rightarrow> NodeDaemon \<times> net_message list" where
  "handle_TryConnect d =
     (d\<lparr>nodes := map (\<lambda>n. if reconnects n then n\<lparr>connection_status := Connecting\<rparr> else n) (nodes d)\<rparr>,
      map (\<lambda>n. AgentConnectNode (url n)) (filter reconnects (nodes d)))"

section \<open>Convergence agent\<close>

record ConvDaemon =
  connected_nodes :: "(Endpoint \<times> addr) list"

definition handle_AgentConnectNode :: "(Url \<Rightarrow> string) \<Rightarrow> Url \<Rightarrow> net_message list" where
  "handle_AgentConnectNode scheme u = (if scheme u = ''tcpcl'' then [ConnectRemote u] else [])"

definition handle_AgentDisconnectNode :: "(Url \<Rightarrow> string) \<Rightarrow> Url \<Rightarrow> net_message list" where
  "handle_AgentDisconnectNode scheme u = (if scheme u = ''tcpcl'' then [DisconnectRemote u] else [])"

definition handle_CLRegisterNode ::
  "Url \<Rightarrow> Endpoint \<Rightarrow> u64 \<Rightarrow> addr \<Rightarrow> ConvDaemon \<Rightarrow> ConvDaemon \<times> net_message list \<times> net_output list"
where
  "handle_CLRegisterNode u e mx a c =
     (c\<lparr>connected_nodes := AList.update e a (connected_nodes c)\<rparr>,
      [NotifyNodeConnected u e mx], [EventPeerConnected e a])"

definition handle_CLUnregisterNode ::
  "Url \<Rightarrow> Endpoint option \<Rightarrow> ConvDaemon \<Rightarrow> ConvDaemon \<times> net_message list \<times> net_output list"
where
  "handle_CLUnregisterNode u nd c =
     (case nd of
        Some e \<Rightarrow> (c\<lparr>connected_nodes := AList.delete e (connected_nodes c)\<rparr>,
                   [NotifyNodeDisconnected u], [EventPeerDisconnected e])
      | None \<Rightarrow> (c, [NotifyNodeDisconnected u], []))"

section \<open>TCPCL server\<close>

text \<open>
  \<open>accepts u\<close> says whether \<open>TCPCLSession::new\<close> works for the socket, \<open>connects u\<close> whether
  \<open>TCPCLSession::connect\<close> reaches the remote; \<open>a\<close> is the address of the new session agent.
\<close>

record TCPCLServer =
  sessions :: "(Url \<times> addr) list"

definition start_session :: "Url \<Rightarrow> addr \<Rightarrow> TCPCLServer \<Rightarrow> TCPCLServer" where
  "start_session u a t = t\<lparr>sessions := AList.update u a (sessions t)\<rparr>"

definition handle_NewClientConnectedOnSocket ::
  "(Url \<Rightarrow> bool) \<Rightarrow> Url \<Rightarrow> addr \<Rightarrow> TCPCLServer \<Rightarrow> TCPCLServer" where
  "handle_NewClientConnectedOnSocket accepts u a t = (if accepts u then start_session u a t else t)"

definition handle_ConnectRemote ::
  "(Url \<Rightarrow> bool) \<Rightarrow> Url \<Rightarrow> addr \<Rightarrow> TCPCLServer \<Rightarrow> TCPCLServer \<times> net_message list" where
  "handle_ConnectRemote connects u a t =
     (if connects u then (start_session u a t, []) else (t, [CLUnregisterNode u None]))"

definition handle_DisconnectRemote ::
  "Url \<Rightarrow> TCPCLServer \<Rightarrow> TCPCLServer \<times> net_message list \<times> net_output list" where
  "handle_DisconnectRemote u t =
     (case map_of (sessions t) u of
        Some a \<Rightarrow> (t\<lparr>sessions := AList.delete u (sessions t)\<rparr>, [], [ShutdownSession a])
      | None \<Rightarrow> (t, [CLUnregisterNode u None], []))"

definition handle_ServerShutdown :: "TCPCLServer \<Rightarrow> TCPCLServer \<times> net_output list" where
  "handle_ServerShutdown t =
     (t\<lparr>sessions := []\<rparr>, map (\<lambda>(u, a). ShutdownSession a) (sessions t))"

section \<open>The agents together\<close>

text \<open>
  \<open>main\<close> starts a \<open>TCPCLServer\<close> and gives it to the listener; the convergence agent talks to the one of
  the registry, which is another actor. Both are kept here. \<open>next_session\<close> is the address that the
  runtime gives to the next session agent.
\<close>

record net =
  node_agent :: NodeDaemon
  conv_agent :: ConvDaemon
  tcpcl_server :: TCPCLServer
  listening_server :: TCPCLServer
  next_session :: addr
  routing_agent :: RoutingDaemon
  net_out :: "net_output list"

text \<open>What the agents get from outside: the scheme of a URL, the outcome of connecting to one and
  of taking a socket, and the order in which \<open>sort_unstable_by_key\<close> leaves equal keys.\<close>

record net_env =
  env_scheme :: "Url \<Rightarrow> string"
  env_connects :: "Url \<Rightarrow> bool"
  env_accepts :: "Url \<Rightarrow> bool"
  env_sort :: "RouteStatus list \<Rightarrow> RouteStatus list"

definition net_init :: net where
  "net_init = \<lparr>node_agent = \<lparr>nodes = []\<rparr>, conv_agent = \<lparr>connected_nodes = []\<rparr>,
     tcpcl_server = \<lparr>sessions = []\<rparr>, listening_server = \<lparr>sessions = []\<rparr>, next_session = 0, routing_agent = RoutingDaemon_default,
     net_out = []\<rparr>"

definition to_node :: "(NodeDaemon \<Rightarrow> NodeDaemon \<times> net_message list) \<Rightarrow> net \<Rightarrow> net \<times> net_message list" where
  "to_node f n = (let (d, ms) = f (node_agent n) in (n\<lparr>node_agent := d\<rparr>, ms))"

definition to_conv ::
  "(ConvDaemon \<Rightarrow> ConvDaemon \<times> net_message list \<times> net_output list) \<Rightarrow> net \<Rightarrow> net \<times> net_message list" where
  "to_conv f n = (let (d, ms, os) = f (conv_agent n) in (n\<lparr>conv_agent := d, net_out := net_out n @ os\<rparr>, ms))"

fun net_handle :: "net_env \<Rightarrow> net_message \<Rightarrow> net \<Rightarrow> net \<times> net_message list" where
  "net_handle E (AddNode u) n = to_node (handle_AddNode u) n"
| "net_handle E (RemoveNode u) n = to_node (handle_RemoveNode u) n"
| "net_handle E TryConnect n = to_node handle_TryConnect n"
| "net_handle E (NotifyNodeConnected u e mx) n = to_node (handle_NotifyNodeConnected u e mx) n"
| "net_handle E (NotifyNodeDisconnected u) n = to_node (handle_NotifyNodeDisconnected u) n"
| "net_handle E (AgentConnectNode u) n = (n, handle_AgentConnectNode (env_scheme E) u)"
| "net_handle E (AgentDisconnectNode u) n = (n, handle_AgentDisconnectNode (env_scheme E) u)"
| "net_handle E (CLRegisterNode u e mx a) n = to_conv (handle_CLRegisterNode u e mx a) n"
| "net_handle E (CLUnregisterNode u nd) n = to_conv (handle_CLUnregisterNode u nd) n"
| "net_handle E (ConnectRemote u) n =
     (let (t, ms) = handle_ConnectRemote (env_connects E) u (next_session n) (tcpcl_server n)
      in (n\<lparr>tcpcl_server := t, next_session := Suc (next_session n)\<rparr>, ms))"
| "net_handle E (DisconnectRemote u) n =
     (let (t, ms, os) = handle_DisconnectRemote u (tcpcl_server n)
      in (n\<lparr>tcpcl_server := t, net_out := net_out n @ os\<rparr>, ms))"
| "net_handle E (NewClientConnectedOnSocket u) n =
     (n\<lparr>listening_server := handle_NewClientConnectedOnSocket (env_accepts E) u (next_session n) (listening_server n),
        next_session := Suc (next_session n)\<rparr>, [])"
| "net_handle E (ToRouting m) n =
     (let (d, us) = routing_step (env_sort E) m (routing_agent n)
      in (n\<lparr>routing_agent := d, net_out := net_out n @ map RoutingTableUpdate us\<rparr>, []))"

text \<open>A message only ever causes messages further down this chain, so handling one comes to an end.\<close>

fun depth :: "net_message \<Rightarrow> nat" where
  "depth (ToRouting m) = 0"
| "depth (NotifyNodeConnected u e mx) = 1"
| "depth (NotifyNodeDisconnected u) = 1"
| "depth (CLRegisterNode u e mx a) = 2"
| "depth (CLUnregisterNode u nd) = 2"
| "depth (ConnectRemote u) = 3"
| "depth (DisconnectRemote u) = 3"
| "depth (NewClientConnectedOnSocket u) = 3"
| "depth (AgentConnectNode u) = 4"
| "depth (AgentDisconnectNode u) = 4"
| "depth (AddNode u) = 5"
| "depth (RemoveNode u) = 5"
| "depth TryConnect = 5"

lemma net_handle_depth: "m' \<in> set (snd (net_handle E m n)) \<Longrightarrow> depth m' < depth m"
  by (cases m) (auto simp: to_node_def to_conv_def handle_AddNode_def handle_RemoveNode_def
      handle_TryConnect_def handle_NotifyNodeConnected_def handle_NotifyNodeDisconnected_def
      handle_AgentConnectNode_def handle_AgentDisconnectNode_def handle_CLRegisterNode_def
      handle_CLUnregisterNode_def handle_ConnectRemote_def handle_DisconnectRemote_def Let_def
      split: if_splits option.splits prod.splits)

text \<open>The agents handle a message and everything it causes, then the next message.\<close>

function net_run :: "net_env \<Rightarrow> net_message list \<Rightarrow> net \<Rightarrow> net" where
  "net_run E [] n = n"
| "net_run E (m # q) n = net_run E (snd (net_handle E m n) @ q) (fst (net_handle E m n))"
  by pat_completeness auto

termination
proof (relation "inv_image (mult less_than) (\<lambda>(E, q, n). mset (map depth q))")
  show "wf (inv_image (mult less_than) (\<lambda>(E, q, n). mset (map depth q)))"
    by (simp add: wf_mult)
next
  fix E m q n
  have "(mset (map depth q) + mset (map depth (snd (net_handle E m n))),
      mset (map depth q) + {#depth m#}) \<in> mult less_than"
    by (rule one_step_implies_mult) (auto dest: net_handle_depth)
  then show "((E, snd (net_handle E m n) @ q, fst (net_handle E m n)), E, m # q, n)
      \<in> inv_image (mult less_than) (\<lambda>(E, q, n). mset (map depth q))"
    by (simp add: add.commute)
qed

end
