(* ===== verification/Dtrd_Bpa.thy ===== *)
theory Dtrd_Bpa
  imports Dtrd_Storage Dtrd_Nodes Admin_Record
begin

text \<open>
  \<open>dtrd/src/bundleprotocolagent\<close>: the agent that decides what happens to a bundle. It reacts to the
  events of the storage agent, keeps the queues of bundles that wait for a client or a peer, hands
  them over when there is a connection, and writes status reports.

  A handler takes the state of the agent together with the messages sent so far and returns both,
  or panics. The outside is a record: the clock, the serializer, which weak pointers are still
  alive, and whether the mailbox of an actor takes a message after the ones sent before it.
\<close>

section \<open>State\<close>

definition HOP_LIMIT_DEFAULT :: u8 where
  "HOP_LIMIT_DEFAULT = 16"

type_synonym queues = "(Endpoint \<times> StoredBundleRef list) list"

record BpaDaemon =
  bpa_endpoint :: "Endpoint option"
  bundles_pending_local_delivery :: queues
  bundles_pending_forwarding :: queues
  local_bundles :: queues
  remote_bundles :: queues
  local_connections :: "(Endpoint \<times> addr) list"
  remote_connections :: "(Endpoint \<times> addr) list"
  remote_routes :: RoutingTable

datatype bpa_output =
    ToStorage storage_message
  | ClientDeliverBundle addr StoredBundleRef
  | AgentForwardBundle addr StoredBundleRef

datatype send_result = Sent | Full | Closed

record bpa_env =
  b_enc :: "cbor \<Rightarrow> bytes"
  b_dec :: "bytes \<Rightarrow> cbor option"
  b_upgrade :: "nat \<Rightarrow> bytes option"
  b_clock :: int
  b_clock_later :: int
  b_try_send :: "bpa_output list \<Rightarrow> addr \<Rightarrow> StoredBundleRef \<Rightarrow> send_result"

type_synonym 'e bpa_step =
  "BpaDaemon \<times> bpa_output list \<Rightarrow> (BpaDaemon \<times> bpa_output list, 'e) result"

text \<open>\<open>entry(k).or_default()\<close> on a map of queues, followed by a push.\<close>

definition queue_of :: "queues \<Rightarrow> Endpoint \<Rightarrow> StoredBundleRef list" where
  "queue_of m k = (case map_of m k of None \<Rightarrow> [] | Some q \<Rightarrow> q)"

definition push_back :: "Endpoint \<Rightarrow> StoredBundleRef \<Rightarrow> queues \<Rightarrow> queues" where
  "push_back k b m = AList.update k (queue_of m k @ [b]) m"

definition push_front :: "Endpoint \<Rightarrow> StoredBundleRef \<Rightarrow> queues \<Rightarrow> queues" where
  "push_front k b m = AList.update k (b # queue_of m k) m"

text \<open>\<open>if let Some(pending) = m.get_mut(k) { pending.retain(|e| e != bundle) }\<close>.\<close>

definition retain_others :: "Endpoint \<Rightarrow> StoredBundleRef \<Rightarrow> queues \<Rightarrow> queues" where
  "retain_others k b m =
     (case map_of m k of
        None \<Rightarrow> m
      | Some q \<Rightarrow> AList.update k (filter (\<lambda>e. \<not> ref_eq e b) q) m)"

section \<open>Delivery to clients\<close>

text \<open>\<open>while let Some(bundle) = queue.pop_front()\<close>. The result is the queue, the bundles that wait for
  a confirmation, the messages, and whether the client turned out to be gone.\<close>

fun local_loop ::
  "bpa_env \<Rightarrow> Endpoint \<Rightarrow> addr \<Rightarrow> StoredBundleRef list \<Rightarrow> queues \<Rightarrow> bpa_output list \<Rightarrow>
     (StoredBundleRef list \<times> queues \<times> bpa_output list \<times> bool, 'e) result" where
  "local_loop E destination a [] pend out = Ok ([], pend, out, False)"
| "local_loop E destination a (b # q) pend out =
     assert_then (fragment_offset (ref_primary_block b) = None)
       (case b_try_send E out a b of
          Sent \<Rightarrow> local_loop E destination a q (push_back destination b pend)
                    (out @ [ClientDeliverBundle a b])
        | Full \<Rightarrow> Ok (q @ [b], pend, out, False)
        | Closed \<Rightarrow> Ok (q @ [b], pend, out, True))"

definition deliver_local_bundles :: "bpa_env \<Rightarrow> Endpoint \<Rightarrow> 'e bpa_step" where
  "deliver_local_bundles E destination = (\<lambda>(d, out).
     case map_of (local_connections d) destination of
       None \<Rightarrow> Ok (d, out)
     | Some a \<Rightarrow>
         (case map_of (local_bundles d) destination of
            None \<Rightarrow> Ok (d, out)
          | Some queue \<Rightarrow>
              and_then (local_loop E destination a queue (bundles_pending_local_delivery d) out)
                (\<lambda>(queue, pend, out, gone).
                Ok (d\<lparr>local_bundles := AList.update destination queue (local_bundles d),
                      bundles_pending_local_delivery := pend,
                      local_connections := (if gone then AList.delete destination (local_connections d)
                                            else local_connections d)\<rparr>, out))))"

section \<open>Forwarding to peers\<close>

text \<open>The smaller of the two limits, a missing one being no limit.\<close>

definition min_max_size :: "NexthopInfo \<Rightarrow> NexthopInfo \<Rightarrow> u64 option" where
  "min_max_size route nexthopinfo =
     (case nh_max_size route of
        Some ms \<Rightarrow> Some (case nh_max_size nexthopinfo of Some s_ms \<Rightarrow> min ms s_ms | None \<Rightarrow> ms)
      | None \<Rightarrow> nh_max_size nexthopinfo)"

definition too_large :: "u64 option \<Rightarrow> StoredBundleRef \<Rightarrow> bool" where
  "too_large mx b \<longleftrightarrow> (case mx of Some mbs \<Rightarrow> ref_size b > mbs | None \<Rightarrow> False)"

definition unfragmentable :: "u64 \<Rightarrow> StoredBundleRef \<Rightarrow> bool" where
  "unfragmentable mbs b \<longleftrightarrow>
     contains (bundle_processing_flags (ref_primary_block b)) MUST_NOT_FRAGMENT \<or>
     (case ref_min_size b of Some m \<Rightarrow> m > mbs | None \<Rightarrow> False)"

text \<open>For the termination of the loop: the more bundles were seen, the fewer are left.\<close>

lemma filter_unseen_le: "length (filter (\<lambda>b. f b \<notin> insert x S) q) \<le> length (filter (\<lambda>b. f b \<notin> S) q)"
  by (induction q) auto

text \<open>Bundles that are too large and cannot be cut go to the end of the queue, once each: the loop
  stops at the first one it has seen before.\<close>

function remote_loop ::
  "bpa_env \<Rightarrow> Endpoint \<Rightarrow> addr \<Rightarrow> u64 option \<Rightarrow> string list \<Rightarrow> StoredBundleRef list \<Rightarrow> queues \<Rightarrow>
     bpa_output list \<Rightarrow> StoredBundleRef list \<times> queues \<times> bpa_output list \<times> bool" where
  "remote_loop E destination a mx visited [] pend out = ([], pend, out, False)"
| "remote_loop E destination a mx visited (b # q) pend out =
     (if StoredBundleRef_get_id b \<in> set visited then (b # q, pend, out, False)
      else if too_large mx b then
        (if unfragmentable (the mx) b
         then remote_loop E destination a mx (StoredBundleRef_get_id b # visited) (q @ [b]) pend out
         else remote_loop E destination a mx visited q pend
                (out @ [ToStorage (FragmentBundle b (the mx))]))
      else (case b_try_send E out a b of
          Sent \<Rightarrow> remote_loop E destination a mx visited q (push_back destination b pend)
                    (out @ [AgentForwardBundle a b])
        | Full \<Rightarrow> (q @ [b], pend, out, False)
        | Closed \<Rightarrow> (q @ [b], pend, out, True)))"
  by pat_completeness auto

termination
  by (relation "measure (\<lambda>(E, destination, a, mx, visited, q, pend, out).
      length (filter (\<lambda>b. StoredBundleRef_get_id b \<notin> set visited) q))")
    (auto simp: less_Suc_eq_le filter_unseen_le [unfolded insert_iff de_Morgan_disj])

definition deliver_remote_bundles :: "bpa_env \<Rightarrow> Endpoint \<Rightarrow> 'e bpa_step" where
  "deliver_remote_bundles E destination = (\<lambda>(d, out).
     and_then (get_node_endpoint destination) (\<lambda>destination.
     case map_of (remote_routes d) destination of
       None \<Rightarrow> Ok (d, out)
     | Some route \<Rightarrow>
         (case map_of (remote_connections d) (nh_next_hop route) of
            None \<Rightarrow> Ok (d, out)
          | Some a \<Rightarrow>
              (case map_of (remote_routes d) (nh_next_hop route) of
                 None \<Rightarrow> Ok (d, out)
               | Some nexthopinfo \<Rightarrow>
                   if nh_next_hop route \<noteq> nh_next_hop nexthopinfo then Ok (d, out)
                   else (case map_of (remote_bundles d) destination of
                       None \<Rightarrow> Ok (d, out)
                     | Some queue \<Rightarrow>
                         (let (queue, pend, out, gone) =
                            remote_loop E destination a (min_max_size route nexthopinfo) [] queue
                              (bundles_pending_forwarding d) out
                          in Ok (d\<lparr>remote_bundles := AList.update destination queue (remote_bundles d),
                                bundles_pending_forwarding := pend,
                                remote_connections :=
                                  (if gone then AList.delete destination (remote_connections d)
                                   else remote_connections d)\<rparr>, out)))))))"

section \<open>Status reports\<close>

definition status_item :: "bool \<Rightarrow> DtnTime \<Rightarrow> BundleStatusItem" where
  "status_item b t = \<lparr>is_asserted = b, timestamp = (if b then Some t else None)\<rparr>"

definition status_report ::
  "StoredBundleRef \<Rightarrow> BundleStatusReason \<Rightarrow> DtnTime \<Rightarrow> bool \<Rightarrow> bool \<Rightarrow> bool \<Rightarrow> bool \<Rightarrow> AdministrativeRecord" where
  "status_report b rs t is_received is_forwarded is_delivered is_deleted =
     StatusReportRecord
       \<lparr>status_information =
          \<lparr>received_bundle = status_item is_received t, forwarded_bundle = status_item is_forwarded t,
           delivered_bundle = status_item is_delivered t, deleted_bundle = status_item is_deleted t\<rparr>,
        reason = rs,
        bundle_source = source_node (ref_primary_block b),
        bundle_creation_timestamp = creation_timestamp (ref_primary_block b),
        report_fragment_offset = fragment_offset (ref_primary_block b),
        report_fragment_length =
          (case fragment_offset (ref_primary_block b) of None \<Rightarrow> None | Some _ \<Rightarrow> Some (ref_payload_size b))\<rparr>"

definition report_bundle :: "Endpoint \<Rightarrow> PrimaryBlock \<Rightarrow> DtnTime \<Rightarrow> bytes \<Rightarrow> Bundle" where
  "report_bundle me pb t payload =
     \<lparr>primary_block =
        \<lparr>version = 7, bundle_processing_flags = ADMINISTRATIVE_RECORD, crc = NoCRC,
         destination_endpoint = report_to pb, source_node = me, report_to = me,
         creation_timestamp = \<lparr>creation_time = t, sequence_number = 0\<rparr>, lifetime = lifetime pb,
         fragment_offset = None, total_data_length = None\<rparr>,
      blocks = [\<lparr>block = Payload \<lparr>data = payload\<rparr>, block_number = 1, block_flags = 0, block_crc = NoCRC\<rparr>]\<rparr>"

definition send_status_report ::
  "bpa_env \<Rightarrow> StoredBundleRef \<Rightarrow> BundleStatusReason \<Rightarrow> bool \<Rightarrow> bool \<Rightarrow> bool \<Rightarrow> bool \<Rightarrow> 'e bpa_step" where
  "send_status_report E b rs is_received is_forwarded is_delivered is_deleted = (\<lambda>(d, out).
     and_then (now (b_clock E)) (\<lambda>t.
     case AdministrativeRecord_to_vec (b_enc E)
            (status_report b rs t is_received is_forwarded is_delivered is_deleted) of
       Err (e :: SerializationError) \<Rightarrow> Ok (d, out)
     | Panic \<Rightarrow> Panic
     | Ok payload \<Rightarrow>
         and_then (unwrap (bpa_endpoint d)) (\<lambda>me.
         and_then (now (b_clock_later E)) (\<lambda>t.
         and_then (Bundle_to_vec (b_enc E) (report_bundle me (ref_primary_block b) t payload))
           (\<lambda>bundle_data.
         Ok (d, out @ [ToStorage (StoreNewBundle bundle_data)]))))))"

definition send_status_report_delivered :: "bpa_env \<Rightarrow> StoredBundleRef \<Rightarrow> 'e bpa_step" where
  "send_status_report_delivered E b s =
     (if \<not> contains (bundle_processing_flags (ref_primary_block b)) BUNDLE_DELIVERY_STATUS_REQUESTED then Ok s
      else send_status_report E b NoAdditionalInformation False False True False s)"

definition send_status_report_forwarded :: "bpa_env \<Rightarrow> StoredBundleRef \<Rightarrow> 'e bpa_step" where
  "send_status_report_forwarded E b s =
     (if \<not> contains (bundle_processing_flags (ref_primary_block b)) BUNDLE_FORWARDING_STATUS_REQUEST then Ok s
      else send_status_report E b NoAdditionalInformation False True False False s)"

definition send_status_report_received :: "bpa_env \<Rightarrow> StoredBundleRef \<Rightarrow> 'e bpa_step" where
  "send_status_report_received E b s =
     (if \<not> contains (bundle_processing_flags (ref_primary_block b)) BUNDLE_RECEIPTION_STATUS_REQUESTED then Ok s
      else send_status_report E b NoAdditionalInformation True False False False s)"

definition send_status_report_deleted ::
  "bpa_env \<Rightarrow> StoredBundleRef \<Rightarrow> BundleStatusReason \<Rightarrow> 'e bpa_step" where
  "send_status_report_deleted E b rs s =
     (if \<not> contains (bundle_processing_flags (ref_primary_block b)) BUNDLE_DELETION_STATUS_REQUESTED then Ok s
      else send_status_report E b rs False False False True s)"

section \<open>Changing a bundle for forwarding\<close>

definition forward_bundle ::
  "bpa_env \<Rightarrow> BpaDaemon \<Rightarrow> StoredBundleRef \<Rightarrow> (bytes, BundleStatusReason) result" where
  "forward_bundle E d r =
     and_then (unwrap (b_upgrade E (ref_arc r))) (\<lambda>bundle_data.
     and_then (unwrap_result (Bundle_try_from (b_dec E) bundle_data)) (\<lambda>b.
     and_then (unwrap (bpa_endpoint d)) (\<lambda>me.
     and_then (matches_node me (source_node (primary_block b))) (\<lambda>own.
     let b = (if \<not> own then set_previous_node me b else b);
         (b, accepted) = inc_hop_count HOP_LIMIT_DEFAULT b
     in if \<not> accepted then Err HopLimitExceeded
        else Bundle_to_vec (b_enc E) b))))"

section \<open>Handlers\<close>

definition update_bundle :: "StoredBundleRef \<Rightarrow> State \<Rightarrow> bytes option \<Rightarrow> bpa_output" where
  "update_bundle r st nd = ToStorage (UpdateBundle r st nd)"

definition handle_EventBundleUpdated :: "bpa_env \<Rightarrow> StoredBundleRef \<Rightarrow> 'e bpa_step" where
  "handle_EventBundleUpdated E b = (\<lambda>(d, out).
     let destination = destination_endpoint (ref_primary_block b) in
     case ref_state b of
       Received \<Rightarrow>
         and_then (unwrap (bpa_endpoint d)) (\<lambda>me.
         and_then (matches_node (source_node (ref_primary_block b)) me) (\<lambda>own.
         and_then (if \<not> own then send_status_report_received E b (d, out) else Ok (d, out)) (\<lambda>(d, out).
         Ok (d, out @ [update_bundle b Valid None]))))
     | Valid \<Rightarrow>
         and_then (unwrap (bpa_endpoint d)) (\<lambda>me.
         and_then (matches_node me destination) (\<lambda>mine.
         if mine then
           Ok (d, out @ [update_bundle b
             (if fragment_offset (ref_primary_block b) \<noteq> None then DefragmentationPending else DeliveryQueued) None])
         else case forward_bundle E d b of
             Ok new_data \<Rightarrow> Ok (d, out @ [update_bundle b ForwardingQueued (Some new_data)])
           | Err e \<Rightarrow>
               and_then (send_status_report_deleted E b e (d, out)) (\<lambda>(d, out).
               Ok (d, out @ [update_bundle b Invalid None]))
           | Panic \<Rightarrow> Panic))
     | DeliveryQueued \<Rightarrow>
         deliver_local_bundles E destination
           (d\<lparr>local_bundles := push_back destination b (local_bundles d)\<rparr>, out)
     | ForwardingQueued \<Rightarrow>
         and_then (get_node_endpoint destination) (\<lambda>node.
         deliver_remote_bundles E destination
           (d\<lparr>remote_bundles := push_back node b (remote_bundles d)\<rparr>, out))
     | _ \<Rightarrow> Ok (d, out))"

definition handle_EventBundleDelivered :: "bpa_env \<Rightarrow> Endpoint \<Rightarrow> StoredBundleRef \<Rightarrow> 'e bpa_step" where
  "handle_EventBundleDelivered E e b = (\<lambda>(d, out).
     and_then (send_status_report_delivered E b
       (d\<lparr>bundles_pending_local_delivery := retain_others e b (bundles_pending_local_delivery d)\<rparr>, out))
       (\<lambda>(d, out). deliver_local_bundles E e (d, out @ [update_bundle b Delivered None])))"

definition handle_EventBundleDeliveryFailed :: "Endpoint \<Rightarrow> StoredBundleRef \<Rightarrow> 'e bpa_step" where
  "handle_EventBundleDeliveryFailed e b = (\<lambda>(d, out).
     Ok (d\<lparr>bundles_pending_local_delivery := retain_others e b (bundles_pending_local_delivery d),
           local_bundles := push_front e b (local_bundles d)\<rparr>, out))"

definition handle_EventClientConnected :: "bpa_env \<Rightarrow> Endpoint \<Rightarrow> addr \<Rightarrow> 'e bpa_step" where
  "handle_EventClientConnected E destination a = (\<lambda>(d, out).
     deliver_local_bundles E destination
       (d\<lparr>local_connections := AList.update destination a (local_connections d)\<rparr>, out))"

definition handle_EventClientDisconnected :: "Endpoint \<Rightarrow> 'e bpa_step" where
  "handle_EventClientDisconnected destination = (\<lambda>(d, out).
     Ok (d\<lparr>local_connections := AList.delete destination (local_connections d)\<rparr>, out))"

definition handle_EventPeerConnected :: "bpa_env \<Rightarrow> Endpoint \<Rightarrow> addr \<Rightarrow> 'e bpa_step" where
  "handle_EventPeerConnected E destination a = (\<lambda>(d, out).
     and_then (get_node_endpoint destination) (\<lambda>node.
     assert_then (node = destination)
       (deliver_remote_bundles E destination
         (d\<lparr>remote_connections := AList.update destination a (remote_connections d)\<rparr>, out))))"

definition handle_EventPeerDisconnected :: "Endpoint \<Rightarrow> 'e bpa_step" where
  "handle_EventPeerDisconnected destination = (\<lambda>(d, out).
     and_then (get_node_endpoint destination) (\<lambda>node.
     assert_then (node = destination)
       (Ok (d\<lparr>remote_connections := AList.delete destination (remote_connections d)\<rparr>, out))))"

definition handle_EventBundleForwarded :: "bpa_env \<Rightarrow> Endpoint \<Rightarrow> StoredBundleRef \<Rightarrow> 'e bpa_step" where
  "handle_EventBundleForwarded E e b = (\<lambda>(d, out).
     and_then (get_node_endpoint e) (\<lambda>e.
     and_then (send_status_report_forwarded E b
       (d\<lparr>bundles_pending_forwarding := retain_others e b (bundles_pending_forwarding d)\<rparr>, out))
       (\<lambda>(d, out). deliver_remote_bundles E e (d, out @ [update_bundle b Forwarded None]))))"

definition handle_EventBundleForwardingFailed :: "Endpoint \<Rightarrow> StoredBundleRef \<Rightarrow> 'e bpa_step" where
  "handle_EventBundleForwardingFailed e b = (\<lambda>(d, out).
     and_then (get_node_endpoint e) (\<lambda>e.
     Ok (d\<lparr>bundles_pending_forwarding := retain_others e b (bundles_pending_forwarding d),
           remote_bundles := push_front e b (remote_bundles d)\<rparr>, out)))"

text \<open>A loop of deliveries over the keys of a set.\<close>

fun deliver_all :: "bpa_env \<Rightarrow> Endpoint list \<Rightarrow> 'e bpa_step" where
  "deliver_all E [] s = Ok s"
| "deliver_all E (e # es) s = and_then (deliver_remote_bundles E e s) (deliver_all E es)"

definition handle_EventRoutingTableUpdate :: "bpa_env \<Rightarrow> RoutingTable \<Rightarrow> 'e bpa_step" where
  "handle_EventRoutingTableUpdate E new_routes = (\<lambda>(d, out).
     let old_targets = map fst (remote_routes d);
         new_targets = map fst new_routes;
         added = filter (\<lambda>e. e \<notin> set old_targets) new_targets;
         updated = filter (\<lambda>e. e \<in> set old_targets) new_targets
     in and_then (deliver_all E added (d\<lparr>remote_routes := new_routes\<rparr>, out)) (deliver_all E updated))"

definition bpa_started :: "string \<Rightarrow> (BpaDaemon, 'e) result" where
  "bpa_started my_node_id =
     and_then (unwrap (Endpoint_new my_node_id)) (\<lambda>e.
     Ok \<lparr>bpa_endpoint = Some e, bundles_pending_local_delivery = [], bundles_pending_forwarding = [],
         local_bundles = [], remote_bundles = [], local_connections = [], remote_connections = [],
         remote_routes = []\<rparr>)"

section \<open>Messages\<close>

datatype bpa_message =
    EventBundleUpdated StoredBundleRef
  | EventBundleDelivered Endpoint StoredBundleRef
  | EventBundleDeliveryFailed Endpoint StoredBundleRef
  | EventClientConnected Endpoint addr
  | EventClientDisconnected Endpoint
  | PeerConnected Endpoint addr
  | PeerDisconnected Endpoint
  | EventBundleForwarded Endpoint StoredBundleRef
  | EventBundleForwardingFailed Endpoint StoredBundleRef
  | UpdatedRoutes RoutingTable

fun bpa_handle :: "bpa_env \<Rightarrow> bpa_message \<Rightarrow> 'e bpa_step" where
  "bpa_handle E (EventBundleUpdated b) s = handle_EventBundleUpdated E b s"
| "bpa_handle E (EventBundleDelivered e b) s = handle_EventBundleDelivered E e b s"
| "bpa_handle E (EventBundleDeliveryFailed e b) s = handle_EventBundleDeliveryFailed e b s"
| "bpa_handle E (EventClientConnected e a) s = handle_EventClientConnected E e a s"
| "bpa_handle E (EventClientDisconnected e) s = handle_EventClientDisconnected e s"
| "bpa_handle E (PeerConnected e a) s = handle_EventPeerConnected E e a s"
| "bpa_handle E (PeerDisconnected e) s = handle_EventPeerDisconnected e s"
| "bpa_handle E (EventBundleForwarded e b) s = handle_EventBundleForwarded E e b s"
| "bpa_handle E (EventBundleForwardingFailed e b) s = handle_EventBundleForwardingFailed e b s"
| "bpa_handle E (UpdatedRoutes t) s = handle_EventRoutingTableUpdate E t s"

end
