(* ===== verification/Dtrd_Bpa_Laws.thy ===== *)
theory Dtrd_Bpa_Laws
  imports Dtrd_Bpa "HOL-Library.Sublist"
begin

text \<open>
  What the queues of the bundle protocol agent guarantee: no bundle is lost or doubled when the agent
  hands bundles to clients and peers, the order is kept, and limits on the size are respected.
\<close>

section \<open>Messages of one kind\<close>

fun forwarded_ref :: "bpa_output \<Rightarrow> StoredBundleRef option" where
  "forwarded_ref (AgentForwardBundle a b) = Some b"
| "forwarded_ref (ClientDeliverBundle a b) = None"
| "forwarded_ref (ToStorage m) = None"

fun fragmented_ref :: "bpa_output \<Rightarrow> StoredBundleRef option" where
  "fragmented_ref (ToStorage (FragmentBundle b n)) = Some b"
| "fragmented_ref (ToStorage (StoreReceivedBundle x)) = None"
| "fragmented_ref (ToStorage (StoreNewBundle x)) = None"
| "fragmented_ref (ToStorage (UpdateBundle b st nd)) = None"
| "fragmented_ref (ClientDeliverBundle a b) = None"
| "fragmented_ref (AgentForwardBundle a b) = None"

definition forwarded :: "bpa_output list \<Rightarrow> StoredBundleRef list" where
  "forwarded out = List.map_filter forwarded_ref out"

definition fragmented :: "bpa_output list \<Rightarrow> StoredBundleRef list" where
  "fragmented out = List.map_filter fragmented_ref out"

lemma forwarded_simps [simp]:
  "forwarded [] = []"
  "forwarded (x # xs) = (case forwarded_ref x of None \<Rightarrow> forwarded xs | Some b \<Rightarrow> b # forwarded xs)"
  by (simp_all add: forwarded_def map_filter_simps split: option.split)

lemma fragmented_simps [simp]:
  "fragmented [] = []"
  "fragmented (x # xs) = (case fragmented_ref x of None \<Rightarrow> fragmented xs | Some b \<Rightarrow> b # fragmented xs)"
  by (simp_all add: fragmented_def map_filter_simps split: option.split)

lemma queue_of_push_back:
  "queue_of (push_back k b m) j = (if j = k then queue_of m k @ [b] else queue_of m j)"
  by (simp add: push_back_def queue_of_def map_of_update)

lemma queue_of_update: "queue_of (AList.update k q m) j = (if j = k then q else queue_of m j)"
  by (simp add: queue_of_def map_of_update)

section \<open>Forwarding\<close>

text \<open>What one message of the forwarding loop may be.\<close>

definition forward_ok :: "addr \<Rightarrow> u64 option \<Rightarrow> bpa_output \<Rightarrow> bool" where
  "forward_ok a mx x \<longleftrightarrow>
     (\<exists>b. x = AgentForwardBundle a b \<and> \<not> too_large mx b) \<or>
     (\<exists>b m. x = ToStorage (FragmentBundle b m) \<and> mx = Some m \<and> m < ref_size b \<and> \<not> unfragmentable m b)"

lemma too_large_Some: "too_large mx b \<Longrightarrow> \<exists>m. mx = Some m \<and> m < ref_size b"
  by (auto simp: too_large_def split: option.splits)

lemma subseq_drop_last: "subseq xs (q @ [b]) \<Longrightarrow> b \<notin> set xs \<Longrightarrow> subseq xs q"
proof -
  assume "subseq xs (q @ [b])" "b \<notin> set xs"
  then obtain ys zs where "xs = ys @ zs" "subseq ys q" "subseq zs [b]" "b \<notin> set zs"
    by (auto simp: subseq_append_iff)
  moreover from this have "zs = []"
    by (cases zs) (auto dest: list_emb_set simp: subseq_singleton_left split: if_splits)
  ultimately show ?thesis
    by simp
qed

definition loop_ok ::
  "Endpoint \<Rightarrow> addr \<Rightarrow> u64 option \<Rightarrow> string list \<Rightarrow> StoredBundleRef list \<Rightarrow> queues \<Rightarrow>
     StoredBundleRef list \<Rightarrow> queues \<Rightarrow> bpa_output list \<Rightarrow> bool" where
  "loop_ok dst a mx visited q pend q' pend' new \<longleftrightarrow>
     mset q = mset q' + mset (forwarded new) + mset (fragmented new) \<and> subseq (forwarded new) q \<and>
     list_all (\<lambda>b. StoredBundleRef_get_id b \<notin> set visited) (forwarded new) \<and>
     list_all (forward_ok a mx) new \<and>
     queue_of pend' dst = queue_of pend dst @ forwarded new \<and>
     (\<forall>k. k \<noteq> dst \<longrightarrow> queue_of pend' k = queue_of pend k)"

lemma loop_ok_park:
  assumes "loop_ok dst a mx (StoredBundleRef_get_id b # visited) (q @ [b]) pend q' pend' new"
  shows "loop_ok dst a mx visited (b # q) pend q' pend' new"
proof -
  have "b \<notin> set (forwarded new)"
    using assms by (auto simp: loop_ok_def list_all_iff)
  then have "subseq (forwarded new) q"
    using assms by (auto simp: loop_ok_def intro: subseq_drop_last)
  then show ?thesis
    using assms by (auto simp: loop_ok_def list_all_iff)
qed

lemma loop_ok_cut:
  assumes "loop_ok dst a mx visited q pend q' pend' new" "too_large mx b" "\<not> unfragmentable (the mx) b"
  shows "loop_ok dst a mx visited (b # q) pend q' pend' (ToStorage (FragmentBundle b (the mx)) # new)"
  using assms too_large_Some [OF assms(2)] by (auto simp: loop_ok_def forward_ok_def)

lemma loop_ok_hand:
  assumes "loop_ok dst a mx visited q (push_back dst b pend) q' pend' new" "\<not> too_large mx b"
    and "StoredBundleRef_get_id b \<notin> set visited"
  shows "loop_ok dst a mx visited (b # q) pend q' pend' (AgentForwardBundle a b # new)"
  using assms by (auto simp: loop_ok_def forward_ok_def queue_of_push_back)

lemma loop_ok_stop: "mset q' = mset q \<Longrightarrow> loop_ok dst a mx visited q pend q' pend []"
  by (simp add: loop_ok_def)

lemma remote_loop_spec:
  "remote_loop E dst a mx visited q pend out = (q', pend', out', gone) \<Longrightarrow>
   \<exists>new. out' = out @ new \<and> loop_ok dst a mx visited q pend q' pend' new"
proof (induction E dst a mx visited q pend out arbitrary: q' pend' out' gone rule: remote_loop.induct)
  case (1 E dst a mx visited pend out)
  then show ?case
    by (auto intro: loop_ok_stop)
next
  case (2 E dst a mx visited b q pend out)
  consider (seen) "StoredBundleRef_get_id b \<in> set visited"
    | (park) "StoredBundleRef_get_id b \<notin> set visited" "too_large mx b" "unfragmentable (the mx) b"
    | (cut) "StoredBundleRef_get_id b \<notin> set visited" "too_large mx b" "\<not> unfragmentable (the mx) b"
    | (hand) "StoredBundleRef_get_id b \<notin> set visited" "\<not> too_large mx b"
    by blast
  then show ?case
  proof cases
    case seen
    then show ?thesis
      using 2(4) by (auto intro: loop_ok_stop)
  next
    case park
    have "remote_loop E dst a mx (StoredBundleRef_get_id b # visited) (q @ [b]) pend out = (q', pend', out', gone)"
      using 2(4) park by simp
    from 2(1) [OF park this] show ?thesis
      by (blast intro: loop_ok_park)
  next
    case cut
    have "remote_loop E dst a mx visited q pend (out @ [ToStorage (FragmentBundle b (the mx))]) = (q', pend', out', gone)"
      using 2(4) cut by simp
    from 2(2) [OF cut this] show ?thesis
      using loop_ok_cut cut by fastforce
  next
    case hand
    show ?thesis
    proof (cases "b_try_send E out a b")
      case Sent
      have "remote_loop E dst a mx visited q (push_back dst b pend) (out @ [AgentForwardBundle a b]) = (q', pend', out', gone)"
        using 2(4) hand Sent by simp
      from 2(3) [OF hand Sent this] show ?thesis
        using loop_ok_hand hand by fastforce
    qed (use 2(4) hand in \<open>auto intro: loop_ok_stop\<close>)
  qed
qed

text \<open>When the peer takes every message, only bundles that it can never take stay behind.\<close>

definition stuck :: "u64 option \<Rightarrow> StoredBundleRef \<Rightarrow> bool" where
  "stuck mx b \<longleftrightarrow> too_large mx b \<and> unfragmentable (the mx) b"

lemma remote_loop_complete:
  assumes "\<And>out b. b_try_send E out a b = Sent"
  shows "remote_loop E dst a mx visited (u @ p) pend out = (q', pend', out', gone) \<Longrightarrow>
    list_all (\<lambda>b. StoredBundleRef_get_id b \<in> set visited \<and> stuck mx b) p \<Longrightarrow>
    distinct (map StoredBundleRef_get_id u) \<Longrightarrow>
    list_all (\<lambda>b. StoredBundleRef_get_id b \<notin> set visited) u \<Longrightarrow>
    list_all (stuck mx) q' \<and> \<not> gone"
proof (induction u arbitrary: visited p pend out)
  case Nil
  then show ?case
    by (cases p) (auto simp: list_all_iff)
next
  case (Cons b u)
  have id: "StoredBundleRef_get_id b \<notin> set visited"
    using Cons.prems(4) by simp
  show ?case
  proof (cases "stuck mx b")
    case True
    have l: "remote_loop E dst a mx (StoredBundleRef_get_id b # visited) (u @ (p @ [b])) pend out = (q', pend', out', gone)"
      using Cons.prems(1) True id by (simp add: stuck_def)
    have p: "list_all (\<lambda>c. StoredBundleRef_get_id c \<in> set (StoredBundleRef_get_id b # visited) \<and> stuck mx c) (p @ [b])"
      using Cons.prems(2) True by (auto simp: list_all_iff)
    have u: "list_all (\<lambda>c. StoredBundleRef_get_id c \<notin> set (StoredBundleRef_get_id b # visited)) u"
      using Cons.prems(3,4) by (auto simp: list_all_iff image_iff)
    show ?thesis
      by (rule Cons.IH [OF l p _ u]) (use Cons.prems(3) in simp)
  next
    case False
    then obtain pend2 out2 where l: "remote_loop E dst a mx visited (u @ p) pend2 out2 = (q', pend', out', gone)"
      using Cons.prems(1) id assms by (auto simp: stuck_def split: if_splits)
    show ?thesis
      by (rule Cons.IH [OF l Cons.prems(2)]) (use Cons.prems(3,4) in simp_all)
  qed
qed

text \<open>The channel and the limit that bundles for a node get.\<close>

definition link_to :: "BpaDaemon \<Rightarrow> Endpoint \<Rightarrow> (addr \<times> u64 option) option" where
  "link_to d dst =
     (case map_of (remote_routes d) dst of
        None \<Rightarrow> None
      | Some route \<Rightarrow>
          (case (map_of (remote_connections d) (nh_next_hop route), map_of (remote_routes d) (nh_next_hop route)) of
             (Some a, Some hop) \<Rightarrow>
               if nh_next_hop route = nh_next_hop hop then Some (a, min_max_size route hop) else None
           | _ \<Rightarrow> None))"

lemma deliver_remote_link:
  assumes "get_node_endpoint dst = (Ok nd :: (_, 'e) result)"
  shows "(deliver_remote_bundles E dst (d, out) :: (_, 'e) result) =
    (case link_to d nd of
       None \<Rightarrow> Ok (d, out)
     | Some (a, mx) \<Rightarrow>
         (case map_of (remote_bundles d) nd of
            None \<Rightarrow> Ok (d, out)
          | Some q \<Rightarrow>
              (case remote_loop E nd a mx [] q (bundles_pending_forwarding d) out of (q', pend, out', gone) \<Rightarrow>
                 Ok (d\<lparr>remote_bundles := AList.update nd q' (remote_bundles d),
                       bundles_pending_forwarding := pend,
                       remote_connections := (if gone then AList.delete nd (remote_connections d)
                                              else remote_connections d)\<rparr>, out'))))"
  unfolding deliver_remote_bundles_def link_to_def
  by (simp add: assms Let_def split: option.split prod.split)

definition forward_step_ok ::
  "BpaDaemon \<Rightarrow> Endpoint \<Rightarrow> BpaDaemon \<Rightarrow> bpa_output list \<Rightarrow> bool" where
  "forward_step_ok d nd d' new \<longleftrightarrow>
     mset (queue_of (remote_bundles d) nd)
       = mset (queue_of (remote_bundles d') nd) + mset (forwarded new) + mset (fragmented new) \<and>
     subseq (forwarded new) (queue_of (remote_bundles d) nd) \<and>
     queue_of (bundles_pending_forwarding d') nd
       = queue_of (bundles_pending_forwarding d) nd @ forwarded new \<and>
     (\<forall>k. k \<noteq> nd \<longrightarrow> queue_of (remote_bundles d') k = queue_of (remote_bundles d) k \<and>
        queue_of (bundles_pending_forwarding d') k = queue_of (bundles_pending_forwarding d) k) \<and>
     list_all (\<lambda>x. \<exists>a mx. link_to d nd = Some (a, mx) \<and> forward_ok a mx x) new"

lemma deliver_remote_ok:
  assumes "deliver_remote_bundles E dst (d, out) = (Ok (d', out') :: (_, 'e) result)"
  shows "\<exists>nd new. get_node_endpoint dst = (Ok nd :: (_, 'e) result) \<and> out' = out @ new
    \<and> forward_step_ok d nd d' new"
proof -
  obtain nd where nd: "get_node_endpoint dst = (Ok nd :: (_, 'e) result)"
    using assms by (auto simp: deliver_remote_bundles_def result_simps)
  have unchanged: "forward_step_ok d nd d []"
    by (simp add: forward_step_ok_def)
  show ?thesis
  proof (cases "link_to d nd")
    case None
    then show ?thesis
      using assms nd unchanged by (auto simp: deliver_remote_link [OF nd])
  next
    case (Some l)
    obtain a mx where l: "l = (a, mx)"
      by (cases l)
    show ?thesis
    proof (cases "map_of (remote_bundles d) nd")
      case None
      then show ?thesis
        using assms nd unchanged by (auto simp: deliver_remote_link [OF nd] Some l)
    next
      case q: (Some q)
      obtain q' pend out2 gone where loop:
        "remote_loop E nd a mx [] q (bundles_pending_forwarding d) out = (q', pend, out2, gone)"
        by (cases "remote_loop E nd a mx [] q (bundles_pending_forwarding d) out")
      from remote_loop_spec [OF loop] obtain new where new: "out2 = out @ new"
        "loop_ok nd a mx [] q (bundles_pending_forwarding d) q' pend new"
        by blast
      have d': "d' = d\<lparr>remote_bundles := AList.update nd q' (remote_bundles d),
          bundles_pending_forwarding := pend,
          remote_connections := (if gone then AList.delete nd (remote_connections d) else remote_connections d)\<rparr>"
        "out' = out2"
        using assms by (auto simp: deliver_remote_link [OF nd] Some l q loop)
      have "queue_of (remote_bundles d) nd = q"
        by (simp add: queue_of_def q)
      then have "forward_step_ok d nd d' new"
        using new(2) by (auto simp: forward_step_ok_def d' loop_ok_def queue_of_update Some l list_all_iff)
      then show ?thesis
        using nd new(1) d'(2) by blast
    qed
  qed
qed

text \<open>A peer that takes every message gets everything that can be sent.\<close>

lemma deliver_remote_complete:
  assumes "deliver_remote_bundles E dst (d, out) = (Ok (d', out') :: (_, 'e) result)"
    and "get_node_endpoint dst = (Ok nd :: (_, 'e) result)" "link_to d nd = Some (a, mx)"
    and "\<And>out b. b_try_send E out a b = Sent"
    and "distinct (map StoredBundleRef_get_id (queue_of (remote_bundles d) nd))"
  shows "list_all (stuck mx) (queue_of (remote_bundles d') nd) \<and> remote_connections d' = remote_connections d"
proof (cases "map_of (remote_bundles d) nd")
  case None
  then show ?thesis
    using assms by (auto simp: deliver_remote_link queue_of_def)
next
  case (Some q)
  obtain q' pend out2 gone where loop:
    "remote_loop E nd a mx [] q (bundles_pending_forwarding d) out = (q', pend, out2, gone)"
    by (cases "remote_loop E nd a mx [] q (bundles_pending_forwarding d) out")
  have "list_all (stuck mx) q' \<and> \<not> gone"
    by (rule remote_loop_complete [OF assms(4), where u = q and p = "[]" and visited = "[]"])
      (use loop Some assms(5) in \<open>simp_all add: queue_of_def list_all_iff\<close>)
  then show ?thesis
    using assms(1) loop Some by (auto simp: deliver_remote_link [OF assms(2)] assms(3) queue_of_update)
qed

lemma deliver_remote_total:
  assumes "get_node_endpoint dst = (Ok nd :: (_, 'e) result)"
  shows "\<exists>d' out'. (deliver_remote_bundles E dst (d, out) :: (_, 'e) result) = Ok (d', out')"
  by (auto simp: deliver_remote_link [OF assms] split: option.split prod.split)

section \<open>Delivery\<close>

lemma local_loop_spec:
  "local_loop E dst a q pend out = (Ok (q', pend', out', gone) :: (_, 'e) result) \<Longrightarrow>
   \<exists>sent rest. q = sent @ rest \<and> mset q' = mset rest \<and> (\<not> gone \<and> rest = [] \<or> rest \<noteq> [] \<and> q' = tl rest @ [hd rest])
     \<and> out' = out @ map (ClientDeliverBundle a) sent
     \<and> list_all (\<lambda>b. fragment_offset (ref_primary_block b) = None) sent
     \<and> queue_of pend' dst = queue_of pend dst @ sent \<and> (\<forall>k. k \<noteq> dst \<longrightarrow> queue_of pend' k = queue_of pend k)"
proof (induction q arbitrary: pend out)
  case (Cons b q)
  then have frag: "fragment_offset (ref_primary_block b) = None"
    by (simp add: result_simps)
  show ?case
  proof (cases "b_try_send E out a b")
    case Sent
    then have "local_loop E dst a q (push_back dst b pend) (out @ [ClientDeliverBundle a b]) =
        (Ok (q', pend', out', gone) :: (_, 'e) result)"
      using Cons.prems by (simp add: result_simps)
    from Cons.IH [OF this] obtain sent rest where
      "q = sent @ rest" "mset q' = mset rest" "\<not> gone \<and> rest = [] \<or> rest \<noteq> [] \<and> q' = tl rest @ [hd rest]"
      "out' = (out @ [ClientDeliverBundle a b]) @ map (ClientDeliverBundle a) sent"
      "list_all (\<lambda>b. fragment_offset (ref_primary_block b) = None) sent"
      "queue_of pend' dst = queue_of (push_back dst b pend) dst @ sent"
      "\<forall>k. k \<noteq> dst \<longrightarrow> queue_of pend' k = queue_of (push_back dst b pend) k"
      by blast
    then show ?thesis
      using frag by (intro exI [of _ "b # sent"] exI [of _ rest]) (simp add: queue_of_push_back)
  next
    case Full
    then show ?thesis
      using Cons.prems by (intro exI [of _ "[]"] exI [of _ "b # q"]) (auto simp: result_simps)
  next
    case Closed
    then show ?thesis
      using Cons.prems by (intro exI [of _ "[]"] exI [of _ "b # q"]) (auto simp: result_simps)
  qed
qed simp

end
