(* ===== verification/Dtrd_Storage_Laws.thy ===== *)
theory Dtrd_Storage_Laws
  imports Dtrd_Storage
begin

text \<open>
  What the storage agent keeps: sequence numbers that tell new bundles apart, a directory that can be
  read back after a restart, and reassembly that neither loses nor invents bundles.
\<close>

section \<open>New bundles\<close>

fun store_new_all :: "storage_env \<Rightarrow> bytes list \<Rightarrow> 'e storage_act" where
  "store_new_all E [] d = Ok (d, [])"
| "store_new_all E (x # xs) d =
     and_then (handle_StoreNewBundle E x d) (\<lambda>(d, es).
     and_then (store_new_all E xs d) (\<lambda>(d, es'). Ok (d, es @ es')))"

definition bundle_time :: "Bundle \<Rightarrow> DtnTime" where
  "bundle_time b = creation_time (creation_timestamp (primary_block b))"

definition stamp :: "StoredBundleRef \<Rightarrow> DtnTime \<times> u64" where
  "stamp r = (creation_time (creation_timestamp (ref_primary_block r)),
              sequence_number (creation_timestamp (ref_primary_block r)))"

text \<open>A bundle that the client agent may hand over: created here, whole, with a payload.\<close>

definition new_bundle_ok :: "storage_env \<Rightarrow> Endpoint \<Rightarrow> Bundle \<Rightarrow> bool" where
  "new_bundle_ok E e b \<longleftrightarrow> bundle_wf (s_enc E) b \<and> has_payload b \<and> fragment_offset (primary_block b) = None \<and>
     matches_node (source_node (primary_block b)) e = (Ok True :: (bool, unit) result)"

lemma matches_node_any: "matches_node a b = (Ok v :: (bool, unit) result) \<Longrightarrow> matches_node a b = (Ok v :: (bool, 'e) result)"
  by (cases a; cases b) (auto simp: DTNEndpoint_matches_node_def node_name_def str_from_def result_simps
      split: if_splits)

lemma wf_set_sequence_number [simp]: "bundle_wf enc (set_sequence_number n b) = bundle_wf enc b"
  by (simp add: bundle_wf_def set_sequence_number_def primary_serializable_def primary_wf_def)

lemma has_payload_set_sequence_number [simp]: "has_payload (set_sequence_number n b) = has_payload b"
  by (simp add: has_payload_def set_sequence_number_def)

lemma wf_to_vec: "bundle_wf enc b \<Longrightarrow> Bundle_to_vec enc b = Ok (enc (bundle_cbor enc b))"
  by (rule Bundle_to_vec_Ok) (simp add: bundle_wf_def primary_serializable_def)

lemma wf_try_from:
  "serde_cbor enc dec \<Longrightarrow> bundle_wf enc b \<Longrightarrow> Bundle_try_from dec (enc (bundle_cbor enc b)) = Ok b"
  using Bundle_roundtrip [of enc dec b] by (simp add: wf_to_vec)

definition stored :: "storage_env \<Rightarrow> nat \<Rightarrow> Bundle \<Rightarrow> StoredBundle" where
  "stored E arc b =
     \<lparr>sb_arc = arc, sb_data = s_enc E (bundle_cbor (s_enc E) b), sb_state = Received,
      sb_size = of_nat (length (s_enc E (bundle_cbor (s_enc E) b))),
      sb_payload_size = of_nat (length (payload_of b)), sb_min_size = None,
      sb_primary_block = primary_block b\<rparr>"

lemma StoredBundle_from_wf:
  assumes "serde_cbor (s_enc E) (s_dec E)" "bundle_wf (s_enc E) b" "has_payload b"
  shows "StoredBundle_from (s_dec E) arc (s_enc E (bundle_cbor (s_enc E) b)) = Ok (stored E arc b)"
  by (simp add: StoredBundle_from_def wf_try_from [OF assms(1,2)] payload_block_eq [OF assms(3)] stored_def)

lemma store_new_wf:
  assumes "serde_cbor (s_enc E) (s_dec E)" "storage_endpoint d = Some e" "new_bundle_ok E e b"
    and "next_sequence_number (bundle_time b) d = (d1, n)"
  shows "handle_StoreNewBundle E (s_enc E (bundle_cbor (s_enc E) b)) d =
    Ok (d1\<lparr>next_arc := Suc (next_arc d1), bundles := bundles d1 @ [stored E (next_arc d1) (set_sequence_number n b)]\<rparr>,
        [get_ref (stored E (next_arc d1) (set_sequence_number n b))])"
proof -
  have b: "bundle_wf (s_enc E) b" "has_payload b" "fragment_offset (primary_block b) = None"
    and own: "matches_node (source_node (primary_block b)) e = Ok True"
    using assms(3) matches_node_any by (auto simp: new_bundle_ok_def)
  have t: "creation_time (creation_timestamp (primary_block b)) = bundle_time b"
    by (simp add: bundle_time_def)
  have sn: "bundle_wf (s_enc E) (set_sequence_number n b)" "has_payload (set_sequence_number n b)"
    using b by simp_all
  show ?thesis
    unfolding handle_StoreNewBundle_def
    by (simp add: wf_try_from [OF assms(1) b(1)] assms(2) own b(3) assert_then_def t assms(4)
        wf_to_vec [OF sn(1)] StoredBundle_from_wf [OF assms(1) sn])
qed

text \<open>The stamp that the last new bundle got, as a lower bound for the stamps to come.\<close>

definition after_last :: "StorageDaemon \<Rightarrow> DtnTime \<times> u64 \<Rightarrow> bool" where
  "after_last d s \<longleftrightarrow> (case last_created_dtn_time d of
     None \<Rightarrow> True
   | Some t \<Rightarrow> t < fst s \<or> t = fst s \<and> last_sequence_number d < snd s)"

lemma stamp_stored [simp]:
  "stamp (get_ref (stored E arc (set_sequence_number n b))) = (bundle_time b, n)"
  by (simp add: stamp_def get_ref_def stored_def set_sequence_number_def bundle_time_def)

lemma store_new_all_stamps:
  assumes "serde_cbor (s_enc E) (s_dec E)"
  shows "storage_endpoint d = Some e \<Longrightarrow> list_all (new_bundle_ok E e) bs \<Longrightarrow>
    sorted (map bundle_time bs) \<Longrightarrow>
    (\<And>t. last_created_dtn_time d = Some t \<Longrightarrow> list_all (\<lambda>b. t \<le> bundle_time b) bs) \<Longrightarrow>
    unat (last_sequence_number d) + length bs < 2 ^ 64 \<Longrightarrow>
    \<exists>d' es. store_new_all E (map (\<lambda>b. s_enc E (bundle_cbor (s_enc E) b)) bs) d = (Ok (d', es) :: (_, 'e) result)
      \<and> map (\<lambda>r. fst (stamp r)) es = map bundle_time bs \<and> distinct (map stamp es) \<and> list_all (after_last d) (map stamp es)"
proof (induction bs arbitrary: d)
  case (Cons b bs)
  obtain d1 n where n: "next_sequence_number (bundle_time b) d = (d1, n)"
    by (cases "next_sequence_number (bundle_time b) d")
  define d2 where "d2 = d1\<lparr>next_arc := Suc (next_arc d1),
      bundles := bundles d1 @ [stored E (next_arc d1) (set_sequence_number n b)]\<rparr>"
  have step: "handle_StoreNewBundle E (s_enc E (bundle_cbor (s_enc E) b)) d =
      (Ok (d2, [get_ref (stored E (next_arc d1) (set_sequence_number n b))]) :: (_, 'e) result)"
    unfolding d2_def using Cons.prems(2) by (intro store_new_wf [OF assms Cons.prems(1) _ n]) simp
  have wrap: "unat (last_sequence_number d + 1) = Suc (unat (last_sequence_number d))"
    using Cons.prems(5) by (simp add: unat_word_ariths)
  have d2: "storage_endpoint d2 = Some e" "last_created_dtn_time d2 = Some (bundle_time b)"
    "last_sequence_number d2 = n" "unat n \<le> Suc (unat (last_sequence_number d))"
    using n Cons.prems(1) wrap by (auto simp: d2_def next_sequence_number_def split: if_splits)
  have "last_sequence_number d < last_sequence_number d + 1"
    using wrap by (simp add: word_less_nat_alt)
  then have here: "after_last d (bundle_time b, n)"
    using n Cons.prems(4) by (auto simp: after_last_def next_sequence_number_def split: if_splits option.splits)
  have ih: "\<exists>d' es. store_new_all E (map (\<lambda>b. s_enc E (bundle_cbor (s_enc E) b)) bs) d2 = (Ok (d', es) :: (_, 'e) result)
      \<and> map (\<lambda>r. fst (stamp r)) es = map bundle_time bs \<and> distinct (map stamp es) \<and> list_all (after_last d2) (map stamp es)"
    by (rule Cons.IH) (use Cons.prems d2 in \<open>auto simp: list_all_iff\<close>)
  then obtain d' es where rest: "store_new_all E (map (\<lambda>b. s_enc E (bundle_cbor (s_enc E) b)) bs) d2 = (Ok (d', es) :: (_, 'e) result)"
    "map (\<lambda>r. fst (stamp r)) es = map bundle_time bs" "distinct (map stamp es)" "list_all (after_last d2) (map stamp es)"
    by blast
  have new: "(bundle_time b, n) \<notin> set (map stamp es)"
  proof
    assume "(bundle_time b, n) \<in> set (map stamp es)"
    then have "after_last d2 (bundle_time b, n)"
      using rest(4) unfolding list_all_iff by blast
    then show False
      using d2 by (simp add: after_last_def)
  qed
  have later: "after_last d s" if "after_last d2 s" for s
    using that here d2 by (auto simp: after_last_def split: option.splits)
  show ?case
    using rest new here later
    by (intro exI [of _ d'] exI [of _ "get_ref (stored E (next_arc d1) (set_sequence_number n b)) # es"])
      (auto simp: step list_all_iff)
qed simp

text \<open>The counter starts again when the clock shows another time, so a clock that goes back makes the
  agent give the same stamp twice.\<close>

lemma clock_back_repeats:
  assumes "t \<noteq> t'" "last_created_dtn_time d \<noteq> Some t"
  shows "snd (next_sequence_number t d) = 0 \<and>
    snd (next_sequence_number t (fst (next_sequence_number t' (fst (next_sequence_number t d))))) = 0"
  using assms by (auto simp: next_sequence_number_def)

section \<open>The storage directory\<close>

text \<open>The bytes of a bundle are the ones its name was made of.\<close>

definition genuine :: "storage_env \<Rightarrow> StoredBundle \<Rightarrow> bool" where
  "genuine E sb \<longleftrightarrow> (\<exists>x. StoredBundle_from (s_dec E) 0 (sb_data sb) = (Ok x :: (StoredBundle, unit) result) \<and>
     sb_primary_block x = sb_primary_block sb \<and> sb_size x = sb_size sb)"

definition file_ok :: "storage_env \<Rightarrow> string \<times> bytes \<Rightarrow> bool" where
  "file_ok E f \<longleftrightarrow> (\<exists>x. StoredBundle_from (s_dec E) 0 (snd f) = (Ok x :: (StoredBundle, unit) result) \<and>
     get_filename x = fst f)"

definition storage_inv :: "storage_env \<Rightarrow> StorageDaemon \<Rightarrow> bool" where
  "storage_inv E d \<longleftrightarrow> list_all (file_ok E) (files d) \<and> distinct (map fst (files d)) \<and>
     list_all (\<lambda>sb. sb_state sb = Received \<longrightarrow> genuine E sb) (bundles d)"

text \<open>The bundle protocol agent declares a bundle valid only after it was received.\<close>

fun message_ok :: "storage_message \<Rightarrow> StorageDaemon \<Rightarrow> bool" where
  "message_ok (UpdateBundle r st nd) d \<longleftrightarrow>
     (case position (\<lambda>b. same_bundle b r) (bundles d) of
        None \<Rightarrow> True
      | Some i \<Rightarrow> st = Valid \<longrightarrow> sb_state (bundles d ! i) \<in> {Received, Valid})"
| "message_ok m d \<longleftrightarrow> True"

lemma payload_block_any: "payload_block b = (Ok p :: (_, 'e) result) \<Longrightarrow> payload_block b = (Ok p :: (_, 'f) result)"
proof -
  assume "payload_block b = (Ok p :: (_, 'e) result)"
  then obtain c where "find (\<lambda>c. is_payload (block c)) (blocks b) = Some c"
    by (auto simp: payload_block_def payload_canonical_block_def result_simps)
  then show ?thesis
    using \<open>payload_block b = Ok p\<close>
    by (cases "block c") (simp_all add: payload_block_def payload_canonical_block_def)
qed

lemma StoredBundle_from_any:
  assumes "StoredBundle_from dec arc x = (Ok sb :: (_, 'e) result)"
  shows "StoredBundle_from dec arc' x = (Ok (sb\<lparr>sb_arc := arc'\<rparr>) :: (_, 'f) result)"
proof -
  obtain b p where b: "Bundle_try_from dec x = Ok b" and p: "payload_block b = (Ok p :: (_, 'e) result)"
    and sb: "sb = \<lparr>sb_arc = arc, sb_data = x, sb_state = Received, sb_size = of_nat (length x),
      sb_payload_size = of_nat (length (data p)), sb_min_size = None, sb_primary_block = primary_block b\<rparr>"
    using assms by (auto simp: StoredBundle_from_def result_simps)
  show ?thesis
    by (simp add: StoredBundle_from_def b payload_block_any [OF p] sb)
qed

lemma get_filename_arc [simp]: "get_filename (sb\<lparr>sb_arc := a\<rparr>) = get_filename sb"
  "get_filename (sb\<lparr>sb_state := st\<rparr>) = get_filename sb" "get_filename (sb\<lparr>sb_min_size := m\<rparr>) = get_filename sb"
  by (simp_all add: get_filename_def)

lemma genuine_frame [simp]: "genuine E (sb\<lparr>sb_state := st\<rparr>) = genuine E sb"
  "genuine E (sb\<lparr>sb_min_size := m\<rparr>) = genuine E sb"
  by (simp_all add: genuine_def)

lemma StoredBundle_from_genuine:
  assumes "StoredBundle_from (s_dec E) arc x = (Ok sb :: (_, 'e) result)"
  shows "genuine E sb" "sb_data sb = x"
proof -
  show d: "sb_data sb = x"
    using assms by (auto simp: StoredBundle_from_def result_simps)
  show "genuine E sb"
    using StoredBundle_from_any [OF assms, of 0] by (auto simp: genuine_def d)
qed

lemma genuine_file_ok: "genuine E sb \<Longrightarrow> file_ok E (get_filename sb, sb_data sb)"
  by (auto simp: genuine_def file_ok_def get_filename_def)

lemma write_files_inv:
  assumes "storage_inv E d" "genuine E sb"
  shows "storage_inv E (write_bundle_to_file E sb d)"
  using assms update_subset [of "get_filename sb" "sb_data sb" "files d"] genuine_file_ok [OF assms(2)]
  by (auto simp: storage_inv_def write_bundle_to_file_def list_all_iff distinct_update)

lemma delete_files_inv: "storage_inv E d \<Longrightarrow> storage_inv E (delete_bundle_file E sb d)"
  by (auto simp: storage_inv_def delete_bundle_file_def list_all_iff AList.delete_eq distinct_map_filter)

lemma fold_delete_inv: "storage_inv E d \<Longrightarrow> storage_inv E (fold (delete_bundle_file E) sbs d)"
  by (induction sbs arbitrary: d) (simp_all add: delete_files_inv)

lemma storage_inv_arc [simp]: "storage_inv E (d\<lparr>next_arc := n\<rparr>) = storage_inv E d"
  by (simp add: storage_inv_def)

lemma storage_inv_bundles:
  "storage_inv E d \<Longrightarrow> (\<And>sb. sb \<in> set sbs \<Longrightarrow> sb \<in> set (bundles d) \<or> sb_state sb \<noteq> Received \<or> genuine E sb) \<Longrightarrow>
   storage_inv E (d\<lparr>bundles := sbs\<rparr>)"
  by (auto simp: storage_inv_def list_all_iff)

lemma bundles_files [simp]: "bundles (write_bundle_to_file E sb d) = bundles d"
  "bundles (delete_bundle_file E sb d) = bundles d"
  by (simp_all add: write_bundle_to_file_def delete_bundle_file_def)

lemma store_bundle_inv:
  assumes "storage_inv E d" "store_bundle E x mn st pr d = (Ok (d', es) :: (_, 'e) result)"
  shows "storage_inv E d'"
proof -
  obtain sb where sb: "StoredBundle_from (s_dec E) (next_arc d) x = (Ok sb :: (_, 'e) result)"
    using assms(2) by (auto simp: store_bundle_def result_simps)
  let ?sb = "sb\<lparr>sb_min_size := mn, sb_state := st\<rparr>"
  have g: "genuine E ?sb"
    using StoredBundle_from_genuine(1) [OF sb] by simp
  have i: "storage_inv E (d\<lparr>next_arc := Suc (next_arc d)\<rparr>)"
    using assms(1) by simp
  show ?thesis
    using assms(2) write_files_inv [OF i g] i g
    by (auto simp: store_bundle_def sb Let_def split: if_splits intro!: storage_inv_bundles)
qed

lemma store_fragments_inv:
  "storage_inv E d \<Longrightarrow> store_fragments E mn bs d = (Ok (d', es) :: (_, 'e) result) \<Longrightarrow> storage_inv E d'"
proof (induction bs arbitrary: d es)
  case (Cons b bs)
  then obtain x d1 es1 es2 where "store_bundle E x (Some mn) Valid True d = (Ok (d1, es1) :: (_, 'e) result)"
    and rest: "store_fragments E mn bs d1 = (Ok (d', es2) :: (_, 'e) result)"
    by (auto simp: result_simps)
  then show ?case
    using Cons.IH [OF store_bundle_inv rest] Cons.prems(1) by blast
qed simp

lemma FragmentBundle_inv:
  assumes inv: "storage_inv E d" and step: "handle_FragmentBundle E r n d = (Ok (d', es) :: (_, 'e) result)"
  shows "storage_inv E d'"
proof (cases "position (\<lambda>b. same_bundle b r) (bundles d)")
  case None
  then show ?thesis
    using inv step by (simp add: handle_FragmentBundle_def)
next
  case (Some i)
  let ?sb = "bundles d ! i"
  let ?d = "d\<lparr>bundles := vec_remove i (bundles d)\<rparr>"
  have mem: "?sb \<in> set (bundles d)"
    using position_Some [OF Some] by simp
  have i: "storage_inv E ?d"
    using vec_remove_subset [of i "bundles d"] by (intro storage_inv_bundles [OF inv]) auto
  obtain b where b: "get_bundle (s_dec E) ?sb = (Ok b :: (_, 'e) result)"
    using step by (auto simp: handle_FragmentBundle_def Some Let_def result_simps)
  show ?thesis
  proof (cases "fragment (s_enc E) b (unat n)")
    case (Ok out)
    obtain f fs m1 m2 where out: "out = (f # fs, m1, m2)"
      using step b by (cases out rule: prod_cases3, cases "fst out")
        (auto simp: handle_FragmentBundle_def Some Let_def Ok)
    obtain d1 es1 d2 es2 where s1: "store_fragments E m1 [f] ?d = (Ok (d1, es1) :: (_, 'e) result)"
      and s2: "store_fragments E m2 fs d1 = (Ok (d2, es2) :: (_, 'e) result)"
      and d': "d' = delete_bundle_file E ?sb d2"
      using step b by (auto simp: handle_FragmentBundle_def Some Let_def Ok out result_simps
          simp del: store_fragments.simps)
    show ?thesis
      unfolding d' by (rule delete_files_inv [OF store_fragments_inv [OF store_fragments_inv [OF i s1] s2]])
  next
    case (Err e)
    then obtain m where m: "e = CanNotFragmentThatSmall m"
      using step b by (cases e) (auto simp: handle_FragmentBundle_def Some Let_def)
    have "sb_state ?sb = Received \<Longrightarrow> genuine E ?sb"
      using inv mem by (simp add: storage_inv_def list_all_iff)
    then have "storage_inv E (?d\<lparr>bundles := bundles ?d @ [?sb\<lparr>sb_min_size := Some m\<rparr>]\<rparr>)"
      by (intro storage_inv_bundles [OF i]) auto
    then show ?thesis
      using step b by (simp add: handle_FragmentBundle_def Some Let_def Err m)
  qed (use step b in \<open>simp add: handle_FragmentBundle_def Some Let_def\<close>)
qed

lemma take_fragments_mset:
  "take_fragments dec pb sbs = Ok (fs, rest) \<Longrightarrow> mset fs + mset rest = mset sbs"
  by (induction sbs arbitrary: fs rest) (auto simp: result_simps split: if_splits)

lemma take_fragments_subset:
  assumes "take_fragments dec pb sbs = Ok (fs, rest)"
  shows "set fs \<subseteq> set sbs" "set rest \<subseteq> set sbs"
proof -
  have "set_mset (mset fs + mset rest) = set_mset (mset sbs)"
    by (simp only: take_fragments_mset [OF assms])
  then show "set fs \<subseteq> set sbs" "set rest \<subseteq> set sbs"
    by auto
qed

lemma try_defragment_inv:
  assumes inv: "storage_inv E d" and step: "try_defragment_bundle E r d = (Ok (d', es) :: (_, 'e) result)"
  shows "storage_inv E d'"
proof -
  obtain fs rest bs where tf: "take_fragments (s_dec E) (ref_primary_block r) (bundles d) = (Ok (fs, rest) :: (_, 'e) result)"
    and bs: "traverse (get_bundle (s_dec E)) fs = (Ok bs :: (_, 'e) result)" and ne: "fs \<noteq> []"
    using step by (auto simp: try_defragment_bundle_def result_simps Let_def)
  have i: "storage_inv E (d\<lparr>bundles := rest\<rparr>)"
    using take_fragments_subset [OF tf] by (intro storage_inv_bundles [OF inv]) auto
  show ?thesis
  proof (cases "reassemble_bundles (s_enc E) bs")
    case (Ok x)
    then obtain d1 es1 where s1: "store_bundle E x None Valid True (d\<lparr>bundles := rest\<rparr>) = (Ok (d1, es1) :: (_, 'e) result)"
      and d': "d' = fold (delete_bundle_file E) fs d1"
      using step ne by (auto simp: try_defragment_bundle_def Let_def tf bs assert_then_def result_simps)
    show ?thesis
      unfolding d' by (rule fold_delete_inv [OF store_bundle_inv [OF i s1]])
  next
    case (Err e)
    have "storage_inv E (d\<lparr>bundles := rest @ fs\<rparr>)"
      using take_fragments_subset [OF tf] by (intro storage_inv_bundles [OF inv]) auto
    then show ?thesis
      using step ne by (simp add: try_defragment_bundle_def Let_def tf bs assert_then_def Err)
  qed (use step ne in \<open>simp add: try_defragment_bundle_def Let_def tf bs assert_then_def\<close>)
qed

lemma UpdateBundle_inv:
  assumes inv: "storage_inv E d" and ok: "message_ok (UpdateBundle r st nd) d"
    and step: "handle_UpdateBundle E r st nd d = (Ok (d', es) :: (_, 'e) result)"
  shows "storage_inv E d'"
proof (cases "position (\<lambda>b. same_bundle b r) (bundles d)")
  case None
  then show ?thesis
    using inv step by (simp add: handle_UpdateBundle_def)
next
  case (Some i)
  define sb where "sb = bundles d ! i"
  define d1 where "d1 = (let d1 = d\<lparr>bundles := vec_remove i (bundles d)\<rparr> in
    if st = Valid \<and> sb_state sb \<noteq> Valid then write_bundle_to_file E sb d1 else d1)"
  have mem: "sb_state sb = Received \<Longrightarrow> genuine E sb"
    using inv position_Some [OF Some] by (simp add: storage_inv_def list_all_iff sb_def)
  have g: "genuine E sb" if "st = Valid" "sb_state sb \<noteq> Valid"
    using ok that mem by (auto simp: Some sb_def)
  have i: "storage_inv E (d\<lparr>bundles := vec_remove i (bundles d)\<rparr>)"
    using vec_remove_subset [of i "bundles d"] by (intro storage_inv_bundles [OF inv]) auto
  then have i1: "storage_inv E d1"
    using write_files_inv g by (auto simp: d1_def Let_def)
  have kept: "storage_inv E (d1\<lparr>bundles := bundles d1 @ [sb]\<rparr>)"
    using mem by (intro storage_inv_bundles [OF i1]) auto
  have u: "handle_UpdateBundle E r st nd d =
      (if st \<in> {Valid, DeliveryQueued, ForwardingQueued} then
         let sb = sb\<lparr>sb_state := st\<rparr>;
             (sb, d) = (case nd of
                 Some dt \<Rightarrow> (sb\<lparr>sb_arc := next_arc d1, sb_data := dt\<rparr>, d1\<lparr>next_arc := Suc (next_arc d1)\<rparr>)
               | None \<Rightarrow> (sb, d1))
         in Ok (d\<lparr>bundles := bundles d @ [sb]\<rparr>, [get_ref sb])
       else if st = DefragmentationPending then
         try_defragment_bundle E (get_ref sb) (d1\<lparr>bundles := bundles d1 @ [sb]\<rparr>)
       else if st \<in> {Delivered, Forwarded, Invalid} then Ok (delete_bundle_file E sb d1, [])
       else Panic)"
    unfolding handle_UpdateBundle_def Some d1_def sb_def Let_def option.case by (rule refl)
  show ?thesis
  proof (cases "st = DefragmentationPending")
    case True
    then show ?thesis
      using step unfolding u by (intro try_defragment_inv [OF kept, of "get_ref sb" d' es]) simp
  next
    case False
    then show ?thesis
      using step i1 delete_files_inv [OF i1, of sb]
      unfolding u by (auto simp: Let_def split: if_splits option.splits intro!: storage_inv_bundles)
  qed
qed

lemma StoreNewBundle_inv:
  assumes inv: "storage_inv E d" and step: "handle_StoreNewBundle E x d = (Ok (d', es) :: (_, 'e) result)"
  shows "storage_inv E d'"
proof -
  obtain b :: Bundle and e own where own: "Bundle_try_from (s_dec E) x = Ok b" "storage_endpoint d = Some e"
    "matches_node (source_node (primary_block b)) e = (Ok own :: (_, 'e) result)"
    using step by (auto simp: handle_StoreNewBundle_def result_simps)
  obtain d1 n where n: "next_sequence_number (creation_time (creation_timestamp (primary_block b))) d = (d1, n)"
    by (cases "next_sequence_number (creation_time (creation_timestamp (primary_block b))) d")
  obtain y sb where sb: "StoredBundle_from (s_dec E) (next_arc d1) y = (Ok sb :: (_, 'e) result)"
    and d': "d' = d1\<lparr>next_arc := Suc (next_arc d1), bundles := bundles d1 @ [sb]\<rparr>"
    using step by (auto simp: handle_StoreNewBundle_def own n result_simps split: if_splits)
  have "storage_inv E d1"
    using inv n by (auto simp: next_sequence_number_def storage_inv_def split: if_splits)
  then have "storage_inv E (d1\<lparr>next_arc := Suc (next_arc d1)\<rparr>)"
    by simp
  then show ?thesis
    unfolding d' using StoredBundle_from_genuine(1) [OF sb] by (intro storage_inv_bundles) auto
qed

lemma storage_step_inv:
  assumes "storage_inv E d" "message_ok m d" "storage_step E m d = (Ok (d', es) :: (_, 'e) result)"
  shows "storage_inv E d'"
proof (cases m)
  case (StoreReceivedBundle x)
  then show ?thesis
    using assms(3) by (intro store_bundle_inv [OF assms(1)]) (simp add: handle_StoreReceivedBundle_def)
next
  case (StoreNewBundle x)
  then show ?thesis
    using assms(3) by (intro StoreNewBundle_inv [OF assms(1)]) simp
next
  case (FragmentBundle r n)
  then show ?thesis
    using assms(3) by (intro FragmentBundle_inv [OF assms(1)]) simp
next
  case (UpdateBundle r st nd)
  then show ?thesis
    using assms(2,3) by (intro UpdateBundle_inv [OF assms(1)]) simp_all
qed

section \<open>Restart\<close>

lemma load_files:
  "list_all (file_ok E) fs \<Longrightarrow>
   \<exists>sbs. load_bundles (s_dec E) arc fs = (Ok sbs :: (_, 'e) result) \<and> map sb_data sbs = map snd fs
     \<and> map get_filename sbs = map fst fs \<and> list_all (\<lambda>sb. sb_state sb = Valid \<and> genuine E sb) sbs"
proof (induction fs arbitrary: arc)
  case (Cons f fs)
  obtain name x where f: "f = (name, x)"
    by (cases f)
  obtain sb where sb: "StoredBundle_from (s_dec E) 0 x = (Ok sb :: (_, unit) result)" "get_filename sb = name"
    using Cons.prems by (auto simp: file_ok_def f)
  note here = StoredBundle_from_any [OF sb(1), of arc, where 'f = 'e]
  obtain sbs where "load_bundles (s_dec E) (Suc arc) fs = (Ok sbs :: (_, 'e) result)" "map sb_data sbs = map snd fs"
    "map get_filename sbs = map fst fs" "list_all (\<lambda>sb. sb_state sb = Valid \<and> genuine E sb) sbs"
    using Cons.IH [of "Suc arc"] Cons.prems by auto
  then show ?case
    using StoredBundle_from_genuine [OF here] sb(2) by (simp add: f here)
qed simp

text \<open>The states of the storage agent over its life: messages from the other agents, and restarts on
  the directory it left behind.\<close>

definition storage_empty :: "Endpoint \<Rightarrow> StorageDaemon" where
  "storage_empty e =
     \<lparr>bundles = [], storage_endpoint = Some e, last_created_dtn_time = None, last_sequence_number = 0,
      next_arc = 0, files = []\<rparr>"

inductive storage_reachable :: "storage_env \<Rightarrow> StorageDaemon \<Rightarrow> bool" for E where
  empty: "storage_reachable E (storage_empty e)"
| step: "storage_reachable E d \<Longrightarrow> message_ok m d \<Longrightarrow>
    storage_step E m d = (Ok (d', es) :: (_, unit) result) \<Longrightarrow> storage_reachable E d'"
| restart: "storage_reachable E d \<Longrightarrow>
    storage_started E name (files d) = (Ok (d', es) :: (_, unit) result) \<Longrightarrow> storage_reachable E d'"

lemma started_files:
  assumes "storage_inv E d" "Endpoint_new name = Some e"
  shows "\<exists>d'. storage_started E name (files d) = (Ok (d', map get_ref (bundles d')) :: (_, 'e) result) \<and>
    files d' = files d \<and> map sb_data (bundles d') = map snd (files d) \<and>
    map get_filename (bundles d') = map fst (files d) \<and>
    list_all (\<lambda>sb. sb_state sb = Valid \<and> genuine E sb) (bundles d')"
proof -
  have "list_all (file_ok E) (files d)"
    using assms(1) by (simp add: storage_inv_def)
  from load_files [OF this, of 0, where 'e = 'e] show ?thesis
    by (auto simp: storage_started_def assms(2))
qed

lemma storage_reachable_inv: "storage_reachable E d \<Longrightarrow> storage_inv E d"
proof (induction rule: storage_reachable.induct)
  case (empty e)
  then show ?case
    by (simp add: storage_empty_def storage_inv_def)
next
  case (step d m d' es)
  then show ?case
    by (blast intro: storage_step_inv)
next
  case (restart d name d' es)
  then obtain e where "Endpoint_new name = Some e"
    by (auto simp: storage_started_def result_simps)
  from started_files [OF restart.IH this, where 'e = unit] restart show ?case
    by (auto simp: storage_inv_def list_all_iff)
qed

text \<open>A received bundle is on disk once it is valid.\<close>

lemma valid_written:
  assumes "position (\<lambda>b. same_bundle b r) (bundles d) = Some i" "sb_state (bundles d ! i) = Received"
    and "s_writable E (get_filename (bundles d ! i))"
    and "handle_UpdateBundle E r Valid nd d = (Ok (d', es) :: (_, 'e) result)"
  shows "map_of (files d') (get_filename (bundles d ! i)) = Some (sb_data (bundles d ! i))"
proof -
  have "files d' = files (write_bundle_to_file E (bundles d ! i) d)"
    using assms(4) by (auto simp: handle_UpdateBundle_def assms(1,2) Let_def write_bundle_to_file_def
        split: option.splits if_splits)
  then show ?thesis
    by (simp add: write_bundle_to_file_def assms(3) map_of_update)
qed

section \<open>Reassembly in the store\<close>

definition readable :: "storage_env \<Rightarrow> StoredBundle \<Rightarrow> bool" where
  "readable E sb \<longleftrightarrow> (case Bundle_try_from (s_dec E) (sb_data sb) of Ok b \<Rightarrow> True | _ \<Rightarrow> False)"

definition content_of :: "storage_env \<Rightarrow> StoredBundle \<Rightarrow> Bundle" where
  "content_of E sb = (case Bundle_try_from (s_dec E) (sb_data sb) of Ok b \<Rightarrow> b | _ \<Rightarrow> undefined)"

lemma get_bundle_content: "readable E sb \<Longrightarrow> get_bundle (s_dec E) sb = Ok (content_of E sb)"
  by (auto simp: readable_def content_of_def get_bundle_def split: result.splits)

definition belongs :: "(StoredBundle \<Rightarrow> Bundle) \<Rightarrow> StoredBundleRef \<Rightarrow> StoredBundle \<Rightarrow> bool" where
  "belongs content r sb \<longleftrightarrow> equals_ignoring_fragment_info (primary_block (content sb)) (ref_primary_block r)"

lemma take_fragments_filter:
  "(\<And>sb. sb \<in> set sbs \<Longrightarrow> get_bundle dec sb = (Ok (content sb) :: (_, 'e) result)) \<Longrightarrow>
   take_fragments dec (ref_primary_block r) sbs =
     (Ok (filter (belongs content r) sbs, filter (\<lambda>sb. \<not> belongs content r sb) sbs) :: (_, 'e) result)"
  by (induction sbs) (auto simp: belongs_def)

lemma has_payload_reassembled: "has_payload b \<Longrightarrow> has_payload (reassembled b xs)"
proof -
  have "is_payload (block (set_payload_data xs c)) = is_payload (block c)" for c
    by (cases "block c") (simp_all add: set_payload_data_def)
  then show "has_payload b \<Longrightarrow> has_payload (reassembled b xs)"
    by (simp add: has_payload_def list_ex_iff reassembled_def)
qed

lemma fold_delete_frame:
  "bundles (fold (delete_bundle_file E) sbs d) = bundles d"
  "n \<notin> get_filename ` set sbs \<Longrightarrow> map_of (files (fold (delete_bundle_file E) sbs d)) n = map_of (files d) n"
  by (induction sbs arbitrary: d) (auto simp: delete_bundle_file_def delete_conv')

text \<open>One attempt at reassembly: with all pieces in the store they are replaced by the whole bundle,
  otherwise the store holds the same bundles as before.\<close>

lemma try_defragment_step:
  fixes content :: "StoredBundle \<Rightarrow> Bundle"
  assumes codec: "serde_cbor (s_enc E) (s_dec E)"
    and parse: "\<And>sb. sb \<in> set (bundles d) \<Longrightarrow> get_bundle (s_dec E) sb = (Ok (content sb) :: (_, 'e) result)"
    and F: "F = filter (belongs content r) (bundles d)" "F \<noteq> []"
    and ok: "\<And>sb. sb \<in> set F \<Longrightarrow> fragment_ok h xs (content sb)" "header_ok h xs"
    and whole: "whole = reassembled (hd (sort_key offset_key (map content F))) xs" "bundle_wf (s_enc E) whole"
    and sb': "sb' = (stored E (next_arc d) whole)\<lparr>sb_state := Valid\<rparr>"
  shows "try_defragment_bundle E r d =
    (if covers (map (bundle_slice \<circ> content) F) (length xs)
     then Ok (fold (delete_bundle_file E) F ((write_bundle_to_file E sb'
            (d\<lparr>bundles := filter (\<lambda>sb. \<not> belongs content r sb) (bundles d), next_arc := Suc (next_arc d)\<rparr>))
              \<lparr>bundles := filter (\<lambda>sb. \<not> belongs content r sb) (bundles d) @ [sb']\<rparr>), [get_ref sb'])
     else Ok (d\<lparr>bundles := filter (\<lambda>sb. \<not> belongs content r sb) (bundles d) @ F\<rparr>, []) :: (_, 'e) result)"
proof -
  have bs: "traverse (get_bundle (s_dec E)) F = (Ok (map content F) :: (_, 'e) result)"
    using traverse_map_Ok [of F "get_bundle (s_dec E)" id content] parse by (auto simp: F(1))
  have ne: "map content F \<noteq> []" and frags: "\<And>b. b \<in> set (map content F) \<Longrightarrow> fragment_ok h xs b"
    using F(2) ok(1) by auto
  have "hd (sort_key offset_key (map content F)) \<in> set (map content F)"
    using ne by (metis hd_in_set length_0_conv length_sort set_sort)
  then have pl: "has_payload whole"
    using frags whole(1) by (auto simp: fragment_ok_def intro: has_payload_reassembled)
  have st: "StoredBundle_from (s_dec E) (next_arc d) (s_enc E (bundle_cbor (s_enc E) whole)) =
      (Ok (stored E (next_arc d) whole) :: (_, 'e) result)"
    by (rule StoredBundle_from_wf [OF codec whole(2) pl])
  have sb: "stored E (next_arc d) whole\<lparr>sb_min_size := None, sb_state := Valid\<rparr> = sb'"
    by (simp add: sb' stored_def)
  show ?thesis
  proof (cases "covers (map (bundle_slice \<circ> content) F) (length xs)")
    case True
    then have "reassemble_bundles (s_enc E) (map content F) = Ok (s_enc E (bundle_cbor (s_enc E) whole))"
      using reassemble_covers [OF ne frags ok(2)] wf_to_vec [OF whole(2)] by (simp add: whole(1))
    then show ?thesis
      using F(2) True
      by (simp add: try_defragment_bundle_def take_fragments_filter [OF parse] F(1) [symmetric] Let_def
          assert_then_def bs store_bundle_def st sb)
  next
    case False
    then show ?thesis
      using F(2) reassemble_incomplete [OF ne frags ok(2), of "s_enc E"]
      by (simp add: try_defragment_bundle_def take_fragments_filter [OF parse] F(1) [symmetric] Let_def
          assert_then_def bs)
  qed
qed

end
