(* ===== verification/Dtrd_Node.thy ===== *)
theory Dtrd_Node
  imports Dtrd_Bpa_Laws Dtrd_Storage_Laws
begin

text \<open>
  The storage agent and the bundle protocol agent together. Messages between them are handled in the
  order in which they were sent; messages to clients and peers are collected. The weak pointers of
  the bundle protocol agent point into the storage agent.
\<close>

section \<open>Composition\<close>

record dtn_node =
  n_storage :: StorageDaemon
  n_bpa :: BpaDaemon
  n_sent :: "bpa_output list"

record node_env =
  n_files :: storage_env
  n_clock :: int
  n_clock_later :: int
  n_try_send :: "bpa_output list \<Rightarrow> addr \<Rightarrow> StoredBundleRef \<Rightarrow> send_result"

datatype node_message = StorageMsg storage_message | BpaMsg bpa_message

text \<open>\<open>Weak::upgrade\<close>: the storage agent holds the strong pointer.\<close>

definition upgrade_in :: "StoredBundle list \<Rightarrow> nat \<Rightarrow> bytes option" where
  "upgrade_in sbs arc = map_option sb_data (find (\<lambda>sb. sb_arc sb = arc) sbs)"

definition bpa_env_of :: "node_env \<Rightarrow> dtn_node \<Rightarrow> bpa_env" where
  "bpa_env_of E n =
     \<lparr>b_enc = s_enc (n_files E), b_dec = s_dec (n_files E),
      b_upgrade = upgrade_in (bundles (n_storage n)), b_clock = n_clock E, b_clock_later = n_clock_later E,
      b_try_send = (\<lambda>out. n_try_send E (n_sent n @ out))\<rparr>"

fun to_storage :: "bpa_output \<Rightarrow> storage_message option" where
  "to_storage (ToStorage m) = Some m"
| "to_storage (ClientDeliverBundle a b) = None"
| "to_storage (AgentForwardBundle a b) = None"

definition node_handle ::
  "node_env \<Rightarrow> node_message \<Rightarrow> dtn_node \<Rightarrow> (dtn_node \<times> node_message list, 'e) result" where
  "node_handle E m n =
     (case m of
        StorageMsg m \<Rightarrow>
          and_then (storage_step (n_files E) m (n_storage n)) (\<lambda>(d, es).
          Ok (n\<lparr>n_storage := d\<rparr>, map (BpaMsg \<circ> EventBundleUpdated) es))
      | BpaMsg m \<Rightarrow>
          and_then (bpa_handle (bpa_env_of E n) m (n_bpa n, [])) (\<lambda>(d, out).
          Ok (n\<lparr>n_bpa := d, n_sent := n_sent n @ filter (\<lambda>x. to_storage x = None) out\<rparr>,
              map StorageMsg (List.map_filter to_storage out))))"

fun node_run ::
  "node_env \<Rightarrow> nat \<Rightarrow> node_message list \<Rightarrow> dtn_node \<Rightarrow> (dtn_node \<times> node_message list, 'e) result" where
  "node_run E 0 q n = Ok (n, q)"
| "node_run E (Suc k) [] n = Ok (n, [])"
| "node_run E (Suc k) (m # q) n =
     and_then (node_handle E m n) (\<lambda>(n, ms). node_run E k (q @ ms) n)"

section \<open>A bundle alone in the store\<close>

definition arcs_ok :: "StorageDaemon \<Rightarrow> bool" where
  "arcs_ok d \<longleftrightarrow> list_all (\<lambda>sb. sb_arc sb < next_arc d) (bundles d)"

definition unknown :: "PrimaryBlock \<Rightarrow> StorageDaemon \<Rightarrow> bool" where
  "unknown pb d \<longleftrightarrow> list_all (\<lambda>sb. sb_primary_block sb \<noteq> pb) (bundles d)"

lemma position_last:
  "list_all (\<lambda>x. \<not> p x) xs \<Longrightarrow> p y \<Longrightarrow> position p (xs @ [y]) = Some (length xs)"
  by (induction xs) auto

lemma vec_remove_last [simp]: "vec_remove (length xs) (xs @ [y]) = xs"
  by (simp add: vec_remove_def)

lemma upgrade_last:
  "list_all (\<lambda>sb. sb_arc sb \<noteq> sb_arc x) sbs \<Longrightarrow> upgrade_in (sbs @ [x]) (sb_arc x) = Some (sb_data x)"
  by (induction sbs) (auto simp: upgrade_in_def)

lemma update_last:
  assumes "bundles d = sbs @ [sb]" "list_all (\<lambda>x. sb_primary_block x \<noteq> sb_primary_block sb) sbs"
    and "ref_primary_block r = sb_primary_block sb" "st = Valid \<or> st = DeliveryQueued \<or> st = ForwardingQueued"
  shows "handle_UpdateBundle E r st nd d =
    (let d = d\<lparr>bundles := sbs\<rparr>;
         d = (if st = Valid \<and> sb_state sb \<noteq> Valid then write_bundle_to_file E sb d else d);
         sb = sb\<lparr>sb_state := st\<rparr>;
         (sb, d) = (case nd of
             Some dt \<Rightarrow> (sb\<lparr>sb_arc := next_arc d, sb_data := dt\<rparr>, d\<lparr>next_arc := Suc (next_arc d)\<rparr>)
           | None \<Rightarrow> (sb, d))
     in Ok (d\<lparr>bundles := bundles d @ [sb]\<rparr>, [get_ref sb]))"
proof -
  have "position (\<lambda>b. same_bundle b r) (sbs @ [sb]) = Some (length sbs)"
    using assms(2,3) by (intro position_last) (auto simp: same_bundle_def list_all_iff)
  then show ?thesis
    using assms(4) by (simp add: handle_UpdateBundle_def assms(1) Let_def)
qed

section \<open>The way of a received bundle\<close>

text \<open>A bundle that the node can work on: well formed, of an unknown primary block, with no status
  report due on reception.\<close>

definition receivable :: "node_env \<Rightarrow> dtn_node \<Rightarrow> Endpoint \<Rightarrow> Bundle \<Rightarrow> bool" where
  "receivable E n me b \<longleftrightarrow>
     bundle_wf (s_enc (n_files E)) b \<and> has_payload b \<and> unknown (primary_block b) (n_storage n) \<and>
     arcs_ok (n_storage n) \<and> bpa_endpoint (n_bpa n) = Some me \<and>
     (\<exists>own. matches_node (source_node (primary_block b)) me = (Ok own :: (bool, unit) result) \<and>
        (own \<or> \<not> contains (bundle_processing_flags (primary_block b)) BUNDLE_RECEIPTION_STATUS_REQUESTED))"

definition bundle_bytes :: "node_env \<Rightarrow> Bundle \<Rightarrow> bytes" where
  "bundle_bytes E b = s_enc (n_files E) (bundle_cbor (s_enc (n_files E)) b)"

definition received_as :: "node_env \<Rightarrow> dtn_node \<Rightarrow> Bundle \<Rightarrow> State \<Rightarrow> StoredBundle" where
  "received_as E n b st = (stored (n_files E) (next_arc (n_storage n)) b)\<lparr>sb_state := st\<rparr>"

definition after_receipt :: "node_env \<Rightarrow> dtn_node \<Rightarrow> Bundle \<Rightarrow> State \<Rightarrow> dtn_node" where
  "after_receipt E n b st =
     n\<lparr>n_storage := (write_bundle_to_file (n_files E) (received_as E n b Received)
          ((n_storage n)\<lparr>next_arc := Suc (next_arc (n_storage n))\<rparr>))
            \<lparr>bundles := bundles (n_storage n) @ [received_as E n b st]\<rparr>\<rparr>"

lemma stored_simps [simp]:
  "sb_primary_block (stored E a b) = primary_block b" "sb_arc (stored E a b) = a"
  "sb_state (stored E a b) = Received" "sb_min_size (stored E a b) = None"
  "sb_data (stored E a b) = s_enc E (bundle_cbor (s_enc E) b)"
  by (simp_all add: stored_def)

lemma get_ref_simps [simp]:
  "ref_primary_block (get_ref sb) = sb_primary_block sb" "ref_state (get_ref sb) = sb_state sb"
  "ref_arc (get_ref sb) = sb_arc sb" "ref_size (get_ref sb) = sb_size sb" "ref_min_size (get_ref sb) = sb_min_size sb"
  by (simp_all add: get_ref_def)

lemma received_as_simps [simp]:
  "sb_primary_block (received_as E n b st) = primary_block b" "sb_state (received_as E n b st) = st"
  "sb_arc (received_as E n b st) = next_arc (n_storage n)" "sb_data (received_as E n b st) = bundle_bytes E b"
  "(received_as E n b st)\<lparr>sb_state := st'\<rparr> = received_as E n b st'"
  by (simp_all add: received_as_def bundle_bytes_def)

lemma after_receipt_bundles [simp]:
  "bundles (n_storage (after_receipt E n b st)) = bundles (n_storage n) @ [received_as E n b st]"
  "n_bpa (after_receipt E n b st) = n_bpa n" "n_sent (after_receipt E n b st) = n_sent n"
  by (simp_all add: after_receipt_def)

lemma bpa_env_of_simps [simp]:
  "b_enc (bpa_env_of E n) = s_enc (n_files E)" "b_dec (bpa_env_of E n) = s_dec (n_files E)"
  "b_upgrade (bpa_env_of E n) = upgrade_in (bundles (n_storage n))"
  "b_try_send (bpa_env_of E n) out = n_try_send E (n_sent n @ out)"
  by (simp_all add: bpa_env_of_def)

lemma step_store:
  assumes "serde_cbor (s_enc (n_files E)) (s_dec (n_files E))" "receivable E n me b"
  shows "node_handle E (StorageMsg (StoreReceivedBundle (bundle_bytes E b))) n =
    Ok (n\<lparr>n_storage := (n_storage n)\<lparr>next_arc := Suc (next_arc (n_storage n)),
            bundles := bundles (n_storage n) @ [received_as E n b Received]\<rparr>\<rparr>,
        [BpaMsg (EventBundleUpdated (get_ref (received_as E n b Received)))])"
proof -
  have b: "bundle_wf (s_enc (n_files E)) b" "has_payload b"
    using assms(2) by (auto simp: receivable_def)
  have r: "(stored (n_files E) a b)\<lparr>sb_min_size := None, sb_state := Received\<rparr> =
      (stored (n_files E) a b)\<lparr>sb_state := Received\<rparr>" for a
    by (simp add: stored_def)
  show ?thesis
    by (simp add: node_handle_def handle_StoreReceivedBundle_def store_bundle_def bundle_bytes_def
        StoredBundle_from_wf [OF assms(1) b] received_as_def Let_def r)
qed

lemma step_received:
  assumes "receivable E n me b" "n_bpa n' = n_bpa n"
  shows "node_handle E (BpaMsg (EventBundleUpdated (get_ref (received_as E n b Received)))) n' =
    Ok (n', [StorageMsg (UpdateBundle (get_ref (received_as E n b Received)) Valid None)])"
proof -
  obtain own where own: "matches_node (source_node (primary_block b)) me = (Ok own :: (bool, unit) result)"
    "own \<or> \<not> contains (bundle_processing_flags (primary_block b)) BUNDLE_RECEIPTION_STATUS_REQUESTED"
    and me: "bpa_endpoint (n_bpa n) = Some me"
    using assms(1) by (auto simp: receivable_def)
  show ?thesis
    using own(2)
    by (cases own) (simp_all add: node_handle_def handle_EventBundleUpdated_def Let_def assms(2) me
        matches_node_any [OF own(1)] send_status_report_received_def update_bundle_def map_filter_simps)
qed

lemma step_valid:
  assumes "receivable E n me b"
  shows "node_handle E (StorageMsg (UpdateBundle (get_ref (received_as E n b Received)) Valid None))
      (n\<lparr>n_storage := (n_storage n)\<lparr>next_arc := Suc (next_arc (n_storage n)),
            bundles := bundles (n_storage n) @ [received_as E n b Received]\<rparr>\<rparr>) =
    Ok (after_receipt E n b Valid, [BpaMsg (EventBundleUpdated (get_ref (received_as E n b Valid)))])"
proof -
  have "list_all (\<lambda>x. sb_primary_block x \<noteq> primary_block b) (bundles (n_storage n))"
    using assms by (simp add: receivable_def unknown_def)
  then show ?thesis
    by (subst node_handle_def)
      (simp add: update_last [of _ "bundles (n_storage n)" "received_as E n b Received"] Let_def
        after_receipt_def write_bundle_to_file_def)
qed

lemma run_to_valid:
  assumes "serde_cbor (s_enc (n_files E)) (s_dec (n_files E))" "receivable E n me b"
  shows "(node_run E (Suc (Suc (Suc k))) [StorageMsg (StoreReceivedBundle (bundle_bytes E b))] n :: (_, 'e) result) =
    node_run E k [BpaMsg (EventBundleUpdated (get_ref (received_as E n b Valid)))] (after_receipt E n b Valid)"
  by (simp add: step_store [OF assms] step_received [OF assms(2)] step_valid [OF assms(2)])

section \<open>Delivery to a client\<close>

lemma step_requeue:
  assumes "receivable E n me b" "st = DeliveryQueued \<or> st = ForwardingQueued"
  shows "node_handle E (StorageMsg (UpdateBundle (get_ref (received_as E n b Valid)) st None)) (after_receipt E n b Valid) =
    Ok (after_receipt E n b st, [BpaMsg (EventBundleUpdated (get_ref (received_as E n b st)))])"
proof -
  have "list_all (\<lambda>x. sb_primary_block x \<noteq> primary_block b) (bundles (n_storage n))"
    using assms by (simp add: receivable_def unknown_def)
  then show ?thesis
    using assms(2)
    by (subst node_handle_def)
      (auto simp: update_last [of _ "bundles (n_storage n)" "received_as E n b Valid"] Let_def after_receipt_def)
qed

lemma run_delivered:
  assumes codec: "serde_cbor (s_enc (n_files E)) (s_dec (n_files E))" and rcv: "receivable E n me b"
    and whole: "fragment_offset (primary_block b) = None"
    and mine: "matches_node me (destination_endpoint (primary_block b)) = (Ok True :: (bool, unit) result)"
    and client: "map_of (local_connections (n_bpa n)) (destination_endpoint (primary_block b)) = Some a"
      "queue_of (local_bundles (n_bpa n)) (destination_endpoint (primary_block b)) = []"
    and r: "r = get_ref (received_as E n b DeliveryQueued)" and sent: "n_try_send E (n_sent n) a r = Sent"
  shows "\<exists>d. node_run E 6 [StorageMsg (StoreReceivedBundle (bundle_bytes E b))] n =
      (Ok ((after_receipt E n b DeliveryQueued)\<lparr>n_bpa := d, n_sent := n_sent n @ [ClientDeliverBundle a r]\<rparr>, []) :: (_, 'e) result)
    \<and> queue_of (local_bundles d) (destination_endpoint (primary_block b)) = []
    \<and> local_connections d = local_connections (n_bpa n) \<and> bpa_endpoint d = Some me"
proof -
  let ?dst = "destination_endpoint (primary_block b)"
  let ?v = "get_ref (received_as E n b Valid)"
  define d where "d = (n_bpa n)\<lparr>local_bundles := AList.update ?dst [] (push_back ?dst r (local_bundles (n_bpa n))),
    bundles_pending_local_delivery := push_back ?dst r (bundles_pending_local_delivery (n_bpa n))\<rparr>"
  have me: "bpa_endpoint (n_bpa n) = Some me"
    using rcv by (simp add: receivable_def)
  have s4: "node_handle E (BpaMsg (EventBundleUpdated ?v)) (after_receipt E n b Valid) =
      (Ok (after_receipt E n b Valid, [StorageMsg (UpdateBundle ?v DeliveryQueued None)]) :: (_, 'e) result)"
    by (simp add: node_handle_def handle_EventBundleUpdated_def Let_def me matches_node_any [OF mine] whole
        update_bundle_def map_filter_simps after_receipt_def)
  have "map_of (push_back ?dst r (local_bundles (n_bpa n))) ?dst = Some [r]"
    using client(2) by (simp add: push_back_def map_of_update)
  then have s6: "node_handle E (BpaMsg (EventBundleUpdated r)) (after_receipt E n b DeliveryQueued) =
      (Ok ((after_receipt E n b DeliveryQueued)\<lparr>n_bpa := d, n_sent := n_sent n @ [ClientDeliverBundle a r]\<rparr>, []) :: (_, 'e) result)"
    using whole sent
    by (simp add: node_handle_def handle_EventBundleUpdated_def Let_def r deliver_local_bundles_def client(1)
        assert_then_def map_filter_simps d_def)
  have six: "6 = Suc (Suc (Suc (Suc (Suc (Suc 0)))))"
    by simp
  have "node_run E 6 [StorageMsg (StoreReceivedBundle (bundle_bytes E b))] n =
      (node_run E (Suc (Suc (Suc 0))) [BpaMsg (EventBundleUpdated ?v)] (after_receipt E n b Valid) :: (_, 'e) result)"
    unfolding six by (rule run_to_valid [OF codec rcv])
  also have "\<dots> = Ok ((after_receipt E n b DeliveryQueued)\<lparr>n_bpa := d, n_sent := n_sent n @ [ClientDeliverBundle a r]\<rparr>, [])"
    by (simp add: s4 step_requeue [OF rcv] s6 flip: r)
  finally have "node_run E 6 [StorageMsg (StoreReceivedBundle (bundle_bytes E b))] n =
      (Ok ((after_receipt E n b DeliveryQueued)\<lparr>n_bpa := d, n_sent := n_sent n @ [ClientDeliverBundle a r]\<rparr>, []) :: (_, 'e) result)" .
  moreover have "queue_of (local_bundles d) ?dst = []" "local_connections d = local_connections (n_bpa n)"
    "bpa_endpoint d = Some me"
    by (simp_all add: d_def queue_of_update me)
  ultimately show ?thesis
    by blast
qed

lemma deliver_local_empty:
  assumes "queue_of (local_bundles d) e = []"
  shows "\<exists>d'. deliver_local_bundles E e (d, out) = (Ok (d', out) :: (_, 'e) result) \<and>
    bundles_pending_local_delivery d' = bundles_pending_local_delivery d"
proof (cases "map_of (local_connections d) e")
  case None
  then show ?thesis
    by (simp add: deliver_local_bundles_def)
next
  case (Some a)
  then show ?thesis
    using assms
    by (cases "map_of (local_bundles d) e") (simp_all add: deliver_local_bundles_def queue_of_def)
qed

text \<open>Once the client has confirmed, the bundle is gone from the store and from the disk.\<close>

lemma run_confirmed:
  assumes sb: "bundles (n_storage n) = sbs @ [sb]" "list_all (\<lambda>x. sb_primary_block x \<noteq> sb_primary_block sb) sbs"
    and r: "ref_primary_block r = sb_primary_block sb"
    and quiet: "\<not> contains (bundle_processing_flags (ref_primary_block r)) BUNDLE_DELIVERY_STATUS_REQUESTED"
    and queue: "queue_of (local_bundles (n_bpa n)) e = []"
  shows "\<exists>d. node_run E 2 [BpaMsg (EventBundleDelivered e r)] n =
      (Ok (n\<lparr>n_storage := delete_bundle_file (n_files E) sb ((n_storage n)\<lparr>bundles := sbs\<rparr>), n_bpa := d\<rparr>, []) :: (_, 'e) result)
    \<and> queue_of (bundles_pending_local_delivery d) e
      = filter (\<lambda>x. \<not> ref_eq x r) (queue_of (bundles_pending_local_delivery (n_bpa n)) e)"
proof -
  let ?d = "(n_bpa n)\<lparr>bundles_pending_local_delivery := retain_others e r (bundles_pending_local_delivery (n_bpa n))\<rparr>"
  have pos: "position (\<lambda>b. same_bundle b r) (sbs @ [sb]) = Some (length sbs)"
    using sb(2) r by (intro position_last) (auto simp: same_bundle_def list_all_iff)
  obtain d where d: "deliver_local_bundles (bpa_env_of E n) e (?d, [update_bundle r Delivered None]) =
      (Ok (d, [update_bundle r Delivered None]) :: (_, 'e) result)"
    "bundles_pending_local_delivery d = bundles_pending_local_delivery ?d"
    using deliver_local_empty [of ?d e "bpa_env_of E n" "[update_bundle r Delivered None]", where 'e = 'e] queue
    by auto
  have "node_handle E (BpaMsg (EventBundleDelivered e r)) n =
      (Ok (n\<lparr>n_bpa := d\<rparr>, [StorageMsg (UpdateBundle r Delivered None)]) :: (_, 'e) result)"
    using quiet d(1)
    by (simp add: node_handle_def handle_EventBundleDelivered_def send_status_report_delivered_def
        update_bundle_def map_filter_simps)
  moreover have "node_handle E (StorageMsg (UpdateBundle r Delivered None)) (n\<lparr>n_bpa := d\<rparr>) =
      (Ok (n\<lparr>n_storage := delete_bundle_file (n_files E) sb ((n_storage n)\<lparr>bundles := sbs\<rparr>), n_bpa := d\<rparr>, []) :: (_, 'e) result)"
    by (simp add: node_handle_def handle_UpdateBundle_def sb(1) pos)
  moreover have "queue_of (bundles_pending_local_delivery d) e =
      filter (\<lambda>x. \<not> ref_eq x r) (queue_of (bundles_pending_local_delivery (n_bpa n)) e)"
    by (auto simp: d(2) retain_others_def queue_of_def map_of_update split: option.splits)
  ultimately show ?thesis
    by (auto simp: numeral_2_eq_2)
qed

section \<open>Forwarding to a peer\<close>

text \<open>The bundle as it leaves the node, and whether its hop count allows it to.\<close>

definition next_hop_bundle :: "Endpoint \<Rightarrow> bool \<Rightarrow> Bundle \<Rightarrow> Bundle \<times> bool" where
  "next_hop_bundle me own b = inc_hop_count HOP_LIMIT_DEFAULT (if own then b else set_previous_node me b)"

definition forwarded_as :: "node_env \<Rightarrow> dtn_node \<Rightarrow> Bundle \<Rightarrow> bytes \<Rightarrow> StoredBundle" where
  "forwarded_as E n b x =
     (received_as E n b ForwardingQueued)\<lparr>sb_arc := Suc (next_arc (n_storage n)), sb_data := x\<rparr>"

lemma primary_block_next_hop [simp]: "primary_block (fst (next_hop_bundle me own b)) = primary_block b"
  by (simp add: next_hop_bundle_def)

lemma upgrade_received:
  assumes "receivable E n me b"
  shows "upgrade_in (bundles (n_storage n) @ [received_as E n b st]) (next_arc (n_storage n)) = Some (bundle_bytes E b)"
proof -
  have "list_all (\<lambda>sb. sb_arc sb \<noteq> sb_arc (received_as E n b st)) (bundles (n_storage n))"
    using assms by (auto simp: receivable_def arcs_ok_def list_all_iff)
  from upgrade_last [OF this] show ?thesis
    by simp
qed

lemma forward_received:
  assumes codec: "serde_cbor (s_enc (n_files E)) (s_dec (n_files E))" and rcv: "receivable E n me b"
    and own: "matches_node me (source_node (primary_block b)) = (Ok own :: (bool, unit) result)"
  shows "forward_bundle (bpa_env_of E (after_receipt E n b Valid)) (n_bpa n) (get_ref (received_as E n b Valid)) =
    (if snd (next_hop_bundle me own b) then Ok (bundle_bytes E (fst (next_hop_bundle me own b)))
     else Err HopLimitExceeded)"
proof -
  have wf: "bundle_wf (s_enc (n_files E)) b" and me: "bpa_endpoint (n_bpa n) = Some me"
    using rcv by (auto simp: receivable_def)
  have "primary_wf (primary_block (fst (next_hop_bundle me own b)))"
    using wf by (simp add: bundle_wf_def primary_serializable_def)
  then have vec: "Bundle_to_vec (s_enc (n_files E)) (fst (next_hop_bundle me own b)) =
      (Ok (bundle_bytes E (fst (next_hop_bundle me own b))) :: (_, BundleStatusReason) result)"
    by (simp add: Bundle_to_vec_Ok bundle_bytes_def)
  have parse: "Bundle_try_from (s_dec (n_files E)) (bundle_bytes E b) = Ok b"
    using wf_try_from [OF codec wf] by (simp add: bundle_bytes_def)
  show ?thesis
    using vec by (cases "next_hop_bundle me own b"; cases own)
      (simp_all add: forward_bundle_def upgrade_received [OF rcv] parse me matches_node_any [OF own]
        next_hop_bundle_def Let_def)
qed

lemma step_forward:
  assumes "receivable E n me b"
  shows "node_handle E (StorageMsg (UpdateBundle (get_ref (received_as E n b Valid)) ForwardingQueued (Some x)))
      (after_receipt E n b Valid) =
    Ok ((after_receipt E n b Valid)\<lparr>n_storage := (n_storage (after_receipt E n b Valid))
           \<lparr>next_arc := Suc (Suc (next_arc (n_storage n))),
            bundles := bundles (n_storage n) @ [forwarded_as E n b x]\<rparr>\<rparr>,
        [BpaMsg (EventBundleUpdated (get_ref (forwarded_as E n b x)))])"
proof -
  have "list_all (\<lambda>x. sb_primary_block x \<noteq> primary_block b) (bundles (n_storage n))"
    using assms by (simp add: receivable_def unknown_def)
  then show ?thesis
    by (subst node_handle_def)
      (simp add: update_last [of _ "bundles (n_storage n)" "received_as E n b Valid"] Let_def after_receipt_def
        write_bundle_to_file_def forwarded_as_def)
qed

lemma forwarded_as_simps [simp]:
  "sb_primary_block (forwarded_as E n b x) = primary_block b" "sb_state (forwarded_as E n b x) = ForwardingQueued"
  "sb_arc (forwarded_as E n b x) = Suc (next_arc (n_storage n))" "sb_data (forwarded_as E n b x) = x"
  by (simp_all add: forwarded_as_def)

text \<open>A queue of one bundle that the peer takes.\<close>

lemma deliver_remote_single:
  assumes "get_node_endpoint dst = (Ok nd :: (_, 'e) result)" "link_to d nd = Some (a, mx)"
    and "map_of (remote_bundles d) nd = Some [r]" "\<not> too_large mx r" "b_try_send E [] a r = Sent"
  shows "deliver_remote_bundles E dst (d, []) =
    (Ok (d\<lparr>remote_bundles := AList.update nd [] (remote_bundles d),
           bundles_pending_forwarding := push_back nd r (bundles_pending_forwarding d)\<rparr>,
         [AgentForwardBundle a r]) :: (_, 'e) result)"
  using assms by (simp add: deliver_remote_link [OF assms(1)])

lemma link_to_queues [simp]: "link_to (d\<lparr>remote_bundles := q\<rparr>) nd = link_to d nd"
  unfolding link_to_def by (simp split: option.split)

lemma run_forwarded:
  assumes codec: "serde_cbor (s_enc (n_files E)) (s_dec (n_files E))" and rcv: "receivable E n me b"
    and other: "matches_node me (destination_endpoint (primary_block b)) = (Ok False :: (bool, unit) result)"
    and own: "matches_node me (source_node (primary_block b)) = (Ok own :: (bool, unit) result)"
    and hops: "snd (next_hop_bundle me own b)" and x: "x = bundle_bytes E (fst (next_hop_bundle me own b))"
    and nd: "get_node_endpoint (destination_endpoint (primary_block b)) = (Ok nd :: (_, 'e) result)"
    and link: "link_to (n_bpa n) nd = Some (a, mx)" "queue_of (remote_bundles (n_bpa n)) nd = []"
    and r: "r = get_ref (forwarded_as E n b x)" "\<not> too_large mx r" "n_try_send E (n_sent n) a r = Sent"
  shows "\<exists>n'. node_run E 6 [StorageMsg (StoreReceivedBundle (bundle_bytes E b))] n = (Ok (n', []) :: (_, 'e) result)
    \<and> n_sent n' = n_sent n @ [AgentForwardBundle a r]
    \<and> bundles (n_storage n') = bundles (n_storage n) @ [forwarded_as E n b x]
    \<and> queue_of (remote_bundles (n_bpa n')) nd = []
    \<and> queue_of (bundles_pending_forwarding (n_bpa n')) nd = queue_of (bundles_pending_forwarding (n_bpa n)) nd @ [r]
    \<and> upgrade_in (bundles (n_storage n')) (ref_arc r) = Some x"
proof -
  let ?v = "get_ref (received_as E n b Valid)"
  let ?n5 = "(after_receipt E n b Valid)\<lparr>n_storage := (n_storage (after_receipt E n b Valid))
           \<lparr>next_arc := Suc (Suc (next_arc (n_storage n))), bundles := bundles (n_storage n) @ [forwarded_as E n b x]\<rparr>\<rparr>"
  let ?q = "push_back nd r (remote_bundles (n_bpa n))"
  define d where "d = (n_bpa n)\<lparr>remote_bundles := AList.update nd [] ?q,
    bundles_pending_forwarding := push_back nd r (bundles_pending_forwarding (n_bpa n))\<rparr>"
  have me: "bpa_endpoint (n_bpa n) = Some me"
    using rcv by (simp add: receivable_def)
  have s4: "node_handle E (BpaMsg (EventBundleUpdated ?v)) (after_receipt E n b Valid) =
      (Ok (after_receipt E n b Valid, [StorageMsg (UpdateBundle ?v ForwardingQueued (Some x))]) :: (_, 'e) result)"
    by (simp add: node_handle_def handle_EventBundleUpdated_def Let_def me matches_node_any [OF other]
        forward_received [OF codec rcv own] hops x update_bundle_def map_filter_simps)
  have "map_of ?q nd = Some [r]"
    using link(2) by (simp add: push_back_def map_of_update)
  then have dl: "deliver_remote_bundles (bpa_env_of E ?n5) (destination_endpoint (primary_block b))
        ((n_bpa n)\<lparr>remote_bundles := ?q\<rparr>, []) = (Ok (d, [AgentForwardBundle a r]) :: (_, 'e) result)"
    using r link by (simp add: deliver_remote_single [OF nd] d_def)
  have s6: "node_handle E (BpaMsg (EventBundleUpdated r)) ?n5 =
      (Ok (?n5\<lparr>n_bpa := d, n_sent := n_sent n @ [AgentForwardBundle a r]\<rparr>, []) :: (_, 'e) result)"
    using dl by (simp add: node_handle_def handle_EventBundleUpdated_def Let_def r(1) nd map_filter_simps)
  have six: "6 = Suc (Suc (Suc (Suc (Suc (Suc 0)))))"
    by simp
  have "node_run E 6 [StorageMsg (StoreReceivedBundle (bundle_bytes E b))] n =
      (node_run E (Suc (Suc (Suc 0))) [BpaMsg (EventBundleUpdated ?v)] (after_receipt E n b Valid) :: (_, 'e) result)"
    unfolding six by (rule run_to_valid [OF codec rcv])
  also have "\<dots> = Ok (?n5\<lparr>n_bpa := d, n_sent := n_sent n @ [AgentForwardBundle a r]\<rparr>, [])"
    by (simp add: s4 step_forward [OF rcv] s6 flip: r(1))
  finally have run: "node_run E 6 [StorageMsg (StoreReceivedBundle (bundle_bytes E b))] n =
      (Ok (?n5\<lparr>n_bpa := d, n_sent := n_sent n @ [AgentForwardBundle a r]\<rparr>, []) :: (_, 'e) result)" .
  have "list_all (\<lambda>sb. sb_arc sb \<noteq> sb_arc (forwarded_as E n b x)) (bundles (n_storage n))"
    using rcv by (auto simp: receivable_def arcs_ok_def list_all_iff)
  from upgrade_last [OF this] run show ?thesis
    by (intro exI [of _ "?n5\<lparr>n_bpa := d, n_sent := n_sent n @ [AgentForwardBundle a r]\<rparr>"])
      (simp add: d_def queue_of_update queue_of_push_back r(1))
qed

text \<open>A bundle over its hop limit is dropped.\<close>

lemma run_hop_limit:
  assumes codec: "serde_cbor (s_enc (n_files E)) (s_dec (n_files E))" and rcv: "receivable E n me b"
    and other: "matches_node me (destination_endpoint (primary_block b)) = (Ok False :: (bool, unit) result)"
    and own: "matches_node me (source_node (primary_block b)) = (Ok own :: (bool, unit) result)"
    and hops: "\<not> snd (next_hop_bundle me own b)"
    and quiet: "\<not> contains (bundle_processing_flags (primary_block b)) BUNDLE_DELETION_STATUS_REQUESTED"
  shows "\<exists>n'. node_run E 5 [StorageMsg (StoreReceivedBundle (bundle_bytes E b))] n = (Ok (n', []) :: (_, 'e) result)
    \<and> bundles (n_storage n') = bundles (n_storage n) \<and> n_bpa n' = n_bpa n \<and> n_sent n' = n_sent n
    \<and> (s_removable (n_files E) (get_filename (received_as E n b Received)) \<longrightarrow>
       map_of (files (n_storage n')) (get_filename (received_as E n b Received)) = None)"
proof -
  let ?v = "get_ref (received_as E n b Valid)"
  let ?n' = "(after_receipt E n b Valid)\<lparr>n_storage := delete_bundle_file (n_files E) (received_as E n b Valid)
    ((n_storage (after_receipt E n b Valid))\<lparr>bundles := bundles (n_storage n)\<rparr>)\<rparr>"
  have me: "bpa_endpoint (n_bpa n) = Some me"
    and unk: "list_all (\<lambda>x. sb_primary_block x \<noteq> primary_block b) (bundles (n_storage n))"
    using rcv by (simp_all add: receivable_def unknown_def)
  have s4: "node_handle E (BpaMsg (EventBundleUpdated ?v)) (after_receipt E n b Valid) =
      (Ok (after_receipt E n b Valid, [StorageMsg (UpdateBundle ?v Invalid None)]) :: (_, 'e) result)"
    using quiet by (simp add: node_handle_def handle_EventBundleUpdated_def Let_def me matches_node_any [OF other]
        forward_received [OF codec rcv own] hops update_bundle_def map_filter_simps send_status_report_deleted_def)
  have "position (\<lambda>b. same_bundle b ?v) (bundles (n_storage n) @ [received_as E n b Valid]) = Some (length (bundles (n_storage n)))"
    using unk by (intro position_last) (auto simp: same_bundle_def list_all_iff)
  then have s5: "node_handle E (StorageMsg (UpdateBundle ?v Invalid None)) (after_receipt E n b Valid) = (Ok (?n', []) :: (_, 'e) result)"
    by (subst node_handle_def) (simp add: handle_UpdateBundle_def Let_def)
  have five: "5 = Suc (Suc (Suc (Suc (Suc 0))))"
    by simp
  have "node_run E 5 [StorageMsg (StoreReceivedBundle (bundle_bytes E b))] n =
      (node_run E (Suc (Suc 0)) [BpaMsg (EventBundleUpdated ?v)] (after_receipt E n b Valid) :: (_, 'e) result)"
    unfolding five by (rule run_to_valid [OF codec rcv])
  also have "\<dots> = Ok (?n', [])"
    by (simp add: s4 s5)
  finally have run: "node_run E 5 [StorageMsg (StoreReceivedBundle (bundle_bytes E b))] n = (Ok (?n', []) :: (_, 'e) result)" .
  have "get_filename (received_as E n b Valid) = get_filename (received_as E n b Received)"
    by (simp add: received_as_def)
  then show ?thesis
    using run by (intro exI [of _ ?n']) (simp add: delete_bundle_file_def delete_conv')
qed

end
