(* ===== verification/Dtrd_Client.thy ===== *)
theory Dtrd_Client
  imports Dtrd_Bpa
begin

text \<open>
  \<open>dtrd/src/clientagent\<close> and \<open>dtrd/src/clientgrpcagent\<close>: how clients of this node send and receive
  bundles and administer neighbours and routes. The client agent turns requests into messages for
  the other agents; an actor per listening client passes bundles on; the gRPC services check the
  texts of a request and translate answers.

  The messages that the generated gRPC code passes in and out are records here. A call to an actor
  can fail because its mailbox is gone; \<open>mb\<close> is then the text of the error.
\<close>

section \<open>Client agent\<close>

record ClientDaemon =
  connected_clients :: "(Endpoint \<times> addr) list"
  client_endpoint :: "Endpoint option"

datatype client_output =
    ClientToStorage storage_message
  | ClientToBpa bpa_message
  | ClientToNet net_message
  | StopListenBundleResponseActor addr

definition client_started :: "string \<Rightarrow> (ClientDaemon, 'e) result" where
  "client_started my_id =
     and_then (unwrap (Endpoint_new my_id)) (\<lambda>e. Ok \<lparr>connected_clients = [], client_endpoint = Some e\<rparr>)"

definition handle_ClientShutdown :: "ClientDaemon \<Rightarrow> ClientDaemon \<times> client_output list" where
  "handle_ClientShutdown d =
     (d\<lparr>connected_clients := []\<rparr>, map (\<lambda>(e, a). StopListenBundleResponseActor a) (connected_clients d))"

definition client_flags :: "bool \<Rightarrow> BundleFlags" where
  "client_flags debug =
     (if debug
      then BUNDLE_RECEIPTION_STATUS_REQUESTED OR BUNDLE_FORWARDING_STATUS_REQUEST
        OR BUNDLE_DELIVERY_STATUS_REQUESTED OR BUNDLE_DELETION_STATUS_REQUESTED
      else BUNDLE_DELETION_STATUS_REQUESTED)"

definition client_bundle :: "Endpoint \<Rightarrow> DtnTime \<Rightarrow> Endpoint \<Rightarrow> bytes \<Rightarrow> u64 \<Rightarrow> bool \<Rightarrow> Bundle" where
  "client_bundle me t destination payload life debug =
     \<lparr>primary_block =
        \<lparr>version = 7, bundle_processing_flags = client_flags debug, crc = NoCRC,
         destination_endpoint = destination, source_node = me, report_to = me,
         creation_timestamp = \<lparr>creation_time = t, sequence_number = 0\<rparr>, lifetime = life,
         fragment_offset = None, total_data_length = None\<rparr>,
      blocks = [\<lparr>block = Payload \<lparr>data = payload\<rparr>, block_number = 1, block_flags = 0, block_crc = NoCRC\<rparr>]\<rparr>"

text \<open>The answer to the client is the one of the storage agent, which is never an error; the branch
  of \<open>submit_bundle\<close> for one is not reached.\<close>

definition handle_ClientSendBundle ::
  "(cbor \<Rightarrow> bytes) \<Rightarrow> int \<Rightarrow> Endpoint \<Rightarrow> bytes \<Rightarrow> u64 \<Rightarrow> bool \<Rightarrow> ClientDaemon \<Rightarrow> (client_output list, 'e) result" where
  "handle_ClientSendBundle enc clock destination payload life debug d =
     and_then (unwrap (client_endpoint d)) (\<lambda>me.
     and_then (now clock) (\<lambda>t.
     and_then (Bundle_to_vec enc (client_bundle me t destination payload life debug)) (\<lambda>bundle_data.
     Ok [ClientToStorage (StoreNewBundle bundle_data)])))"

text \<open>\<open>a\<close> is the address of the actor started for the client; the answer is an error text or nothing.\<close>

definition handle_ClientListenConnect ::
  "Endpoint \<Rightarrow> addr \<Rightarrow> ClientDaemon \<Rightarrow> (ClientDaemon \<times> (string + unit) \<times> client_output list, 'e) result" where
  "handle_ClientListenConnect destination a d =
     and_then (unwrap (client_endpoint d)) (\<lambda>me.
     and_then (matches_node me destination) (\<lambda>mine.
     if \<not> mine then Ok (d, Inl ''Listening endpoint does not match local node'', [])
     else Ok (d\<lparr>connected_clients := AList.update destination a (connected_clients d)\<rparr>, Inr (),
              [ClientToBpa (EventClientConnected destination a)])))"

definition handle_ClientListenDisconnect :: "Endpoint \<Rightarrow> ClientDaemon \<Rightarrow> ClientDaemon \<times> client_output list" where
  "handle_ClientListenDisconnect destination d =
     (d, (case map_of (connected_clients d) destination of
            Some a \<Rightarrow> [StopListenBundleResponseActor a] | None \<Rightarrow> [])
         @ [ClientToBpa (EventClientDisconnected destination)])"

definition handle_ClientListNodes :: "NodeDaemon \<Rightarrow> Node list" where
  "handle_ClientListNodes n = handle_ListNodes n"

definition handle_ClientAddNode :: "Url \<Rightarrow> client_output list" where
  "handle_ClientAddNode u = [ClientToNet (AddNode u)]"

definition handle_ClientRemoveNode :: "Url \<Rightarrow> client_output list" where
  "handle_ClientRemoveNode u = [ClientToNet (RemoveNode u)]"

definition handle_ClientListRoutes ::
  "(RouteStatus list \<Rightarrow> RouteStatus list) \<Rightarrow> RoutingDaemon \<Rightarrow> RouteStatus list" where
  "handle_ClientListRoutes srt d = handle_ListRoutes srt d"

definition handle_ClientAddRoute :: "Endpoint \<Rightarrow> Endpoint \<Rightarrow> client_output list" where
  "handle_ClientAddRoute tgt nh = [ClientToNet (ToRouting (AddRoute tgt Static nh None))]"

definition handle_ClientRemoveRoute :: "Endpoint \<Rightarrow> Endpoint \<Rightarrow> client_output list" where
  "handle_ClientRemoveRoute tgt nh = [ClientToNet (ToRouting (RemoveRoute tgt Static nh))]"

section \<open>Listening clients\<close>

text \<open>
  \<open>ListenBundleResponseActor\<close> with the channel behind it: \<open>li_receiving\<close> says that the client still
  holds the other end. The actor sends into the channel and waits until there is room, so that
  this step is one that happens then.
\<close>

record ListenBundleResponseActor =
  li_endpoint :: Endpoint
  li_channel :: "StoredBundleRef list"
  li_receiving :: bool
  li_running :: bool

definition listener_started :: "Endpoint \<Rightarrow> ListenBundleResponseActor" where
  "listener_started e = \<lparr>li_endpoint = e, li_channel = [], li_receiving = True, li_running = True\<rparr>"

definition handle_ClientDeliverBundle ::
  "StoredBundleRef \<Rightarrow> ListenBundleResponseActor \<Rightarrow> ListenBundleResponseActor \<times> bpa_message list" where
  "handle_ClientDeliverBundle b l =
     (if li_receiving l then (l\<lparr>li_channel := li_channel l @ [b]\<rparr>, [])
      else (l\<lparr>li_running := False\<rparr>, [EventBundleDeliveryFailed (li_endpoint l) b]))"

definition handle_StopListenBundleResponseActor :: "ListenBundleResponseActor \<Rightarrow> ListenBundleResponseActor" where
  "handle_StopListenBundleResponseActor l = l\<lparr>li_running := False\<rparr>"

text \<open>\<open>ListenBundleResponseTransformer::poll_next\<close>: the next answer for the client. \<open>up\<close> is
  \<open>Weak::upgrade\<close>; the channel is closed once no sender is left.\<close>

record ListenBundleResponse =
  lbr_source :: string
  lbr_payload :: bytes

datatype 'a poll = Pending | Ready "'a option"

definition poll_next ::
  "(bytes \<Rightarrow> cbor option) \<Rightarrow> (nat \<Rightarrow> bytes option) \<Rightarrow> bool \<Rightarrow> StoredBundleRef list \<Rightarrow>
     (StoredBundleRef list \<times> ListenBundleResponse poll \<times> bpa_message list, 'e) result" where
  "poll_next dec up closed channel =
     (case channel of
        [] \<Rightarrow> Ok ([], if closed then Ready None else Pending, [])
      | r # rest \<Rightarrow>
          (case up (ref_arc r) of
             None \<Rightarrow> Ok (rest, Pending, [])
           | Some bundle_data \<Rightarrow>
               and_then (unwrap_result (Bundle_try_from dec bundle_data)) (\<lambda>b.
               and_then (payload_block b) (\<lambda>p.
               Ok (rest, Ready (Some \<lparr>lbr_source = fmt_Endpoint (source_node (ref_primary_block r)), lbr_payload = data p\<rparr>),
                   [EventBundleDelivered (destination_endpoint (ref_primary_block r)) r])))))"

text \<open>\<open>Drop\<close> of the transformer: the client agent is told.\<close>

definition drop_transformer :: "Endpoint \<Rightarrow> ClientDaemon \<Rightarrow> ClientDaemon \<times> client_output list" where
  "drop_transformer destination d = handle_ClientListenDisconnect destination d"

section \<open>gRPC services\<close>

datatype Status = InvalidArgument string | Unknown_status string

record SubmitBundleRequest =
  req_destination :: string
  req_payload :: bytes
  req_lifetime :: u64
  req_debug :: bool

text \<open>A request ends in a status, or has its answer and the messages that were sent.\<close>

type_synonym ('a, 'e) service = "(Status + 'a, 'e) result"

definition endpoint_arg :: "string \<Rightarrow> string \<Rightarrow> (Endpoint \<Rightarrow> ('a, 'e) service) \<Rightarrow> ('a, 'e) service" where
  "endpoint_arg msg s f = (case Endpoint_new s of None \<Rightarrow> Ok (Inl (InvalidArgument msg)) | Some e \<Rightarrow> f e)"

definition send_agent :: "string option \<Rightarrow> ('a, 'e) service \<Rightarrow> ('a, 'e) service" where
  "send_agent mb r = (case mb of Some e \<Rightarrow> Ok (Inl (Unknown_status e)) | None \<Rightarrow> r)"

definition submit_bundle ::
  "(cbor \<Rightarrow> bytes) \<Rightarrow> int \<Rightarrow> string option \<Rightarrow> SubmitBundleRequest \<Rightarrow> ClientDaemon \<Rightarrow> (client_output list, 'e) service" where
  "submit_bundle enc clock mb req d =
     endpoint_arg ''destination invalid'' (req_destination req) (\<lambda>destination.
     send_agent mb
       (map_ok Inr (handle_ClientSendBundle enc clock destination (req_payload req) (req_lifetime req) (req_debug req) d)))"

definition listen_bundles ::
  "string option \<Rightarrow> string \<Rightarrow> addr \<Rightarrow> ClientDaemon \<Rightarrow> (ClientDaemon \<times> ListenBundleResponseActor \<times> client_output list, 'e) service" where
  "listen_bundles mb ep a d =
     endpoint_arg ''destination invalid'' ep (\<lambda>destination.
     send_agent mb
       (and_then (handle_ClientListenConnect destination a d) (\<lambda>(d, r, out).
        case r of
          Inr _ \<Rightarrow> Ok (Inr (d, listener_started destination, out))
        | Inl msg \<Rightarrow> Ok (Inl (InvalidArgument msg)))))"

record admin_Node =
  an_url :: string
  an_status :: string
  an_endpoint :: string
  an_temporary :: bool

definition admin_node :: "Node \<Rightarrow> admin_Node" where
  "admin_node n =
     \<lparr>an_url = url n, an_status = fmt_NodeConnectionStatus (connection_status n),
      an_endpoint = (case remote_endpoint n of Some e \<Rightarrow> fmt_Endpoint e | None \<Rightarrow> ''''),
      an_temporary = temporary n\<rparr>"

definition list_nodes :: "string option \<Rightarrow> NodeDaemon \<Rightarrow> (admin_Node list, 'e) service" where
  "list_nodes mb n = send_agent mb (Ok (Inr (map admin_node (handle_ClientListNodes n))))"

text \<open>\<open>parse\<close> is \<open>Url::parse\<close>: an error text or the URL.\<close>

definition add_node :: "(string \<Rightarrow> string + Url) \<Rightarrow> string option \<Rightarrow> string \<Rightarrow> (client_output list, 'e) service" where
  "add_node parse mb u =
     (case parse u of Inl e \<Rightarrow> Ok (Inl (InvalidArgument e))
      | Inr u \<Rightarrow> send_agent mb (Ok (Inr (handle_ClientAddNode u))))"

definition remove_node :: "(string \<Rightarrow> string + Url) \<Rightarrow> string option \<Rightarrow> string \<Rightarrow> (client_output list, 'e) service" where
  "remove_node parse mb u =
     (case parse u of Inl e \<Rightarrow> Ok (Inl (InvalidArgument e))
      | Inr u \<Rightarrow> send_agent mb (Ok (Inr (handle_ClientRemoveNode u))))"

record admin_Route =
  ar_target :: string
  ar_next_hop :: string

record admin_RouteStatus =
  as_route :: "admin_Route option"
  as_type :: nat
  as_preferred :: bool
  as_available :: bool
  as_max_bundle_size :: u64

definition admin_route :: "RouteStatus \<Rightarrow> admin_RouteStatus" where
  "admin_route r =
     \<lparr>as_route = Some \<lparr>ar_target = fmt_Endpoint (rs_target r), ar_next_hop = fmt_Endpoint (rs_next_hop r)\<rparr>,
      as_type = (case rs_route_type r of RouteType.Connected \<Rightarrow> 0 | Static \<Rightarrow> 1),
      as_preferred = rs_preferred r, as_available = rs_available r,
      as_max_bundle_size = (case rs_max_bundle_size r of Some m \<Rightarrow> m | None \<Rightarrow> 0)\<rparr>"

definition list_routes ::
  "(RouteStatus list \<Rightarrow> RouteStatus list) \<Rightarrow> string option \<Rightarrow> RoutingDaemon \<Rightarrow> (admin_RouteStatus list, 'e) service" where
  "list_routes srt mb d = send_agent mb (Ok (Inr (map admin_route (handle_ClientListRoutes srt d))))"

definition route_arg ::
  "admin_Route option \<Rightarrow> (Endpoint \<Rightarrow> Endpoint \<Rightarrow> ('a, 'e) service) \<Rightarrow> ('a, 'e) service" where
  "route_arg r f =
     (case r of
        None \<Rightarrow> Ok (Inl (InvalidArgument ''Route must be set''))
      | Some route \<Rightarrow>
          endpoint_arg ''target invalid'' (ar_target route) (\<lambda>tgt.
          endpoint_arg ''next_hop invalid'' (ar_next_hop route) (f tgt)))"

definition add_route :: "string option \<Rightarrow> admin_Route option \<Rightarrow> (client_output list, 'e) service" where
  "add_route mb r = route_arg r (\<lambda>tgt nh. send_agent mb (Ok (Inr (handle_ClientAddRoute tgt nh))))"

definition remove_route :: "string option \<Rightarrow> admin_Route option \<Rightarrow> (client_output list, 'e) service" where
  "remove_route mb r = route_arg r (\<lambda>tgt nh. send_agent mb (Ok (Inr (handle_ClientRemoveRoute tgt nh))))"

end
