(* ===== verification/Dtrd_Session.thy ===== *)
theory Dtrd_Session
  imports Dtrd_Bpa Tcpcl_Session
begin

text \<open>
  \<open>dtrd/src/tcpclconverganceagent/session_agent.rs\<close>: the actor beside a TCPCL session. It stores what
  the session received, gives it the bundles to send, and tells the convergence agent when the
  session is established and when it is over.

  A URL is its text for the agents. \<open>up\<close> is \<open>Weak::upgrade\<close>.
\<close>

section \<open>State\<close>

text \<open>
  \<open>close_channel\<close> is whether the sender of the close request is still there, \<open>close_listening\<close> and
  \<open>send_listening\<close> whether the session still holds the other ends of the two channels, \<open>send_queue\<close>
  what was put into the channel of transfer requests.
\<close>

record TCPCLSessionAgent =
  close_channel :: bool
  close_listening :: bool
  send_listening :: bool
  send_queue :: "(bytes \<times> StoredBundleRef) list"
  closing :: bool
  stopped :: bool

datatype session_output =
    SessionToStorage storage_message
  | SessionToBpa bpa_message
  | SessionToNet net_message

definition session_agent_new :: TCPCLSessionAgent where
  "session_agent_new = \<lparr>close_channel = True, close_listening = True, send_listening = True, send_queue = [],
     closing = False, stopped = False\<rparr>"

text \<open>\<open>stopping\<close> decides whether the agent ends when it is asked to, or when a stream it listens to has
  ended.\<close>

definition stopping_continues :: "TCPCLSessionAgent \<Rightarrow> bool" where
  "stopping_continues s \<longleftrightarrow> close_channel s \<and> send_listening s"

definition ctx_stop :: "TCPCLSessionAgent \<Rightarrow> TCPCLSessionAgent" where
  "ctx_stop s = (if stopping_continues s then s else s\<lparr>stopped := True\<rparr>)"

section \<open>Handlers\<close>

text \<open>A received transfer. The error of a failed storage is only logged.\<close>

definition handle_Transfer :: "Transfer \<Rightarrow> session_output list" where
  "handle_Transfer item = [SessionToStorage (StoreReceivedBundle (transfer_data item))]"

definition handle_AgentForwardBundle ::
  "(nat \<Rightarrow> bytes option) \<Rightarrow> StoredBundleRef \<Rightarrow> TCPCLSessionAgent \<Rightarrow> TCPCLSessionAgent" where
  "handle_AgentForwardBundle up r s =
     (case up (ref_arc r) of
        None \<Rightarrow> s
      | Some bundle_data \<Rightarrow>
          if send_listening s then s\<lparr>send_queue := send_queue s @ [(bundle_data, r)]\<rparr> else ctx_stop s)"

text \<open>The task that waits for the result of a transfer; \<open>None\<close> is a result sender that was dropped.\<close>

definition transfer_answer :: "StoredBundleRef \<Rightarrow> (TransferSendErrors + unit) option \<Rightarrow> session_output list" where
  "transfer_answer r res =
     (let bundle_endpoint = destination_endpoint (ref_primary_block r) in
      case res of
        Some (Inr _) \<Rightarrow> [SessionToBpa (EventBundleForwarded bundle_endpoint r)]
      | Some (Inl e) \<Rightarrow> [SessionToBpa (EventBundleForwardingFailed bundle_endpoint r)]
      | None \<Rightarrow> [])"

definition handle_Shutdown :: "TCPCLSessionAgent \<Rightarrow> TCPCLSessionAgent" where
  "handle_Shutdown s =
     (if close_channel s
      then let s = s\<lparr>close_channel := False\<rparr>
           in if close_listening s then s\<lparr>closing := True\<rparr> else ctx_stop s
      else s)"

definition handle_ForceShutdown :: "TCPCLSessionAgent \<Rightarrow> TCPCLSessionAgent" where
  "handle_ForceShutdown s = ctx_stop s"

definition handle_ConnectionInfo ::
  "addr \<Rightarrow> ConnectionInfo \<Rightarrow> TCPCLSessionAgent \<Rightarrow>
     (TCPCLSessionAgent \<times> session_output list, 'e) result" where
  "handle_ConnectionInfo me item s =
     and_then (unwrap (peer_endpoint item)) (\<lambda>id.
     case Endpoint_new id of
       Some nd \<Rightarrow>
         and_then (unwrap (Tcpcl_Session.max_bundle_size item)) (\<lambda>mx.
         Ok (s, [SessionToNet (CLRegisterNode (url_text (peer_url item)) nd mx me)]))
     | None \<Rightarrow> Ok (ctx_stop s, []))"

text \<open>The end of \<open>manage_connection\<close>: the session is gone, and with it its ends of the channels.\<close>

definition connection_ended ::
  "bool \<Rightarrow> ConnectionInfo \<Rightarrow> TCPCLSessionAgent \<Rightarrow> TCPCLSessionAgent \<times> session_output list" where
  "connection_ended failed ci s =
     (let s = s\<lparr>close_listening := False, send_listening := False\<rparr>;
          s = (if failed then handle_ForceShutdown s else s);
          nd = (case peer_endpoint ci of Some e \<Rightarrow> Endpoint_new e | None \<Rightarrow> None)
      in (s, [SessionToNet (CLUnregisterNode (url_text (peer_url ci)) nd)]))"

section \<open>Properties\<close>

text \<open>A peer with an invalid id is not registered, but the agent does not end either.\<close>

lemma invalid_peer_kept:
  assumes "peer_endpoint ci = Some e" "Endpoint_new e = None"
  shows "handle_ConnectionInfo me ci session_agent_new = (Ok (session_agent_new, []) :: (_, 'e) result)"
  using assms by (simp add: handle_ConnectionInfo_def ctx_stop_def stopping_continues_def session_agent_new_def)

text \<open>A session registers the endpoint that it unregisters when it ends.\<close>

lemma register_unregister:
  assumes "handle_ConnectionInfo me ci s = (Ok (s', [SessionToNet (CLRegisterNode u e mx a)]) :: (_, 'e) result)"
  shows "snd (connection_ended failed ci s'') = [SessionToNet (CLUnregisterNode u (Some e))]"
  using assms by (auto simp: handle_ConnectionInfo_def connection_ended_def Let_def result_simps split: option.splits)

end
