(* ===== verification/Dtrd_System.thy ===== *)
theory Dtrd_System
  imports Dtrd_Node Dtrd_Client Dtrd_Session Dtrd_Settings Tcpcl_Transfer
begin

text \<open>
  The daemon as a whole: how \<open>main\<close> starts the agents, and the way of a bundle from a client of one
  node over a TCPCL session to a client of another.
\<close>

section \<open>Start\<close>

text \<open>
  \<open>main\<close> starts a storage agent to load the bundles, but every agent talks to the one of the registry,
  which loads them too. Both announce what they found to the bundle protocol agent. The bundles of
  the first agent have other pointers, and the agent ends when it has sent its messages, as nobody
  holds its address.
\<close>

definition main_started ::
  "node_env \<Rightarrow> (string \<Rightarrow> string option) \<Rightarrow> (string \<times> bytes) list \<Rightarrow>
     (ClientDaemon \<times> dtn_node \<times> node_message list, 'e) result" where
  "main_started E env dir =
     (let node_id = my_node_id (from_env env) in
      and_then (client_started node_id) (\<lambda>c.
      and_then (storage_started (n_files E) node_id dir) (\<lambda>(first, refs1).
      and_then (bpa_started node_id) (\<lambda>b.
      and_then (storage_started (n_files E) node_id dir) (\<lambda>(registry, refs2).
      Ok (c, \<lparr>n_storage = registry, n_bpa = b, n_sent = []\<rparr>,
          map (\<lambda>r. BpaMsg (EventBundleUpdated (r\<lparr>ref_arc := next_arc registry + ref_arc r\<rparr>))) refs1
          @ map (\<lambda>r. BpaMsg (EventBundleUpdated r)) refs2))))))"

section \<open>New bundles\<close>

text \<open>A new bundle takes the way of a received one, once it has its sequence number.\<close>

lemma step_store_new:
  assumes codec: "serde_cbor (s_enc (n_files E)) (s_dec (n_files E))"
    and new: "storage_endpoint (n_storage n) = Some me" "new_bundle_ok (n_files E) me b"
    and seq: "next_sequence_number (bundle_time b) (n_storage n) = (d, k)"
    and rcv: "receivable E (n\<lparr>n_storage := d\<rparr>) me' (set_sequence_number k b)"
  shows "(node_handle E (StorageMsg (StoreNewBundle (bundle_bytes E b))) n :: (_, 'e) result) =
    node_handle E (StorageMsg (StoreReceivedBundle (bundle_bytes E (set_sequence_number k b)))) (n\<lparr>n_storage := d\<rparr>)"
proof -
  have r: "stored (n_files E) a c = received_as E m c Received" if "a = next_arc (n_storage m)" for a c m
    using that by (simp add: received_as_def stored_def)
  show ?thesis
    unfolding step_store [OF codec rcv]
    by (simp add: node_handle_def bundle_bytes_def store_new_wf [OF codec new seq]
        r [of "next_arc d" "n\<lparr>n_storage := d\<rparr>"])
qed

lemma run_store_new:
  assumes "serde_cbor (s_enc (n_files E)) (s_dec (n_files E))"
    and "storage_endpoint (n_storage n) = Some me" "new_bundle_ok (n_files E) me b"
    and "next_sequence_number (bundle_time b) (n_storage n) = (d, k)"
    and "receivable E (n\<lparr>n_storage := d\<rparr>) me' (set_sequence_number k b)"
  shows "(node_run E (Suc i) [StorageMsg (StoreNewBundle (bundle_bytes E b))] n :: (_, 'e) result) =
    node_run E (Suc i) [StorageMsg (StoreReceivedBundle (bundle_bytes E (set_sequence_number k b)))] (n\<lparr>n_storage := d\<rparr>)"
  by (simp add: step_store_new [OF assms])

section \<open>Bundles of clients\<close>

definition client_hop_count :: CanonicalBlock where
  "client_hop_count = \<lparr>block = HopCount \<lparr>limit = HOP_LIMIT_DEFAULT, hop_count = 0\<rparr>, block_number = 2, block_flags = 0,
     block_crc = NoCRC\<rparr>"

text \<open>The bundle as it leaves the node of the client: with its sequence number and a hop count.\<close>

definition sent_bundle :: "u64 \<Rightarrow> Endpoint \<Rightarrow> DtnTime \<Rightarrow> Endpoint \<Rightarrow> bytes \<Rightarrow> u64 \<Rightarrow> bool \<Rightarrow> Bundle" where
  "sent_bundle k me t destination payload life debug =
     (let b = set_sequence_number k (client_bundle me t destination payload life debug)
      in b\<lparr>blocks := blocks b @ [client_hop_count]\<rparr>)"

lemma known_client_flags: "known_bits BundleFlags_all (client_flags debug)"
  unfolding client_flags_def by (cases debug) (simp only: if_True if_False, code_simp)+

lemma client_bundle_ok:
  assumes "endpoint_wf me" "endpoint_wf destination" "length payload < 2 ^ 64"
    and "matches_node me me = (Ok True :: (bool, unit) result)"
  shows "new_bundle_ok E me (client_bundle me t destination payload life debug)"
  using assms known_client_flags
  by (simp add: new_bundle_ok_def bundle_wf_def client_bundle_def primary_serializable_def primary_wf_def
      has_payload_def block_wf_def block_bytes_def serialize_PayloadBlock_def known_bits_def)

lemma next_hop_client:
  "next_hop_bundle me True (set_sequence_number k (client_bundle me t destination payload life debug)) =
    (sent_bundle k me t destination payload life debug, True)"
  by (simp add: next_hop_bundle_def inc_hop_count_def sent_bundle_def client_bundle_def set_sequence_number_def
      client_hop_count_def next_block_number_def Let_def)

lemma sent_bundle_wf:
  assumes "serde_cbor_sized enc dec" "bundle_wf enc (client_bundle me t destination payload life debug)"
  shows "bundle_wf enc (sent_bundle k me t destination payload life debug)"
proof -
  have "length (enc (CArray True [CUnsigned (ucast HOP_LIMIT_DEFAULT), CUnsigned 0])) < 2 ^ 64"
    using serde_cbor_sized.length_to_vec [OF assms(1), of "CArray True [CUnsigned (ucast HOP_LIMIT_DEFAULT), CUnsigned 0]"]
    by (simp add: HOP_LIMIT_DEFAULT_def head_size_def)
  then show ?thesis
    using assms(2)
    by (simp add: bundle_wf_def sent_bundle_def client_bundle_def set_sequence_number_def primary_serializable_def
        primary_wf_def client_hop_count_def block_wf_def block_bytes_def serialize_HopCountBlock_def known_bits_def Let_def)
qed

lemma sent_bundle_simps [simp]:
  "primary_block (sent_bundle k me t destination payload life debug) =
    primary_block (set_sequence_number k (client_bundle me t destination payload life debug))"
  "has_payload (sent_bundle k me t destination payload life debug)"
  "payload_of (sent_bundle k me t destination payload life debug) = payload"
  by (simp_all add: sent_bundle_def client_bundle_def set_sequence_number_def has_payload_def payload_of_def Let_def)

lemma client_primary [simp]:
  "source_node (primary_block (set_sequence_number k (client_bundle me t destination payload life debug))) = me"
  "destination_endpoint (primary_block (set_sequence_number k (client_bundle me t destination payload life debug))) = destination"
  "fragment_offset (primary_block (set_sequence_number k (client_bundle me t destination payload life debug))) = None"
  "bundle_processing_flags (primary_block (set_sequence_number k (client_bundle me t destination payload life debug))) = client_flags debug"
  by (simp_all add: client_bundle_def set_sequence_number_def)

section \<open>Confirmed forwarding\<close>

lemma deliver_remote_empty:
  assumes "get_node_endpoint e = (Ok nd :: (_, 'e) result)" "queue_of (remote_bundles d) nd = []"
  shows "\<exists>d'. deliver_remote_bundles E e (d, out) = (Ok (d', out) :: (_, 'e) result) \<and>
    bundles_pending_forwarding d' = bundles_pending_forwarding d"
  using assms(2)
  by (auto simp: deliver_remote_link [OF assms(1)] queue_of_def split: option.splits prod.splits)

text \<open>Once the session has confirmed the transfer, the bundle is gone from the store.\<close>

lemma run_forward_confirmed:
  assumes sb: "bundles (n_storage n) = sbs @ [sb]" "list_all (\<lambda>x. sb_primary_block x \<noteq> sb_primary_block sb) sbs"
    and r: "ref_primary_block r = sb_primary_block sb"
    and quiet: "\<not> contains (bundle_processing_flags (ref_primary_block r)) BUNDLE_FORWARDING_STATUS_REQUEST"
    and nd: "get_node_endpoint e = (Ok nd :: (_, 'e) result)" "get_node_endpoint nd = (Ok nd :: (_, 'e) result)"
    and queue: "queue_of (remote_bundles (n_bpa n)) nd = []"
  shows "\<exists>d. node_run E 2 [BpaMsg (EventBundleForwarded e r)] n =
      (Ok (n\<lparr>n_storage := delete_bundle_file (n_files E) sb ((n_storage n)\<lparr>bundles := sbs\<rparr>), n_bpa := d\<rparr>, []) :: (_, 'e) result)
    \<and> queue_of (bundles_pending_forwarding d) nd
      = filter (\<lambda>x. \<not> ref_eq x r) (queue_of (bundles_pending_forwarding (n_bpa n)) nd)"
proof -
  let ?d = "(n_bpa n)\<lparr>bundles_pending_forwarding := retain_others nd r (bundles_pending_forwarding (n_bpa n))\<rparr>"
  have pos: "position (\<lambda>b. same_bundle b r) (sbs @ [sb]) = Some (length sbs)"
    using sb(2) r by (intro position_last) (auto simp: same_bundle_def list_all_iff)
  obtain d where d: "deliver_remote_bundles (bpa_env_of E n) nd (?d, [update_bundle r Forwarded None]) =
      (Ok (d, [update_bundle r Forwarded None]) :: (_, 'e) result)"
    "bundles_pending_forwarding d = bundles_pending_forwarding ?d"
    using deliver_remote_empty [OF nd(2), of ?d "bpa_env_of E n" "[update_bundle r Forwarded None]"] queue
    by auto
  have "node_handle E (BpaMsg (EventBundleForwarded e r)) n =
      (Ok (n\<lparr>n_bpa := d\<rparr>, [StorageMsg (UpdateBundle r Forwarded None)]) :: (_, 'e) result)"
    using quiet d(1)
    by (simp add: node_handle_def handle_EventBundleForwarded_def send_status_report_forwarded_def
        update_bundle_def map_filter_simps nd(1))
  moreover have "node_handle E (StorageMsg (UpdateBundle r Forwarded None)) (n\<lparr>n_bpa := d\<rparr>) =
      (Ok (n\<lparr>n_storage := delete_bundle_file (n_files E) sb ((n_storage n)\<lparr>bundles := sbs\<rparr>), n_bpa := d\<rparr>, []) :: (_, 'e) result)"
    by (simp add: node_handle_def handle_UpdateBundle_def sb(1) pos)
  moreover have "queue_of (bundles_pending_forwarding d) nd =
      filter (\<lambda>x. \<not> ref_eq x r) (queue_of (bundles_pending_forwarding (n_bpa n)) nd)"
    by (auto simp: d(2) retain_others_def queue_of_def map_of_update split: option.splits)
  ultimately show ?thesis
    by (auto simp: numeral_2_eq_2)
qed

section \<open>From client to client\<close>

text \<open>The node of the sending client: it has a link to the destination and nothing waits for it.\<close>

definition sender_ready ::
  "dtn_node \<Rightarrow> ClientDaemon \<Rightarrow> Endpoint \<Rightarrow> Endpoint \<Rightarrow> Endpoint \<Rightarrow> addr \<Rightarrow> u64 option \<Rightarrow> bool" where
  "sender_ready n c me dst nd a mx \<longleftrightarrow>
     client_endpoint c = Some me \<and> bpa_endpoint (n_bpa n) = Some me \<and> storage_endpoint (n_storage n) = Some me \<and>
     arcs_ok (n_storage n) \<and> endpoint_wf me \<and> matches_node me me = (Ok True :: (bool, unit) result) \<and>
     matches_node me dst = (Ok False :: (bool, unit) result) \<and>
     get_node_endpoint dst = (Ok nd :: (_, unit) result) \<and> get_node_endpoint nd = (Ok nd :: (_, unit) result) \<and>
     link_to (n_bpa n) nd = Some (a, mx) \<and> queue_of (remote_bundles (n_bpa n)) nd = []"

text \<open>The node of the receiving client, which listens.\<close>

definition receiver_ready :: "dtn_node \<Rightarrow> Endpoint \<Rightarrow> Endpoint \<Rightarrow> Endpoint \<Rightarrow> addr \<Rightarrow> bool" where
  "receiver_ready n me src dst a \<longleftrightarrow>
     bpa_endpoint (n_bpa n) = Some me \<and> arcs_ok (n_storage n) \<and>
     matches_node me dst = (Ok True :: (bool, unit) result) \<and> matches_node src me \<noteq> (Panic :: (bool, unit) result) \<and>
     map_of (local_connections (n_bpa n)) dst = Some a \<and> queue_of (local_bundles (n_bpa n)) dst = []"

lemma matches_node_not_Err: "matches_node a b \<noteq> Err e"
  by (cases a; cases b) (auto simp: DTNEndpoint_matches_node_def node_name_def str_from_def result_simps)

lemma next_sequence_number_frame:
  "next_sequence_number t d = (d', k) \<Longrightarrow> bundles d' = bundles d \<and> next_arc d' = next_arc d \<and> files d' = files d
     \<and> storage_endpoint d' = storage_endpoint d"
  by (auto simp: next_sequence_number_def split: if_splits)

lemma client_flags_quiet:
  "\<not> contains (client_flags False) BUNDLE_FORWARDING_STATUS_REQUEST"
  "\<not> contains (client_flags False) BUNDLE_RECEIPTION_STATUS_REQUESTED"
  by code_simp+

lemma bundle_time_client [simp]: "bundle_time (client_bundle me t dst payload life debug) = t"
  by (simp add: bundle_time_def client_bundle_def)

lemma client_receivable:
  assumes codec: "serde_cbor_sized (s_enc (n_files E)) (s_dec (n_files E))"
    and ready: "sender_ready n c me dst nd a mx" and dst: "endpoint_wf dst" "length payload < 2 ^ 64"
    and seq: "next_sequence_number t (n_storage n) = (d, k)"
    and b0: "b0 = set_sequence_number k (client_bundle me t dst payload life debug)"
    and new: "unknown (primary_block b0) (n_storage n)"
  shows "receivable E (n\<lparr>n_storage := d\<rparr>) me b0" "new_bundle_ok (n_files E) me (client_bundle me t dst payload life debug)"
proof -
  show ok: "new_bundle_ok (n_files E) me (client_bundle me t dst payload life debug)"
    using ready dst by (intro client_bundle_ok) (simp_all add: sender_ready_def)
  then have wf: "bundle_wf (s_enc (n_files E)) b0" "has_payload b0"
    by (simp_all add: new_bundle_ok_def b0)
  show "receivable E (n\<lparr>n_storage := d\<rparr>) me b0"
    using wf new ready next_sequence_number_frame [OF seq]
    by (auto simp: receivable_def sender_ready_def unknown_def arcs_ok_def b0)
qed

lemma client_sends:
  assumes codec: "serde_cbor_sized (s_enc (n_files E)) (s_dec (n_files E))" and clock: "now clock = (Ok t :: (_, unit) result)"
    and ready: "sender_ready n c me dst nd a mx"
    and req: "Endpoint_new (req_destination req) = Some dst" "endpoint_wf dst" "length (req_payload req) < 2 ^ 64" "\<not> req_debug req"
    and seq: "next_sequence_number t (n_storage n) = (d, k)"
    and b: "b0 = set_sequence_number k (client_bundle me t dst (req_payload req) (req_lifetime req) False)"
      "b = sent_bundle k me t dst (req_payload req) (req_lifetime req) False"
    and new: "unknown (primary_block b0) (n_storage n)"
    and fits: "\<And>r. ref_size r = of_nat (length (bundle_bytes E b0)) \<Longrightarrow> \<not> too_large mx r"
      "\<And>r. n_try_send E (n_sent n) a r = Sent"
  shows "\<exists>m n1 r n2. submit_bundle (s_enc (n_files E)) clock None req c = (Ok (Inr [ClientToStorage m]) :: (_, unit) result) \<and>
    node_run E 6 [StorageMsg m] n = (Ok (n1, []) :: (_, unit) result) \<and>
    n_sent n1 = n_sent n @ [AgentForwardBundle a r] \<and>
    upgrade_in (bundles (n_storage n1)) (ref_arc r) = Some (bundle_bytes E b) \<and>
    destination_endpoint (ref_primary_block r) = dst \<and>
    node_run E 2 [BpaMsg (EventBundleForwarded dst r)] n1 = (Ok (n2, []) :: (_, unit) result) \<and>
    bundles (n_storage n2) = bundles (n_storage n)"
proof -
  let ?cb = "client_bundle me t dst (req_payload req) (req_lifetime req) False"
  let ?n = "n\<lparr>n_storage := d\<rparr>"
  define r where "r = get_ref (forwarded_as E ?n b0 (bundle_bytes E b))"
  have cod: "serde_cbor (s_enc (n_files E)) (s_dec (n_files E))"
    using codec by (simp add: serde_cbor_sized_def)
  note rcv = client_receivable [OF codec ready req(2,3) seq b(1) new]
  have wf: "primary_wf (primary_block ?cb)"
    using rcv(2) by (simp add: new_bundle_ok_def bundle_wf_def primary_serializable_def)
  have submit: "submit_bundle (s_enc (n_files E)) clock None req c =
      (Ok (Inr [ClientToStorage (StoreNewBundle (bundle_bytes E ?cb))]) :: (_, unit) result)"
    using ready req clock by (simp add: submit_bundle_def endpoint_arg_def send_agent_def handle_ClientSendBundle_def
        sender_ready_def Bundle_to_vec_Ok [OF wf] bundle_bytes_def)
  have hop: "next_hop_bundle me True b0 = (b, True)"
    by (simp add: b next_hop_client)
  have big: "\<not> too_large mx r"
    by (rule fits(1)) (simp add: r_def forwarded_as_def received_as_def stored_def bundle_bytes_def)
  have "\<exists>n1. node_run E 6 [StorageMsg (StoreReceivedBundle (bundle_bytes E b0))] ?n = (Ok (n1, []) :: (_, unit) result)
    \<and> n_sent n1 = n_sent ?n @ [AgentForwardBundle a r]
    \<and> bundles (n_storage n1) = bundles (n_storage ?n) @ [forwarded_as E ?n b0 (bundle_bytes E b)]
    \<and> queue_of (remote_bundles (n_bpa n1)) nd = []
    \<and> queue_of (bundles_pending_forwarding (n_bpa n1)) nd = queue_of (bundles_pending_forwarding (n_bpa ?n)) nd @ [r]
    \<and> upgrade_in (bundles (n_storage n1)) (ref_arc r) = Some (bundle_bytes E b)"
    by (rule run_forwarded [OF cod rcv(1), where own = True])
      (use ready fits(2) big hop in \<open>simp_all add: b(1) r_def sender_ready_def\<close>)
  then obtain n1 where n1: "node_run E 6 [StorageMsg (StoreReceivedBundle (bundle_bytes E b0))] ?n = (Ok (n1, []) :: (_, unit) result)"
    "n_sent n1 = n_sent n @ [AgentForwardBundle a r]"
    "bundles (n_storage n1) = bundles (n_storage n) @ [forwarded_as E ?n b0 (bundle_bytes E b)]"
    "queue_of (remote_bundles (n_bpa n1)) nd = []"
    "upgrade_in (bundles (n_storage n1)) (ref_arc r) = Some (bundle_bytes E b)"
    using next_sequence_number_frame [OF seq] by auto
  have "node_run E 6 [StorageMsg (StoreNewBundle (bundle_bytes E ?cb))] n =
      (node_run E 6 [StorageMsg (StoreReceivedBundle (bundle_bytes E b0))] ?n :: (_, unit) result)"
    using run_store_new [OF cod _ rcv(2) _ rcv(1) [unfolded b(1)], where i = 5] ready seq
    by (simp add: b(1) sender_ready_def)
  note run = this [unfolded n1(1)]
  have pb: "ref_primary_block r = primary_block b0"
    by (simp add: r_def)
  obtain n2 where n2: "node_run E 2 [BpaMsg (EventBundleForwarded dst r)] n1 = (Ok (n2, []) :: (_, unit) result)"
    "bundles (n_storage n2) = bundles (n_storage n)"
    using run_forward_confirmed [OF n1(3), of r dst nd E, where 'e = unit] new ready n1(4) client_flags_quiet(1)
    by (auto simp: pb unknown_def sender_ready_def b(1) delete_bundle_file_def)
  show ?thesis
    using submit run n1(2,5) n2 by (intro exI conjI) (assumption | simp add: pb b(1))+
qed

lemma client_receives:
  assumes codec: "serde_cbor_sized (s_enc (n_files E)) (s_dec (n_files E))"
    and ready: "receiver_ready n me src dst a"
    and b: "b = sent_bundle k src t dst payload life False" "bundle_wf (s_enc (n_files E)) b"
    and new: "unknown (primary_block b) (n_storage n)" and sent: "\<And>r. n_try_send E (n_sent n) a r = Sent"
  shows "\<exists>n1 r. node_run E 6 [StorageMsg (StoreReceivedBundle (bundle_bytes E b))] n = (Ok (n1, []) :: (_, unit) result) \<and>
    n_sent n1 = n_sent n @ [ClientDeliverBundle a r] \<and>
    poll_next (s_dec (n_files E)) (upgrade_in (bundles (n_storage n1))) False [r] =
      (Ok ([], Ready (Some \<lparr>lbr_source = fmt_Endpoint src, lbr_payload = payload\<rparr>), [EventBundleDelivered dst r]) :: (_, unit) result)"
proof -
  define r where "r = get_ref (received_as E n b DeliveryQueued)"
  have cod: "serde_cbor (s_enc (n_files E)) (s_dec (n_files E))"
    using codec by (simp add: serde_cbor_sized_def)
  have me: "bpa_endpoint (n_bpa n) = Some me" "matches_node me dst = (Ok True :: (bool, unit) result)"
    using ready by (auto simp: receiver_ready_def)
  obtain own where own: "matches_node src me = (Ok own :: (bool, unit) result)"
    using ready by (cases "matches_node src me :: (bool, unit) result") (auto simp: receiver_ready_def matches_node_not_Err)
  have rcv: "receivable E n me b"
    using ready me own b new client_flags_quiet(2)
    by (auto simp: receivable_def receiver_ready_def)
  obtain d where run: "node_run E 6 [StorageMsg (StoreReceivedBundle (bundle_bytes E b))] n =
      (Ok ((after_receipt E n b DeliveryQueued)\<lparr>n_bpa := d, n_sent := n_sent n @ [ClientDeliverBundle a r]\<rparr>, []) :: (_, unit) result)"
    using run_delivered [OF cod rcv, where 'e = unit and a = a and r = r] ready me(2) sent
    by (auto simp: b(1) r_def receiver_ready_def)
  have "poll_next (s_dec (n_files E)) (upgrade_in (bundles (n_storage n) @ [received_as E n b DeliveryQueued])) False [r] =
      (Ok ([], Ready (Some \<lparr>lbr_source = fmt_Endpoint src, lbr_payload = payload\<rparr>), [EventBundleDelivered dst r]) :: (_, unit) result)"
    using wf_try_from [OF cod b(2)]
    by (simp add: poll_next_def r_def upgrade_received [OF rcv] bundle_bytes_def) (simp add: b(1) payload_block_eq)
  then show ?thesis
    using run by (intro exI [of _ "(after_receipt E n b DeliveryQueued)\<lparr>n_bpa := d, n_sent := n_sent n @ [ClientDeliverBundle a r]\<rparr>"]
        exI [of _ r]) simp
qed

text \<open>The session between the nodes.\<close>

lemma session_carries:
  assumes "could_send_transfer sm" "peer_sess_init sm = Some si" "0 < unat (segment_mru si)"
    "x \<noteq> []" "length x < 2 ^ 63" "of_nat (length x) \<le> transfer_mru si"
    "is_established (statemachine s)" "receiving_transfer s = None" and w: "\<And>m. w m = Ok ()"
    and steps: "steps = 4 * segment_count (unat (segment_mru si)) x"
  shows "\<exists>sm'. send_transfer x sm = Ok (sm', Inr ()) \<and>
    (\<exists>n. (link_step w ^^ steps) \<lparr>l_sender = sm', l_forward = [], l_receiver = s, l_backward = []\<rparr> n) \<and>
    (\<forall>n. (link_step w ^^ steps) \<lparr>l_sender = sm', l_forward = [], l_receiver = s, l_backward = []\<rparr> n \<longrightarrow>
       could_send_transfer (l_sender n) \<and>
       receive_channel (l_receiver n) = receive_channel s @ [\<lparr>transfer_id = last_used_transfer_id sm, transfer_data = x\<rparr>])"
proof -
  obtain sm' where sm': "send_transfer x sm = Ok (sm', Inr ())"
    using assms(1,2,6) by (auto simp: send_transfer_def could_send_transfer_def Let_def not_less)
  note start = link_start [OF assms(1) sm' assms(2,7,8,3,4)]
  show ?thesis
    using sm' link_continues [where w = w, OF start assms(3,5) w, of steps]
      link_complete [where w = w, OF start assms(3,5) w] by (auto simp: steps)
qed

section \<open>A start with a bundle on disk\<close>

definition bpa_empty :: "Endpoint \<Rightarrow> BpaDaemon" where
  "bpa_empty me =
     \<lparr>bpa_endpoint = Some me, bundles_pending_local_delivery = [], bundles_pending_forwarding = [],
      local_bundles = [], remote_bundles = [], local_connections = [], remote_connections = [], remote_routes = []\<rparr>"

definition loaded :: "node_env \<Rightarrow> Bundle \<Rightarrow> State \<Rightarrow> StoredBundle" where
  "loaded E b st = (stored (n_files E) 0 b)\<lparr>sb_state := st\<rparr>"

definition loaded_node :: "node_env \<Rightarrow> Endpoint \<Rightarrow> Bundle \<Rightarrow> State \<Rightarrow> dtn_node" where
  "loaded_node E me b st =
     \<lparr>n_storage = \<lparr>bundles = [loaded E b st], storage_endpoint = Some me, last_created_dtn_time = None,
        last_sequence_number = 0, next_arc = 1,
        files = [(get_filename (loaded E b Valid), bundle_bytes E b)]\<rparr>,
      n_bpa = bpa_empty me, n_sent = []\<rparr>"

lemma loaded_simps [simp]:
  "sb_primary_block (loaded E b st) = primary_block b" "sb_arc (loaded E b st) = 0" "sb_state (loaded E b st) = st"
  "sb_data (loaded E b st) = bundle_bytes E b" "(loaded E b st)\<lparr>sb_state := st'\<rparr> = loaded E b st'"
  by (simp_all add: loaded_def bundle_bytes_def)

lemma main_started_one:
  assumes codec: "serde_cbor (s_enc (n_files E)) (s_dec (n_files E))"
    and b: "bundle_wf (s_enc (n_files E)) b" "has_payload b"
    and id: "Endpoint_new (my_node_id (from_env env)) = Some me"
  shows "main_started E env [(get_filename (loaded E b Valid), bundle_bytes E b)] =
    (Ok (\<lparr>connected_clients = [], client_endpoint = Some me\<rparr>, loaded_node E me b Valid,
      [BpaMsg (EventBundleUpdated ((get_ref (loaded E b Valid))\<lparr>ref_arc := 1\<rparr>)),
       BpaMsg (EventBundleUpdated (get_ref (loaded E b Valid)))]) :: (_, 'e) result)"
proof -
  have name: "get_filename (loaded E b st) = get_filename (stored (n_files E) 0 b)" for st
    by (simp add: loaded_def)
  have "storage_started (n_files E) (my_node_id (from_env env)) [(get_filename (loaded E b Valid), bundle_bytes E b)] =
      (Ok (n_storage (loaded_node E me b Valid), [get_ref (loaded E b Valid)]) :: (_, 'e) result)"
    using id by (simp add: storage_started_def bundle_bytes_def StoredBundle_from_wf [OF codec b] name)
      (simp add: loaded_node_def loaded_def bundle_bytes_def name [unfolded loaded_def])
  then show ?thesis
    using id by (simp add: main_started_def client_started_def bpa_started_def Let_def)
      (simp add: loaded_node_def bpa_empty_def get_ref_def)
qed

lemma loaded_event:
  assumes "matches_node me (destination_endpoint (primary_block b)) = (Ok True :: (bool, unit) result)"
    and "fragment_offset (primary_block b) = None" "ref_state r = Valid" "ref_primary_block r = primary_block b"
  shows "node_handle E (BpaMsg (EventBundleUpdated r)) (loaded_node E me b st) =
    Ok (loaded_node E me b st, [StorageMsg (UpdateBundle r DeliveryQueued None)])"
  using assms(2-4)
  by (subst node_handle_def) (simp add: handle_EventBundleUpdated_def Let_def loaded_node_def bpa_empty_def
      matches_node_any [OF assms(1)] update_bundle_def map_filter_simps)

lemma loaded_update:
  assumes "ref_primary_block r = primary_block b"
  shows "node_handle E (StorageMsg (UpdateBundle r DeliveryQueued None)) (loaded_node E me b st) =
    Ok (loaded_node E me b DeliveryQueued, [BpaMsg (EventBundleUpdated (get_ref (loaded E b DeliveryQueued)))])"
  using assms by (subst node_handle_def) (simp add: loaded_node_def handle_UpdateBundle_def same_bundle_def vec_remove_def Let_def)

text \<open>Two messages for a bundle that nobody takes yet.\<close>

lemma loaded_queued:
  assumes "r = get_ref (loaded E b DeliveryQueued)"
  shows "\<exists>d. node_run E 2 [BpaMsg (EventBundleUpdated r), BpaMsg (EventBundleUpdated r)] (loaded_node E me b DeliveryQueued) =
      (Ok ((loaded_node E me b DeliveryQueued)\<lparr>n_bpa := d\<rparr>, []) :: (_, 'e) result)
    \<and> queue_of (local_bundles d) (destination_endpoint (primary_block b)) = [r, r] \<and> local_connections d = []"
proof -
  have dst: "destination_endpoint (ref_primary_block r) = destination_endpoint (primary_block b)" "ref_state r = DeliveryQueued"
    by (simp_all add: assms)
  show ?thesis
    by (simp add: numeral_2_eq_2 node_handle_def handle_EventBundleUpdated_def Let_def dst loaded_node_def bpa_empty_def
        deliver_local_bundles_def map_filter_simps push_back_def map_of_update queue_of_def)
qed

lemma connected_takes:
  assumes "local_connections (n_bpa n) = []" "queue_of (local_bundles (n_bpa n)) dst = [r, r]"
    and "fragment_offset (ref_primary_block r) = None" "\<And>out r. n_try_send E out a r = Sent"
  shows "\<exists>n'. node_run E 1 [BpaMsg (EventClientConnected dst a)] n = (Ok (n', []) :: (_, 'e) result)
    \<and> n_sent n' = n_sent n @ [ClientDeliverBundle a r, ClientDeliverBundle a r]"
proof -
  have "map_of (local_bundles (n_bpa n)) dst = Some [r, r]"
    using assms(2) by (auto simp: queue_of_def split: option.splits)
  then show ?thesis
    using assms(1,3,4)
    by (simp add: node_handle_def handle_EventClientConnected_def deliver_local_bundles_def assert_then_def map_filter_simps)
qed

end
