(* ===== verification/Dtrd_Neighbours.thy ===== *)
theory Dtrd_Neighbours
  imports Dtrd_Nodes
begin

text \<open>
  What the neighbour agents keep between them: the direct routes of the routing agent are exactly
  the endpoints of the connected neighbours, and every next hop that the bundle protocol agent was
  told of is a peer it has a channel to.
\<close>

section \<open>Neighbours\<close>

definition peers :: "NodeDaemon \<Rightarrow> (Url \<times> Endpoint) set" where
  "peers d = {(url n, e) |n e. n \<in> set (nodes d) \<and> remote_endpoint n = Some e}"

definition urls_ok :: "NodeDaemon \<Rightarrow> bool" where
  "urls_ok d \<longleftrightarrow> distinct (map url (nodes d))"

lemma in_peers: "(u, e) \<in> peers d \<longleftrightarrow> (\<exists>n \<in> set (nodes d). url n = u \<and> remote_endpoint n = Some e)"
  by (auto simp: peers_def)

lemma urls_ok_nodes: "urls_ok d \<Longrightarrow> distinct (nodes d)"
  by (simp add: urls_ok_def distinct_map)

lemma urls_ok_eq: "urls_ok d \<Longrightarrow> x \<in> set (nodes d) \<Longrightarrow> y \<in> set (nodes d) \<Longrightarrow> url x = url y \<Longrightarrow> x = y"
  by (auto simp: urls_ok_def distinct_map dest: inj_onD)

lemma peers_functional: "urls_ok d \<Longrightarrow> (u, e) \<in> peers d \<Longrightarrow> (u, f) \<in> peers d \<Longrightarrow> e = f"
  unfolding in_peers by (metis option.inject urls_ok_eq)

lemma nodes_update:
  assumes "urls_ok d" "position (\<lambda>n. url n = u) (nodes d) = Some i" "url x = u"
  shows "urls_ok (d\<lparr>nodes := (nodes d)[i := x]\<rparr>)"
    and "set ((nodes d)[i := x]) = insert x {n \<in> set (nodes d). url n \<noteq> u}"
proof -
  have i: "i < length (nodes d)" "url (nodes d ! i) = u"
    using position_Some [OF assms(2)] by auto
  have "map url ((nodes d)[i := x]) = map url (nodes d)"
    by (rule nth_equalityI) (use i assms(3) in \<open>auto simp: nth_list_update\<close>)
  then show "urls_ok (d\<lparr>nodes := (nodes d)[i := x]\<rparr>)"
    using assms(1) by (simp add: urls_ok_def)
  have "set ((nodes d)[i := x]) = insert x (set (nodes d) - {nodes d ! i})"
    by (rule set_update_distinct) (use urls_ok_nodes [OF assms(1)] i in auto)
  also have "set (nodes d) - {nodes d ! i} = {n \<in> set (nodes d). url n \<noteq> u}"
    using urls_ok_eq [OF assms(1)] i nth_mem [OF i(1)] by auto
  finally show "set ((nodes d)[i := x]) = insert x {n \<in> set (nodes d). url n \<noteq> u}" .
qed

lemma nodes_removed:
  assumes "urls_ok d" "position (\<lambda>n. url n = u) (nodes d) = Some i"
  shows "urls_ok (d\<lparr>nodes := vec_remove i (nodes d)\<rparr>)"
    and "set (vec_remove i (nodes d)) = {n \<in> set (nodes d). url n \<noteq> u}"
proof -
  have i: "i < length (nodes d)" "url (nodes d ! i) = u"
    using position_Some [OF assms(2)] by auto
  show "urls_ok (d\<lparr>nodes := vec_remove i (nodes d)\<rparr>)"
    using assms(1) by (simp add: urls_ok_def map_vec_remove distinct_vec_remove)
  show "set (vec_remove i (nodes d)) = {n \<in> set (nodes d). url n \<noteq> u}"
    using urls_ok_eq [OF assms(1)] i nth_mem [OF i(1)]
    by (auto simp: set_vec_remove urls_ok_nodes [OF assms(1)])
qed

text \<open>The effect of the handlers on the neighbours and their endpoints.\<close>

lemma AddNode_peers:
  assumes "urls_ok d"
  shows "urls_ok (fst (handle_AddNode u d))" "peers (fst (handle_AddNode u d)) = peers d"
  using assms by (auto simp: handle_AddNode_def urls_ok_def Node_eq_def new_node_def peers_def)

lemma peers_cong:
  assumes "map (\<lambda>n. (url n, remote_endpoint n)) (nodes d') = map (\<lambda>n. (url n, remote_endpoint n)) (nodes d)"
  shows "urls_ok d' = urls_ok d" "peers d' = peers d"
proof -
  have "map url (nodes d') = map url (nodes d)"
    using arg_cong [OF assms, of "map fst"] by (simp add: comp_def)
  then show "urls_ok d' = urls_ok d"
    by (simp add: urls_ok_def)
  have p: "peers d = {(u, e). (u, Some e) \<in> set (map (\<lambda>n. (url n, remote_endpoint n)) (nodes d))}" for d
    by (force simp: peers_def)
  show "peers d' = peers d"
    by (simp only: p assms)
qed

lemma TryConnect_peers:
  assumes "urls_ok d"
  shows "urls_ok (fst (handle_TryConnect d))" "peers (fst (handle_TryConnect d)) = peers d"
proof -
  have "map (\<lambda>n. (url n, remote_endpoint n)) (nodes (fst (handle_TryConnect d))) =
      map (\<lambda>n. (url n, remote_endpoint n)) (nodes d)"
    by (simp add: handle_TryConnect_def)
  note c = peers_cong [OF this]
  show "urls_ok (fst (handle_TryConnect d))" "peers (fst (handle_TryConnect d)) = peers d"
    using assms c by simp_all
qed

lemma RemoveNode_peers:
  assumes "urls_ok d"
  shows "urls_ok (fst (handle_RemoveNode u d))" "peers (fst (handle_RemoveNode u d)) = peers d"
proof -
  have "map (\<lambda>n. (url n, remote_endpoint n)) (nodes (fst (handle_RemoveNode u d))) =
      map (\<lambda>n. (url n, remote_endpoint n)) (nodes d)"
  proof (cases "position (\<lambda>x. Node_eq x (new_node u)) (nodes d)")
    case None
    then show ?thesis
      by (simp add: handle_RemoveNode_def)
  next
    case (Some i)
    then have i: "i < length (nodes d)"
      using position_Some by blast
    show ?thesis
      by (rule nth_equalityI) (use Some i in \<open>auto simp: handle_RemoveNode_def nth_list_update\<close>)
  qed
  note c = peers_cong [OF this]
  show "urls_ok (fst (handle_RemoveNode u d))" "peers (fst (handle_RemoveNode u d)) = peers d"
    using assms c by simp_all
qed

lemma NotifyNodeConnected_peers:
  assumes "urls_ok d" "\<And>e'. (u, e') \<notin> peers d"
  shows "urls_ok (fst (handle_NotifyNodeConnected u e mx d))"
    and "peers (fst (handle_NotifyNodeConnected u e mx d)) = insert (u, e) (peers d)"
proof -
  have p: "remote_endpoint n = None" if "n \<in> set (nodes d)" "url n = u" for n
    using assms(2) that by (cases "remote_endpoint n") (auto simp: peers_def)
  show "urls_ok (fst (handle_NotifyNodeConnected u e mx d))"
  proof (cases "position (\<lambda>n. url n = u) (nodes d)")
    case None
    then show ?thesis
      using assms(1) iffD1 [OF position_None None]
      by (auto simp: handle_NotifyNodeConnected_def urls_ok_def)
  next
    case (Some i)
    then show ?thesis
      using position_Some [OF Some] nodes_update(1) [OF assms(1) Some]
      by (simp add: handle_NotifyNodeConnected_def)
  qed
  show "peers (fst (handle_NotifyNodeConnected u e mx d)) = insert (u, e) (peers d)"
  proof (cases "position (\<lambda>n. url n = u) (nodes d)")
    case None
    then show ?thesis
      by (intro set_eqI) (auto simp: handle_NotifyNodeConnected_def in_peers)
  next
    case (Some i)
    let ?x = "(nodes d ! i)\<lparr>connection_status := Connected, remote_endpoint := Some e\<rparr>"
    have i: "url (nodes d ! i) = u"
      using position_Some [OF Some] by auto
    have s: "set ((nodes d)[i := ?x]) = insert ?x {n \<in> set (nodes d). url n \<noteq> u}"
      by (rule nodes_update(2) [OF assms(1) Some]) (simp add: i)
    have D: "nodes (fst (handle_NotifyNodeConnected u e mx d)) = (nodes d)[i := ?x]"
      by (simp add: handle_NotifyNodeConnected_def Some)
    have "(v, f) \<in> peers (fst (handle_NotifyNodeConnected u e mx d)) \<longleftrightarrow> (v, f) \<in> insert (u, e) (peers d)"
      for v f
    proof (cases "v = u")
      case True
      then show ?thesis
        using assms(2) i by (auto simp: in_peers [of _ _ "fst (handle_NotifyNodeConnected u e mx d)"] D s)
    next
      case False
      then show ?thesis
        using i by (auto simp: in_peers D s)
    qed
    then show ?thesis
      by auto
  qed
qed

lemma NotifyNodeDisconnected_peers:
  assumes "urls_ok d"
  shows "urls_ok (fst (handle_NotifyNodeDisconnected u d))"
    and "peers (fst (handle_NotifyNodeDisconnected u d)) = {p \<in> peers d. fst p \<noteq> u}"
    and "snd (handle_NotifyNodeDisconnected u d) = [] \<and> (\<forall>e. (u, e) \<notin> peers d) \<or>
      (\<exists>e. (u, e) \<in> peers d \<and>
        snd (handle_NotifyNodeDisconnected u d) = [ToRouting (RemoveRoute e RouteType.Connected e)])"
proof -
  let ?d = "fst (handle_NotifyNodeDisconnected u d)"
  show "urls_ok ?d"
  proof (cases "position (\<lambda>n. url n = u) (nodes d)")
    case None
    then show ?thesis
      using assms by (simp add: handle_NotifyNodeDisconnected_def)
  next
    case (Some i)
    then show ?thesis
      using position_Some [OF Some] nodes_update(1) [OF assms Some] nodes_removed(1) [OF assms Some]
      by (simp add: handle_NotifyNodeDisconnected_def Let_def)
  qed
  show "peers ?d = {p \<in> peers d. fst p \<noteq> u}"
  proof (cases "position (\<lambda>n. url n = u) (nodes d)")
    case None
    then show ?thesis
      using iffD1 [OF position_None None] by (auto simp: handle_NotifyNodeDisconnected_def peers_def)
  next
    case (Some i)
    let ?x = "(nodes d ! i)\<lparr>connection_status := Disconnected, remote_endpoint := None\<rparr>"
    have i: "url (nodes d ! i) = u"
      using position_Some [OF Some] by auto
    have s: "set ((nodes d)[i := ?x]) = insert ?x {n \<in> set (nodes d). url n \<noteq> u}"
      by (rule nodes_update(2) [OF assms Some]) (simp add: i)
    show ?thesis
      by (auto simp: handle_NotifyNodeDisconnected_def Let_def Some peers_def s
          nodes_removed(2) [OF assms Some])
  qed
  show "snd (handle_NotifyNodeDisconnected u d) = [] \<and> (\<forall>e. (u, e) \<notin> peers d) \<or>
      (\<exists>e. (u, e) \<in> peers d \<and>
        snd (handle_NotifyNodeDisconnected u d) = [ToRouting (RemoveRoute e RouteType.Connected e)])"
  proof (cases "position (\<lambda>n. url n = u) (nodes d)")
    case None
    then show ?thesis
      using iffD1 [OF position_None None] by (auto simp: handle_NotifyNodeDisconnected_def peers_def)
  next
    case (Some i)
    have i: "i < length (nodes d)" "url (nodes d ! i) = u"
      using position_Some [OF Some] by auto
    have m: "n = nodes d ! i" if "n \<in> set (nodes d)" "url n = u" for n
      using urls_ok_eq [OF assms that(1) nth_mem [OF i(1)]] that i by simp
    show ?thesis
    proof (cases "remote_endpoint (nodes d ! i)")
      case None
      then have "(u, e) \<notin> peers d" for e
        using m by (auto simp: peers_def)
      then show ?thesis
        by (simp add: handle_NotifyNodeDisconnected_def Let_def Some None)
    next
      case (Some e)
      then have "(u, e) \<in> peers d"
        using i nth_mem [OF i(1)] by (auto simp: peers_def)
      then show ?thesis
        by (auto simp: handle_NotifyNodeDisconnected_def Let_def
            \<open>position (\<lambda>n. url n = u) (nodes d) = Some i\<close> Some)
    qed
  qed
qed

section \<open>Consistency of the agents\<close>

definition direct :: "RoutingDaemon \<Rightarrow> (Endpoint \<times> Endpoint) set" where
  "direct r = {(t, nh). (t, RouteType.Connected, nh) \<in> route_set r}"

definition channels :: "ConvDaemon \<Rightarrow> Endpoint set" where
  "channels c = fst ` set (connected_nodes c)"

text \<open>The peers that the events sent so far leave the bundle protocol agent with, and the routing
  tables among these events.\<close>

fun peer_event :: "net_output \<Rightarrow> Endpoint set \<Rightarrow> Endpoint set" where
  "peer_event (EventPeerConnected e a) S = insert e S"
| "peer_event (EventPeerDisconnected e) S = S - {e}"
| "peer_event (RoutingTableUpdate t) S = S"
| "peer_event (ShutdownSession a) S = S"

definition known_peers :: "net_output list \<Rightarrow> Endpoint set" where
  "known_peers out = fold peer_event out {}"

fun table_event :: "net_output \<Rightarrow> EventRoutingTableUpdate option" where
  "table_event (RoutingTableUpdate t) = Some t"
| "table_event (EventPeerConnected e a) = None"
| "table_event (EventPeerDisconnected e) = None"
| "table_event (ShutdownSession a) = None"

definition known_table :: "net_output list \<Rightarrow> RoutingTable" where
  "known_table out = published (List.map_filter table_event out)"

definition endpoints_unique :: "NodeDaemon \<Rightarrow> bool" where
  "endpoints_unique d \<longleftrightarrow> (\<forall>p \<in> peers d. \<forall>q \<in> peers d. snd p = snd q \<longrightarrow> fst p = fst q)"

definition told :: "net_env \<Rightarrow> net \<Rightarrow> bool" where
  "told E n \<longleftrightarrow> routing_inv (routing_agent n) \<and> known_peers (net_out n) = channels (conv_agent n) \<and>
     (\<forall>t. map_of (known_table (net_out n)) t = map_of (routing_table (env_sort E) (routing_agent n)) t)"

definition net_inv :: "net_env \<Rightarrow> net \<Rightarrow> bool" where
  "net_inv E n \<longleftrightarrow> told E n \<and> urls_ok (node_agent n) \<and> endpoints_unique (node_agent n) \<and>
     direct (routing_agent n) = {(e, e) |e. e \<in> snd ` peers (node_agent n)} \<and>
     snd ` peers (node_agent n) \<subseteq> channels (conv_agent n)"

text \<open>What comes from outside: commands of a client, sessions that open and close. A session does
  not open to an endpoint that another neighbour already has, and does not close with the endpoint
  of another neighbour.\<close>

fun external_ok :: "net_message \<Rightarrow> net \<Rightarrow> bool" where
  "external_ok (CLRegisterNode u e mx a) n \<longleftrightarrow>
     (\<forall>(v, f) \<in> peers (node_agent n). v \<noteq> u \<and> f \<noteq> e)"
| "external_ok (CLUnregisterNode u nd) n \<longleftrightarrow>
     (\<forall>(v, f) \<in> peers (node_agent n). nd = Some f \<longrightarrow> v = u)"
| "external_ok (ToRouting (AddRoute t ty nh mx)) n \<longleftrightarrow> ty = Static"
| "external_ok (ToRouting (RemoveRoute t ty nh)) n \<longleftrightarrow> ty = Static"
| "external_ok (NotifyNodeConnected u e mx) n \<longleftrightarrow> False"
| "external_ok (NotifyNodeDisconnected u) n \<longleftrightarrow> False"
| "external_ok m n \<longleftrightarrow> True"

lemma direct_step:
  "direct (fst (routing_step srt m r)) =
     (case m of
        AddRoute t ty nh mx \<Rightarrow> if ty = RouteType.Connected then insert (t, nh) (direct r) else direct r
      | RemoveRoute t ty nh \<Rightarrow> if ty = RouteType.Connected then direct r - {(t, nh)} else direct r)"
  unfolding direct_def routing_step_abs by (cases m) auto

lemma channels_update [simp]: "channels (c\<lparr>connected_nodes := AList.update e a (connected_nodes c)\<rparr>) =
    insert e (channels c)"
proof -
  have "fst ` set (AList.update e a al) = insert e (fst ` set al)" for al :: "(Endpoint \<times> addr) list"
    by (induction al) auto
  then show ?thesis
    by (simp add: channels_def)
qed

lemma channels_delete [simp]: "channels (c\<lparr>connected_nodes := AList.delete e (connected_nodes c)\<rparr>) =
    channels c - {e}"
  by (auto simp: channels_def AList.delete_eq)

lemma published_append: "published (a @ b) = (if b = [] then published a else published b)"
  by (simp add: published_def)

lemma known_append:
  "known_peers (a @ b) = fold peer_event b (known_peers a)"
  "known_table (a @ b) =
     (if List.map_filter table_event b = [] then known_table a
      else published (List.map_filter table_event b))"
  by (simp_all add: known_peers_def known_table_def published_append List.map_filter_def)

lemma net_run_append: "net_run E (a @ b) n = net_run E b (net_run E a n)"
proof (induction E a n rule: net_run.induct)
  case (1 E n)
  then show ?case
    by simp
next
  case (2 E m q n)
  then show ?case
    by simp
qed

lemma told_frame [simp]:
  "told E (n\<lparr>node_agent := d\<rparr>) = told E n"
  "told E (n\<lparr>tcpcl_server := t\<rparr>) = told E n"
  "told E (n\<lparr>listening_server := t\<rparr>) = told E n"
  "told E (n\<lparr>next_session := a\<rparr>) = told E n"
  by (simp_all add: told_def)

lemma told_routing:
  assumes "unstable_sort (env_sort E)" "told E n"
  shows "told E (fst (net_handle E (ToRouting m) n))"
proof -
  obtain r us where s: "routing_step (env_sort E) m (routing_agent n) = (r, us)"
    by (cases "routing_step (env_sort E) m (routing_agent n)")
  have inv: "routing_inv (routing_agent n)"
    and tab: "\<And>t. map_of (known_table (net_out n)) t = map_of (routing_table (env_sort E) (routing_agent n)) t"
    using assms(2) by (auto simp: told_def)
  have run: "routing_run (env_sort E) [m] (routing_agent n) = (r, us)"
    by (simp add: s)
  have "map_of (if us = [] then known_table (net_out n) else published us) t =
      map_of (routing_table (env_sort E) r) t" for t
    using unstable_sort.routing_run_published [OF assms(1) inv tab, of "[m]" t]
    by (simp only: run fst_conv snd_conv)
  moreover have "List.map_filter table_event (map RoutingTableUpdate us) = us"
    by (induction us) (simp_all add: map_filter_simps)
  moreover have "fold peer_event (map RoutingTableUpdate us) S = S" for S
    by (induction us) simp_all
  ultimately show ?thesis
    using assms(2) routing_step_inv [OF inv, of "env_sort E" m]
    by (cases "us = []") (simp_all add: s told_def known_append)
qed

lemma told_conv:
  assumes "told E n"
  shows "told E (fst (net_handle E (CLRegisterNode u e mx a) n))"
    and "told E (fst (net_handle E (CLUnregisterNode u nd) n))"
  using assms
  by (auto simp: told_def to_conv_def handle_CLRegisterNode_def handle_CLUnregisterNode_def
      known_append map_filter_simps split: option.splits)

text \<open>A neighbour that goes away takes its route with it.\<close>

lemma run_NotifyNodeDisconnected:
  assumes "unstable_sort (env_sort E)" "told E n" "urls_ok (node_agent n)" "endpoints_unique (node_agent n)"
    and direct: "direct (routing_agent n) = {(e, e) |e. e \<in> snd ` peers (node_agent n)}"
    and chan: "\<And>v e. (v, e) \<in> peers (node_agent n) \<Longrightarrow> v \<noteq> u \<Longrightarrow> e \<in> channels (conv_agent n)"
  shows "net_inv E (net_run E [NotifyNodeDisconnected u] n)"
proof -
  let ?h = "handle_NotifyNodeDisconnected u (node_agent n)"
  let ?n = "n\<lparr>node_agent := fst ?h\<rparr>"
  note np = NotifyNodeDisconnected_peers [OF assms(3), of u]
  have run: "net_run E [NotifyNodeDisconnected u] n = net_run E (snd ?h) ?n"
    by (simp add: to_node_def case_prod_unfold Let_def)
  have un: "endpoints_unique (fst ?h)"
    using assms(4) by (auto simp: endpoints_unique_def np(2))
  have ch: "snd ` peers (fst ?h) \<subseteq> channels (conv_agent n)"
    using chan by (auto simp: np(2))
  from np(3) show ?thesis
  proof (elim disjE conjE exE)
    assume none: "snd ?h = []" "\<forall>e. (u, e) \<notin> peers (node_agent n)"
    then have "peers (fst ?h) = peers (node_agent n)"
      by (auto simp: np(2))
    then show ?thesis
      unfolding run using none assms un ch np(1) by (simp add: net_inv_def)
  next
    fix e
    assume e: "(u, e) \<in> peers (node_agent n)"
      and out: "snd ?h = [ToRouting (RemoveRoute e RouteType.Connected e)]"
    let ?r = "fst (net_handle E (ToRouting (RemoveRoute e RouteType.Connected e)) ?n)"
    have "snd ` peers (fst ?h) = snd ` peers (node_agent n) - {e}"
    proof -
      have "f \<noteq> e" if "(v, f) \<in> peers (node_agent n)" "v \<noteq> u" for v f
        using assms(4) e that by (auto simp: endpoints_unique_def)
      moreover have "f = e" if "(u, f) \<in> peers (node_agent n)" for f
        by (rule peers_functional [OF assms(3) that e])
      ultimately show ?thesis
        unfolding np(2) by force
    qed
    moreover have "direct (routing_agent ?r) = direct (routing_agent n) - {(e, e)}"
      using direct_step [of "env_sort E" "RemoveRoute e RouteType.Connected e" "routing_agent n"]
      by (simp add: case_prod_unfold Let_def)
    moreover have "told E ?r"
      by (rule told_routing) (use assms in simp_all)
    moreover have "net_run E [NotifyNodeDisconnected u] n = ?r"
      unfolding run out by (simp add: case_prod_unfold Let_def)
    ultimately show ?thesis
      using un ch np(1) direct by (auto simp: net_inv_def case_prod_unfold Let_def)
  qed
qed

text \<open>A neighbour that appears brings its route with it.\<close>

lemma run_NotifyNodeConnected:
  assumes "unstable_sort (env_sort E)" "told E n" "urls_ok (node_agent n)" "endpoints_unique (node_agent n)"
    and direct: "direct (routing_agent n) = {(e, e) |e. e \<in> snd ` peers (node_agent n)}"
    and chan: "snd ` peers (node_agent n) \<subseteq> channels (conv_agent n)" "e \<in> channels (conv_agent n)"
    and new: "\<And>v f. (v, f) \<in> peers (node_agent n) \<Longrightarrow> v \<noteq> u \<and> f \<noteq> e"
  shows "net_inv E (net_run E [NotifyNodeConnected u e mx] n)"
proof -
  let ?h = "handle_NotifyNodeConnected u e mx (node_agent n)"
  let ?n = "n\<lparr>node_agent := fst ?h\<rparr>"
  let ?m = "AddRoute e RouteType.Connected e (Some mx)"
  have nu: "(u, f) \<notin> peers (node_agent n)" for f
    using new by blast
  note np = NotifyNodeConnected_peers [OF assms(3) nu, of e mx]
  have run: "net_run E [NotifyNodeConnected u e mx] n = fst (net_handle E (ToRouting ?m) ?n)"
    by (simp add: to_node_def case_prod_unfold Let_def handle_NotifyNodeConnected_def)
  have "endpoints_unique (fst ?h)"
    using assms(4) new unfolding endpoints_unique_def np(2) by fastforce
  moreover have "direct (routing_agent (fst (net_handle E (ToRouting ?m) ?n))) = insert (e, e) (direct (routing_agent n))"
    using direct_step [of "env_sort E" ?m "routing_agent n"] by (simp add: case_prod_unfold Let_def)
  moreover have "told E (fst (net_handle E (ToRouting ?m) ?n))"
    by (rule told_routing) (use assms in simp_all)
  ultimately show ?thesis
    unfolding run using np chan direct by (auto simp: net_inv_def case_prod_unfold Let_def)
qed

section \<open>Every command keeps the agents consistent\<close>

lemma net_inv_server [simp]:
  "net_inv E (n\<lparr>tcpcl_server := t\<rparr>) = net_inv E n"
  "net_inv E (n\<lparr>listening_server := t\<rparr>) = net_inv E n"
  "net_inv E (n\<lparr>next_session := a\<rparr>) = net_inv E n"
  by (simp_all add: net_inv_def)

lemma net_inv_node:
  assumes "net_inv E n" "urls_ok d" "peers d = peers (node_agent n)"
  shows "net_inv E (n\<lparr>node_agent := d\<rparr>)"
proof -
  have "endpoints_unique d = endpoints_unique (node_agent n)"
    unfolding endpoints_unique_def by (simp only: assms(3))
  then show ?thesis
    using assms by (simp add: net_inv_def)
qed

lemma net_inv_urls_ok: "net_inv E n \<Longrightarrow> urls_ok (node_agent n)"
  by (simp add: net_inv_def)

lemma run_CLUnregisterNode:
  assumes "unstable_sort (env_sort E)" "net_inv E n" "external_ok (CLUnregisterNode u nd) n"
  shows "net_inv E (net_run E [CLUnregisterNode u nd] n)"
proof -
  define n' where "n' = fst (net_handle E (CLUnregisterNode u nd) n)"
  have run: "net_run E [CLUnregisterNode u nd] n = net_run E [NotifyNodeDisconnected u] n'"
    by (cases nd) (simp_all add: n'_def to_conv_def handle_CLUnregisterNode_def Let_def)
  have same: "node_agent n' = node_agent n" "routing_agent n' = routing_agent n"
    by (simp_all add: n'_def to_conv_def case_prod_unfold Let_def)
  have "(case nd of None \<Rightarrow> channels (conv_agent n) | Some e \<Rightarrow> channels (conv_agent n) - {e})
      = channels (conv_agent n')"
    by (cases nd) (simp_all add: n'_def to_conv_def handle_CLUnregisterNode_def Let_def)
  then have ch: "e \<in> channels (conv_agent n')" if "e \<in> channels (conv_agent n)" "nd \<noteq> Some e" for e
    using that by (auto split: option.splits)
  have told: "told E n'"
    using assms(2) unfolding n'_def by (intro told_conv(2)) (simp add: net_inv_def)
  show ?thesis
    unfolding run
  proof (rule run_NotifyNodeDisconnected [OF assms(1) told])
    show "e \<in> channels (conv_agent n')" if "(v, e) \<in> peers (node_agent n')" "v \<noteq> u" for v e
      using assms(2,3) that by (intro ch) (auto simp: same net_inv_def)
  qed (use assms(2) in \<open>simp_all add: same net_inv_def\<close>)
qed

lemma run_CLRegisterNode:
  assumes "unstable_sort (env_sort E)" "net_inv E n" "external_ok (CLRegisterNode u e mx a) n"
  shows "net_inv E (net_run E [CLRegisterNode u e mx a] n)"
proof -
  define n' where "n' = fst (net_handle E (CLRegisterNode u e mx a) n)"
  have run: "net_run E [CLRegisterNode u e mx a] n = net_run E [NotifyNodeConnected u e mx] n'"
    by (simp add: n'_def to_conv_def handle_CLRegisterNode_def Let_def)
  have same: "node_agent n' = node_agent n" "routing_agent n' = routing_agent n"
    "channels (conv_agent n') = insert e (channels (conv_agent n))"
    by (simp_all add: n'_def to_conv_def handle_CLRegisterNode_def Let_def)
  have told: "told E n'"
    using assms(2) unfolding n'_def by (intro told_conv(1)) (simp add: net_inv_def)
  show ?thesis
    unfolding run
  proof (rule run_NotifyNodeConnected [OF assms(1) told])
    show "v \<noteq> u \<and> f \<noteq> e" if "(v, f) \<in> peers (node_agent n')" for v f
      using assms(3) that by (auto simp: same)
    show "snd ` peers (node_agent n') \<subseteq> channels (conv_agent n')"
      using assms(2) by (auto simp: same net_inv_def)
  qed (use assms(2) in \<open>simp_all add: same net_inv_def\<close>)
qed

lemma run_ConnectRemote:
  assumes "unstable_sort (env_sort E)" "net_inv E n"
  shows "net_inv E (net_run E [ConnectRemote u] n)"
  using assms run_CLUnregisterNode [OF assms(1), of "n\<lparr>next_session := Suc (next_session n)\<rparr>" u None]
  by (cases "env_connects E u") (simp_all add: handle_ConnectRemote_def Let_def)

lemma run_DisconnectRemote:
  assumes "unstable_sort (env_sort E)" "net_inv E n"
  shows "net_inv E (net_run E [DisconnectRemote u] n)"
proof (cases "map_of (sessions (tcpcl_server n)) u")
  case None
  then show ?thesis
    using run_CLUnregisterNode [OF assms, of u None] by (simp add: handle_DisconnectRemote_def Let_def)
next
  case (Some a)
  then show ?thesis
    using assms by (simp add: handle_DisconnectRemote_def Let_def net_inv_def told_def known_append
        map_filter_simps)
qed

lemma run_AgentConnectNode:
  assumes "unstable_sort (env_sort E)" "net_inv E n"
  shows "net_inv E (net_run E [AgentConnectNode u] n)"
  using assms run_ConnectRemote [OF assms, of u] by (simp add: handle_AgentConnectNode_def)

lemma run_AgentConnectNodes:
  assumes "unstable_sort (env_sort E)" "net_inv E n"
  shows "net_inv E (net_run E (map AgentConnectNode us) n)"
  using assms(2)
proof (induction us arbitrary: n)
  case (Cons u us)
  have "net_run E (map AgentConnectNode (u # us)) n =
      net_run E (map AgentConnectNode us) (net_run E [AgentConnectNode u] n)"
    using net_run_append [of E "[AgentConnectNode u]" "map AgentConnectNode us" n]
    by (simp del: net_run.simps)
  then show ?case
    using Cons.IH [OF run_AgentConnectNode [OF assms(1) Cons.prems]] by (simp only:)
qed simp

lemma net_run_inv:
  assumes "unstable_sort (env_sort E)" "net_inv E n" "external_ok m n"
  shows "net_inv E (net_run E [m] n)"
proof (cases m)
  case (AddNode u)
  let ?d = "fst (handle_AddNode u (node_agent n))"
  have i: "net_inv E (n\<lparr>node_agent := ?d\<rparr>)"
    using AddNode_peers [OF net_inv_urls_ok [OF assms(2)], of u] by (intro net_inv_node [OF assms(2)]) auto
  have "net_run E [m] n = net_run E (snd (handle_AddNode u (node_agent n))) (n\<lparr>node_agent := ?d\<rparr>)"
    by (simp add: AddNode to_node_def case_prod_unfold Let_def)
  moreover have "snd (handle_AddNode u (node_agent n)) = [] \<or>
      snd (handle_AddNode u (node_agent n)) = [AgentConnectNode u]"
    by (simp add: handle_AddNode_def)
  ultimately show ?thesis
    using run_AgentConnectNode [OF assms(1) i, of u] i by (auto simp del: net_run.simps(2))
next
  case (RemoveNode u)
  let ?d = "fst (handle_RemoveNode u (node_agent n))"
  have i: "net_inv E (n\<lparr>node_agent := ?d\<rparr>)"
    using RemoveNode_peers [OF net_inv_urls_ok [OF assms(2)], of u] by (intro net_inv_node [OF assms(2)]) auto
  have "net_run E [m] n = net_run E (snd (handle_RemoveNode u (node_agent n))) (n\<lparr>node_agent := ?d\<rparr>)"
    by (simp add: RemoveNode to_node_def case_prod_unfold Let_def)
  moreover have "snd (handle_RemoveNode u (node_agent n)) = [] \<or>
      snd (handle_RemoveNode u (node_agent n)) = [AgentDisconnectNode u]"
    by (simp add: handle_RemoveNode_def split: option.splits)
  moreover have "net_inv E (net_run E [AgentDisconnectNode u] (n\<lparr>node_agent := ?d\<rparr>))"
    using i run_DisconnectRemote [OF assms(1) i, of u] by (simp add: handle_AgentDisconnectNode_def)
  ultimately show ?thesis
    using i by (auto simp del: net_run.simps(2))
next
  case TryConnect
  let ?d = "fst (handle_TryConnect (node_agent n))"
  have i: "net_inv E (n\<lparr>node_agent := ?d\<rparr>)"
    using TryConnect_peers [OF net_inv_urls_ok [OF assms(2)]] by (intro net_inv_node [OF assms(2)]) auto
  have "net_run E [m] n = net_run E (map AgentConnectNode (map url (filter reconnects (nodes (node_agent n)))))
      (n\<lparr>node_agent := ?d\<rparr>)"
    by (simp add: TryConnect to_node_def case_prod_unfold Let_def handle_TryConnect_def comp_def)
  then show ?thesis
    using run_AgentConnectNodes [OF assms(1) i] by (simp only:)
next
  case (ToRouting r)
  then have "direct (routing_agent (net_run E [m] n)) = direct (routing_agent n)"
    using assms(3) direct_step [of "env_sort E" r "routing_agent n"]
    by (cases r) (simp_all add: case_prod_unfold Let_def)
  moreover have "told E (net_run E [m] n)"
    using told_routing [OF assms(1), of n r] assms(2) by (simp add: ToRouting net_inv_def case_prod_unfold Let_def)
  ultimately show ?thesis
    using assms(2) by (simp add: ToRouting net_inv_def case_prod_unfold Let_def)
next
  case (AgentDisconnectNode u)
  then show ?thesis
    using assms(2) run_DisconnectRemote [OF assms(1,2), of u] by (simp add: handle_AgentDisconnectNode_def)
next
  case (NewClientConnectedOnSocket u)
  then show ?thesis
    using assms(2) by simp
qed (use assms run_CLRegisterNode [OF assms(1,2)] run_CLUnregisterNode [OF assms(1,2)]
      run_AgentConnectNode [OF assms(1,2)] run_ConnectRemote [OF assms(1,2)]
      run_DisconnectRemote [OF assms(1,2)] in \<open>auto simp del: net_run.simps(2)\<close>)

inductive net_reachable :: "net_env \<Rightarrow> net \<Rightarrow> bool" for E where
  init: "net_reachable E net_init"
| step: "net_reachable E n \<Longrightarrow> external_ok m n \<Longrightarrow> net_reachable E (net_run E [m] n)"

lemma net_inv_init: "net_inv E net_init"
proof -
  have "map_of (routing_table (env_sort E) RoutingDaemon_default) = Map.empty"
    by (simp add: routing_table_def get_routes_def RoutingDaemon_default_def collect_map_def)
  then show ?thesis
    by (simp add: net_inv_def told_def net_init_def urls_ok_def endpoints_unique_def peers_def
        direct_def channels_def known_peers_def known_table_def published_def map_filter_simps)
qed

lemma net_reachable_inv:
  assumes "unstable_sort (env_sort E)"
  shows "net_reachable E n \<Longrightarrow> net_inv E n"
  by (induction rule: net_reachable.induct) (blast intro: net_inv_init net_run_inv [OF assms])+

text \<open>Every next hop of the table has a channel.\<close>

lemma net_inv_next_hop:
  assumes "unstable_sort (env_sort E)" "net_inv E n" "map_of (known_table (net_out n)) t = Some nh"
  shows "nh_next_hop nh \<in> known_peers (net_out n)"
proof -
  let ?r = "routing_agent n"
  have inv: "distinct (map fst (routes ?r))" and tab: "map_of (routing_table (env_sort E) ?r) t = Some nh"
    using assms(2,3) by (auto simp: net_inv_def told_def routing_inv_def)
  obtain e where e: "e \<in> set (entries (routes ?r) t)" "nh = to_nexthop e" "is_available ?r e"
    using unstable_sort.routing_table_good [OF assms(1) inv, of t] by (auto simp: tab good_choice_def)
  have diag: "direct ?r = {(e, e) |e. e \<in> snd ` peers (node_agent n)}"
    and ch: "snd ` peers (node_agent n) \<subseteq> known_peers (net_out n)"
    using assms(2) by (auto simp: net_inv_def told_def)
  have "\<exists>t'. (t', next_hop e) \<in> direct ?r \<or> (next_hop e, t') \<in> direct ?r"
    using e(1,3) by (auto simp: is_available_def direct_def in_route_set)
  then have "next_hop e \<in> snd ` peers (node_agent n)"
    by (auto simp: diag)
  then show ?thesis
    using ch e(2) by (auto simp: to_nexthop_def)
qed

end
