(* ===== verification/Dtrd_Results.thy ===== *)
theory Dtrd_Results
  imports Dtrd_Neighbours Dtrd_Node Examples
begin

text \<open>
  The properties of the daemon's agents: routing, neighbours, storage, and the way of a bundle
  through the node.
\<close>

section \<open>Routes and neighbours\<close>

text \<open>Two nodes for the examples.\<close>

definition node_a :: Endpoint where "node_a = DTN \<lparr>uri = ''//a''\<rparr>"
definition node_b :: Endpoint where "node_b = DTN \<lparr>uri = ''//b''\<rparr>"
definition node_c :: Endpoint where "node_c = DTN \<lparr>uri = ''//c''\<rparr>"

definition example_net :: net_env where
  "example_net = \<lparr>env_scheme = (\<lambda>u. ''tcpcl''), env_connects = (\<lambda>u. True), env_accepts = (\<lambda>u. True), env_sort = sort_key rs_route_type\<rparr>"


text \<open>C22. The routing agent implements a set of routes: after any sequence of messages it holds the
  routes added and not removed, each once, and the table it published last has for every target the
  choice that the current routes call for: an available route, a direct connection before a static
  route, and nothing only if there is no direct connection and some route is not available.\<close>

theorem routing_published:
  assumes "unstable_sort srt" and "routing_run srt ms RoutingDaemon_default = (d, sent)"
  shows "routing_inv d \<and> route_set d = fold abs_route ms {} \<and>
    map_of (published sent) t = map_of (routing_table srt d) t \<and> good_choice d t (map_of (published sent) t)"
proof -
  have inv: "routing_inv d"
    using routing_run_inv [OF routing_inv_default, of srt ms] assms(2) by simp
  have abs: "route_set d = fold abs_route ms {}"
    using routing_run_abs [of srt ms RoutingDaemon_default] assms(2) by simp
  have empty: "map_of [] t = map_of (routing_table srt RoutingDaemon_default) t" for t
    by (simp add: routing_table_def get_routes_def RoutingDaemon_default_def collect_map_def)
  have tab: "map_of (published sent) t = map_of (routing_table srt d) t"
    using unstable_sort.routing_run_published [OF assms(1) routing_inv_default empty, of ms t] assms(2)
    by (cases "sent = []") (simp_all add: published_def)
  show ?thesis
    using inv abs tab unstable_sort.routing_table_good [OF assms(1), of d t] by (simp add: routing_inv_def)
qed

theorem routing_published_witness:
  "\<exists>d sent. routing_run (sort_key rs_route_type)
      [AddRoute node_a Static node_b None, AddRoute node_b RouteType.Connected node_b (Some 100)] RoutingDaemon_default = (d, sent)
    \<and> map_of (published sent) node_a = Some \<lparr>nh_next_hop = node_b, nh_max_size = None\<rparr>
    \<and> good_choice d node_a (map_of (published sent) node_a)
    \<and> route_set d = {(node_a, Static, node_b), (node_b, RouteType.Connected, node_b)}"
proof -
  let ?ms = "[AddRoute node_a Static node_b None, AddRoute node_b RouteType.Connected node_b (Some 100)]"
  obtain d sent where r: "routing_run (sort_key rs_route_type) ?ms RoutingDaemon_default = (d, sent)"
    by (cases "routing_run (sort_key rs_route_type) ?ms RoutingDaemon_default")
  have "map_of (published (snd (routing_run (sort_key rs_route_type) ?ms RoutingDaemon_default))) node_a
      = Some \<lparr>nh_next_hop = node_b, nh_max_size = None\<rparr>"
    by code_simp
  then show ?thesis
    using r routing_published [OF stable_sort.unstable_sort_axioms r, of node_a] by auto
qed

text \<open>An available static route is not used when an unavailable one comes first.\<close>

lemma static_route_shadowed:
  "\<exists>d sent. routing_run (sort_key rs_route_type)
      [AddRoute node_a Static node_c None, AddRoute node_a Static node_b None,
       AddRoute node_b RouteType.Connected node_b (Some 100)] RoutingDaemon_default = (d, sent)
    \<and> (\<exists>e \<in> set (entries (routes d) node_a). is_available d e) \<and> map_of (published sent) node_a = None"
proof -
  let ?run = "routing_run (sort_key rs_route_type)
      [AddRoute node_a Static node_c None, AddRoute node_a Static node_b None,
       AddRoute node_b RouteType.Connected node_b (Some 100)] RoutingDaemon_default"
  have "(\<exists>e \<in> set (entries (routes (fst ?run)) node_a). is_available (fst ?run) e) \<and>
      map_of (published (snd ?run)) node_a = None"
    by code_simp
  then show ?thesis
    by (metis prod.collapse)
qed



text \<open>Two neighbours with the same endpoint: when the first connection closes, the other one stays
  connected in the node list, but its route, its channel and the peer are gone.\<close>

theorem shared_endpoint_loses_route:
  assumes "u \<noteq> v"
  shows "let n = net_run E [CLRegisterNode u e mu a, CLRegisterNode v e mv b, CLUnregisterNode u (Some e)] net_init
    in (v, e) \<in> peers (node_agent n) \<and> direct (routing_agent n) = {} \<and> channels (conv_agent n) = {}
       \<and> known_peers (net_out n) = {}"
  using assms
  by (simp add: Let_def net_init_def to_node_def to_conv_def handle_CLRegisterNode_def
      handle_CLUnregisterNode_def handle_NotifyNodeConnected_def handle_NotifyNodeDisconnected_def
      vec_remove_def peers_def channels_def known_peers_def direct_def route_set_def entries_def
      handle_AddRoute_def handle_RemoveRoute_def RoutingDaemon_default_def RouteEntry_eq_def
      send_route_update_def)

theorem shared_endpoint_loses_route_witness:
  "let n = net_run example_net [CLRegisterNode ''x'' node_b 10 1, CLRegisterNode ''y'' node_b 20 2,
      CLUnregisterNode ''x'' (Some node_b)] net_init
   in (''y'', node_b) \<in> peers (node_agent n) \<and> direct (routing_agent n) = {} \<and> channels (conv_agent n) = {}
      \<and> known_peers (net_out n) = {}"
  by (rule shared_endpoint_loses_route) simp

text \<open>A node that lost its connection cannot be removed: the TCPCL server still has the session of
  the lost connection and tells it to shut down, nobody reports the node as disconnected, and neither
  adding the node again nor the periodic reconnect changes it.\<close>

theorem removed_node_stuck:
  assumes "env_scheme E u = ''tcpcl''" and "env_connects E u"
  shows "nodes (node_agent (net_run E [AddNode u, CLRegisterNode u e mx a, CLUnregisterNode u (Some e),
      RemoveNode u, AddNode u, TryConnect] net_init)) =
    [\<lparr>url = u, connection_status = Disconnecting, remote_endpoint = None, temporary = True\<rparr>]"
  using assms
  by (simp add: Let_def net_init_def to_node_def to_conv_def handle_AddNode_def handle_RemoveNode_def
      handle_TryConnect_def handle_CLRegisterNode_def handle_CLUnregisterNode_def
      handle_NotifyNodeConnected_def handle_NotifyNodeDisconnected_def handle_AgentConnectNode_def
      handle_AgentDisconnectNode_def handle_ConnectRemote_def handle_DisconnectRemote_def
      start_session_def reconnects_def Node_eq_def new_node_def case_prod_unfold)

theorem removed_node_stuck_witness:
  "nodes (node_agent (net_run example_net [AddNode ''tcpcl://h'', CLRegisterNode ''tcpcl://h'' node_b 10 1,
      CLUnregisterNode ''tcpcl://h'' (Some node_b), RemoveNode ''tcpcl://h'', AddNode ''tcpcl://h'', TryConnect] net_init)) =
    [\<lparr>url = ''tcpcl://h'', connection_status = Disconnecting, remote_endpoint = None, temporary = True\<rparr>]"
  by (rule removed_node_stuck) (simp_all add: example_net_def)

section \<open>Storage\<close>

definition example_files :: storage_env where
  "example_files = \<lparr>s_enc = encode, s_dec = from_slice_cbor, s_writable = (\<lambda>_. True), s_removable = (\<lambda>_. True)\<rparr>"

lemma example_files_codec: "serde_cbor (s_enc example_files) (s_dec example_files)"
  by (simp add: example_files_def rfc8949.serde_cbor_axioms)

text \<open>C24. New bundles can be told apart: as long as the clock does not go back, the storage agent takes
  every sequence of well-formed whole bundles of this node and gives each one a pair of creation time
  and sequence number of its own.\<close>

theorem new_bundles_distinct:
  assumes "serde_cbor (s_enc E) (s_dec E)" and "list_all (new_bundle_ok E e) bs"
    and "sorted (map bundle_time bs)" and "length bs < 2 ^ 64"
  shows "\<exists>d' es. store_new_all E (map (\<lambda>b. s_enc E (bundle_cbor (s_enc E) b)) bs) (storage_empty e)
      = (Ok (d', es) :: (_, unit) result)
    \<and> map (\<lambda>r. fst (stamp r)) es = map bundle_time bs \<and> distinct (map stamp es)"
  using store_new_all_stamps [OF assms(1), of "storage_empty e" e bs] assms
  by (auto simp: storage_empty_def)

theorem new_bundles_distinct_witness:
  "\<exists>d' es. store_new_all example_files (map (\<lambda>b. s_enc example_files (bundle_cbor (s_enc example_files) b))
      [example_bundle, example_large]) (storage_empty (DTN \<lparr>uri = ''//node1''\<rparr>)) = (Ok (d', es) :: (_, unit) result)
    \<and> map (\<lambda>r. fst (stamp r)) es = [1000, 1000] \<and> distinct (map stamp es)"
proof -
  have t: "map bundle_time [example_bundle, example_large] = [1000, 1000]"
    by code_simp
  have "bundle_wf encode example_large" "has_payload example_bundle" "has_payload example_large"
    "matches_node (source_node example_primary) (DTN \<lparr>uri = ''//node1''\<rparr>) = (Ok True :: (bool, unit) result)"
    by code_simp+
  then have ok: "list_all (new_bundle_ok example_files (DTN \<lparr>uri = ''//node1''\<rparr>)) [example_bundle, example_large]"
    using example_bundle_wf by (simp add: new_bundle_ok_def example_files_def example_bundle_def example_large_def
        example_primary_def)
  have "sorted (map bundle_time [example_bundle, example_large])" "length [example_bundle, example_large] < 2 ^ 64"
    by (simp_all only: t) simp_all
  from new_bundles_distinct [OF example_files_codec ok this] show ?thesis
    by (simp only: t)
qed





text \<open>C26. Reassembly in the store: when the fragments of a bundle that are in the store cover its payload
  they are replaced by the whole bundle, which is announced as valid and on disk unless its file has
  the name of a fragment; otherwise the store and the disk hold the same bundles as before.\<close>

theorem defragment_store:
  assumes codec: "serde_cbor (s_enc E) (s_dec E)" and parse: "list_all (readable E) (bundles d)"
    and F: "F = filter (belongs (content_of E) r) (bundles d)" "F \<noteq> []"
    and ok: "list_all (\<lambda>sb. fragment_ok h xs (content_of E sb)) F" "header_ok h xs"
    and whole: "whole = reassembled (hd (sort_key offset_key (map (content_of E) F))) xs" "bundle_wf (s_enc E) whole"
    and sb': "sb' = (stored E (next_arc d) whole)\<lparr>sb_state := Valid\<rparr>"
  shows "\<exists>d' es. try_defragment_bundle E r d = (Ok (d', es) :: (_, unit) result) \<and>
    (if covers (map (\<lambda>sb. bundle_slice (content_of E sb)) F) (length xs)
     then bundles d' = filter (\<lambda>sb. \<not> belongs (content_of E) r sb) (bundles d) @ [sb'] \<and> es = [get_ref sb'] \<and>
       (s_writable E (get_filename sb') \<and> get_filename sb' \<notin> get_filename ` set F \<longrightarrow>
        map_of (files d') (get_filename sb') = Some (s_enc E (bundle_cbor (s_enc E) whole)))
     else mset (bundles d') = mset (bundles d) \<and> files d' = files d \<and> es = [])"
proof -
  have p: "get_bundle (s_dec E) sb = (Ok (content_of E sb) :: (_, unit) result)" if "sb \<in> set (bundles d)" for sb
    using parse that by (auto simp: list_all_iff intro: get_bundle_content)
  have o: "fragment_ok h xs (content_of E sb)" if "sb \<in> set F" for sb
    using ok(1) that by (simp add: list_all_iff)
  note step = try_defragment_step [OF codec p F o ok(2) whole sb']
  show ?thesis
  proof (cases "covers (map (\<lambda>sb. bundle_slice (content_of E sb)) F) (length xs)")
    case True
    then show ?thesis
      using step by (auto simp: comp_def fold_delete_frame write_bundle_to_file_def map_of_update sb')
  next
    case False
    have "mset (filter (\<lambda>sb. \<not> belongs (content_of E) r sb) (bundles d) @ F) = mset (bundles d)"
      by (simp add: F(1) add.commute multiset_partition [symmetric])
    then show ?thesis
      using step False by (simp add: comp_def)
  qed
qed

definition example_fragments :: "Bundle list \<Rightarrow> StorageDaemon" where
  "example_fragments bs = (storage_empty node_a)\<lparr>next_arc := length bs, bundles := map (stored example_files 0) bs\<rparr>"

lemma example_content:
  assumes "list_all (bundle_wf encode) bs"
  shows "list_all (readable example_files) (map (stored example_files 0) bs)"
    and "map (content_of example_files) (map (stored example_files 0) bs) = bs"
  using assms wf_try_from [OF rfc8949.serde_cbor_axioms]
  by (induction bs) (simp_all add: readable_def content_of_def example_files_def)

lemma filter_belongs:
  assumes "map f sbs = bs" "list_all (\<lambda>b. equals_ignoring_fragment_info (primary_block b) (ref_primary_block r)) bs"
  shows "filter (belongs f r) sbs = sbs" "filter (\<lambda>sb. \<not> belongs f r sb) sbs = []"
  using assms by (auto simp: belongs_def list_all_iff filter_id_conv filter_empty_conv)

theorem defragment_store_witness:
  "\<exists>d' es. try_defragment_bundle example_files (get_ref (stored example_files 0 (example_piece 0 5))) (example_fragments example_complete)
      = (Ok (d', es) :: (_, unit) result)
    \<and> map sb_data (bundles d')
      = [encode (bundle_cbor encode \<lparr>primary_block = example_primary, blocks = [example_payload example_ten]\<rparr>)]"
proof -
  let ?r = "get_ref (stored example_files 0 (example_piece 0 5))"
  let ?sbs = "map (stored example_files 0) example_complete"
  let ?whole = "\<lparr>primary_block = example_primary, blocks = [example_payload example_ten]\<rparr>"
  have wf: "list_all (bundle_wf encode) example_complete" "bundle_wf encode ?whole"
    and eq: "list_all (\<lambda>b. equals_ignoring_fragment_info (primary_block b) (primary_block (example_piece 0 5))) example_complete"
    by code_simp+
  have re: "reassembled (example_piece 0 5) example_ten = ?whole"
    by code_simp
  note c = example_content [OF wf(1)]
  have f: "filter (belongs (content_of example_files) ?r) ?sbs = ?sbs"
    "filter (\<lambda>sb. \<not> belongs (content_of example_files) ?r sb) ?sbs = []"
    using filter_belongs [OF c(2), of ?r] eq by simp_all
  have sl: "map (\<lambda>sb. bundle_slice (content_of example_files sb)) ?sbs = map bundle_slice example_complete"
    using arg_cong [OF c(2), of "map bundle_slice"] by (simp add: comp_def)
  have frag: "list_all (\<lambda>sb. fragment_ok example_piece_header example_ten (content_of example_files sb)) ?sbs"
    using example_pieces_ok(4) c(2) by (metis (mono_tags, lifting) list.pred_map list.pred_set map_map comp_apply list_all_iff)
  let ?d = "example_fragments example_complete"
  have b: "bundles ?d = ?sbs"
    by (simp add: example_fragments_def)
  have w: "?whole = reassembled (hd (sort_key offset_key (map (content_of example_files) ?sbs))) example_ten"
    by (simp only: c(2) example_pieces_sorted(2) list.sel re)
  have "covers (map (\<lambda>sb. bundle_slice (content_of example_files sb)) ?sbs) (length example_ten)"
    using example_pieces_covers(2) by (simp only: sl)
  moreover have "\<exists>d' es. try_defragment_bundle example_files ?r ?d = (Ok (d', es) :: (_, unit) result) \<and>
      (if covers (map (\<lambda>sb. bundle_slice (content_of example_files sb)) ?sbs) (length example_ten)
       then bundles d' = [] @ [(stored example_files (next_arc ?d) ?whole)\<lparr>sb_state := Valid\<rparr>] else True)"
    using defragment_store [OF example_files_codec, of ?d ?sbs ?r, unfolded b f, OF c(1) refl _ frag example_pieces_ok(5) w _ refl]
      example_pieces_ok(2) wf(2) by (auto simp: example_files_def split: if_splits)
  ultimately have "\<exists>d' es. try_defragment_bundle example_files ?r ?d = (Ok (d', es) :: (_, unit) result)
      \<and> bundles d' = [(stored example_files (next_arc ?d) ?whole)\<lparr>sb_state := Valid\<rparr>]"
    by simp
  then show ?thesis
    by (auto simp: example_files_def)
qed

end
