(* ===== verification/Dtrd_Node_Results.thy ===== *)
theory Dtrd_Node_Results
  imports Dtrd_Results
begin

text \<open>
  The properties of the bundle protocol agent, alone and together with the storage agent.
\<close>

section \<open>Forwarding\<close>


definition example_ref :: "nat \<Rightarrow> u64 \<Rightarrow> StoredBundleRef" where
  "example_ref i sz =
     \<lparr>ref_arc = i, ref_state = ForwardingQueued, ref_size = sz, ref_payload_size = 5, ref_min_size = None,
      ref_primary_block = example_primary\<lparr>creation_timestamp := \<lparr>creation_time = 1000, sequence_number = of_nat i\<rparr>\<rparr>\<rparr>"

definition example_bpa :: BpaDaemon where
  "example_bpa =
     \<lparr>bpa_endpoint = Some node_a, bundles_pending_local_delivery = [], bundles_pending_forwarding = [],
      local_bundles = [], remote_bundles = [(node_c, [example_ref 1 50, example_ref 2 500, example_ref 3 60])],
      local_connections = [], remote_connections = [(node_b, 7)],
      remote_routes = [(node_c, \<lparr>nh_next_hop = node_b, nh_max_size = None\<rparr>),
                       (node_b, \<lparr>nh_next_hop = node_b, nh_max_size = Some 100\<rparr>)]\<rparr>"

definition example_sends :: "send_result \<Rightarrow> bpa_env" where
  "example_sends r =
     \<lparr>b_enc = encode, b_dec = from_slice_cbor, b_upgrade = (\<lambda>_. None), b_clock = 946684801000,
      b_clock_later = 946684801000, b_try_send = (\<lambda>_ _ _. r)\<rparr>"


text \<open>A peer whose mailbox is closed stays connected: the agent removes the connection of the
  destination, not the one of the next hop that it used, so the closed channel is tried again in
  the next round. The bundle goes to the end of the queue.\<close>

theorem closed_peer_kept:
  assumes "get_node_endpoint dst = (Ok nd :: (_, unit) result)" and "map_of (remote_routes d) nd = Some route"
    and "nh_next_hop route \<noteq> nd" and "link_to d nd = Some (a, mx)"
    and "map_of (remote_bundles d) nd = Some (b # q)" and "\<not> too_large mx b" and "b_try_send E out a b = Closed"
  shows "\<exists>d'. deliver_remote_bundles E dst (d, out) = (Ok (d', out) :: (_, unit) result) \<and>
    map_of (remote_connections d') (nh_next_hop route) = Some a \<and> link_to d' nd = Some (a, mx) \<and>
    queue_of (remote_bundles d') nd = q @ [b]"
proof -
  have conn: "map_of (remote_connections d) (nh_next_hop route) = Some a"
    using assms(2,4) by (auto simp: link_to_def split: option.splits if_splits)
  show ?thesis
    using assms conn
    by (simp add: deliver_remote_link [OF assms(1)] link_to_def delete_conv' queue_of_update
        split: option.splits if_splits)
qed

theorem closed_peer_kept_witness:
  "\<exists>d'. deliver_remote_bundles (example_sends Closed) node_c (example_bpa, []) = (Ok (d', []) :: (_, unit) result) \<and>
    map_of (remote_connections d') node_b = Some 7"
proof -
  have nd: "get_node_endpoint node_c = (Ok node_c :: (_, unit) result)" "link_to example_bpa node_c = Some (7, Some 100)"
    "map_of (remote_routes example_bpa) node_c = Some \<lparr>nh_next_hop = node_b, nh_max_size = None\<rparr>"
    "map_of (remote_bundles example_bpa) node_c = Some [example_ref 1 50, example_ref 2 500, example_ref 3 60]"
    "\<not> too_large (Some 100) (example_ref 1 50)" "node_b \<noteq> node_c"
    by code_simp+
  show ?thesis
    using closed_peer_kept [OF nd(1,3) _ nd(2,4,5), of "example_sends Closed" "[]"] nd(6)
    by (auto simp: example_sends_def)
qed

text \<open>A peer that names a service as its endpoint stops the agent.\<close>

lemma peer_service_panics:
  assumes "get_node_endpoint e = (Ok nd :: (_, unit) result)" "nd \<noteq> e"
  shows "handle_EventPeerConnected E e a s = (Panic :: (_, unit) result)"
    "handle_EventPeerDisconnected e s = (Panic :: (_, unit) result)"
  using assms by (simp_all add: handle_EventPeerConnected_def handle_EventPeerDisconnected_def assert_then_def
      case_prod_unfold)

section \<open>The way of a bundle\<close>

text \<open>C28. A bundle for a connected client of this node reaches it: the storage agent and the bundle
  protocol agent exchange six messages, after which the client has been sent exactly the received
  bytes and nothing is under way. When the client confirms, and no delivery report was asked for, the
  bundle is gone from the store and its file from the disk.\<close>

theorem received_delivered:
  assumes codec: "serde_cbor (s_enc (n_files E)) (s_dec (n_files E))" and rcv: "receivable E n me b"
    and whole: "fragment_offset (primary_block b) = None"
    and mine: "matches_node me (destination_endpoint (primary_block b)) = (Ok True :: (bool, unit) result)"
    and client: "map_of (local_connections (n_bpa n)) (destination_endpoint (primary_block b)) = Some a"
      "queue_of (local_bundles (n_bpa n)) (destination_endpoint (primary_block b)) = []"
    and r: "r = get_ref (received_as E n b DeliveryQueued)" and sent: "n_try_send E (n_sent n) a r = Sent"
    and quiet: "\<not> contains (bundle_processing_flags (primary_block b)) BUNDLE_DELIVERY_STATUS_REQUESTED"
  shows "\<exists>n1 n2. node_run E 6 [StorageMsg (StoreReceivedBundle (bundle_bytes E b))] n = (Ok (n1, []) :: (_, unit) result) \<and>
    n_sent n1 = n_sent n @ [ClientDeliverBundle a r] \<and>
    upgrade_in (bundles (n_storage n1)) (ref_arc r) = Some (bundle_bytes E b) \<and>
    node_run E 2 [BpaMsg (EventBundleDelivered (destination_endpoint (primary_block b)) r)] n1 = (Ok (n2, []) :: (_, unit) result) \<and>
    bundles (n_storage n2) = bundles (n_storage n) \<and>
    (s_removable (n_files E) (get_filename (received_as E n b Received)) \<longrightarrow>
       map_of (files (n_storage n2)) (get_filename (received_as E n b Received)) = None)"
proof -
  let ?sb = "received_as E n b DeliveryQueued" and ?dst = "destination_endpoint (primary_block b)"
  obtain d where run: "node_run E 6 [StorageMsg (StoreReceivedBundle (bundle_bytes E b))] n =
      (Ok ((after_receipt E n b DeliveryQueued)\<lparr>n_bpa := d, n_sent := n_sent n @ [ClientDeliverBundle a r]\<rparr>, []) :: (_, unit) result)"
    and empty: "queue_of (local_bundles d) ?dst = []"
    using run_delivered [OF codec rcv whole mine client r sent] by blast
  define n1 where "n1 = (after_receipt E n b DeliveryQueued)\<lparr>n_bpa := d, n_sent := n_sent n @ [ClientDeliverBundle a r]\<rparr>"
  have b1: "bundles (n_storage n1) = bundles (n_storage n) @ [?sb]" "n_bpa n1 = d" "n_sent n1 = n_sent n @ [ClientDeliverBundle a r]"
    by (simp_all add: n1_def)
  have unk: "list_all (\<lambda>x. sb_primary_block x \<noteq> sb_primary_block ?sb) (bundles (n_storage n))"
    using rcv by (simp add: receivable_def unknown_def)
  obtain n2 d2 where conf: "node_run E 2 [BpaMsg (EventBundleDelivered ?dst r)] n1 = (Ok (n2, []) :: (_, unit) result)"
    and n2: "n2 = n1\<lparr>n_storage := delete_bundle_file (n_files E) ?sb ((n_storage n1)\<lparr>bundles := bundles (n_storage n)\<rparr>), n_bpa := d2\<rparr>"
    using run_confirmed [OF b1(1) unk, of r ?dst E] quiet empty by (auto simp: r b1(2))
  have name: "get_filename ?sb = get_filename (received_as E n b Received)"
    by (simp add: received_as_def)
  have "bundles (n_storage n2) = bundles (n_storage n) \<and> (s_removable (n_files E) (get_filename (received_as E n b Received)) \<longrightarrow>
       map_of (files (n_storage n2)) (get_filename (received_as E n b Received)) = None)"
    by (simp add: n2 delete_bundle_file_def delete_conv' name)
  moreover have "upgrade_in (bundles (n_storage n1)) (ref_arc r) = Some (bundle_bytes E b)"
    using upgrade_received [OF rcv] by (simp add: b1(1) r)
  ultimately show ?thesis
    using run conf b1(3) unfolding n1_def [symmetric] by blast
qed

definition example_dtn_node :: "Endpoint \<Rightarrow> dtn_node" where
  "example_dtn_node me =
     \<lparr>n_storage = storage_empty me,
      n_bpa = example_bpa\<lparr>bpa_endpoint := Some me, remote_bundles := [],
        local_connections := [(DTN \<lparr>uri = ''//node2/in''\<rparr>, 3)],
        remote_routes := [(DTN \<lparr>uri = ''//node2''\<rparr>, \<lparr>nh_next_hop = node_b, nh_max_size = None\<rparr>),
                       (node_b, \<lparr>nh_next_hop = node_b, nh_max_size = Some 500\<rparr>)]\<rparr>,
      n_sent = []\<rparr>"

definition example_node_env :: node_env where
  "example_node_env = \<lparr>n_files = example_files, n_clock = 946684801000, n_clock_later = 946684801000,
     n_try_send = (\<lambda>_ _ _. Sent)\<rparr>"

lemma example_node_codec:
  "serde_cbor (s_enc (n_files example_node_env)) (s_dec (n_files example_node_env))"
  using example_files_codec by (simp add: example_node_env_def)

lemma example_bundle_primary:
  "primary_block example_bundle = example_primary" "fragment_offset example_primary = None"
  "destination_endpoint example_primary = DTN \<lparr>uri = ''//node2/in''\<rparr>"
  by (simp_all add: example_bundle_def example_primary_def)

lemma example_node_facts:
  "bundle_wf encode example_bundle" "has_payload example_bundle"
  "matches_node (DTN \<lparr>uri = ''//node2''\<rparr>) (destination_endpoint example_primary) = (Ok True :: (bool, unit) result)"
  "matches_node node_a (destination_endpoint example_primary) = (Ok False :: (bool, unit) result)"
  "matches_node node_a (source_node example_primary) = (Ok False :: (bool, unit) result)"
  "\<not> contains (bundle_processing_flags example_primary) BUNDLE_RECEIPTION_STATUS_REQUESTED"
  "\<not> contains (bundle_processing_flags example_primary) BUNDLE_DELIVERY_STATUS_REQUESTED"
  by code_simp+

lemma example_receivable:
  assumes "me = DTN \<lparr>uri = ''//node2''\<rparr> \<or> me = node_a"
  shows "receivable example_node_env (example_dtn_node me) me example_bundle"
proof -
  have "matches_node (source_node example_primary) me = (Ok False :: (bool, unit) result)"
    using assms by (elim disjE) (simp only:, code_simp)+
  then show ?thesis
    using example_node_facts
    by (auto simp: receivable_def example_node_env_def example_files_def example_dtn_node_def storage_empty_def
        unknown_def arcs_ok_def example_bundle_primary intro: exI [of _ False])
qed

theorem received_delivered_witness:
  "\<exists>n1 r. node_run example_node_env 6 [StorageMsg (StoreReceivedBundle (encode (bundle_cbor encode example_bundle)))]
      (example_dtn_node (DTN \<lparr>uri = ''//node2''\<rparr>)) = (Ok (n1, []) :: (_, unit) result) \<and>
    n_sent n1 = [ClientDeliverBundle 3 r] \<and>
    upgrade_in (bundles (n_storage n1)) (ref_arc r) = Some (encode (bundle_cbor encode example_bundle))"
proof -
  let ?me = "DTN \<lparr>uri = ''//node2''\<rparr>"
  have "map_of (local_connections (n_bpa (example_dtn_node ?me))) (destination_endpoint example_primary) = Some 3"
    "queue_of (local_bundles (n_bpa (example_dtn_node ?me))) (destination_endpoint example_primary) = []"
    by (simp_all add: example_bundle_primary example_dtn_node_def example_bpa_def queue_of_def)
  then show ?thesis
    using received_delivered [OF example_node_codec example_receivable, of ?me 3] example_node_facts(3,7)
    by (auto simp: example_bundle_primary(1,2) example_dtn_node_def example_node_env_def
        example_files_def bundle_bytes_def)
qed

text \<open>C29. A bundle for another node goes to the next hop: after six messages the peer has been sent the
  received bundle with this node as previous node, unless this node is its source, and with its hop
  count one higher, and the bundle waits for the confirmation. A bundle that is over its hop limit is
  dropped after five messages and its file is removed.\<close>

theorem received_forwarded:
  assumes codec: "serde_cbor (s_enc (n_files E)) (s_dec (n_files E))" and rcv: "receivable E n me b"
    and other: "matches_node me (destination_endpoint (primary_block b)) = (Ok False :: (bool, unit) result)"
    and own: "matches_node me (source_node (primary_block b)) = (Ok own :: (bool, unit) result)"
    and hop: "next_hop_bundle me own b = (b', accepted)"
    and nd: "get_node_endpoint (destination_endpoint (primary_block b)) = (Ok nd :: (_, unit) result)"
    and link: "link_to (n_bpa n) nd = Some (a, mx)" "queue_of (remote_bundles (n_bpa n)) nd = []"
    and r: "r = get_ref (forwarded_as E n b (bundle_bytes E b'))" "\<not> too_large mx r" "n_try_send E (n_sent n) a r = Sent"
    and quiet: "\<not> contains (bundle_processing_flags (primary_block b)) BUNDLE_DELETION_STATUS_REQUESTED"
  shows "\<exists>n'. node_run E (if accepted then 6 else 5) [StorageMsg (StoreReceivedBundle (bundle_bytes E b))] n
      = (Ok (n', []) :: (_, unit) result) \<and>
    (if accepted
     then n_sent n' = n_sent n @ [AgentForwardBundle a r] \<and>
       upgrade_in (bundles (n_storage n')) (ref_arc r) = Some (bundle_bytes E b') \<and>
       queue_of (remote_bundles (n_bpa n')) nd = [] \<and>
       queue_of (bundles_pending_forwarding (n_bpa n')) nd = queue_of (bundles_pending_forwarding (n_bpa n)) nd @ [r]
     else n_sent n' = n_sent n \<and> bundles (n_storage n') = bundles (n_storage n) \<and>
       (s_removable (n_files E) (get_filename (received_as E n b Received)) \<longrightarrow>
          map_of (files (n_storage n')) (get_filename (received_as E n b Received)) = None))"
proof (cases accepted)
  case True
  then show ?thesis
    using run_forwarded [OF codec rcv other own _ refl nd link] r hop by auto
next
  case False
  then show ?thesis
    using run_hop_limit [OF codec rcv other own _ quiet, where 'e = unit] hop by auto
qed

text \<open>The example has a hop count of 3 and no previous node.\<close>

definition example_next_hop :: Bundle where
  "example_next_hop = fst (next_hop_bundle node_a False example_bundle)"

lemma example_next_hop:
  "next_hop_bundle node_a False example_bundle = (example_next_hop, True)"
  "map block (blocks example_next_hop)
    = [HopCount \<lparr>limit = 32, hop_count = 4\<rparr>, Payload \<lparr>data = [1, 2, 3, 4, 5]\<rparr>, PreviousNode \<lparr>previous_node = node_a\<rparr>]"
  by code_simp+

theorem received_forwarded_witness:
  "\<exists>n1 r. node_run example_node_env 6 [StorageMsg (StoreReceivedBundle (encode (bundle_cbor encode example_bundle)))]
      (example_dtn_node node_a) = (Ok (n1, []) :: (_, unit) result) \<and>
    n_sent n1 = [AgentForwardBundle 7 r] \<and>
    upgrade_in (bundles (n_storage n1)) (ref_arc r) = Some (encode (bundle_cbor encode example_next_hop))"
proof -
  let ?n = "example_dtn_node node_a" and ?nd = "DTN \<lparr>uri = ''//node2''\<rparr>"
  have nd: "get_node_endpoint (destination_endpoint example_primary) = (Ok ?nd :: (_, unit) result)"
    and quiet: "\<not> contains (bundle_processing_flags example_primary) BUNDLE_DELETION_STATUS_REQUESTED"
    by code_simp+
  have link: "link_to (n_bpa ?n) ?nd = Some (7, Some 500)" "queue_of (remote_bundles (n_bpa ?n)) ?nd = []"
    by (simp_all add: link_to_def queue_of_def example_dtn_node_def example_bpa_def min_max_size_def node_b_def)
  have "\<not> (500 :: u64) < of_nat (length (encode (bundle_cbor encode example_bundle)))"
    by code_simp
  then have "\<not> too_large (Some 500) (get_ref (forwarded_as example_node_env ?n example_bundle x))" for x
    by (simp add: too_large_def forwarded_as_def received_as_def stored_def example_node_env_def example_files_def)
  then show ?thesis
    using received_forwarded [OF example_node_codec example_receivable, of node_a False, unfolded example_bundle_primary(1),
        OF _ example_node_facts(4,5) example_next_hop(1) nd link refl] quiet
    by (auto simp: example_dtn_node_def example_node_env_def example_files_def bundle_bytes_def)
qed

end
