(* ===== verification/Dtrd_System_Results.thy ===== *)
theory Dtrd_System_Results
  imports Dtrd_System Dtrd_Node_Results Tcpcl_Results
begin

text \<open>
  The properties of the daemon as a whole: a bundle from client to client over two nodes, the start
  of a node that has bundles on disk, and clients that listen to the same endpoint.
\<close>

section \<open>From client to client\<close>

text \<open>C1. A payload that a client submits at one node reaches the client that listens at the other,
  over the client agent, the storage agent and the bundle protocol agent of the first node, the
  TCPCL session between them and the agents of the second node, whatever the order in which the
  session's writes, reads and acknowledgements interleave. The first node keeps the bundle until the
  session has confirmed the transfer, and then has the bundles it had before.\<close>

theorem client_to_client:
  assumes codec: "serde_cbor_sized enc dec" "s_enc (n_files A) = enc" "s_dec (n_files A) = dec"
      "s_enc (n_files B) = enc" "s_dec (n_files B) = dec"
    and clock: "now clock = (Ok t :: (_, unit) result)"
    and request: "Endpoint_new (req_destination req) = Some dst" "endpoint_wf dst" "length (req_payload req) < 2 ^ 64"
      "\<not> req_debug req"
    and sender: "sender_ready n c me dst nd a mx" "next_sequence_number t (n_storage n) = (d, k)"
      "\<And>r. n_try_send A (n_sent n) a r = Sent"
    and b0: "b0 = set_sequence_number k (client_bundle me t dst (req_payload req) (req_lifetime req) False)"
      "unknown (primary_block b0) (n_storage n)" "unknown (primary_block b0) (n_storage n')"
      "\<forall>m. mx = Some m \<longrightarrow> of_nat (length (enc (bundle_cbor enc b0))) \<le> m"
    and x: "x = enc (bundle_cbor enc (sent_bundle k me t dst (req_payload req) (req_lifetime req) False))" "length x < 2 ^ 63"
    and session: "send_listening agent" "could_send_transfer sm" "peer_sess_init sm = Some si" "0 < unat (segment_mru si)"
      "of_nat (length x) \<le> transfer_mru si" "is_established (statemachine s)" "receiving_transfer s = None" "\<And>m. w m = Ok ()"
    and receiver: "receiver_ready n' me' me dst a'" "\<And>r. n_try_send B (n_sent n') a' r = Sent"
  shows "\<exists>m n1 r sm' n2 n1' r'.
    submit_bundle enc clock None req c = (Ok (Inr [ClientToStorage m]) :: (_, unit) result) \<and>
    node_run A 6 [StorageMsg m] n = (Ok (n1, []) :: (_, unit) result) \<and>
    n_sent n1 = n_sent n @ [AgentForwardBundle a r] \<and>
    send_queue (handle_AgentForwardBundle (upgrade_in (bundles (n_storage n1))) r agent) = send_queue agent @ [(x, r)] \<and>
    send_transfer x sm = Ok (sm', Inr ()) \<and>
    (\<exists>l. (link_step w ^^ (4 * segment_count (unat (segment_mru si)) x))
      \<lparr>l_sender = sm', l_forward = [], l_receiver = s, l_backward = []\<rparr> l) \<and>
    (\<forall>l. (link_step w ^^ (4 * segment_count (unat (segment_mru si)) x))
      \<lparr>l_sender = sm', l_forward = [], l_receiver = s, l_backward = []\<rparr> l \<longrightarrow>
      (\<exists>tr. receive_channel (l_receiver l) = receive_channel s @ [tr] \<and>
        handle_Transfer tr = [SessionToStorage (StoreReceivedBundle x)]) \<and> could_send_transfer (l_sender l)) \<and>
    transfer_answer r (Some (Inr ())) = [SessionToBpa (EventBundleForwarded dst r)] \<and>
    node_run A 2 [BpaMsg (EventBundleForwarded dst r)] n1 = (Ok (n2, []) :: (_, unit) result) \<and>
    bundles (n_storage n2) = bundles (n_storage n) \<and>
    node_run B 6 [StorageMsg (StoreReceivedBundle x)] n' = (Ok (n1', []) :: (_, unit) result) \<and>
    n_sent n1' = n_sent n' @ [ClientDeliverBundle a' r'] \<and>
    poll_next dec (upgrade_in (bundles (n_storage n1'))) False [r'] =
      (Ok ([], Ready (Some \<lparr>lbr_source = fmt_Endpoint me, lbr_payload = req_payload req\<rparr>),
        [EventBundleDelivered dst r']) :: (_, unit) result)"
proof -
  let ?b = "sent_bundle k me t dst (req_payload req) (req_lifetime req) False"
  have cA: "serde_cbor_sized (s_enc (n_files A)) (s_dec (n_files A))"
    and cB: "serde_cbor_sized (s_enc (n_files B)) (s_dec (n_files B))"
    using codec by simp_all
  have xb: "bundle_bytes A ?b = x" "bundle_bytes B ?b = x"
    by (simp_all add: bundle_bytes_def codec x)
  have fits: "\<not> too_large mx r" if "ref_size r = of_nat (length (bundle_bytes A b0))" for r
    using b0(4) that by (auto simp: too_large_def bundle_bytes_def codec split: option.splits)
  note sends = client_sends [OF cA clock sender(1) request sender(2) b0(1) refl b0(2) fits sender(3), unfolded xb codec]
  have ok: "bundle_wf enc (client_bundle me t dst (req_payload req) (req_lifetime req) False)"
    using client_receivable(2) [OF cA sender(1) request(2,3) sender(2) b0(1,2)] by (simp add: new_bundle_ok_def codec)
  have wf: "bundle_wf (s_enc (n_files B)) ?b"
    using sent_bundle_wf [OF codec(1) ok] by (simp add: codec)
  have cok: "cbor_ok (bundle_cbor enc ?b)"
    using serde_type.ser_ok [OF bundle_serde, of enc dec] wf codec by (auto simp: serde_cbor_sized_def)
  have "x \<noteq> []"
    using serde_cbor_sized.length_to_vec [OF codec(1) cok] cbor_size_pos [of "bundle_cbor enc ?b"] by (auto simp: x(1))
  note carries = session_carries [where w = w, OF session(2-4) this x(2) session(5-8) refl]
  have un: "unknown (primary_block ?b) (n_storage n')"
    using b0(1,3) by simp
  note receives = client_receives [OF cB receiver(1) refl wf un receiver(2), unfolded xb codec]
  from sends obtain m n1 r n2 where sent:
    "submit_bundle enc clock None req c = (Ok (Inr [ClientToStorage m]) :: (_, unit) result)"
    "node_run A 6 [StorageMsg m] n = (Ok (n1, []) :: (_, unit) result)" "n_sent n1 = n_sent n @ [AgentForwardBundle a r]"
    and data: "upgrade_in (bundles (n_storage n1)) (ref_arc r) = Some x" "destination_endpoint (ref_primary_block r) = dst"
    and conf: "node_run A 2 [BpaMsg (EventBundleForwarded dst r)] n1 = (Ok (n2, []) :: (_, unit) result)"
      "bundles (n_storage n2) = bundles (n_storage n)"
    by blast
  have q: "send_queue (handle_AgentForwardBundle (upgrade_in (bundles (n_storage n1))) r agent) = send_queue agent @ [(x, r)]"
    using session(1) data(1) by (simp add: handle_AgentForwardBundle_def)
  have ans: "transfer_answer r (Some (Inr ())) = [SessionToBpa (EventBundleForwarded dst r)]"
    using data(2) by (simp add: transfer_answer_def)
  from carries obtain sm' where sm': "send_transfer x sm = Ok (sm', Inr ())"
    and run: "\<exists>l. (link_step w ^^ (4 * segment_count (unat (segment_mru si)) x))
      \<lparr>l_sender = sm', l_forward = [], l_receiver = s, l_backward = []\<rparr> l"
    and recv: "\<forall>l. (link_step w ^^ (4 * segment_count (unat (segment_mru si)) x))
      \<lparr>l_sender = sm', l_forward = [], l_receiver = s, l_backward = []\<rparr> l \<longrightarrow> could_send_transfer (l_sender l) \<and>
      receive_channel (l_receiver l) = receive_channel s @ [\<lparr>transfer_id = last_used_transfer_id sm, transfer_data = x\<rparr>]"
    by blast
  have up: "\<forall>l. (link_step w ^^ (4 * segment_count (unat (segment_mru si)) x))
      \<lparr>l_sender = sm', l_forward = [], l_receiver = s, l_backward = []\<rparr> l \<longrightarrow>
      (\<exists>tr. receive_channel (l_receiver l) = receive_channel s @ [tr] \<and>
        handle_Transfer tr = [SessionToStorage (StoreReceivedBundle x)]) \<and> could_send_transfer (l_sender l)"
    using recv by (simp add: handle_Transfer_def)
  from receives obtain n1' r' where "node_run B 6 [StorageMsg (StoreReceivedBundle x)] n' = (Ok (n1', []) :: (_, unit) result)"
    "n_sent n1' = n_sent n' @ [ClientDeliverBundle a' r']"
    "poll_next dec (upgrade_in (bundles (n_storage n1'))) False [r'] =
      (Ok ([], Ready (Some \<lparr>lbr_source = fmt_Endpoint me, lbr_payload = req_payload req\<rparr>),
        [EventBundleDelivered dst r']) :: (_, unit) result)"
    by blast
  then show ?thesis
    by (intro exI [of _ m] exI [of _ n1] exI [of _ r] exI [of _ sm'] exI [of _ n2] exI [of _ n1'] exI [of _ r'])
      (intro conjI sent q sm' run up ans conf)
qed

definition example_request :: SubmitBundleRequest where
  "example_request = \<lparr>req_destination = ''dtn://node2/in'', req_payload = [1, 2, 3], req_lifetime = 3600, req_debug = False\<rparr>"

definition example_target :: Endpoint where
  "example_target = DTN \<lparr>uri = ''//node2/in''\<rparr>"

definition example_sent :: Bundle where
  "example_sent = sent_bundle 0 node_a 1000 example_target [1, 2, 3] 3600 False"

lemma example_route:
  "sender_ready (example_dtn_node node_a) \<lparr>connected_clients = [], client_endpoint = Some node_a\<rparr> node_a example_target
    (DTN \<lparr>uri = ''//node2''\<rparr>) 7 (Some 500)"
  "receiver_ready (example_dtn_node (DTN \<lparr>uri = ''//node2''\<rparr>)) (DTN \<lparr>uri = ''//node2''\<rparr>) node_a example_target 3"
  "next_sequence_number 1000 (n_storage (example_dtn_node node_a))
    = ((n_storage (example_dtn_node node_a))\<lparr>last_created_dtn_time := Some 1000\<rparr>, 0)"
  by code_simp+

theorem client_to_client_witness:
  "\<exists>n1 r n' r'. node_run example_node_env 6 [StorageMsg (StoreNewBundle (encode (bundle_cbor encode
        (client_bundle node_a 1000 example_target [1, 2, 3] 3600 False))))] (example_dtn_node node_a) = (Ok (n1, []) :: (_, unit) result) \<and>
    n_sent n1 = [AgentForwardBundle 7 r] \<and>
    node_run example_node_env 6 [StorageMsg (StoreReceivedBundle (encode (bundle_cbor encode example_sent)))]
      (example_dtn_node (DTN \<lparr>uri = ''//node2''\<rparr>)) = (Ok (n', []) :: (_, unit) result) \<and>
    poll_next from_slice_cbor (upgrade_in (bundles (n_storage n'))) False [r'] =
      (Ok ([], Ready (Some \<lparr>lbr_source = ''dtn://a'', lbr_payload = [1, 2, 3]\<rparr>), [EventBundleDelivered example_target r'])
        :: (_, unit) result)"
proof -
  let ?A = "example_dtn_node node_a" and ?B = "example_dtn_node (DTN \<lparr>uri = ''//node2''\<rparr>)"
  let ?b0 = "set_sequence_number 0 (client_bundle node_a 1000 example_target [1, 2, 3] 3600 False)"
  let ?c = "\<lparr>connected_clients = [], client_endpoint = Some node_a\<rparr>"
  let ?x = "encode (bundle_cbor encode example_sent)"
  have env: "n_files example_node_env = example_files" "s_enc example_files = encode" "s_dec example_files = from_slice_cbor"
    "n_try_send example_node_env out a r = Sent"
    "s_enc (n_files example_node_env) = encode" "s_dec (n_files example_node_env) = from_slice_cbor"
    "s_enc (n_files example_node_env) = encode" "s_dec (n_files example_node_env) = from_slice_cbor" for out a r
    by (simp_all add: example_node_env_def example_files_def)
  have req: "Endpoint_new (req_destination example_request) = Some example_target" "endpoint_wf example_target"
    "req_payload example_request = [1, 2, 3]" "req_lifetime example_request = 3600" "\<not> req_debug example_request"
    "now 946684801000 = (Ok 1000 :: (_, unit) result)"
    by code_simp+
  have size: "of_nat (length (encode (bundle_cbor encode ?b0))) \<le> (500 :: u64)" "length ?x < 500"
    by code_simp+
  have new: "unknown (primary_block ?b0) (n_storage ?A)" "unknown (primary_block ?b0) (n_storage ?B)" "n_sent ?A = []"
    by (simp_all add: unknown_def example_dtn_node_def storage_empty_def)
  have init: "could_send_transfer sample_sender" "peer_sess_init sample_sender = Some (SessInit_new ''dtn://b/'')"
    "is_established (statemachine sample_receiver)" "receiving_transfer sample_receiver = None"
    by (simp_all add: sample_sender_def sample_receiver_def established_with_def could_send_transfer_def
        is_established_def session_new_def initial_session_def)
  have mru: "unat (segment_mru (SessInit_new ''dtn://b/'')) = 102400" "500 < transfer_mru (SessInit_new ''dtn://b/'')"
    by (simp_all add: SessInit_new_def MAX_SEGMENT_MRU_def MAX_TRANSFER_MRU_def)
  have len: "of_nat (length ?x) \<le> transfer_mru (SessInit_new ''dtn://b/'')" "length ?x < 2 ^ 63"
    using mru(2) size(2) by (simp_all add: word_le_nat_alt word_less_nat_alt unat_of_nat)
  have submit: "submit_bundle encode 946684801000 None example_request ?c = (Ok (Inr [ClientToStorage (StoreNewBundle
      (encode (bundle_cbor encode (client_bundle node_a 1000 example_target [1, 2, 3] 3600 False))))]) :: (_, unit) result)"
    by code_simp
  have "fmt_Endpoint node_a = ''dtn://a''"
    by code_simp
  moreover have b0: "?b0 = set_sequence_number 0 (client_bundle node_a 1000 example_target (req_payload example_request)
      (req_lifetime example_request) False)" "\<forall>m. Some (500 :: u64) = Some m \<longrightarrow> of_nat (length (encode (bundle_cbor encode ?b0))) \<le> m"
    using size(1) by (simp_all add: req)
  moreover have x: "?x = encode (bundle_cbor encode (sent_bundle 0 node_a 1000 example_target (req_payload example_request)
      (req_lifetime example_request) False))" "length (req_payload example_request) < 2 ^ 64"
    "send_listening session_agent_new" "0 < unat (segment_mru (SessInit_new ''dtn://b/''))"
    by (simp_all add: req example_sent_def session_agent_new_def mru(1))
  note client_to_client [OF rfc8949.serde_cbor_sized_axioms env(5-8) req(6,1,2) x(2) req(5) example_route(1,3) env(4) b0(1)
      new(1,2) b0(2) x(1) len(2) x(3) init(1,2) x(4) len(1) init(3,4) good_writer_ok example_route(2) env(4)]
  ultimately show ?thesis
    using submit new(3) req(3) by fastforce
qed

section \<open>Starting with bundles on disk\<close>


lemma example_node_ids:
  "Endpoint_new ''dtn://node2'' = Some (DTN \<lparr>uri = ''//node2''\<rparr>)" "Endpoint_new ''dtn://a'' = Some node_a"
  by code_simp+


text \<open>A node that starts with a bundle to forward on disk loses its bundle protocol agent: the first
  message is about the copy of the agent that has ended, and its data is unwrapped.\<close>

theorem restart_forward_panics:
  assumes codec: "serde_cbor (s_enc (n_files E)) (s_dec (n_files E))"
    and b: "bundle_wf (s_enc (n_files E)) b" "has_payload b"
    and id: "Endpoint_new (my_node_id (from_env env)) = Some me"
    and other: "matches_node me (destination_endpoint (primary_block b)) = (Ok False :: (bool, unit) result)"
  shows "\<exists>c n ms. main_started E env [(get_filename (loaded E b Valid), bundle_bytes E b)] = (Ok (c, n, ms) :: (_, unit) result) \<and>
    node_run E 1 ms n = (Panic :: (_, unit) result)"
proof -
  have "node_handle E (BpaMsg (EventBundleUpdated ((get_ref (loaded E b Valid))\<lparr>ref_arc := 1\<rparr>))) (loaded_node E me b Valid) =
      (Panic :: (_, unit) result)"
    by (simp add: node_handle_def handle_EventBundleUpdated_def Let_def loaded_node_def bpa_empty_def
        matches_node_any [OF other] forward_bundle_def upgrade_in_def)
  then show ?thesis
    using main_started_one [OF codec b id, where 'e = unit] by simp
qed

theorem restart_forward_panics_witness:
  "\<exists>c n ms. main_started example_node_env (\<lambda>_. Some ''dtn://a'')
      [(get_filename (loaded example_node_env example_bundle Valid), bundle_bytes example_node_env example_bundle)]
      = (Ok (c, n, ms) :: (_, unit) result) \<and> node_run example_node_env 1 ms n = (Panic :: (_, unit) result)"
  using restart_forward_panics [OF example_node_codec _ example_node_facts(2), of "\<lambda>_. Some ''dtn://a''" node_a]
    example_node_facts(1,4) example_node_ids(2)
  by (simp add: example_bundle_primary from_env_fields) (simp add: example_node_env_def example_files_def)

section \<open>Clients that listen to the same endpoint\<close>

text \<open>Two clients listen to the same endpoint. When the first one goes, the actor of the second is
  stopped and the bundle protocol agent no longer knows anyone for the endpoint, although the second
  client is still there.\<close>

theorem second_listener_stopped:
  assumes "client_endpoint d = Some me" "matches_node me e = (Ok True :: (bool, unit) result)"
  shows "\<exists>d1 d2. handle_ClientListenConnect e a d = (Ok (d1, Inr (), [ClientToBpa (EventClientConnected e a)]) :: (_, unit) result) \<and>
    handle_ClientListenConnect e a' d1 = (Ok (d2, Inr (), [ClientToBpa (EventClientConnected e a')]) :: (_, unit) result) \<and>
    drop_transformer e d2 = (d2, [StopListenBundleResponseActor a', ClientToBpa (EventClientDisconnected e)]) \<and>
    (\<forall>B out. \<exists>B'. handle_EventClientDisconnected e (B, out) = (Ok (B', out) :: (_, unit) result) \<and>
       map_of (local_connections B') e = None)"
  using assms
  by (simp add: handle_ClientListenConnect_def drop_transformer_def handle_ClientListenDisconnect_def map_of_update
      handle_EventClientDisconnected_def delete_conv')

theorem second_listener_stopped_witness:
  "\<exists>d2. drop_transformer example_target d2 =
      (d2, [StopListenBundleResponseActor 6, ClientToBpa (EventClientDisconnected example_target)])"
  using second_listener_stopped [of "\<lparr>connected_clients = [], client_endpoint = Some (DTN \<lparr>uri = ''//node2''\<rparr>)\<rparr>"
      "DTN \<lparr>uri = ''//node2''\<rparr>" example_target 5 6] example_node_facts(3)
  by (auto simp: example_target_def example_bundle_primary)

end
