(* ===== verification/Client_Lib.thy ===== *)
theory Client_Lib
  imports Dtrd_Client
begin

text \<open>
  \<open>client/src\<close>: the library through which programs talk to \<open>dtrd\<close>. The generated gRPC clients, the channel
  and the daemon behind them are parameters: a call changes the state \<open>'s\<close> of what is behind the channel and
  returns a status of type \<open>'st\<close> or the answer. A stream of answers is the list of the items that arrive
  until the server ends it.
\<close>

section \<open>Errors\<close>

datatype ('t, 'st) client_Error =
    InvalidUrl
  | TransportError 't
  | GrpcError 'st
  | NoMessage

fun fmt_client_Error :: "('t \<Rightarrow> string) \<Rightarrow> ('st \<Rightarrow> string) \<Rightarrow> ('t, 'st) client_Error \<Rightarrow> string" where
  "fmt_client_Error show_t show_st InvalidUrl = ''Invalid URL''"
| "fmt_client_Error show_t show_st (TransportError e) = ''Error when communicating with dtrd: '' @ show_t e"
| "fmt_client_Error show_t show_st (GrpcError st) = ''Error when communicating with dtrd: '' @ show_st st"
| "fmt_client_Error show_t show_st NoMessage = ''No Message to be received''"

text \<open>The conversions that \<open>?\<close> applies to an invalid URL, a transport error and a status.\<close>

definition from_InvalidUri :: "'a \<Rightarrow> ('t, 'st) client_Error" where
  "from_InvalidUri e = InvalidUrl"

definition from_transport :: "'t \<Rightarrow> ('t, 'st) client_Error" where
  "from_transport e = TransportError e"

definition from_Status :: "'st \<Rightarrow> ('t, 'st) client_Error" where
  "from_Status e = GrpcError e"

section \<open>Generated code\<close>

type_synonym ('s, 'st, 'a) call = "'s \<Rightarrow> 's \<times> ('st + 'a)"

record ('s, 't, 'st, 'uri, 'u) grpc =
  Uri_from_str :: "string \<Rightarrow> 'u + 'uri"
  connect :: "'uri \<Rightarrow> 's \<Rightarrow> 's \<times> ('t + unit)"
  rpc_submit_bundle :: "SubmitBundleRequest \<Rightarrow> ('s, 'st, unit) call"
  rpc_listen_bundles :: "string \<Rightarrow> ('s, 'st, ('st + ListenBundleResponse) list) call"
  rpc_list_nodes :: "('s, 'st, admin_Node list) call"
  rpc_add_node :: "string \<Rightarrow> ('s, 'st, unit) call"
  rpc_remove_node :: "string \<Rightarrow> ('s, 'st, unit) call"
  rpc_list_routes :: "('s, 'st, admin_RouteStatus list) call"
  rpc_add_route :: "admin_Route option \<Rightarrow> ('s, 'st, unit) call"
  rpc_remove_route :: "admin_Route option \<Rightarrow> ('s, 'st, unit) call"

type_synonym ('s, 't, 'st, 'a) client_call = "'s \<Rightarrow> 's \<times> (('t, 'st) client_Error + 'a)"

text \<open>\<open>call(req).await?\<close> followed by the rest.\<close>

definition await_call :: "('s, 'st, 'a) call \<Rightarrow> ('a \<Rightarrow> ('t, 'st) client_Error + 'b) \<Rightarrow> ('s, 't, 'st, 'b) client_call" where
  "await_call c f s = (case c s of (s', Inl st) \<Rightarrow> (s', Inl (from_Status st)) | (s', Inr x) \<Rightarrow> (s', f x))"

section \<open>Client\<close>

text \<open>Both generated clients share the channel; a \<open>Client\<close> that was made is connected.\<close>

definition Client_new :: "('s, 't, 'st, 'uri, 'u) grpc \<Rightarrow> string \<Rightarrow> ('s, 't, 'st, unit) client_call" where
  "Client_new g u s =
     (case Uri_from_str g u of
        Inl e \<Rightarrow> (s, Inl (from_InvalidUri e))
      | Inr target \<Rightarrow> (case connect g target s of (s', Inl e) \<Rightarrow> (s', Inl (from_transport e)) | (s', Inr _) \<Rightarrow> (s', Inr ())))"

definition Client_submit_bundle ::
  "('s, 't, 'st, 'uri, 'u) grpc \<Rightarrow> string \<Rightarrow> u64 \<Rightarrow> bytes \<Rightarrow> bool \<Rightarrow> ('s, 't, 'st, unit) client_call" where
  "Client_submit_bundle g tgt life dat debug =
     await_call (rpc_submit_bundle g \<lparr>req_destination = tgt, req_payload = dat, req_lifetime = life, req_debug = debug\<rparr>)
       (\<lambda>_. Inr ())"

definition stream_item :: "'st + ListenBundleResponse \<Rightarrow> ('t, 'st) client_Error + bytes" where
  "stream_item r = (case r of Inr b \<Rightarrow> Inr (lbr_payload b) | Inl e \<Rightarrow> Inl (GrpcError e))"

definition Client_listen_bundles ::
  "('s, 't, 'st, 'uri, 'u) grpc \<Rightarrow> string \<Rightarrow> ('s, 't, 'st, (('t, 'st) client_Error + bytes) list) client_call" where
  "Client_listen_bundles g ep = await_call (rpc_listen_bundles g ep) (\<lambda>items. Inr (map stream_item items))"

definition Client_receive_bundle :: "('s, 't, 'st, 'uri, 'u) grpc \<Rightarrow> string \<Rightarrow> ('s, 't, 'st, bytes) client_call" where
  "Client_receive_bundle g ep =
     await_call (rpc_listen_bundles g ep) (\<lambda>items.
     case map stream_item (take 1 items) of [] \<Rightarrow> Inl NoMessage | item # _ \<Rightarrow> item)"

definition Client_list_nodes :: "('s, 't, 'st, 'uri, 'u) grpc \<Rightarrow> ('s, 't, 'st, admin_Node list) client_call" where
  "Client_list_nodes g = await_call (rpc_list_nodes g) Inr"

definition Client_add_node :: "('s, 't, 'st, 'uri, 'u) grpc \<Rightarrow> string \<Rightarrow> ('s, 't, 'st, unit) client_call" where
  "Client_add_node g u = await_call (rpc_add_node g u) (\<lambda>_. Inr ())"

definition Client_remove_node :: "('s, 't, 'st, 'uri, 'u) grpc \<Rightarrow> string \<Rightarrow> ('s, 't, 'st, unit) client_call" where
  "Client_remove_node g u = await_call (rpc_remove_node g u) (\<lambda>_. Inr ())"

definition Client_list_routes :: "('s, 't, 'st, 'uri, 'u) grpc \<Rightarrow> ('s, 't, 'st, admin_RouteStatus list) client_call" where
  "Client_list_routes g = await_call (rpc_list_routes g) Inr"

definition Client_add_route :: "('s, 't, 'st, 'uri, 'u) grpc \<Rightarrow> string \<Rightarrow> string \<Rightarrow> ('s, 't, 'st, unit) client_call" where
  "Client_add_route g tgt nh = await_call (rpc_add_route g (Some \<lparr>ar_target = tgt, ar_next_hop = nh\<rparr>)) (\<lambda>_. Inr ())"

definition Client_remove_route :: "('s, 't, 'st, 'uri, 'u) grpc \<Rightarrow> string \<Rightarrow> string \<Rightarrow> ('s, 't, 'st, unit) client_call" where
  "Client_remove_route g tgt nh = await_call (rpc_remove_route g (Some \<lparr>ar_target = tgt, ar_next_hop = nh\<rparr>)) (\<lambda>_. Inr ())"

lemmas client_defs = Client_submit_bundle_def Client_listen_bundles_def Client_receive_bundle_def Client_list_nodes_def
  Client_add_node_def Client_remove_node_def Client_list_routes_def Client_add_route_def Client_remove_route_def

end
