(* ===== verification/Cli.thy ===== *)
theory Cli
  imports Client_Lib
begin

text \<open>
  \<open>cli/src/main.rs\<close>: the command line client. \<open>clap\<close> turns the arguments into a value of \<open>Cli\<close>; a run is what it
  prints and writes, and the changed state behind the channel. The layout of tables, \<open>Debug\<close> texts and the
  lossy reading of bytes as text are left to the printer, so the printed things are kept as values.
\<close>

section \<open>Arguments\<close>

datatype OutputMode = Parse | Hex | Raw

datatype BundleCommands =
    Submit (sb_destination: string) (sb_lifetime: u64) (sb_data: "string option") (sb_data_file: "string option") (sb_debug: bool)
  | Listen string OutputMode
  | Receive string "string option"

datatype NodeCommands = NodeList | NodeAdd string | NodeRemove string

datatype RouteCommands = RouteList | RouteAdd string string | RouteRemove string string

datatype Commands =
    BundleCommand BundleCommands
  | NodeCommand NodeCommands
  | RouteCommand RouteCommands

record Cli =
  cli_url :: string
  cli_command :: Commands

text \<open>The default values of the arguments.\<close>

definition default_url :: string where
  "default_url = ''http://localhost:50051''"

definition default_lifetime :: u64 where
  "default_lifetime = 3600"

definition default_output_mode :: OutputMode where
  "default_output_mode = Parse"

section \<open>Output\<close>

datatype ErrorKind = InvalidValue | ArgumentConflict

datatype ('t, 'st) cli_event =
    Println string
  | PrintlnError string "('t, 'st) client_Error"
  | PrintlnRecord AdministrativeRecord
  | PrintlnLossy bytes
  | PrintlnHex bytes
  | WriteStdout bytes
  | WriteFile string bytes
  | PrintTable "string list list"
  | ExitConnect ErrorKind "('t, 'st) client_Error"
  | ExitReadFile ErrorKind string
  | Exit ErrorKind string

text \<open>What the system does: reading a file gives an error text or the bytes; writing can fail.\<close>

record cli_env =
  fs_read :: "string \<Rightarrow> string + bytes"
  fs_write_ok :: "string \<Rightarrow> bytes \<Rightarrow> bool"
  stdout_ok :: "bytes \<Rightarrow> bool"

type_synonym ('s, 't, 'st, 'e) cli_run = "'s \<Rightarrow> ('s \<times> ('t, 'st) cli_event list, 'e) result"

section \<open>Bundles\<close>

definition command_bundle_submit ::
  "('s, 't, 'st, 'uri, 'u) grpc \<Rightarrow> cli_env \<Rightarrow> string \<Rightarrow> u64 \<Rightarrow> string option \<Rightarrow> string option \<Rightarrow> bool \<Rightarrow> ('s, 't, 'st, 'e) cli_run" where
  "command_bundle_submit g C destination life dat data_file debug s =
     (if (dat = None) = (data_file = None)
      then Ok (s, [Exit ArgumentConflict ''Either data or data_file must be specified''])
      else
        let payload = (case dat of Some d \<Rightarrow> Inr (as_bytes d) | None \<Rightarrow> fs_read C (the data_file)) in
        case payload of
          Inl e \<Rightarrow> Ok (s, [ExitReadFile InvalidValue e])
        | Inr bs \<Rightarrow>
            (case Client_submit_bundle g destination life bs debug s of
               (s', Inr _) \<Rightarrow> Ok (s', [Println ''Bundle submitted successfully''])
             | (s', Inl e) \<Rightarrow> Ok (s', [PrintlnError ''Error submitting bundle: '' e])))"

definition write_stdout :: "cli_env \<Rightarrow> bytes \<Rightarrow> (('t, 'st) cli_event list, 'e) result" where
  "write_stdout C bs = (if stdout_ok C bs then Ok [WriteStdout bs] else Panic)"

definition listen_output ::
  "(bytes \<Rightarrow> cbor option) \<Rightarrow> cli_env \<Rightarrow> OutputMode \<Rightarrow> bytes \<Rightarrow> (('t, 'st) cli_event list, 'e) result" where
  "listen_output dec C mode bs =
     (case mode of
        Parse \<Rightarrow>
          (case AdministrativeRecord_try_from dec bs of
             Ok ar \<Rightarrow> Ok [PrintlnRecord ar] | Err _ \<Rightarrow> Ok [PrintlnLossy bs] | Panic \<Rightarrow> Panic)
      | Hex \<Rightarrow> Ok [PrintlnHex bs]
      | Raw \<Rightarrow> write_stdout C bs)"

fun listen_loop ::
  "(bytes \<Rightarrow> cbor option) \<Rightarrow> cli_env \<Rightarrow> OutputMode \<Rightarrow> (('t, 'st) client_Error + bytes) list \<Rightarrow> (('t, 'st) cli_event list, 'e) result" where
  "listen_loop dec C mode [] = Ok []"
| "listen_loop dec C mode (Inr bs # items) =
     and_then (listen_output dec C mode bs) (\<lambda>out.
     and_then (listen_loop dec C mode items) (\<lambda>outs. Ok (out @ outs)))"
| "listen_loop dec C mode (Inl e # items) = Ok [PrintlnError ''Error receiving bundle: '' e]"

definition command_bundle_listen ::
  "('s, 't, 'st, 'uri, 'u) grpc \<Rightarrow> (bytes \<Rightarrow> cbor option) \<Rightarrow> cli_env \<Rightarrow> string \<Rightarrow> OutputMode \<Rightarrow> ('s, 't, 'st, 'e) cli_run" where
  "command_bundle_listen g dec C ep mode s =
     (case Client_listen_bundles g ep s of
        (s', Inr items) \<Rightarrow>
          and_then (listen_loop dec C mode items) (\<lambda>outs.
          Ok (s', Println ''Now listening for bundles. Press CTRL+C to abort'' # outs @ [Println ''Server closed the connection'']))
      | (s', Inl e) \<Rightarrow> Ok (s', [PrintlnError ''Error listening for bundles: '' e]))"

definition command_bundle_receive ::
  "('s, 't, 'st, 'uri, 'u) grpc \<Rightarrow> cli_env \<Rightarrow> string \<Rightarrow> string option \<Rightarrow> ('s, 't, 'st, 'e) cli_run" where
  "command_bundle_receive g C ep file_arg s =
     (case Client_receive_bundle g ep s of
        (s', Inr bs) \<Rightarrow>
          (case file_arg of
             Some path \<Rightarrow> if fs_write_ok C path bs then Ok (s', [WriteFile path bs]) else Panic
           | None \<Rightarrow> and_then (write_stdout C bs) (\<lambda>out. Ok (s', out)))
      | (s', Inl e) \<Rightarrow> Ok (s', [PrintlnError ''Error receiving bundle: '' e]))"

section \<open>Nodes and routes\<close>

definition node_row :: "admin_Node \<Rightarrow> string list" where
  "node_row n = [an_url n, an_status n, an_endpoint n, if an_temporary n then ''temporary'' else '''']"

definition command_node_list :: "('s, 't, 'st, 'uri, 'u) grpc \<Rightarrow> ('s, 't, 'st, 'e) cli_run" where
  "command_node_list g s =
     (case Client_list_nodes g s of
        (s', Inr ns) \<Rightarrow> Ok (s', [PrintTable ([''URL'', ''Status'', ''Endpoint'', ''Temporary''] # map node_row ns)])
      | (s', Inl e) \<Rightarrow> Ok (s', [PrintlnError ''Error receiving node list: '' e]))"

text \<open>The commands that print nothing when they succeed. Removing reports an error as one of adding.\<close>

definition quiet_command :: "string \<Rightarrow> ('s, 't, 'st, unit) client_call \<Rightarrow> ('s, 't, 'st, 'e) cli_run" where
  "quiet_command msg c s = (case c s of (s', Inr _) \<Rightarrow> Ok (s', []) | (s', Inl e) \<Rightarrow> Ok (s', [PrintlnError msg e]))"

definition command_node_add :: "('s, 't, 'st, 'uri, 'u) grpc \<Rightarrow> string \<Rightarrow> ('s, 't, 'st, 'e) cli_run" where
  "command_node_add g u = quiet_command ''Error adding node: '' (Client_add_node g u)"

definition command_node_remove :: "('s, 't, 'st, 'uri, 'u) grpc \<Rightarrow> string \<Rightarrow> ('s, 't, 'st, 'e) cli_run" where
  "command_node_remove g u = quiet_command ''Error adding node: '' (Client_remove_node g u)"

text \<open>\<open>r#type()\<close>: an unknown number is the first type; \<open>as_str_name\<close>.\<close>

definition route_type_name :: "nat \<Rightarrow> string" where
  "route_type_name n = (if n = 1 then ''STATIC'' else ''CONNECTED'')"

definition show_bool :: "bool \<Rightarrow> string" where
  "show_bool b = (if b then ''true'' else ''false'')"

definition route_row :: "admin_RouteStatus \<Rightarrow> (string list, 'e) result" where
  "route_row r =
     and_then (unwrap (as_route r)) (\<lambda>route.
     Ok [ar_target route, ar_next_hop route, route_type_name (as_type r), show_bool (as_preferred r),
         show_bool (as_available r), show_u64 (as_max_bundle_size r)])"

fun route_rows :: "admin_RouteStatus list \<Rightarrow> (string list list, 'e) result" where
  "route_rows [] = Ok []"
| "route_rows (r # rs) = and_then (route_row r) (\<lambda>x. and_then (route_rows rs) (\<lambda>xs. Ok (x # xs)))"

definition route_header :: "string list" where
  "route_header = [''Target'', ''Nexthop'', ''Status'', ''Prefrered'', ''Available'', ''Bundle size limit'']"

definition command_route_list :: "('s, 't, 'st, 'uri, 'u) grpc \<Rightarrow> ('s, 't, 'st, 'e) cli_run" where
  "command_route_list g s =
     (case Client_list_routes g s of
        (s', Inr rs) \<Rightarrow> and_then (route_rows rs) (\<lambda>rows. Ok (s', [PrintTable (route_header # rows)]))
      | (s', Inl e) \<Rightarrow> Ok (s', [PrintlnError ''Error receiving route list: '' e]))"

definition command_route_add :: "('s, 't, 'st, 'uri, 'u) grpc \<Rightarrow> string \<Rightarrow> string \<Rightarrow> ('s, 't, 'st, 'e) cli_run" where
  "command_route_add g tgt nh = quiet_command ''Error adding route: '' (Client_add_route g tgt nh)"

definition command_route_remove :: "('s, 't, 'st, 'uri, 'u) grpc \<Rightarrow> string \<Rightarrow> string \<Rightarrow> ('s, 't, 'st, 'e) cli_run" where
  "command_route_remove g tgt nh = quiet_command ''Error adding route: '' (Client_remove_route g tgt nh)"

section \<open>Main\<close>

fun run_bundle_command ::
  "('s, 't, 'st, 'uri, 'u) grpc \<Rightarrow> (bytes \<Rightarrow> cbor option) \<Rightarrow> cli_env \<Rightarrow> BundleCommands \<Rightarrow> ('s, 't, 'st, 'e) cli_run" where
  "run_bundle_command g dec C (Submit destination life dat data_file debug) =
     command_bundle_submit g C destination life dat data_file debug"
| "run_bundle_command g dec C (Listen ep mode) = command_bundle_listen g dec C ep mode"
| "run_bundle_command g dec C (Receive ep file_arg) = command_bundle_receive g C ep file_arg"

fun run_node_command :: "('s, 't, 'st, 'uri, 'u) grpc \<Rightarrow> NodeCommands \<Rightarrow> ('s, 't, 'st, 'e) cli_run" where
  "run_node_command g NodeList = command_node_list g"
| "run_node_command g (NodeAdd address) = command_node_add g address"
| "run_node_command g (NodeRemove address) = command_node_remove g address"

fun run_route_command :: "('s, 't, 'st, 'uri, 'u) grpc \<Rightarrow> RouteCommands \<Rightarrow> ('s, 't, 'st, 'e) cli_run" where
  "run_route_command g RouteList = command_route_list g"
| "run_route_command g (RouteAdd tgt nh) = command_route_add g tgt nh"
| "run_route_command g (RouteRemove tgt nh) = command_route_remove g tgt nh"

definition cli_main :: "('s, 't, 'st, 'uri, 'u) grpc \<Rightarrow> (bytes \<Rightarrow> cbor option) \<Rightarrow> cli_env \<Rightarrow> Cli \<Rightarrow> ('s, 't, 'st, 'e) cli_run" where
  "cli_main g dec C cli s =
     (case Client_new g (cli_url cli) s of
        (s', Inl e) \<Rightarrow> Ok (s', [ExitConnect InvalidValue e])
      | (s', Inr _) \<Rightarrow>
          (case cli_command cli of
             BundleCommand c \<Rightarrow> run_bundle_command g dec C c s'
           | NodeCommand c \<Rightarrow> run_node_command g c s'
           | RouteCommand c \<Rightarrow> run_route_command g c s'))"

end
