(* ===== verification/Cli_Results.thy ===== *)
theory Cli_Results
  imports Cli
begin

text \<open>
  The command line client in front of the daemon: the calls of the client library reach the services of
  the gRPC agent, and the messages that these send are handled by the agents for neighbours and routes.
\<close>

section \<open>The administration of a node\<close>

definition net_messages :: "client_output list \<Rightarrow> net_message list" where
  "net_messages outs = concat (map (\<lambda>x. case x of ClientToNet m \<Rightarrow> [m] | _ \<Rightarrow> []) outs)"

text \<open>A call of a service that answers when the messages it sends are handled.\<close>

definition admin_call :: "net_env \<Rightarrow> (client_output list, unit) service \<Rightarrow> (net, Status, unit) call" where
  "admin_call E r n =
     (case r of
        Ok (Inr outs) \<Rightarrow> (net_run E (net_messages outs) n, Inr ())
      | Ok (Inl st) \<Rightarrow> (n, Inl st)
      | _ \<Rightarrow> (n, Inl (Unknown_status ''panic'')))"

definition query_call :: "(net \<Rightarrow> ('a, unit) service) \<Rightarrow> (net, Status, 'a) call" where
  "query_call f n = (n, case f n of Ok r \<Rightarrow> r | _ \<Rightarrow> Inl (Unknown_status ''panic''))"

definition dtrd_admin ::
  "net_env \<Rightarrow> (string \<Rightarrow> string + Url) \<Rightarrow> (net, 't, Status, 'uri, 'u) grpc \<Rightarrow> (net, 't, Status, 'uri, 'u) grpc" where
  "dtrd_admin E parse g = g\<lparr>
     rpc_list_nodes := query_call (\<lambda>n. list_nodes None (node_agent n)),
     rpc_add_node := (\<lambda>u. admin_call E (add_node parse None u)),
     rpc_remove_node := (\<lambda>u. admin_call E (remove_node parse None u)),
     rpc_list_routes := query_call (\<lambda>n. list_routes (env_sort E) None (routing_agent n)),
     rpc_add_route := (\<lambda>r. admin_call E (add_route None r)),
     rpc_remove_route := (\<lambda>r. admin_call E (remove_route None r))\<rparr>"

text \<open>One run of the client after the other.\<close>

fun run_route_commands ::
  "('s, 't, 'st, 'uri, 'u) grpc \<Rightarrow> RouteCommands list \<Rightarrow> 's \<Rightarrow> ('s \<times> ('t, 'st) cli_event list list, 'e) result" where
  "run_route_commands g [] s = Ok (s, [])"
| "run_route_commands g (c # cs) s =
     and_then (run_route_command g c s) (\<lambda>(s', out).
     and_then (run_route_commands g cs s') (\<lambda>(s'', outs). Ok (s'', out # outs)))"

section \<open>The routes that the commands leave\<close>

fun abs_command :: "RouteCommands \<Rightarrow> (Endpoint \<times> RouteType \<times> Endpoint) set \<Rightarrow> (Endpoint \<times> RouteType \<times> Endpoint) set" where
  "abs_command RouteList R = R"
| "abs_command (RouteAdd tgt nh) R =
     (case (Endpoint_new tgt, Endpoint_new nh) of (Some t, Some h) \<Rightarrow> insert (t, Static, h) R | _ \<Rightarrow> R)"
| "abs_command (RouteRemove tgt nh) R =
     (case (Endpoint_new tgt, Endpoint_new nh) of (Some t, Some h) \<Rightarrow> R - {(t, Static, h)} | _ \<Rightarrow> R)"

fun route_text :: "Endpoint \<times> RouteType \<times> Endpoint \<Rightarrow> string list" where
  "route_text (t, ty, h) = [fmt_Endpoint t, fmt_Endpoint h, case ty of RouteType.Connected \<Rightarrow> ''CONNECTED'' | Static \<Rightarrow> ''STATIC'']"

lemma map_entries: "distinct (map fst rs) \<Longrightarrow> (\<exists>es. (t, es) \<in> set rs \<and> e \<in> set es) \<longleftrightarrow> e \<in> set (entries rs t)"
  by (auto simp: entries_in) (auto simp: entries_def split: option.splits dest: map_of_SomeD)

context unstable_sort
begin

lemma route_triples:
  assumes "distinct (map fst (routes d))"
  shows "(\<lambda>r. (rs_target r, rs_route_type r, rs_next_hop r)) ` set (get_routes srt d) = route_set d"
proof -
  let ?f = "\<lambda>r. (rs_target r, rs_route_type r, rs_next_hop r)"
  have mark: "?f ` set (mark_preferred rs) = ?f ` set rs" for rs
    by (cases rs) (auto simp: mark_preferred_def)
  have status: "?f ` set (map (route_status conn t) es) = (\<lambda>e. (t, route_type e, next_hop e)) ` set es" for conn t es
    by (auto simp: route_status_def image_image)
  have "?f ` set (get_routes srt d) = (\<Union>(t, es) \<in> set (routes d). (\<lambda>e. (t, route_type e, next_hop e)) ` set es)"
    unfolding get_routes_def Let_def set_concat image_UN set_map image_image case_prod_unfold
    by (simp only: mark set_srt status)
  also have "\<dots> = route_set d"
    using map_entries [OF assms] by (fastforce simp: route_set_def)
  finally show ?thesis .
qed

end

lemma route_rows_admin:
  "route_rows (map admin_route rs) = Ok (map (\<lambda>r. route_text (rs_target r, rs_route_type r, rs_next_hop r)
     @ [show_bool (rs_preferred r), show_bool (rs_available r), show_u64 (case rs_max_bundle_size r of Some m \<Rightarrow> m | None \<Rightarrow> 0)]) rs)"
  by (induction rs) (auto simp: route_row_def admin_route_def route_type_name_def split: RouteType.split)

lemma route_listing:
  assumes "unstable_sort (env_sort E)" "routing_inv (routing_agent n)"
  shows "\<exists>rows. command_route_list (dtrd_admin E parse g) n = Ok (n, [PrintTable (route_header # rows)])
    \<and> take 3 ` set rows = route_text ` route_set (routing_agent n)"
proof -
  let ?rs = "get_routes (env_sort E) (routing_agent n)"
  let ?rows = "map (\<lambda>r. route_text (rs_target r, rs_route_type r, rs_next_hop r)
     @ [show_bool (rs_preferred r), show_bool (rs_available r), show_u64 (case rs_max_bundle_size r of Some m \<Rightarrow> m | None \<Rightarrow> 0)]) ?rs"
  have "take 3 ` set ?rows = route_text ` (\<lambda>r. (rs_target r, rs_route_type r, rs_next_hop r)) ` set ?rs"
    by (simp add: image_image)
  also have "\<dots> = route_text ` route_set (routing_agent n)"
    using assms by (simp add: unstable_sort.route_triples routing_inv_def)
  finally show ?thesis
    by (intro exI [of _ ?rows])
      (simp add: command_route_list_def Client_list_routes_def await_call_def dtrd_admin_def query_call_def list_routes_def
        send_agent_def handle_ClientListRoutes_def handle_ListRoutes_def route_rows_admin)
qed

lemma route_call:
  assumes "r = Some \<lparr>ar_target = tgt, ar_next_hop = nh\<rparr>"
  shows "admin_call E (route_arg r (\<lambda>t h. send_agent None (Ok (Inr [ClientToNet (ToRouting (m t h))])))) n =
    (case Endpoint_new tgt of
       None \<Rightarrow> (n, Inl (InvalidArgument ''target invalid''))
     | Some t \<Rightarrow> (case Endpoint_new nh of
           None \<Rightarrow> (n, Inl (InvalidArgument ''next_hop invalid''))
         | Some h \<Rightarrow> (fst (net_handle E (ToRouting (m t h)) n), Inr ())))"
  by (auto simp: assms admin_call_def route_arg_def endpoint_arg_def send_agent_def net_messages_def Let_def case_prod_unfold split: option.split)

lemma routing_agent_step:
  "routing_agent (fst (net_handle E (ToRouting m) n)) = fst (routing_step (env_sort E) m (routing_agent n))"
  by (simp add: case_prod_unfold Let_def)

lemma route_command:
  assumes "unstable_sort (env_sort E)" "routing_inv (routing_agent n)"
  shows "\<exists>n' out. run_route_command (dtrd_admin E parse g) c n = Ok (n', out) \<and> routing_inv (routing_agent n')
    \<and> route_set (routing_agent n') = abs_command c (route_set (routing_agent n))"
proof (cases c)
  case RouteList
  with route_listing [OF assms, of parse g] assms(2) show ?thesis
    by auto
next
  case (RouteAdd tgt nh)
  have "admin_call E (add_route None (Some \<lparr>ar_target = tgt, ar_next_hop = nh\<rparr>)) n = (case Endpoint_new tgt of
       None \<Rightarrow> (n, Inl (InvalidArgument ''target invalid''))
     | Some t \<Rightarrow> (case Endpoint_new nh of
           None \<Rightarrow> (n, Inl (InvalidArgument ''next_hop invalid''))
         | Some h \<Rightarrow> (fst (net_handle E (ToRouting (AddRoute t Static h None)) n), Inr ())))"
    unfolding add_route_def handle_ClientAddRoute_def by (rule route_call) simp
  with RouteAdd show ?thesis
    using assms(2) routing_step_inv [OF assms(2), of "env_sort E"] routing_step_abs [of "env_sort E" _ "routing_agent n"]
    by (auto simp: command_route_add_def quiet_command_def Client_add_route_def await_call_def dtrd_admin_def routing_agent_step
        simp del: net_handle.simps routing_step.simps split: option.splits)
next
  case (RouteRemove tgt nh)
  have "admin_call E (remove_route None (Some \<lparr>ar_target = tgt, ar_next_hop = nh\<rparr>)) n = (case Endpoint_new tgt of
       None \<Rightarrow> (n, Inl (InvalidArgument ''target invalid''))
     | Some t \<Rightarrow> (case Endpoint_new nh of
           None \<Rightarrow> (n, Inl (InvalidArgument ''next_hop invalid''))
         | Some h \<Rightarrow> (fst (net_handle E (ToRouting (RemoveRoute t Static h)) n), Inr ())))"
    unfolding remove_route_def handle_ClientRemoveRoute_def by (rule route_call) simp
  with RouteRemove show ?thesis
    using assms(2) routing_step_inv [OF assms(2), of "env_sort E"] routing_step_abs [of "env_sort E" _ "routing_agent n"]
    by (auto simp: command_route_remove_def quiet_command_def Client_remove_route_def await_call_def dtrd_admin_def routing_agent_step
        simp del: net_handle.simps routing_step.simps split: option.splits)
qed

lemma route_commands:
  assumes "unstable_sort (env_sort E)" "routing_inv (routing_agent n)"
  shows "\<exists>n' outs. run_route_commands (dtrd_admin E parse g) cs n = (Ok (n', outs) :: (_, 'e) result) \<and> routing_inv (routing_agent n')
    \<and> route_set (routing_agent n') = fold abs_command cs (route_set (routing_agent n))"
  using assms(2)
proof (induction cs arbitrary: n)
  case (Cons c cs)
  obtain n1 out where n1: "run_route_command (dtrd_admin E parse g) c n = (Ok (n1, out) :: (_, 'e) result)" "routing_inv (routing_agent n1)"
    "route_set (routing_agent n1) = abs_command c (route_set (routing_agent n))"
    using route_command [OF assms(1) Cons.prems, of parse g c] by blast
  from Cons.IH [OF n1(2)] n1 show ?case
    by fastforce
qed simp

section \<open>Results\<close>

text \<open>C35. Whatever route commands are given at the command line, one after the other, the table that \<open>route list\<close>
  prints afterwards has exactly the routes that were there or added and not removed since: over the client
  library, the gRPC services, which refuse texts that are no endpoints, and the routing agent.\<close>

theorem cli_routes:
  assumes "unstable_sort (env_sort E)" "routing_inv (routing_agent n)"
  shows "\<exists>n' outs rows. run_route_commands (dtrd_admin E parse g) cs n = (Ok (n', outs) :: (_, 'e) result)
    \<and> command_route_list (dtrd_admin E parse g) n' = (Ok (n', [PrintTable (route_header # rows)]) :: (_, 'e) result)
    \<and> take 3 ` set rows = route_text ` fold abs_command cs (route_set (routing_agent n))"
proof -
  obtain n' outs where n': "run_route_commands (dtrd_admin E parse g) cs n = (Ok (n', outs) :: (_, 'e) result)" "routing_inv (routing_agent n')"
    "route_set (routing_agent n') = fold abs_command cs (route_set (routing_agent n))"
    using route_commands [OF assms] by blast
  with route_listing [OF assms(1) n'(2), of parse g] show ?thesis
    by auto
qed

definition example_grpc :: "(net, unit, Status, unit, unit) grpc" where
  "example_grpc =
     \<lparr>Uri_from_str = (\<lambda>_. Inr ()), connect = (\<lambda>_ s. (s, Inr ())), rpc_submit_bundle = (\<lambda>_ s. (s, Inr ())),
      rpc_listen_bundles = (\<lambda>_ s. (s, Inr [])), rpc_list_nodes = (\<lambda>s. (s, Inr [])), rpc_add_node = (\<lambda>_ s. (s, Inr ())),
      rpc_remove_node = (\<lambda>_ s. (s, Inr ())), rpc_list_routes = (\<lambda>s. (s, Inr [])), rpc_add_route = (\<lambda>_ s. (s, Inr ())),
      rpc_remove_route = (\<lambda>_ s. (s, Inr ()))\<rparr>"

definition example_cli_net :: net_env where
  "example_cli_net = \<lparr>env_scheme = (\<lambda>u. ''tcpcl''), env_connects = (\<lambda>u. True), env_accepts = (\<lambda>u. True), env_sort = sort_key rs_route_type\<rparr>"

theorem cli_routes_witness:
  "\<exists>n' outs rows. run_route_commands (dtrd_admin example_cli_net Inr example_grpc)
       [RouteAdd ''dtn://a/'' ''dtn://b/'', RouteAdd ''nothing'' ''dtn://b/'', RouteAdd ''dtn://c/'' ''dtn://b/'', RouteRemove ''dtn://c/'' ''dtn://b/'']
       net_init = (Ok (n', outs) :: (_, unit) result)
     \<and> command_route_list (dtrd_admin example_cli_net Inr example_grpc) n' = (Ok (n', [PrintTable (route_header # rows)]) :: (_, unit) result)
     \<and> take 3 ` set rows = {[''dtn://a/'', ''dtn://b/'', ''STATIC'']}"
proof -
  have sort: "unstable_sort (env_sort example_cli_net)" and inv: "routing_inv (routing_agent net_init)"
    "route_set (routing_agent net_init) = {}"
    by (simp_all add: example_cli_net_def stable_sort.unstable_sort_axioms net_init_def)
  have "Endpoint_new ''dtn://a/'' = Some (DTN \<lparr>uri = ''//a/''\<rparr>)" "Endpoint_new ''dtn://b/'' = Some (DTN \<lparr>uri = ''//b/''\<rparr>)"
    "Endpoint_new ''dtn://c/'' = Some (DTN \<lparr>uri = ''//c/''\<rparr>)" "Endpoint_new ''nothing'' = None"
    "fmt_Endpoint (DTN \<lparr>uri = ''//a/''\<rparr>) = ''dtn://a/''" "fmt_Endpoint (DTN \<lparr>uri = ''//b/''\<rparr>) = ''dtn://b/''"
    by code_simp+
  then have "route_text ` fold abs_command [RouteAdd ''dtn://a/'' ''dtn://b/'', RouteAdd ''nothing'' ''dtn://b/'', RouteAdd ''dtn://c/'' ''dtn://b/'',
      RouteRemove ''dtn://c/'' ''dtn://b/''] {} = {[''dtn://a/'', ''dtn://b/'', ''STATIC'']}"
    by (auto simp del: fmt_Endpoint.simps)
  with cli_routes [OF sort inv(1), of Inr example_grpc "[RouteAdd ''dtn://a/'' ''dtn://b/'', RouteAdd ''nothing'' ''dtn://b/'',
      RouteAdd ''dtn://c/'' ''dtn://b/'', RouteRemove ''dtn://c/'' ''dtn://b/'']"] show ?thesis
    unfolding inv(2) by simp
qed

end
