(* ===== verification/Tasks.thy ===== *)
theory Tasks
  imports Main "HOL-Library.Multiset"
begin

text \<open>
  Asynchronous handlers. A handler that awaits is a sequence of steps between which other handlers
  run: a task is finished or does one step on the shared state and goes on as another task. A step
  without a result is a panic. The theory has the sequencing of tasks, the run of a task on its own,
  the interleaved run of several, and the rely-guarantee argument that carries an invariant and a
  guarantee of every task through all interleavings.
\<close>

named_theorems task_simps \<open>runs of tasks\<close>
named_theorems rg_intros \<open>rules for the guarantee of a task\<close>

section \<open>Tasks\<close>

datatype ('s, 'a) task = Return 'a | Step "'s \<Rightarrow> ('s \<times> ('s, 'a) task) option"

primrec bind_task :: "('s, 'a) task \<Rightarrow> ('a \<Rightarrow> ('s, 'b) task) \<Rightarrow> ('s, 'b) task" where
  "bind_task (Return x) f = f x"
| "bind_task (Step g) f = Step (map_option (map_prod id (\<lambda>t. bind_task t f)) \<circ> g)"

text \<open>One step with a value, and a failed \<open>unwrap\<close>.\<close>

definition atomic :: "('s \<Rightarrow> ('s \<times> 'a) option) \<Rightarrow> ('s, 'a) task" where
  "atomic g = Step (map_option (map_prod id Return) \<circ> g)"

definition panic :: "('s, 'a) task" where
  "panic = Step (\<lambda>s. None)"

text \<open>\<open>t?\<close> with the conversion of the error, and a loop over a list whose body may fail.\<close>

definition try_task :: "('d \<Rightarrow> 'e) \<Rightarrow> ('s, 'd + 'a) task \<Rightarrow> ('a \<Rightarrow> ('s, 'e + 'b) task) \<Rightarrow> ('s, 'e + 'b) task" where
  "try_task conv t f = bind_task t (\<lambda>r. case r of Inl e \<Rightarrow> Return (Inl (conv e)) | Inr x \<Rightarrow> f x)"

primrec traverse_task :: "('a \<Rightarrow> ('s, 'e + 'b) task) \<Rightarrow> 'a list \<Rightarrow> ('s, 'e + 'b list) task" where
  "traverse_task f [] = Return (Inr [])"
| "traverse_task f (x # xs) =
     try_task id (f x) (\<lambda>y. try_task id (traverse_task f xs) (\<lambda>ys. Return (Inr (y # ys))))"

section \<open>A task on its own\<close>

primrec run_task :: "('s, 'a) task \<Rightarrow> 's \<Rightarrow> ('s \<times> 'a) option" where
  "run_task (Return x) = (\<lambda>s. Some (s, x))"
| "run_task (Step g) =
     (\<lambda>s. case (map_option (map_prod id run_task) \<circ> g) s of None \<Rightarrow> None | Some (s', k) \<Rightarrow> k s')"

lemma task_induct [case_names Return Step, induct type: task]:
  assumes "\<And>x. P (Return x)"
    and "\<And>g. (\<And>s s' t. g s = Some (s', t) \<Longrightarrow> P t) \<Longrightarrow> P (Step g)"
  shows "P t"
proof (induction t rule: task.induct)
  case (Return x)
  then show ?case by (rule assms)
next
  case (Step g)
  show ?case
  proof (rule assms(2))
    fix s s' t
    assume "g s = Some (s', t)"
    then show "P t"
      using Step [of "g s" "(s', t)" t] by (metis rangeI option.set_intros snds.intros snd_conv)
  qed
qed

lemma run_Return [task_simps]: "run_task (Return x) s = Some (s, x)"
  by simp

lemma run_Step: "run_task (Step g) s = (case g s of None \<Rightarrow> None | Some (s', t) \<Rightarrow> run_task t s')"
  by (simp split: option.split)

lemma run_bind [task_simps]:
  "run_task (bind_task t f) s = (case run_task t s of None \<Rightarrow> None | Some (s', x) \<Rightarrow> run_task (f x) s')"
proof (induction t arbitrary: s)
  case (Return x)
  then show ?case by simp
next
  case (Step g)
  then show ?case
    by (auto split: option.split)
qed

lemma run_atomic [task_simps]: "run_task (atomic g) s = g s"
  by (auto simp: atomic_def split: option.split)

lemma run_panic [task_simps]: "run_task panic s = None"
  by (simp add: panic_def)

lemma run_try [task_simps]:
  "run_task (try_task conv t f) s =
     (case run_task t s of
        None \<Rightarrow> None
      | Some (s', Inl e) \<Rightarrow> Some (s', Inl (conv e))
      | Some (s', Inr x) \<Rightarrow> run_task (f x) s')"
  by (simp add: try_task_def run_bind split: option.split sum.split)

text \<open>A handler that does not await is one step for all others.\<close>

definition deliver :: "('s, 'a) task \<Rightarrow> ('s, 'a) task" where
  "deliver t = atomic (run_task t)"

text \<open>\<open>runs t s Q\<close>: the task ends without a panic, and \<open>Q\<close> holds of its value and the state.\<close>

definition runs :: "('s, 'a) task \<Rightarrow> 's \<Rightarrow> ('a \<Rightarrow> 's \<Rightarrow> bool) \<Rightarrow> bool" where
  "runs t s Q \<longleftrightarrow> (case run_task t s of None \<Rightarrow> False | Some (s', x) \<Rightarrow> Q x s')"

lemma runs_iff: "runs t s Q \<longleftrightarrow> (\<exists>s' x. run_task t s = Some (s', x) \<and> Q x s')"
  by (auto simp: runs_def split: option.splits)

lemma runs_Return [rg_intros]: "Q x s \<Longrightarrow> runs (Return x) s Q"
  by (simp add: runs_def)

lemma runs_atomic: "g s = Some (s', x) \<Longrightarrow> Q x s' \<Longrightarrow> runs (atomic g) s Q"
  by (simp add: runs_def run_atomic)

lemma runs_bind: "runs t s P \<Longrightarrow> (\<And>x r. P x r \<Longrightarrow> runs (f x) r Q) \<Longrightarrow> runs (bind_task t f) s Q"
  by (force simp: runs_iff run_bind)

lemma runs_try:
  assumes "runs t s P" and "\<And>e r. P (Inl e) r \<Longrightarrow> Q (Inl (conv e)) r"
    and "\<And>x r. P (Inr x) r \<Longrightarrow> runs (f x) r Q"
  shows "runs (try_task conv t f) s Q"
proof -
  obtain r x where r: "run_task t s = Some (r, x)" "P x r"
    using assms(1) by (auto simp: runs_iff)
  with assms(2,3) show ?thesis
    by (cases x) (auto simp: runs_def run_try)
qed

lemma runs_weaken: "runs t s P \<Longrightarrow> (\<And>x r. P x r \<Longrightarrow> Q x r) \<Longrightarrow> runs t s Q"
  by (auto simp: runs_def split: option.splits)

lemma runs_conj: "runs t s P \<Longrightarrow> runs t s Q \<Longrightarrow> runs t s (\<lambda>x r. P x r \<and> Q x r)"
  by (auto simp: runs_iff)

lemma runs_deliver: "runs (deliver t) s Q = runs t s Q"
  by (simp add: runs_def deliver_def run_atomic)

lemma run_deliver [task_simps]: "run_task (deliver t) s = run_task t s"
  by (simp add: deliver_def run_atomic)

section \<open>Interleaving\<close>

text \<open>One of the tasks of a pool does its next step. A pool panics when the next step of a task does.\<close>

inductive pool_step :: "'s \<times> ('s, 'a) task list \<Rightarrow> 's \<times> ('s, 'a) task list \<Rightarrow> bool" where
  step: "i < length ts \<Longrightarrow> ts ! i = Step g \<Longrightarrow> g s = Some (s', t) \<Longrightarrow> pool_step (s, ts) (s', ts[i := t])"

inductive_cases pool_stepE: "pool_step (s, ts) c"

definition task_panics :: "'s \<Rightarrow> ('s, 'a) task \<Rightarrow> bool" where
  "task_panics s t = (case t of Return x \<Rightarrow> False | Step g \<Rightarrow> Option.is_none (g s))"

definition pool_panics :: "'s \<times> ('s, 'a) task list \<Rightarrow> bool" where
  "pool_panics c = list_ex (task_panics (fst c)) (snd c)"

definition is_Return :: "('s, 'a) task \<Rightarrow> bool" where
  "is_Return t = (case t of Return x \<Rightarrow> True | Step g \<Rightarrow> False)"

lemma pool_progress:
  assumes "\<not> pool_panics (s, ts)" and "\<not> list_all is_Return ts"
  shows "\<exists>c. pool_step (s, ts) c"
proof -
  from assms(2) obtain i where i: "i < length ts" "\<not> is_Return (ts ! i)"
    by (auto simp: list_all_length)
  then obtain g where g: "ts ! i = Step g"
    by (cases "ts ! i") (auto simp: is_Return_def)
  with i assms(1) have "g s \<noteq> None"
    by (force simp: pool_panics_def list_ex_length task_panics_def Option.is_none_def)
  with i g show ?thesis
    by (auto intro: pool_step.step)
qed

text \<open>Every interleaving ends.\<close>

definition next_task :: "(('s, 'a) task \<times> ('s, 'a) task) set" where
  "next_task = {(t', t). \<exists>g s s'. t = Step g \<and> g s = Some (s', t')}"

lemma wf_next_task: "wf (next_task :: (('s, 'a) task \<times> ('s, 'a) task) set)"
proof (rule wfUNIVI)
  fix P and t :: "('s, 'a) task"
  assume step: "\<forall>x :: ('s, 'a) task. (\<forall>y. (y, x) \<in> next_task \<longrightarrow> P y) \<longrightarrow> P x"
  show "P t"
  proof (induction t)
    case (Return x)
    then show ?case by (rule step [rule_format]) (simp add: next_task_def)
  next
    case (Step g)
    show ?case by (rule step [rule_format]) (auto simp: next_task_def intro: Step)
  qed
qed

lemma pool_step_decreases: "pool_step (s, ts) (s', ts') \<Longrightarrow> (mset ts', mset ts) \<in> mult1 next_task"
proof (erule pool_stepE)
  fix i g t r'
  assume a: "(s', ts') = (r', ts[i := t])" "i < length ts" "ts ! i = Step g" "g s = Some (r', t)"
  have "(t, ts ! i) \<in> next_task"
    using a by (auto simp: next_task_def)
  moreover have "mset ts = add_mset (ts ! i) (mset ts - {#ts ! i#})"
    using a(2) by simp
  moreover have "mset ts' = (mset ts - {#ts ! i#}) + {#t#}"
    using a by (simp add: mset_update)
  ultimately show ?thesis
    by (intro mult1I [of _ "ts ! i" "mset ts - {#ts ! i#}" _ "{#t#}"]) auto
qed

lemma pool_terminates: "wfp (\<lambda>c' c. pool_step c c')"
proof -
  have "wf (inv_image (mult1 next_task) (\<lambda>c :: 'a \<times> ('a, 'b) task list. mset (snd c)))"
    by (intro wf_inv_image wf_mult1 wf_next_task)
  then have "wf {(c', c). pool_step c (c' :: 'a \<times> ('a, 'b) task list)}"
    by (rule wf_subset) (auto intro: pool_step_decreases)
  then show ?thesis
    by (simp add: wfp_def)
qed

lemma pool_run_to_end: "\<exists>c'. pool_step\<^sup>*\<^sup>* c c' \<and> \<not> Ex (pool_step c')"
proof (induction c rule: wfp_induct_rule [OF pool_terminates])
  case (1 c)
  show ?case
  proof (cases "Ex (pool_step c)")
    case True
    then obtain d c' where "pool_step c d" "pool_step\<^sup>*\<^sup>* d c'" "\<not> Ex (pool_step c')"
      using 1 by blast
    then show ?thesis
      by (meson converse_rtranclp_into_rtranclp)
  qed blast
qed

section \<open>Rely and guarantee\<close>

text \<open>
  A task owns some things of the shared state: \<open>rely A\<close> is what the others may do when \<open>A\<close> is owned,
  \<open>guar A\<close> what a task that owns \<open>A\<close> does itself, and \<open>fresh s\<close> what nobody can own yet. The laws say that the
  guarantee of a task is within what the owner of anything else relies on.
\<close>

locale rely_guarantee =
  fixes rely guar :: "'o set \<Rightarrow> 's \<Rightarrow> 's \<Rightarrow> bool" and fresh :: "'s \<Rightarrow> 'o set" and I :: "'s \<Rightarrow> bool"
  assumes rely_refl: "rely A s s"
    and rely_trans: "rely A s r \<Longrightarrow> rely A r q \<Longrightarrow> rely A s q"
    and rely_anti: "rely A s r \<Longrightarrow> B \<subseteq> A \<Longrightarrow> rely B s r"
    and guar_rely: "guar A s r \<Longrightarrow> I s \<Longrightarrow> A \<inter> B = {} \<Longrightarrow> B \<inter> fresh s = {} \<Longrightarrow> rely B s r"
    and guar_fresh: "guar A s r \<Longrightarrow> fresh r \<subseteq> fresh s"
begin

text \<open>
  \<open>safe Q t A s\<close>: as long as the others keep to \<open>rely\<close>, every step of the task \<open>t\<close> with the things \<open>A\<close> keeps
  the invariant and its guarantee, no step panics, and the value of the task satisfies \<open>Q\<close>. A step can
  give things away and take fresh ones.
\<close>

primrec safe :: "('a \<Rightarrow> 'o set \<Rightarrow> 's \<Rightarrow> bool) \<Rightarrow> ('s, 'a) task \<Rightarrow> 'o set \<Rightarrow> 's \<Rightarrow> bool" where
  "safe Q (Return x) = Q x"
| "safe Q (Step g) =
     (\<lambda>A s. \<forall>r. rely A s r \<and> I r \<longrightarrow>
        (case (map_option (map_prod id (safe Q)) \<circ> g) r of
           None \<Rightarrow> False
         | Some (s', k) \<Rightarrow> guar A r s' \<and> I s' \<and> (\<exists>B. B \<subseteq> A \<union> (fresh r - fresh s') \<and> k B s')))"

lemma safe_Step:
  "safe Q (Step g) A s \<longleftrightarrow>
     (\<forall>r. rely A s r \<and> I r \<longrightarrow> (\<exists>s' t B. g r = Some (s', t) \<and> guar A r s' \<and> I s'
        \<and> B \<subseteq> A \<union> (fresh r - fresh s') \<and> safe Q t B s'))"
proof -
  have "(case (map_option (map_prod id (safe Q)) \<circ> g) r of None \<Rightarrow> False
         | Some (s', k) \<Rightarrow> guar A r s' \<and> I s' \<and> (\<exists>B. B \<subseteq> A \<union> (fresh r - fresh s') \<and> k B s')) \<longleftrightarrow>
        (\<exists>s' t B. g r = Some (s', t) \<and> guar A r s' \<and> I s' \<and> B \<subseteq> A \<union> (fresh r - fresh s') \<and> safe Q t B s')" for r
    by (auto split: option.split)
  then show ?thesis
    by (simp only: safe.simps)
qed

declare safe.simps(2) [simp del]

lemma safe_later:
  assumes "safe Q t A s" and "rely A s r" and "\<And>x s r. Q x A s \<Longrightarrow> rely A s r \<Longrightarrow> Q x A r"
  shows "safe Q t A r"
  using assms by (cases t) (auto simp: safe_Step dest: rely_trans)

lemma guar_rely_empty: "guar A s r \<Longrightarrow> I s \<Longrightarrow> rely {} s r"
  by (rule guar_rely) auto

lemma safe_bind:
  assumes "safe P t A s" and "\<And>x B r. P x B r \<Longrightarrow> rely {} s r \<Longrightarrow> safe Q (f x) B r"
  shows "safe Q (bind_task t f) A s"
  using assms
proof (induction t arbitrary: A s)
  case (Return x)
  then show ?case by (simp add: rely_refl)
next
  case (Step g)
  show ?case
    unfolding bind_task.simps safe_Step
  proof (intro allI impI)
    fix r
    assume r: "rely A s r \<and> I r"
    with Step.prems(1) obtain s' t B where t: "g r = Some (s', t)" "guar A r s'" "I s'"
      "B \<subseteq> A \<union> (fresh r - fresh s')" "safe P t B s'"
      by (auto simp: safe_Step)
    have "rely {} s s'"
      using r t by (blast intro: rely_trans rely_anti guar_rely_empty)
    then have "safe Q (bind_task t f) B s'"
      by (intro Step.IH [OF t(1,5)] Step.prems(2)) (auto intro: rely_trans)
    with t show "\<exists>s' t B. (map_option (map_prod id (\<lambda>t. bind_task t f)) \<circ> g) r = Some (s', t) \<and> guar A r s' \<and> I s'
        \<and> B \<subseteq> A \<union> (fresh r - fresh s') \<and> safe Q t B s'"
      by auto
  qed
qed

lemma safe_weaken:
  assumes "safe P t A s" and "\<And>x B r. P x B r \<Longrightarrow> Q x B r"
  shows "safe Q t A s"
  using assms(1)
proof (induction t arbitrary: A s)
  case (Return x)
  then show ?case by (simp add: assms(2))
next
  case (Step g)
  show ?case
    unfolding safe_Step
  proof (intro allI impI)
    fix r
    assume "rely A s r \<and> I r"
    with Step.prems obtain s' t B where t: "g r = Some (s', t)" "guar A r s'" "I s'"
      "B \<subseteq> A \<union> (fresh r - fresh s')" "safe P t B s'"
      by (auto simp: safe_Step)
    with Step.IH [OF t(1,5)]
    show "\<exists>s' t B. g r = Some (s', t) \<and> guar A r s' \<and> I s' \<and> B \<subseteq> A \<union> (fresh r - fresh s') \<and> safe Q t B s'"
      by blast
  qed
qed

lemma safe_atomic:
  assumes "\<And>r. rely A s r \<Longrightarrow> I r \<Longrightarrow>
      \<exists>s' x B. g r = Some (s', x) \<and> guar A r s' \<and> I s' \<and> B \<subseteq> A \<union> (fresh r - fresh s') \<and> Q x B s'"
  shows "safe Q (atomic g) A s"
  unfolding atomic_def safe_Step
proof (intro allI impI)
  fix r
  assume "rely A s r \<and> I r"
  with assms obtain s' x B where "g r = Some (s', x)" "guar A r s'" "I s'" "B \<subseteq> A \<union> (fresh r - fresh s')" "Q x B s'"
    by blast
  then show "\<exists>s' t B. (map_option (map_prod id Return) \<circ> g) r = Some (s', t) \<and> guar A r s' \<and> I s'
      \<and> B \<subseteq> A \<union> (fresh r - fresh s') \<and> safe Q t B s'"
    by auto
qed

lemma safe_deliver:
  assumes "\<And>r. rely A s r \<Longrightarrow> I r \<Longrightarrow> runs t r (\<lambda>x s'. guar A r s' \<and> I s' \<and> Q x A s')"
  shows "safe Q (deliver t) A s"
  unfolding deliver_def
proof (rule safe_atomic)
  fix r
  assume "rely A s r" "I r"
  from assms [OF this] show "\<exists>s' x B. run_task t r = Some (s', x) \<and> guar A r s' \<and> I s' \<and> B \<subseteq> A \<union> (fresh r - fresh s') \<and> Q x B s'"
    by (auto simp: runs_iff)
qed

lemma safe_try:
  assumes "safe P t A s"
    and "\<And>e B r. P (Inl e) B r \<Longrightarrow> rely {} s r \<Longrightarrow> Q (Inl (conv e)) B r"
    and "\<And>x B r. P (Inr x) B r \<Longrightarrow> rely {} s r \<Longrightarrow> safe Q (f x) B r"
  shows "safe Q (try_task conv t f) A s"
  unfolding try_task_def
  by (rule safe_bind [OF assms(1)]) (auto split: sum.split intro: assms(2,3))

lemma safe_runs:
  assumes "safe Q t A s" and "I s"
  shows "runs t s (\<lambda>x r. I r \<and> (\<exists>B. Q x B r))"
  using assms
proof (induction t arbitrary: A s)
  case (Return x)
  then show ?case by (auto simp: runs_def)
next
  case (Step g)
  then obtain s' t B where t: "g s = Some (s', t)" "I s'" "safe Q t B s'"
    by (auto simp: safe_Step dest: spec [of _ s] intro: rely_refl)
  from Step.IH [OF t(1,3,2)] show ?case
    unfolding runs_def run_Step t(1) by simp
qed

text \<open>The tasks of a pool own disjoint things, each has its own postcondition.\<close>

definition pool_safe :: "(nat \<Rightarrow> 'a \<Rightarrow> 'o set \<Rightarrow> 's \<Rightarrow> bool) \<Rightarrow> 's \<times> ('s, 'a) task list \<Rightarrow> bool" where
  "pool_safe Q c \<longleftrightarrow> I (fst c) \<and>
     (\<exists>A. (\<forall>i < length (snd c). A i \<inter> fresh (fst c) = {} \<and> safe (Q i) (snd c ! i) (A i) (fst c)
            \<and> (\<forall>j < length (snd c). i \<noteq> j \<longrightarrow> A i \<inter> A j = {})))"

lemma pool_safe_start:
  assumes "I s" and "\<And>i. i < length ts \<Longrightarrow> safe (Q i) (ts ! i) {} s"
  shows "pool_safe Q (s, ts)"
  using assms by (auto simp: pool_safe_def intro!: exI [of _ "\<lambda>_. {}"])

lemma pool_step_safe:
  assumes step: "pool_step (s, ts) (s', ts')" and safe: "pool_safe Q (s, ts)"
    and stable: "\<And>i x A s r. Q i x A s \<Longrightarrow> rely A s r \<Longrightarrow> Q i x A r"
  shows "pool_safe Q (s', ts') \<and> rely {} s s'"
  using step
proof (cases rule: pool_step.cases)
  case (step i g t)
  from safe obtain A where I: "I s" and A: "\<And>i. i < length ts \<Longrightarrow> A i \<inter> fresh s = {} \<and> safe (Q i) (ts ! i) (A i) s"
    "\<And>i j. i < length ts \<Longrightarrow> j < length ts \<Longrightarrow> i \<noteq> j \<Longrightarrow> A i \<inter> A j = {}"
    by (auto simp: pool_safe_def)
  from A(1) [of i] step I obtain B where B: "guar (A i) s s'" "I s'" "B \<subseteq> A i \<union> (fresh s - fresh s')"
    "safe (Q i) t B s'"
    by (force simp: safe_Step dest: spec [of _ s] intro: rely_refl)
  have fresh: "fresh s' \<subseteq> fresh s"
    using B(1) by (rule guar_fresh)
  have relied: "rely (A j) s s'" if "j < length ts" "j \<noteq> i" for j
  proof (rule guar_rely [OF B(1) I])
    show "A i \<inter> A j = {}" "A j \<inter> fresh s = {}"
      using A(1) [of j] A(2) [of i j] that step by auto
  qed
  have others: "safe (Q j) (ts ! j) (A j) s'" if "j < length ts" "j \<noteq> i" for j
    by (rule safe_later [OF conjunct2 [OF A(1)] relied stable]) (use that in auto)
  define C where "C = A(i := B)"
  have "C k \<inter> fresh s' = {} \<and> safe (Q k) (ts' ! k) (C k) s'" if "k < length ts'" for k
    using that step B(3,4) A(1) [of k] fresh others [of k] by (cases "k = i") (auto simp: C_def)
  moreover have "C k \<inter> C j = {}" if "k < length ts'" "j < length ts'" "k \<noteq> j" for k j
    using that step B(3) A(1) [of j] A(1) [of k] A(2) [of k j] by (cases "k = i"; cases "j = i") (auto simp: C_def)
  ultimately have "\<exists>A. \<forall>k < length ts'. A k \<inter> fresh s' = {} \<and> safe (Q k) (ts' ! k) (A k) s'
      \<and> (\<forall>j < length ts'. k \<noteq> j \<longrightarrow> A k \<inter> A j = {})"
    by blast
  with B(2) guar_rely_empty [OF B(1) I] show ?thesis
    by (simp add: pool_safe_def)
qed

lemma pool_sound:
  assumes "pool_step\<^sup>*\<^sup>* c c'" and "pool_safe Q c"
    and stable: "\<And>i x A s r. Q i x A s \<Longrightarrow> rely A s r \<Longrightarrow> Q i x A r"
  shows "pool_safe Q c' \<and> rely {} (fst c) (fst c')"
  using assms(1)
proof induction
  case base
  then show ?case using assms rely_refl by simp
next
  case (step d e)
  then show ?case
    using pool_step_safe [of "fst d" "snd d" "fst e" "snd e" Q, OF _ _ stable] by (auto intro: rely_trans)
qed

lemma pool_safe_no_panic:
  assumes "pool_safe Q (s, ts)"
  shows "\<not> pool_panics (s, ts)"
proof
  assume "pool_panics (s, ts)"
  then obtain i where i: "i < length ts" "task_panics s (ts ! i)"
    by (auto simp: pool_panics_def list_ex_length)
  then obtain g where "ts ! i = Step g" "g s = None"
    by (cases "ts ! i") (auto simp: task_panics_def Option.is_none_def)
  moreover obtain A where "I s" "safe (Q i) (ts ! i) A s"
    using assms i by (auto simp: pool_safe_def)
  ultimately show False
    using rely_refl [of A s] by (auto simp: safe_Step)
qed

lemma pool_safe_Return:
  assumes "pool_safe Q (s, ts)" and "i < length ts" and "ts ! i = Return x"
  shows "\<exists>A. Q i x A s"
proof -
  obtain A where "safe (Q i) (ts ! i) A s"
    using assms by (auto simp: pool_safe_def)
  with assms show ?thesis
    by auto
qed

end

end
