(* ===== verification/Repli_World.thy ===== *)
theory Repli_World
  imports Tasks Endpoint Rust_Collections "HOL-Library.Sublist"
begin

text \<open>
  What the handlers of \<open>replistore\<close> share: the database, the file system, the stores that the owner has
  started and the messages for the replicator. RocksDB, the file system's failures, the clock, random
  identifiers and the hash functions are parameters. Every call of the database and of the file system
  is counted, and the parameters say by its number whether it fails.
\<close>

section \<open>Parameters\<close>

type_synonym OffsetDateTime = int

record repl_env =
  rocks_fault :: "nat \<Rightarrow> string option"
  io_fault :: "nat \<Rightarrow> string option"
  read_size :: "nat \<Rightarrow> nat"
  new_uuid :: "nat \<Rightarrow> string"
  now_utc :: "nat \<Rightarrow> OffsetDateTime"
  unix_timestamp :: "OffsetDateTime \<Rightarrow> int"
  from_unix_timestamp :: "int \<Rightarrow> OffsetDateTime option"
  md5_hex :: "bytes \<Rightarrow> string"
  sha256_hex :: "bytes \<Rightarrow> string"

section \<open>Paths\<close>

text \<open>A \<open>PathBuf\<close> as its components. \<open>join\<close> replaces the path when its argument is absolute.\<close>

type_synonym PathBuf = "string list"

fun split_at :: "char \<Rightarrow> string \<Rightarrow> string list" where
  "split_at c [] = [[]]"
| "split_at c (x # xs) =
     (if x = c then [] # split_at c xs
      else (case split_at c xs of [] \<Rightarrow> [[x]] | s # ss \<Rightarrow> (x # s) # ss))"

definition path_parts :: "string \<Rightarrow> string list" where
  "path_parts s = filter (\<lambda>p. p \<noteq> []) (split_at CHR ''/'' s)"

definition path_join :: "PathBuf \<Rightarrow> string \<Rightarrow> PathBuf" where
  "path_join p s = (if starts_with ''/'' s then path_parts s else p @ path_parts s)"

section \<open>State\<close>

record KeyValueStore =
  kv_name :: string

record ContentAddressableBlobStore =
  blob_name :: string
  base_path :: PathBuf

datatype EventType = Put | Delete

record ObjectMeta =
  om_last_modified :: "int option"
  om_size :: u64
  om_md5sum :: string
  om_sha256sum :: string

record Event =
  event_type :: EventType
  event_version :: u64
  event_object_name :: string
  event_object_meta :: "ObjectMeta option"

record BucketEvent =
  bucket_name :: string
  bucket_events :: "Event list"
  bucket_objects :: "(string \<times> bytes) list"

record world =
  db :: "(string \<times> string) list"
  kv_stores :: "(string \<times> KeyValueStore) list"
  blob_stores :: "(string \<times> ContentAddressableBlobStore) list"
  files :: "(PathBuf \<times> bytes) list"
  dirs :: "PathBuf list"
  calls :: nat
  to_replicator :: "BucketEvent list"

section \<open>Database\<close>

text \<open>
  A call that reads the database or prepares a transaction, and the commit, which does all writes of
  the transaction or none. The database is the list of its entries; keys and values are bytes.
\<close>

datatype StoreError = StoreError string

type_synonym txn = "(string \<times> string option) list"

definition rocks :: "repl_env \<Rightarrow> ((string \<times> string) list \<Rightarrow> 'a) \<Rightarrow> (world, StoreError + 'a) task" where
  "rocks E f = atomic (\<lambda>w. Some (w\<lparr>calls := Suc (calls w)\<rparr>,
     case rocks_fault E (calls w) of Some e \<Rightarrow> Inl (StoreError e) | None \<Rightarrow> Inr (f (db w))))"

definition apply_write :: "string \<times> string option \<Rightarrow> (string \<times> string) list \<Rightarrow> (string \<times> string) list" where
  "apply_write kv d = (case kv of (k, Some v) \<Rightarrow> AList.update k v d | (k, None) \<Rightarrow> AList.delete k d)"

definition apply_writes :: "txn \<Rightarrow> (string \<times> string) list \<Rightarrow> (string \<times> string) list" where
  "apply_writes txn d = fold apply_write txn d"

definition commit :: "repl_env \<Rightarrow> txn \<Rightarrow> (world, StoreError + unit) task" where
  "commit E txn = atomic (\<lambda>w.
     case rocks_fault E (calls w) of
       Some e \<Rightarrow> Some (w\<lparr>calls := Suc (calls w)\<rparr>, Inl (StoreError e))
     | None \<Rightarrow> Some (w\<lparr>calls := Suc (calls w), db := apply_writes txn (db w)\<rparr>, Inr ()))"

text \<open>\<open>PrefixRange\<close>: the entries whose key begins with the given one.\<close>

definition prefix_range :: "string \<Rightarrow> (string \<times> string) list \<Rightarrow> (string \<times> string) list" where
  "prefix_range key d = filter (\<lambda>(k, v). prefix key k) d"

text \<open>\<open>String::from_utf8(..).unwrap()\<close>.\<close>

definition from_utf8_unwrap :: "string \<Rightarrow> (world, 'e + string) task" where
  "from_utf8_unwrap s = (if rust_string s then Return (Inr s) else panic)"

section \<open>Files\<close>

definition not_found_msg :: string where
  "not_found_msg = ''No such file or directory (os error 2)''"

definition is_directory_msg :: string where
  "is_directory_msg = ''Is a directory (os error 21)''"

definition io :: "repl_env \<Rightarrow> (world \<Rightarrow> world \<times> (string + 'a)) \<Rightarrow> (world, string + 'a) task" where
  "io E f = atomic (\<lambda>w. let w' = w\<lparr>calls := Suc (calls w)\<rparr> in
     case io_fault E (calls w) of Some e \<Rightarrow> Some (w', Inl e) | None \<Rightarrow> Some (f w'))"

definition fs_create :: "repl_env \<Rightarrow> PathBuf \<Rightarrow> (world, string + unit) task" where
  "fs_create E p = io E (\<lambda>w.
     if p \<in> set (dirs w) then (w, Inl is_directory_msg)
     else if butlast p \<notin> set (dirs w) then (w, Inl not_found_msg)
     else (w\<lparr>files := AList.update p [] (files w)\<rparr>, Inr ()))"

definition fs_append :: "repl_env \<Rightarrow> PathBuf \<Rightarrow> bytes \<Rightarrow> (world, string + unit) task" where
  "fs_append E p bs = io E (\<lambda>w.
     case map_of (files w) p of
       None \<Rightarrow> (w, Inr ())
     | Some c \<Rightarrow> (w\<lparr>files := AList.update p (c @ bs) (files w)\<rparr>, Inr ()))"

definition fs_open :: "repl_env \<Rightarrow> PathBuf \<Rightarrow> (world, string + bytes) task" where
  "fs_open E p = io E (\<lambda>w. (w,
     if p \<in> set (dirs w) then Inl is_directory_msg
     else case map_of (files w) p of None \<Rightarrow> Inl not_found_msg | Some c \<Rightarrow> Inr c))"

definition fs_rename :: "repl_env \<Rightarrow> PathBuf \<Rightarrow> PathBuf \<Rightarrow> (world, string + unit) task" where
  "fs_rename E from to = io E (\<lambda>w.
     case map_of (files w) from of
       None \<Rightarrow> (w, Inl not_found_msg)
     | Some c \<Rightarrow>
         if to \<in> set (dirs w) then (w, Inl is_directory_msg)
         else (w\<lparr>files := AList.update to c (AList.delete from (files w))\<rparr>, Inr ()))"

text \<open>\<open>is_file\<close> and \<open>len\<close> of the metadata.\<close>

definition fs_metadata :: "repl_env \<Rightarrow> PathBuf \<Rightarrow> (world, string + (bool \<times> u64)) task" where
  "fs_metadata E p = io E (\<lambda>w. (w,
     if p \<in> set (dirs w) then Inr (False, 4096)
     else case map_of (files w) p of None \<Rightarrow> Inl not_found_msg | Some c \<Rightarrow> Inr (True, of_nat (length c))))"

definition fs_remove_file :: "repl_env \<Rightarrow> PathBuf \<Rightarrow> (world, string + unit) task" where
  "fs_remove_file E p = io E (\<lambda>w.
     if p \<in> set (dirs w) then (w, Inl is_directory_msg)
     else case map_of (files w) p of
       None \<Rightarrow> (w, Inl not_found_msg)
     | Some c \<Rightarrow> (w\<lparr>files := AList.delete p (files w)\<rparr>, Inr ()))"

definition fs_create_dir_all :: "repl_env \<Rightarrow> PathBuf \<Rightarrow> (world, string + unit) task" where
  "fs_create_dir_all E p = io E (\<lambda>w. (w\<lparr>dirs := filter (\<lambda>d. d \<notin> set (dirs w)) (prefixes p) @ dirs w\<rparr>, Inr ()))"

text \<open>The pieces in which a file of the given content is read, at most \<open>k\<close> bytes each.\<close>

function read_pieces :: "repl_env \<Rightarrow> nat \<Rightarrow> bytes \<Rightarrow> bytes list" where
  "read_pieces E k bs =
     (let n = min (read_size E (length bs)) (min k (length bs))
      in if n = 0 then [] else take n bs # read_pieces E k (drop n bs))"
  by pat_completeness auto
termination
  by (relation "measure (\<lambda>(E, k, bs). length bs)") auto

declare read_pieces.simps [simp del]

text \<open>A read returns something while something is left.\<close>

definition reads_all :: "repl_env \<Rightarrow> bool" where
  "reads_all E \<longleftrightarrow> (\<forall>n > 0. read_size E n > 0)"

lemma concat_read_pieces: "reads_all E \<Longrightarrow> 0 < k \<Longrightarrow> concat (read_pieces E k bs) = bs"
proof (induction E k bs rule: read_pieces.induct)
  case (1 E k bs)
  show ?case
  proof (cases "bs = []")
    case True
    then show ?thesis by (simp add: read_pieces.simps)
  next
    case False
    define n where "n = min (read_size E (length bs)) (min k (length bs))"
    from False 1(2,3) have n: "n \<noteq> 0"
      by (simp add: reads_all_def n_def)
    then have "concat (read_pieces E k (drop n bs)) = drop n bs"
      using 1 by (simp add: n_def)
    with n show ?thesis
      by (subst read_pieces.simps) (simp add: Let_def flip: n_def)
  qed
qed

end
