(* ===== verification/Repli_Stores.thy ===== *)
theory Repli_Stores
  imports Repli_World
begin

text \<open>
  \<open>replistore/src/stores\<close>: the key value store on RocksDB (\<open>keyvalue.rs\<close>), the content addressed blob
  store on files (\<open>contentaddressableblob.rs\<close>) and the owner that starts them (\<open>storeowner.rs\<close>).
\<close>

section \<open>Key value store\<close>

definition NUL :: char where
  "NUL = CHR 0x00"

text \<open>\<open>join\<close> of strings.\<close>

fun join_with :: "string \<Rightarrow> string list \<Rightarrow> string" where
  "join_with sep [] = []"
| "join_with sep [x] = x"
| "join_with sep (x # y # ys) = x @ sep @ join_with sep (y # ys)"

definition get_path :: "KeyValueStore \<Rightarrow> string list \<Rightarrow> string" where
  "get_path self keys = NUL # ''store'' @ NUL # kv_name self @ NUL # join_with [NUL] keys"

definition to_le_bytes :: "u64 \<Rightarrow> string" where
  "to_le_bytes v = from_bytes (rev (be_bytes 8 (unat v)))"

definition u64_from_le_bytes :: "string \<Rightarrow> u64" where
  "u64_from_le_bytes s = of_nat (be_nat (rev (as_bytes s)))"

definition bump_version :: "repl_env \<Rightarrow> KeyValueStore \<Rightarrow> string list \<Rightarrow> txn \<Rightarrow> (world, StoreError + (u64 \<times> txn)) task" where
  "bump_version E self version_path txn =
     try_task id (rocks E (\<lambda>d. map_of d (get_path self version_path))) (\<lambda>v.
     try_task id (case v of
         None \<Rightarrow> Return (Inr 0)
       | Some e \<Rightarrow> if length e = 8 then Return (Inr (u64_from_le_bytes e)) else panic) (\<lambda>ver.
     let ver = ver + 1 in
     rocks E (\<lambda>_. (ver, txn @ [(get_path self version_path, Some (to_le_bytes ver))]))))"

definition handle_Get :: "repl_env \<Rightarrow> KeyValueStore \<Rightarrow> string list \<Rightarrow> (world, StoreError + string option) task" where
  "handle_Get E self key =
     try_task id (rocks E (\<lambda>d. map_of d (get_path self key))) (\<lambda>v.
     case v of
       None \<Rightarrow> Return (Inr None)
     | Some e \<Rightarrow> try_task id (from_utf8_unwrap e) (\<lambda>s. Return (Inr (Some s))))"

text \<open>\<open>bump_version\<close>, \<open>commit\<close> and the answer, which the four writing handlers share.\<close>

definition finish_txn :: "repl_env \<Rightarrow> KeyValueStore \<Rightarrow> string list \<Rightarrow> txn \<Rightarrow> (world, StoreError + u64) task" where
  "finish_txn E self version_path txn =
     try_task id (bump_version E self version_path txn) (\<lambda>(ver, txn).
     try_task id (commit E txn) (\<lambda>_. Return (Inr ver)))"

definition handle_Set :: "repl_env \<Rightarrow> KeyValueStore \<Rightarrow> string list \<Rightarrow> string list \<Rightarrow> string \<Rightarrow> (world, StoreError + u64) task" where
  "handle_Set E self version_path key val =
     try_task id (rocks E (\<lambda>_. [(get_path self key, Some val)])) (finish_txn E self version_path)"

fun put_all :: "repl_env \<Rightarrow> KeyValueStore \<Rightarrow> (string list \<times> string) list \<Rightarrow> txn \<Rightarrow> (world, StoreError + txn) task" where
  "put_all E self [] txn = Return (Inr txn)"
| "put_all E self ((key, val) # r) txn =
     try_task id (rocks E (\<lambda>_. txn @ [(get_path self key, Some val)])) (put_all E self r)"

definition handle_MultiSet ::
  "repl_env \<Rightarrow> KeyValueStore \<Rightarrow> string list \<Rightarrow> (string list \<times> string) list \<Rightarrow> (world, StoreError + u64) task" where
  "handle_MultiSet E self version_path entries =
     try_task id (put_all E self entries []) (finish_txn E self version_path)"

definition handle_Delete :: "repl_env \<Rightarrow> KeyValueStore \<Rightarrow> string list \<Rightarrow> string list \<Rightarrow> (world, StoreError + u64) task" where
  "handle_Delete E self version_path key =
     try_task id (rocks E (\<lambda>_. [(get_path self key, None)])) (finish_txn E self version_path)"

text \<open>\<open>iter_range\<close>: the iterator sees the database as it is when it is made; every advance may fail.\<close>

definition iter_range :: "string \<Rightarrow> (world, StoreError + (string \<times> string) list) task" where
  "iter_range key = atomic (\<lambda>w. Some (w, Inr (prefix_range key (db w))))"

fun delete_found :: "repl_env \<Rightarrow> (string \<times> string) list \<Rightarrow> txn \<Rightarrow> (world, StoreError + txn) task" where
  "delete_found E [] txn = rocks E (\<lambda>_. txn)"
| "delete_found E ((k, v) # found) txn =
     try_task id (rocks E (\<lambda>_. ())) (\<lambda>_.
     try_task id (rocks E (\<lambda>_. txn @ [(k, None)])) (delete_found E found))"

fun delete_all :: "repl_env \<Rightarrow> KeyValueStore \<Rightarrow> string list list \<Rightarrow> txn \<Rightarrow> (world, StoreError + txn) task" where
  "delete_all E self [] txn = Return (Inr txn)"
| "delete_all E self (key # r) txn =
     try_task id (iter_range (get_path self key)) (\<lambda>found.
     try_task id (delete_found E found txn) (delete_all E self r))"

definition handle_MultiDelete ::
  "repl_env \<Rightarrow> KeyValueStore \<Rightarrow> string list \<Rightarrow> string list list \<Rightarrow> (world, StoreError + u64) task" where
  "handle_MultiDelete E self version_path keys =
     try_task id (delete_all E self keys []) (finish_txn E self version_path)"

fun list_found ::
  "repl_env \<Rightarrow> nat \<Rightarrow> (string \<times> string) list \<Rightarrow> (string \<times> string) list \<Rightarrow> (world, StoreError + (string \<times> string) list) task" where
  "list_found E skip [] m = rocks E (\<lambda>_. m)"
| "list_found E skip ((k, v) # found) m =
     try_task id (rocks E (\<lambda>_. ())) (\<lambda>_.
     try_task id (from_utf8_unwrap (drop skip k)) (\<lambda>keystring.
     try_task id (from_utf8_unwrap v) (\<lambda>val.
     list_found E skip found (AList.update keystring val m))))"

definition handle_List :: "repl_env \<Rightarrow> KeyValueStore \<Rightarrow> string list \<Rightarrow> (world, StoreError + (string \<times> string) list) task" where
  "handle_List E self prefix_keys =
     (let path = get_path self prefix_keys in
      try_task id (iter_range path) (\<lambda>found. list_found E (length path) found []))"

section \<open>Owner of the stores\<close>

datatype StoreType = ContentAddressableBlob | KeyValue

fun StoreType_str :: "StoreType \<Rightarrow> string" where
  "StoreType_str ContentAddressableBlob = ''ContentAddressableBlob''"
| "StoreType_str KeyValue = ''KeyValue''"

datatype GetOrCreateError = StoreTypeMissmatch string string | GetOrCreateStoreError StoreError

definition check_or_create_store_type :: "repl_env \<Rightarrow> string \<Rightarrow> StoreType \<Rightarrow> (world, GetOrCreateError + unit option) task" where
  "check_or_create_store_type E name store_type =
     (let type_key = NUL # ''type'' @ NUL # name in
      try_task GetOrCreateStoreError (rocks E (\<lambda>d. map_of d type_key)) (\<lambda>v.
      case v of
        Some entry \<Rightarrow>
          if entry = StoreType_str store_type then Return (Inr (Some ()))
          else try_task id (from_utf8_unwrap entry) (\<lambda>s.
                 Return (Inl (StoreTypeMissmatch (StoreType_str store_type) s)))
      | None \<Rightarrow>
          try_task GetOrCreateStoreError (commit E [(type_key, Some (StoreType_str store_type))]) (\<lambda>_.
          Return (Inr (Some ())))))"

definition handle_GetOrCreateKeyValueStore :: "repl_env \<Rightarrow> string \<Rightarrow> (world, GetOrCreateError + KeyValueStore) task" where
  "handle_GetOrCreateKeyValueStore E name =
     try_task id (check_or_create_store_type E name KeyValue) (\<lambda>_.
     atomic (\<lambda>w. case map_of (kv_stores w) name of
         Some addr \<Rightarrow> Some (w, Inr addr)
       | None \<Rightarrow> (let kv_store = \<lparr>kv_name = name\<rparr> in
                  Some (w\<lparr>kv_stores := AList.update name kv_store (kv_stores w)\<rparr>, Inr kv_store))))"

definition handle_GetOrCreateContentAddressableBlobStore ::
  "repl_env \<Rightarrow> string \<Rightarrow> PathBuf \<Rightarrow> (world, GetOrCreateError + ContentAddressableBlobStore) task" where
  "handle_GetOrCreateContentAddressableBlobStore E name path =
     try_task id (check_or_create_store_type E name ContentAddressableBlob) (\<lambda>_.
     atomic (\<lambda>w. case map_of (blob_stores w) name of
         Some addr \<Rightarrow> Some (w, Inr addr)
       | None \<Rightarrow> (let blob_store = \<lparr>blob_name = name, base_path = path\<rparr> in
                  Some (w\<lparr>blob_stores := AList.update name blob_store (blob_stores w)\<rparr>, Inr blob_store))))"

section \<open>Blob store\<close>

definition get_disk_base_path :: "ContentAddressableBlobStore \<Rightarrow> PathBuf" where
  "get_disk_base_path self = path_join (base_path self) ''data''"

definition get_disk_path :: "ContentAddressableBlobStore \<Rightarrow> string \<Rightarrow> PathBuf" where
  "get_disk_path self sha256sum = path_join (get_disk_base_path self) sha256sum"

definition get_disk_tmp_path :: "repl_env \<Rightarrow> ContentAddressableBlobStore \<Rightarrow> (world, PathBuf) task" where
  "get_disk_tmp_path E self = atomic (\<lambda>w.
     Some (w\<lparr>calls := Suc (calls w)\<rparr>,
           path_join (path_join (get_disk_base_path self) ''tmp'') (new_uuid E (calls w))))"

text \<open>\<open>started\<close>: a directory that cannot be made is a panic.\<close>

definition blob_store_started :: "repl_env \<Rightarrow> ContentAddressableBlobStore \<Rightarrow> (world, unit) task" where
  "blob_store_started E self =
     bind_task (fs_create_dir_all E (path_join (path_join (base_path self) ''data'') ''tmp''))
       (\<lambda>r. case r of Inl e \<Rightarrow> panic | Inr u \<Rightarrow> Return u)"

text \<open>
  \<open>hash_file\<close>: the contexts of the two hash functions are the bytes fed to them. The last read returns
  no bytes.
\<close>

fun hash_loop :: "repl_env \<Rightarrow> bytes list \<Rightarrow> bytes \<Rightarrow> bytes \<Rightarrow> (world, string + (string \<times> string)) task" where
  "hash_loop E [] md5_hash sha2_256_hash = io E (\<lambda>w. (w, Inr (md5_hex E md5_hash, sha256_hex E sha2_256_hash)))"
| "hash_loop E (buf # bufs) md5_hash sha2_256_hash =
     try_task id (io E (\<lambda>w. (w, Inr ()))) (\<lambda>_. hash_loop E bufs (md5_hash @ buf) (sha2_256_hash @ buf))"

definition hash_file :: "repl_env \<Rightarrow> PathBuf \<Rightarrow> (world, string + (string \<times> string)) task" where
  "hash_file E path = try_task id (fs_open E path) (\<lambda>content. hash_loop E (read_pieces E 65536 content) [] [])"

record BlobInfo =
  bi_md5sum :: string
  bi_sha256sum :: string
  bi_size :: u64

datatype PutBlobError = PutBlobStore StoreError | PutBlobRead string | PutBlobIo string

text \<open>\<open>forward\<close>: the items of the stream are written one by one, an error ends it, the end closes the file.\<close>

fun forward :: "repl_env \<Rightarrow> PathBuf \<Rightarrow> (string + bytes) list \<Rightarrow> (world, PutBlobError + unit) task" where
  "forward E file [] = try_task PutBlobIo (io E (\<lambda>w. (w, Inr ()))) (\<lambda>_. Return (Inr ()))"
| "forward E file (Inl msg # r) = Return (Inl (PutBlobRead msg))"
| "forward E file (Inr b # r) = try_task PutBlobIo (fs_append E file b) (\<lambda>_. forward E file r)"

definition handle_PutBlob :: "repl_env \<Rightarrow> ContentAddressableBlobStore \<Rightarrow> (string + bytes) list \<Rightarrow> (world, PutBlobError + BlobInfo) task" where
  "handle_PutBlob E self stream =
     (let basedir = get_disk_base_path self in
      bind_task (get_disk_tmp_path E self) (\<lambda>tmpfile.
      try_task PutBlobIo (fs_create E tmpfile) (\<lambda>_.
      try_task id (forward E tmpfile stream) (\<lambda>_.
      try_task PutBlobIo (hash_file E tmpfile) (\<lambda>(md5sum, sha256sum).
      let target_name = path_join basedir sha256sum in
      try_task PutBlobIo (fs_rename E tmpfile target_name) (\<lambda>_.
      try_task PutBlobIo (fs_metadata E target_name) (\<lambda>(is_file, len).
      Return (Inr \<lparr>bi_md5sum = md5sum, bi_sha256sum = sha256sum, bi_size = len\<rparr>))))))))"

datatype GetBlobError = GetBlobStore StoreError | GetBlobRead string | GetBlobIo string | GetBlobDoesNotExist

text \<open>
  The stream of \<open>GetBlob\<close> reads the file that was opened, also when its name is removed or replaced
  later. It is the list of the pieces read.
\<close>

definition handle_GetBlob :: "repl_env \<Rightarrow> ContentAddressableBlobStore \<Rightarrow> string \<Rightarrow> (world, GetBlobError + bytes list) task" where
  "handle_GetBlob E self sha256sum =
     (let filepath = get_disk_path self sha256sum in
      try_task GetBlobIo (fs_metadata E filepath) (\<lambda>(is_file, len).
      if \<not> is_file then Return (Inl GetBlobDoesNotExist)
      else try_task GetBlobIo (fs_open E filepath) (\<lambda>content. Return (Inr (read_pieces E 8192 content)))))"

datatype DeleteBlobError = DeleteBlobStore StoreError | DeleteBlobIo string | DeleteBlobDoesNotExist

definition handle_DeleteBlob :: "repl_env \<Rightarrow> ContentAddressableBlobStore \<Rightarrow> string \<Rightarrow> (world, DeleteBlobError + unit) task" where
  "handle_DeleteBlob E self sha256sum =
     (let filepath = get_disk_path self sha256sum in
      try_task DeleteBlobIo (fs_metadata E filepath) (\<lambda>(is_file, len).
      if \<not> is_file then Return (Inl DeleteBlobDoesNotExist)
      else try_task DeleteBlobIo (fs_remove_file E filepath) (\<lambda>_. Return (Inr ()))))"

end
