(* ===== verification/Repli_S3.thy ===== *)
theory Repli_S3
  imports Repli_Stores
begin

text \<open>
  \<open>replistore/src/frontend/s3/s3_backend.rs\<close> and \<open>messages.rs\<close>: the handlers of the S3 actor as tasks, and
  \<open>s3_frontend.rs\<close>: what an S3 client sees of them.
\<close>

section \<open>Messages\<close>

datatype S3Error = S3Error StoreError

record Object =
  obj_key :: string
  obj_md5sum :: string
  obj_sha256sum :: string
  obj_last_modified :: OffsetDateTime
  obj_size :: u64

datatype CreateBucketError = CreateBucketS3Error S3Error | BucketAlreadyExists

datatype PutObjectError = PutObjectS3Error S3Error | PutBucketNotFound | PutReadDataError string

fun PutObjectError_from :: "PutBlobError \<Rightarrow> PutObjectError" where
  "PutObjectError_from (PutBlobStore e) = PutObjectS3Error (S3Error e)"
| "PutObjectError_from (PutBlobRead msg) = PutReadDataError msg"
| "PutObjectError_from (PutBlobIo e) = PutReadDataError e"

datatype ListObjectError = ListObjectS3Error S3Error | ListBucketNotFound

datatype HeadObjectError = HeadObjectS3Error S3Error | HeadBucketNotFound | HeadObjectNotFound

datatype GetObjectError = GetObjectS3Error S3Error | GetBucketNotFound | GetObjectNotFound | GetReadDataError string

fun GetObjectError_from :: "GetBlobError \<Rightarrow> GetObjectError" where
  "GetObjectError_from (GetBlobStore e) = GetObjectS3Error (S3Error e)"
| "GetObjectError_from (GetBlobRead msg) = GetReadDataError msg"
| "GetObjectError_from (GetBlobIo e) = GetReadDataError e"
| "GetObjectError_from GetBlobDoesNotExist = GetObjectNotFound"

datatype DeleteObjectError =
  DeleteObjectS3Error S3Error | DeleteBucketNotFound | DeleteObjectNotFound | DeleteReadDataError string

fun DeleteObjectError_from :: "DeleteBlobError \<Rightarrow> DeleteObjectError" where
  "DeleteObjectError_from (DeleteBlobStore e) = DeleteObjectS3Error (S3Error e)"
| "DeleteObjectError_from (DeleteBlobIo e) = DeleteReadDataError e"
| "DeleteObjectError_from DeleteBlobDoesNotExist = DeleteObjectNotFound"

datatype ReceiveEventError = ReceiveS3Error S3Error | BucketNotExists

section \<open>Actor\<close>

record S3 =
  s3_kv_store :: "KeyValueStore option"
  s3_blob_store :: "ContentAddressableBlobStore option"
  storage_dir :: PathBuf

definition S3_new :: "PathBuf \<Rightarrow> S3" where
  "S3_new dir = \<lparr>s3_kv_store = None, s3_blob_store = None, storage_dir = dir\<rparr>"

text \<open>\<open>self.store()\<close> and \<open>self.blob_store()\<close>, followed by the rest of the handler.\<close>

definition with_store :: "S3 \<Rightarrow> (KeyValueStore \<Rightarrow> (world, 'a) task) \<Rightarrow> (world, 'a) task" where
  "with_store self f = (case s3_kv_store self of None \<Rightarrow> panic | Some addr \<Rightarrow> f addr)"

definition with_blob_store :: "S3 \<Rightarrow> (ContentAddressableBlobStore \<Rightarrow> (world, 'a) task) \<Rightarrow> (world, 'a) task" where
  "with_blob_store self f = (case s3_blob_store self of None \<Rightarrow> panic | Some addr \<Rightarrow> f addr)"

definition bucket_path :: "string \<Rightarrow> string list" where
  "bucket_path name = [''buckets'', name]"

definition bucket_version_path :: "string \<Rightarrow> string list" where
  "bucket_version_path name = [''bucketmeta'', name, ''version'']"

definition object_path :: "string \<Rightarrow> string \<Rightarrow> string list" where
  "object_path bucket key = [''objects'', bucket, key]"

definition objectmeta_path :: "string \<Rightarrow> string \<Rightarrow> string \<Rightarrow> string list" where
  "objectmeta_path bucket key suf = [''objectmeta'', bucket, key, suf]"

definition meta_store_name :: "string \<Rightarrow> string" where
  "meta_store_name bucket = ''s3metadata'' @ NUL # bucket"

definition with_bucket_store ::
  "repl_env \<Rightarrow> S3 \<Rightarrow> string \<Rightarrow> 'e \<Rightarrow> (StoreError \<Rightarrow> 'e) \<Rightarrow> (KeyValueStore \<Rightarrow> (world, 'e + 'a) task) \<Rightarrow> (world, 'e + 'a) task" where
  "with_bucket_store E self bucket not_found_error conv handler =
     with_store self (\<lambda>root_store.
     try_task conv (deliver (handle_Get E root_store (bucket_path bucket))) (\<lambda>resp.
     if resp = None then Return (Inl not_found_error)
     else bind_task (deliver (handle_GetOrCreateKeyValueStore E (meta_store_name bucket))) (\<lambda>r.
       case r of
         Inr addr \<Rightarrow> handler addr
       | Inl (GetOrCreateStoreError e) \<Rightarrow> Return (Inl (conv e))
       | Inl (StoreTypeMissmatch store e) \<Rightarrow> panic)))"

text \<open>\<open>i64::from_str\<close>; \<open>u64::from_str\<close> is \<open>parse_u64\<close>. Both are followed by \<open>unwrap_or_default\<close>.\<close>

definition parse_i64 :: "string \<Rightarrow> int option" where
  "parse_i64 s =
     (case s of
        [] \<Rightarrow> None
      | c # r \<Rightarrow>
          if c = CHR ''-'' then
            (if r = [] then None
             else Option.bind (parse_digits 0 r) (\<lambda>n. if n \<le> 2 ^ 63 then Some (- int n) else None))
          else
            Option.bind (if c = CHR ''+'' then (if r = [] then None else parse_digits 0 r) else parse_digits 0 s)
              (\<lambda>n. if n < 2 ^ 63 then Some (int n) else None))"

definition show_i64 :: "int \<Rightarrow> string" where
  "show_i64 i = (if i < 0 then CHR ''-'' # show_nat (nat (- i)) else show_nat (nat i))"

definition option_or :: "'a option \<Rightarrow> 'a \<Rightarrow> 'a" where
  "option_or v d = (case v of None \<Rightarrow> d | Some x \<Rightarrow> x)"

definition meta_to_obj :: "repl_env \<Rightarrow> KeyValueStore \<Rightarrow> string \<Rightarrow> string \<Rightarrow> (world, StoreError + Object) task" where
  "meta_to_obj E store bucket obj =
     try_task id (deliver (handle_List E store [''objectmeta'', bucket, obj, []])) (\<lambda>meta.
     case from_unix_timestamp E (option_or (Option.bind (map_of meta ''last_modified'') parse_i64) 0) of
       None \<Rightarrow> panic
     | Some last_modified \<Rightarrow>
         Return (Inr \<lparr>obj_key = obj, obj_md5sum = option_or (map_of meta ''md5sum'') [],
           obj_sha256sum = option_or (map_of meta ''sha256sum'') [], obj_last_modified = last_modified,
           obj_size = option_or (Option.bind (map_of meta ''size'') parse_u64) 0\<rparr>))"

text \<open>
  \<open>started\<close>: both stores are asked for before any other message is handled; the blob store makes its
  directory when it starts. \<open>None\<close> is an actor that has stopped itself.
\<close>

definition S3_started :: "repl_env \<Rightarrow> S3 \<Rightarrow> (world, S3 option) task" where
  "S3_started E self =
     bind_task (deliver (handle_GetOrCreateKeyValueStore E (''s3metadata'' @ NUL # ''root''))) (\<lambda>r.
     case r of
       Inl e \<Rightarrow> Return None
     | Inr kv \<Rightarrow>
         bind_task (deliver (handle_GetOrCreateContentAddressableBlobStore E ''s3data'' (path_join (storage_dir self) ''s3data''))) (\<lambda>r.
         case r of
           Inl e \<Rightarrow> Return None
         | Inr blob \<Rightarrow>
             bind_task (blob_store_started E blob) (\<lambda>_.
             Return (Some (self\<lparr>s3_kv_store := Some kv, s3_blob_store := Some blob\<rparr>)))))"

section \<open>Buckets\<close>

definition handle_ListBuckets :: "repl_env \<Rightarrow> S3 \<Rightarrow> (world, S3Error + string list) task" where
  "handle_ListBuckets E self =
     with_store self (\<lambda>store.
     try_task S3Error (deliver (handle_List E store [''buckets'', []])) (\<lambda>resp.
     Return (Inr (map fst resp))))"

definition handle_CreateBucket :: "repl_env \<Rightarrow> S3 \<Rightarrow> string \<Rightarrow> (world, CreateBucketError + string) task" where
  "handle_CreateBucket E self name =
     with_store self (\<lambda>store.
     try_task (CreateBucketS3Error \<circ> S3Error) (deliver (handle_Get E store (bucket_path name))) (\<lambda>resp.
     if resp \<noteq> None then Return (Inl BucketAlreadyExists)
     else try_task (CreateBucketS3Error \<circ> S3Error)
            (deliver (handle_Set E store (bucket_version_path name) (bucket_path name) [])) (\<lambda>_.
          Return (Inr name))))"

definition handle_HeadBucket :: "repl_env \<Rightarrow> S3 \<Rightarrow> string \<Rightarrow> (world, S3Error + unit option) task" where
  "handle_HeadBucket E self name =
     with_store self (\<lambda>store.
     try_task S3Error (deliver (handle_Get E store (bucket_path name))) (\<lambda>resp.
     Return (Inr (if resp \<noteq> None then Some () else None))))"

section \<open>Objects\<close>

definition handle_ListObject :: "repl_env \<Rightarrow> S3 \<Rightarrow> string \<Rightarrow> string \<Rightarrow> (world, ListObjectError + Object list) task" where
  "handle_ListObject E self bucket pre =
     with_bucket_store E self bucket ListBucketNotFound (ListObjectS3Error \<circ> S3Error) (\<lambda>store.
     try_task (ListObjectS3Error \<circ> S3Error) (deliver (handle_List E store (object_path bucket pre))) (\<lambda>resp.
     try_task (ListObjectS3Error \<circ> S3Error) (traverse_task (meta_to_obj E store bucket) (map fst resp)) (\<lambda>result.
     Return (Inr result))))"

definition handle_HeadObject :: "repl_env \<Rightarrow> S3 \<Rightarrow> string \<Rightarrow> string \<Rightarrow> (world, HeadObjectError + Object) task" where
  "handle_HeadObject E self bucket key =
     with_bucket_store E self bucket HeadBucketNotFound (HeadObjectS3Error \<circ> S3Error) (\<lambda>store.
     try_task (HeadObjectS3Error \<circ> S3Error) (deliver (handle_Get E store (object_path bucket key))) (\<lambda>resp.
     if resp = None then Return (Inl HeadObjectNotFound)
     else try_task (HeadObjectS3Error \<circ> S3Error) (meta_to_obj E store bucket key) (\<lambda>obj. Return (Inr obj))))"

text \<open>\<open>replicator.do_send(ReplicateEvent { .. })\<close> and \<open>OffsetDateTime::now_utc()\<close>.\<close>

definition send_replicate :: "BucketEvent \<Rightarrow> (world, unit) task" where
  "send_replicate e = atomic (\<lambda>w. Some (w\<lparr>to_replicator := to_replicator w @ [e]\<rparr>, ()))"

definition clock :: "repl_env \<Rightarrow> (world, OffsetDateTime) task" where
  "clock E = atomic (\<lambda>w. Some (w\<lparr>calls := Suc (calls w)\<rparr>, now_utc E (calls w)))"

definition object_entries :: "repl_env \<Rightarrow> string \<Rightarrow> string \<Rightarrow> OffsetDateTime \<Rightarrow> BlobInfo \<Rightarrow> (string list \<times> string) list" where
  "object_entries E bucket key last_modified info =
     [(object_path bucket key, []),
      (objectmeta_path bucket key ''last_modified'', show_i64 (unix_timestamp E last_modified)),
      (objectmeta_path bucket key ''md5sum'', bi_md5sum info),
      (objectmeta_path bucket key ''sha256sum'', bi_sha256sum info),
      (objectmeta_path bucket key ''size'', show_u64 (bi_size info))]"

definition put_event :: "repl_env \<Rightarrow> string \<Rightarrow> string \<Rightarrow> OffsetDateTime \<Rightarrow> BlobInfo \<Rightarrow> u64 \<Rightarrow> BucketEvent" where
  "put_event E bucket key last_modified info ver =
     \<lparr>bucket_name = bucket,
      bucket_events = [\<lparr>event_type = Put, event_version = ver, event_object_name = key,
        event_object_meta = Some \<lparr>om_last_modified = Some (unix_timestamp E last_modified),
          om_size = bi_size info, om_md5sum = bi_md5sum info, om_sha256sum = bi_sha256sum info\<rparr>\<rparr>],
      bucket_objects = []\<rparr>"

definition put_result :: "string \<Rightarrow> OffsetDateTime \<Rightarrow> BlobInfo \<Rightarrow> Object" where
  "put_result key last_modified info =
     \<lparr>obj_key = key, obj_md5sum = bi_md5sum info, obj_sha256sum = bi_sha256sum info,
      obj_last_modified = last_modified, obj_size = bi_size info\<rparr>"

definition handle_PutObject ::
  "repl_env \<Rightarrow> S3 \<Rightarrow> string \<Rightarrow> string \<Rightarrow> (string + bytes) list \<Rightarrow> (world, PutObjectError + Object) task" where
  "handle_PutObject E self bucket key stream =
     with_blob_store self (\<lambda>blob_store.
     with_bucket_store E self bucket PutBucketNotFound (PutObjectS3Error \<circ> S3Error) (\<lambda>store.
     try_task PutObjectError_from (handle_PutBlob E blob_store stream) (\<lambda>info.
     bind_task (clock E) (\<lambda>last_modified.
     try_task (PutObjectS3Error \<circ> S3Error)
       (deliver (handle_MultiSet E store (bucket_version_path bucket) (object_entries E bucket key last_modified info))) (\<lambda>ver.
     bind_task (send_replicate (put_event E bucket key last_modified info ver)) (\<lambda>_.
     Return (Inr (put_result key last_modified info))))))))"

definition handle_GetObject :: "repl_env \<Rightarrow> S3 \<Rightarrow> string \<Rightarrow> string \<Rightarrow> (world, GetObjectError + (Object \<times> bytes list)) task" where
  "handle_GetObject E self bucket key =
     with_blob_store self (\<lambda>blob_store.
     with_bucket_store E self bucket GetBucketNotFound (GetObjectS3Error \<circ> S3Error) (\<lambda>store.
     try_task (GetObjectS3Error \<circ> S3Error) (deliver (handle_Get E store (object_path bucket key))) (\<lambda>resp.
     if resp = None then Return (Inl GetObjectNotFound)
     else
       try_task (GetObjectS3Error \<circ> S3Error) (meta_to_obj E store bucket key) (\<lambda>meta.
       try_task GetObjectError_from (handle_GetBlob E blob_store (obj_sha256sum meta)) (\<lambda>resp.
       Return (Inr (meta, resp)))))))"

definition delete_event :: "string \<Rightarrow> string \<Rightarrow> u64 \<Rightarrow> BucketEvent" where
  "delete_event bucket key ver =
     \<lparr>bucket_name = bucket,
      bucket_events = [\<lparr>event_type = Delete, event_version = ver, event_object_name = key, event_object_meta = None\<rparr>],
      bucket_objects = []\<rparr>"

definition handle_DeleteObject :: "repl_env \<Rightarrow> S3 \<Rightarrow> string \<Rightarrow> string \<Rightarrow> (world, DeleteObjectError + unit) task" where
  "handle_DeleteObject E self bucket key =
     with_blob_store self (\<lambda>blob_store.
     with_bucket_store E self bucket DeleteBucketNotFound (DeleteObjectS3Error \<circ> S3Error) (\<lambda>store.
     try_task (DeleteObjectS3Error \<circ> S3Error) (deliver (handle_Get E store (object_path bucket key))) (\<lambda>resp.
     if resp = None then Return (Inl DeleteObjectNotFound)
     else
       try_task (DeleteObjectS3Error \<circ> S3Error) (meta_to_obj E store bucket key) (\<lambda>meta.
       try_task (DeleteObjectS3Error \<circ> S3Error)
         (deliver (handle_MultiDelete E store (bucket_version_path bucket)
            [object_path bucket key, [''objectmeta'', bucket, key, []]])) (\<lambda>ver.
       bind_task (send_replicate (delete_event bucket key ver)) (\<lambda>_.
       try_task DeleteObjectError_from (handle_DeleteBlob E blob_store (obj_sha256sum meta)) (\<lambda>_.
       Return (Inr ()))))))))"

text \<open>
  Replication is not finished in the code: the version of the bucket is read and written to the log
  for every event received.
\<close>

definition handle_EventReplicationReceived :: "repl_env \<Rightarrow> S3 \<Rightarrow> BucketEvent \<Rightarrow> (world, ReceiveEventError + unit) task" where
  "handle_EventReplicationReceived E self store_event =
     (let bucket = bucket_name store_event in
      with_bucket_store E self bucket BucketNotExists (ReceiveS3Error \<circ> S3Error) (\<lambda>store.
      try_task (ReceiveS3Error \<circ> S3Error)
        (traverse_task (\<lambda>event. deliver (handle_Get E store (bucket_version_path bucket))) (bucket_events store_event)) (\<lambda>_.
      Return (Inr ()))))"

end
