(* ===== verification/Repli_Replication.thy ===== *)
theory Repli_Replication
  imports Repli_S3 Client_Lib
begin

text \<open>
  \<open>replistore/src/replication\<close>, \<open>common/settings.rs\<close> and \<open>main.rs\<close>: the replicator passes the events of the S3
  actor to a client of \<open>dtrd\<close>, which submits them as bundles, and passes the events in the bundles that
  arrive to the S3 actor. The code that \<open>prost\<close> generates for events is a parameter: \<open>enc\<close> and \<open>dec\<close>.
\<close>

section \<open>Settings\<close>

record RepliSettings =
  st_tokio_tracing_port :: "string option"
  st_dtrd_url :: string
  st_dtn_endpoint :: string
  st_repl_target :: string
  st_storage_dir :: PathBuf
  st_s3_port :: u16

definition RepliSettings_default :: RepliSettings where
  "RepliSettings_default =
     \<lparr>st_tokio_tracing_port = None, st_dtrd_url = ''http://localhost:50051'',
      st_dtn_endpoint = ''dtn://defaultnodeid/myendpoint'', st_repl_target = ''dtn://defaultnodeid/myotherendpoint'',
      st_storage_dir = path_parts ''/tmp/replistore'', st_s3_port = 8080\<rparr>"

text \<open>\<open>u16::from_str\<close>.\<close>

definition parse_u16 :: "string \<Rightarrow> u16 option" where
  "parse_u16 s = (case parse_u64 s of None \<Rightarrow> None | Some v \<Rightarrow> if unat v < 2 ^ 16 then Some (of_nat (unat v)) else None)"

definition with_var :: "(string \<Rightarrow> string option) \<Rightarrow> string \<Rightarrow> (string \<Rightarrow> RepliSettings \<Rightarrow> RepliSettings) \<Rightarrow> RepliSettings \<Rightarrow> RepliSettings" where
  "with_var env name f s = (case env name of Some setting \<Rightarrow> f setting s | None \<Rightarrow> s)"

definition RepliSettings_from_env :: "(string \<Rightarrow> string option) \<Rightarrow> (RepliSettings, 'e) result" where
  "RepliSettings_from_env env =
     (let s = RepliSettings_default;
          s = with_var env ''TOKIO_TRACING_PORT'' (\<lambda>v. st_tokio_tracing_port_update (\<lambda>_. Some v)) s;
          s = with_var env ''DTRD_URL'' (\<lambda>v. st_dtrd_url_update (\<lambda>_. v)) s;
          s = with_var env ''DTN_ENDPOINT'' (\<lambda>v. st_dtn_endpoint_update (\<lambda>_. v)) s;
          s = with_var env ''REPL_TARGET'' (\<lambda>v. st_repl_target_update (\<lambda>_. v)) s;
          s = with_var env ''REPLISTORE_DIR'' (\<lambda>v. st_storage_dir_update (\<lambda>_. path_parts v)) s
      in case env ''S3_PORT'' of
           None \<Rightarrow> Ok s
         | Some setting \<Rightarrow> and_then (unwrap (parse_u16 setting)) (\<lambda>port. Ok (s\<lparr>st_s3_port := port\<rparr>)))"

section \<open>Client of dtrd\<close>

text \<open>A connected \<open>Client\<close> has no data of its own here, see \<open>Client_Lib\<close>.\<close>

record DtrdClient =
  dc_url :: string
  dc_endpoint :: string
  dc_repl_target :: string
  dc_client :: "unit option"

definition DtrdClient_new :: "string \<Rightarrow> string \<Rightarrow> string \<Rightarrow> DtrdClient" where
  "DtrdClient_new u ep tgt = \<lparr>dc_url = u, dc_endpoint = ep, dc_repl_target = tgt, dc_client = None\<rparr>"

definition unwrap_call :: "('s, 't, 'st, 'a) client_call \<Rightarrow> 's \<Rightarrow> ('s \<times> 'a, 'e) result" where
  "unwrap_call c s = (case c s of (s', Inl e) \<Rightarrow> Panic | (s', Inr x) \<Rightarrow> Ok (s', x))"

text \<open>\<open>started\<close>: connect and listen; the stream of bundles is handled by the actor from then on.\<close>

definition DtrdClient_started ::
  "('s, 't, 'st, 'uri, 'u) grpc \<Rightarrow> DtrdClient \<Rightarrow> 's \<Rightarrow> ('s \<times> DtrdClient \<times> (('t, 'st) client_Error + bytes) list, 'e) result" where
  "DtrdClient_started g self s =
     and_then (unwrap_call (Client_new g (dc_url self)) s) (\<lambda>(s, ret).
     and_then (unwrap_call (Client_listen_bundles g (dc_endpoint self)) s) (\<lambda>(s, stream).
     Ok (s, self\<lparr>dc_client := Some ret\<rparr>, stream)))"

definition DtrdClient_handle_ReplicateEvent ::
  "('s, 't, 'st, 'uri, 'u) grpc \<Rightarrow> (BucketEvent \<Rightarrow> bytes) \<Rightarrow> DtrdClient \<Rightarrow> BucketEvent \<Rightarrow> 's \<Rightarrow> ('s, 'e) result" where
  "DtrdClient_handle_ReplicateEvent g enc self bucket_event s =
     and_then (unwrap (dc_client self)) (\<lambda>_.
     and_then (unwrap_call (Client_submit_bundle g (dc_repl_target self) 30 (enc bucket_event) False) s) (\<lambda>(s, _). Ok s))"

section \<open>Replicator\<close>

text \<open>The receiver is the S3 actor; \<open>None\<close> is also one that has stopped itself, whose mailbox is closed.\<close>

record Replicator =
  rp_client :: "DtrdClient option"
  rp_receiver :: "S3 option"
  rp_settings :: RepliSettings

definition Replicator_new :: "RepliSettings \<Rightarrow> Replicator" where
  "Replicator_new settings = \<lparr>rp_client = None, rp_receiver = None, rp_settings = settings\<rparr>"

definition Replicator_started :: "Replicator \<Rightarrow> Replicator" where
  "Replicator_started self = self\<lparr>rp_client := Some (DtrdClient_new (st_dtrd_url (rp_settings self))
     (st_dtn_endpoint (rp_settings self)) (st_repl_target (rp_settings self)))\<rparr>"

text \<open>The message for the client of \<open>dtrd\<close>.\<close>

definition Replicator_handle_ReplicateEvent :: "Replicator \<Rightarrow> BucketEvent \<Rightarrow> (DtrdClient \<times> BucketEvent, 'e) result" where
  "Replicator_handle_ReplicateEvent self msg = and_then (unwrap (rp_client self)) (\<lambda>c. Ok (c, msg))"

definition handle_SetEventReceiver :: "S3 option \<Rightarrow> Replicator \<Rightarrow> Replicator" where
  "handle_SetEventReceiver recipient self = self\<lparr>rp_receiver := recipient\<rparr>"

definition Replicator_handle_EventReplicationReceived ::
  "repl_env \<Rightarrow> Replicator \<Rightarrow> BucketEvent \<Rightarrow> (world, ReceiveEventError + unit) task" where
  "Replicator_handle_EventReplicationReceived E self store_event =
     (case rp_receiver self of None \<Rightarrow> panic | Some receiver \<Rightarrow> handle_EventReplicationReceived E receiver store_event)"

text \<open>The bundles of the stream: an error and bytes that are no event panic, the result is only logged.\<close>

definition handle_stream_item ::
  "repl_env \<Rightarrow> (bytes \<Rightarrow> BucketEvent option) \<Rightarrow> Replicator \<Rightarrow> ('t, 'st) client_Error + bytes \<Rightarrow> (world, unit) task" where
  "handle_stream_item E dec replicator item =
     (case item of
        Inl e \<Rightarrow> panic
      | Inr buf \<Rightarrow>
          (case dec buf of
             None \<Rightarrow> panic
           | Some event \<Rightarrow> bind_task (Replicator_handle_EventReplicationReceived E replicator event) (\<lambda>res. Return ())))"

section \<open>Main\<close>

text \<open>
  \<open>StoreOwner::new\<close>: the database of the state is the one at \<open>db_path\<close>, and no store runs yet. The actors that
  \<open>main\<close> starts: the S3 actor registers with the replicator and then asks for its stores.
\<close>

definition StoreOwner_new :: "repl_env \<Rightarrow> PathBuf \<Rightarrow> (world, StoreError + unit) task" where
  "StoreOwner_new E db_path =
     try_task id (rocks E (\<lambda>_. ())) (\<lambda>_. atomic (\<lambda>w. Some (w\<lparr>kv_stores := [], blob_stores := []\<rparr>, Inr ())))"

definition replistore_main :: "repl_env \<Rightarrow> (string \<Rightarrow> string option) \<Rightarrow> (world, Replicator \<times> S3 option) task" where
  "replistore_main E env =
     (case RepliSettings_from_env env of
        Ok settings \<Rightarrow>
          (let replicator = Replicator_started (Replicator_new settings) in
           bind_task (StoreOwner_new E (path_join (st_storage_dir settings) ''db'')) (\<lambda>r.
           case r of
             Inl e \<Rightarrow> panic
           | Inr storeowner \<Rightarrow>
               bind_task (S3_started E (S3_new (st_storage_dir settings))) (\<lambda>s3.
               Return (handle_SetEventReceiver s3 replicator, s3))))
      | Err (e :: unit) \<Rightarrow> panic
      | Panic \<Rightarrow> panic)"

end
