(* ===== verification/Repli_Frontend.thy ===== *)
theory Repli_Frontend
  imports Repli_S3
begin

text \<open>
  \<open>replistore/src/frontend/s3/s3_frontend.rs\<close>: the service that the S3 library calls, one task per
  request, with the translation of every error to the code a client sees.
\<close>

section \<open>Errors\<close>

datatype S3ErrorCode = InternalError | BucketAlreadyExistsCode | NoSuchBucket | NoSuchKey | InvalidRequest

text \<open>The message of an error is a text or the debug output of an error of the store.\<close>

datatype error_message = NoText | Text string | DebugOutput S3Error

datatype s3s_error = S3sError S3ErrorCode error_message

definition s3_error :: "S3ErrorCode \<Rightarrow> s3s_error" where
  "s3_error code = S3sError code NoText"

definition s3s_from_S3Error :: "S3Error \<Rightarrow> s3s_error" where
  "s3s_from_S3Error e = S3sError InternalError (DebugOutput e)"

fun s3s_from_CreateBucketError :: "CreateBucketError \<Rightarrow> s3s_error" where
  "s3s_from_CreateBucketError (CreateBucketS3Error e) = s3s_from_S3Error e"
| "s3s_from_CreateBucketError BucketAlreadyExists = s3_error BucketAlreadyExistsCode"

fun s3s_from_ListObjectError :: "ListObjectError \<Rightarrow> s3s_error" where
  "s3s_from_ListObjectError (ListObjectS3Error e) = s3s_from_S3Error e"
| "s3s_from_ListObjectError ListBucketNotFound = s3_error NoSuchBucket"

fun s3s_from_PutObjectError :: "PutObjectError \<Rightarrow> s3s_error" where
  "s3s_from_PutObjectError (PutObjectS3Error e) = s3s_from_S3Error e"
| "s3s_from_PutObjectError PutBucketNotFound = s3_error NoSuchBucket"
| "s3s_from_PutObjectError (PutReadDataError msg) = S3sError InternalError (Text msg)"

fun s3s_from_HeadObjectError :: "HeadObjectError \<Rightarrow> s3s_error" where
  "s3s_from_HeadObjectError (HeadObjectS3Error e) = s3s_from_S3Error e"
| "s3s_from_HeadObjectError HeadBucketNotFound = s3_error NoSuchBucket"
| "s3s_from_HeadObjectError HeadObjectNotFound = s3_error NoSuchKey"

fun s3s_from_GetObjectError :: "GetObjectError \<Rightarrow> s3s_error" where
  "s3s_from_GetObjectError (GetObjectS3Error e) = s3s_from_S3Error e"
| "s3s_from_GetObjectError GetBucketNotFound = s3_error NoSuchBucket"
| "s3s_from_GetObjectError GetObjectNotFound = s3_error NoSuchKey"
| "s3s_from_GetObjectError (GetReadDataError msg) = S3sError InternalError (Text msg)"

fun s3s_from_DeleteObjectError :: "DeleteObjectError \<Rightarrow> s3s_error" where
  "s3s_from_DeleteObjectError (DeleteObjectS3Error e) = s3s_from_S3Error e"
| "s3s_from_DeleteObjectError DeleteBucketNotFound = s3_error NoSuchBucket"
| "s3s_from_DeleteObjectError DeleteObjectNotFound = s3_error NoSuchKey"
| "s3s_from_DeleteObjectError (DeleteReadDataError msg) = S3sError InternalError (Text msg)"

text \<open>\<open>send_s3\<close>: the actor answers unless it has stopped itself.\<close>

definition send_s3 ::
  "S3 option \<Rightarrow> ('e \<Rightarrow> s3s_error) \<Rightarrow> (S3 \<Rightarrow> (world, 'e + 'a) task) \<Rightarrow> ('a \<Rightarrow> (world, s3s_error + 'b) task) \<Rightarrow> (world, s3s_error + 'b) task" where
  "send_s3 s3 conv handler f =
     (case s3 of
        None \<Rightarrow> Return (Inl (S3sError InternalError (Text ''actix error'')))
      | Some self \<Rightarrow> try_task conv (handler self) f)"

section \<open>Outputs\<close>

record s3_object =
  so_key :: "string option"
  so_last_modified :: "OffsetDateTime option"
  so_size :: "int option"

record HeadObjectOutput =
  ho_last_modified :: OffsetDateTime
  ho_content_length :: int
  ho_e_tag :: string
  ho_checksum_sha256 :: string

datatype S3Output =
    GetBucketLocationOutput
  | ListBucketsOutput "(string \<times> OffsetDateTime) list"
  | CreateBucketOutput string
  | HeadBucketOutput
  | ListObjectsOutput string "s3_object list"
  | HeadObjectResult HeadObjectOutput
  | GetObjectResult HeadObjectOutput "bytes list"
  | DeleteObjectOutput
  | PutObjectOutput string string

text \<open>\<open>size as i64\<close>.\<close>

definition object_output :: "Object \<Rightarrow> s3_object" where
  "object_output obj =
     \<lparr>so_key = Some (obj_key obj), so_last_modified = Some (obj_last_modified obj), so_size = Some (sint (obj_size obj))\<rparr>"

definition head_output :: "Object \<Rightarrow> HeadObjectOutput" where
  "head_output obj =
     \<lparr>ho_last_modified = obj_last_modified obj, ho_content_length = sint (obj_size obj),
      ho_e_tag = obj_md5sum obj, ho_checksum_sha256 = obj_sha256sum obj\<rparr>"

section \<open>Requests\<close>

type_synonym s3_reply = "(world, s3s_error + S3Output) task"

definition get_bucket_location :: s3_reply where
  "get_bucket_location = Return (Inr GetBucketLocationOutput)"

text \<open>The creation date of a bucket is the time of the answer.\<close>

definition stamp_buckets :: "repl_env \<Rightarrow> string list \<Rightarrow> (world, (string \<times> OffsetDateTime) list) task" where
  "stamp_buckets E names = atomic (\<lambda>w.
     Some (w\<lparr>calls := calls w + length names\<rparr>,
           map (\<lambda>(i, name). (name, now_utc E i)) (enumerate (calls w) names)))"

definition list_buckets :: "repl_env \<Rightarrow> S3 option \<Rightarrow> s3_reply" where
  "list_buckets E s3 =
     send_s3 s3 s3s_from_S3Error (handle_ListBuckets E) (\<lambda>buckets.
     bind_task (stamp_buckets E buckets) (\<lambda>bs. Return (Inr (ListBucketsOutput bs))))"

definition create_bucket :: "repl_env \<Rightarrow> S3 option \<Rightarrow> string \<Rightarrow> s3_reply" where
  "create_bucket E s3 name =
     send_s3 s3 s3s_from_CreateBucketError (\<lambda>self. handle_CreateBucket E self name) (\<lambda>bucket.
     Return (Inr (CreateBucketOutput (''/'' @ bucket))))"

definition head_bucket :: "repl_env \<Rightarrow> S3 option \<Rightarrow> string \<Rightarrow> s3_reply" where
  "head_bucket E s3 name =
     send_s3 s3 s3s_from_S3Error (\<lambda>self. handle_HeadBucket E self name) (\<lambda>r.
     Return (case r of Some _ \<Rightarrow> Inr HeadBucketOutput | None \<Rightarrow> Inl (s3_error NoSuchBucket)))"

definition list_objects :: "repl_env \<Rightarrow> S3 option \<Rightarrow> string \<Rightarrow> string option \<Rightarrow> s3_reply" where
  "list_objects E s3 bucket pre =
     send_s3 s3 s3s_from_ListObjectError (\<lambda>self. handle_ListObject E self bucket (option_or pre [])) (\<lambda>objects.
     Return (Inr (ListObjectsOutput bucket (map object_output objects))))"

definition list_objects_v2 :: "repl_env \<Rightarrow> S3 option \<Rightarrow> string \<Rightarrow> string option \<Rightarrow> s3_reply" where
  "list_objects_v2 E s3 bucket pre =
     send_s3 s3 s3s_from_ListObjectError (\<lambda>self. handle_ListObject E self bucket (option_or pre [])) (\<lambda>objects.
     Return (Inr (ListObjectsOutput bucket (map object_output objects))))"

definition head_object :: "repl_env \<Rightarrow> S3 option \<Rightarrow> string \<Rightarrow> string \<Rightarrow> s3_reply" where
  "head_object E s3 bucket key =
     send_s3 s3 s3s_from_HeadObjectError (\<lambda>self. handle_HeadObject E self bucket key) (\<lambda>obj.
     Return (Inr (HeadObjectResult (head_output obj))))"

definition get_object :: "repl_env \<Rightarrow> S3 option \<Rightarrow> string \<Rightarrow> string \<Rightarrow> s3_reply" where
  "get_object E s3 bucket key =
     send_s3 s3 s3s_from_GetObjectError (\<lambda>self. handle_GetObject E self bucket key) (\<lambda>(obj, pieces).
     Return (Inr (GetObjectResult (head_output obj) pieces)))"

definition delete_object :: "repl_env \<Rightarrow> S3 option \<Rightarrow> string \<Rightarrow> string \<Rightarrow> s3_reply" where
  "delete_object E s3 bucket key =
     send_s3 s3 s3s_from_DeleteObjectError (\<lambda>self. handle_DeleteObject E self bucket key) (\<lambda>_.
     Return (Inr DeleteObjectOutput))"

definition put_object :: "repl_env \<Rightarrow> S3 option \<Rightarrow> string \<Rightarrow> string \<Rightarrow> (string + bytes) list option \<Rightarrow> s3_reply" where
  "put_object E s3 bucket key body =
     (case body of
        None \<Rightarrow> Return (Inl (s3_error InvalidRequest))
      | Some stream \<Rightarrow>
          send_s3 s3 s3s_from_PutObjectError (\<lambda>self. handle_PutObject E self bucket key stream) (\<lambda>obj.
          Return (Inr (PutObjectOutput (obj_md5sum obj) (obj_sha256sum obj)))))"

text \<open>The requests of the service.\<close>

datatype S3Request =
    GetBucketLocation
  | ListBuckets
  | CreateBucket string
  | HeadBucket string
  | ListObjects string "string option"
  | ListObjectsV2 string "string option"
  | HeadObject string string
  | GetObject string string
  | DeleteObject string string
  | PutObject string string "(string + bytes) list option"

fun serve :: "repl_env \<Rightarrow> S3 option \<Rightarrow> S3Request \<Rightarrow> s3_reply" where
  "serve E s3 GetBucketLocation = get_bucket_location"
| "serve E s3 ListBuckets = list_buckets E s3"
| "serve E s3 (CreateBucket name) = create_bucket E s3 name"
| "serve E s3 (HeadBucket name) = head_bucket E s3 name"
| "serve E s3 (ListObjects bucket pre) = list_objects E s3 bucket pre"
| "serve E s3 (ListObjectsV2 bucket pre) = list_objects_v2 E s3 bucket pre"
| "serve E s3 (HeadObject bucket key) = head_object E s3 bucket key"
| "serve E s3 (GetObject bucket key) = get_object E s3 bucket key"
| "serve E s3 (DeleteObject bucket key) = delete_object E s3 bucket key"
| "serve E s3 (PutObject bucket key body) = put_object E s3 bucket key body"

end
