(* ===== verification/Repli_Paths.thy ===== *)
theory Repli_Paths
  imports Repli_Frontend
begin

text \<open>
  The keys of the database and the paths of files: how they are split into components, and which
  values the entries of the database have by their keys.
\<close>

section \<open>Components\<close>

lemma split_at_not_Nil [simp]: "split_at c s \<noteq> []"
  by (cases s) (auto split: list.splits)

lemma split_at_append: "split_at c (a @ c # b) = split_at c a @ split_at c b"
  by (induction a) (auto split: list.splits)

lemma split_at_Cons [simp]: "split_at c (c # b) = [] # split_at c b"
  by simp

lemma split_at_none: "c \<notin> set a \<Longrightarrow> split_at c a = [a]"
  by (induction a) auto

lemma split_at_part: "c \<notin> set a \<Longrightarrow> split_at c (a @ c # b) = a # split_at c b"
  by (simp add: split_at_append split_at_none)

lemma path_parts_single: "s \<noteq> [] \<Longrightarrow> CHR ''/'' \<notin> set s \<Longrightarrow> path_parts s = [s]"
  by (simp add: path_parts_def split_at_none)

lemma path_join_single: "s \<noteq> [] \<Longrightarrow> CHR ''/'' \<notin> set s \<Longrightarrow> path_join p s = p @ [s]"
  by (cases s) (auto simp: path_join_def path_parts_single starts_with_def)

lemma path_join_Nil [simp]: "path_join p [] = p"
  by (simp add: path_join_def path_parts_def starts_with_def)

section \<open>UTF-8\<close>

text \<open>The length of the first character and whether it is well formed.\<close>

definition utf8_first :: "bytes \<Rightarrow> nat option" where
  "utf8_first bs =
     (case bs of
        [] \<Rightarrow> None
      | a # r \<Rightarrow>
          if a < 0x80 then Some 1
          else if 0xC2 \<le> a \<and> a \<le> 0xDF then
            (case r of b # s \<Rightarrow> if utf8_cont b then Some 2 else None | _ \<Rightarrow> None)
          else if 0xE0 \<le> a \<and> a \<le> 0xEF then
            (case r of b # c # s \<Rightarrow>
                if utf8_cont b \<and> (a = 0xE0 \<longrightarrow> 0xA0 \<le> b) \<and> (a = 0xED \<longrightarrow> b \<le> 0x9F) \<and> utf8_cont c then Some 3 else None
             | _ \<Rightarrow> None)
          else if 0xF0 \<le> a \<and> a \<le> 0xF4 then
            (case r of b # c # d # s \<Rightarrow>
                if utf8_cont b \<and> (a = 0xF0 \<longrightarrow> 0x90 \<le> b) \<and> (a = 0xF4 \<longrightarrow> b \<le> 0x8F)
                  \<and> utf8_cont c \<and> utf8_cont d then Some 4 else None
             | _ \<Rightarrow> None)
          else None)"

lemma utf8_lead_cases:
  fixes a :: u8
  obtains "a < 0x80" | "\<not> a < 0x80" "0xC2 \<le> a \<and> a \<le> 0xDF"
    | "\<not> a < 0x80" "\<not> (0xC2 \<le> a \<and> a \<le> 0xDF)" "0xE0 \<le> a \<and> a \<le> 0xEF"
    | "\<not> a < 0x80" "\<not> (0xC2 \<le> a \<and> a \<le> 0xDF)" "\<not> (0xE0 \<le> a \<and> a \<le> 0xEF)" "0xF0 \<le> a \<and> a \<le> 0xF4"
    | "\<not> a < 0x80" "\<not> (0xC2 \<le> a \<and> a \<le> 0xDF)" "\<not> (0xE0 \<le> a \<and> a \<le> 0xEF)" "\<not> (0xF0 \<le> a \<and> a \<le> 0xF4)"
  by blast

lemma utf8_valid_first:
  "bs \<noteq> [] \<Longrightarrow> utf8_valid bs = (case utf8_first bs of None \<Rightarrow> False | Some n \<Rightarrow> utf8_valid (drop n bs))"
proof (cases bs)
  case (Cons a r)
  note unfold = Cons utf8_first_def utf8_valid.simps(2) list.case if_not_P if_P
  from utf8_lead_cases [of a] show ?thesis
  proof cases
    case 1
    then show ?thesis by (simp only: unfold) simp
  next
    case 2
    then show ?thesis by (simp only: unfold) (simp split: list.split del: utf8_valid.simps)
  next
    case 3
    then show ?thesis by (simp only: unfold) (auto simp: eval_nat_numeral split: list.split simp del: utf8_valid.simps)
  next
    case 4
    then show ?thesis by (simp only: unfold) (auto simp: eval_nat_numeral split: list.split simp del: utf8_valid.simps)
  next
    case 5
    then show ?thesis by (simp only: unfold) simp
  qed
qed simp

lemma utf8_first_Some:
  assumes "utf8_first bs = Some n"
  shows "0 < n \<and> n \<le> length bs \<and> utf8_first (bs @ cs) = Some n"
proof (cases bs)
  case (Cons a r)
  note unfold = Cons utf8_first_def append_Cons list.case if_not_P if_P
  from utf8_lead_cases [of a] show ?thesis
  proof cases
    case 1
    then show ?thesis using assms by (simp only: unfold) auto
  next
    case 2
    then show ?thesis using assms by (simp only: unfold) (simp split: list.split_asm if_split_asm; auto)
  next
    case 3
    then show ?thesis using assms by (simp only: unfold) (simp split: list.split_asm if_split_asm; auto)
  next
    case 4
    then show ?thesis using assms by (simp only: unfold) (simp split: list.split_asm if_split_asm; auto)
  next
    case 5
    then show ?thesis using assms by (simp only: unfold) simp
  qed
qed (use assms in \<open>simp add: utf8_first_def\<close>)

lemma utf8_valid_append: "utf8_valid a \<Longrightarrow> utf8_valid (a @ b) = utf8_valid b"
proof (induction a rule: length_induct)
  case (1 a)
  show ?case
  proof (cases "a = []")
    case False
    with "1.prems" obtain n where n: "utf8_first a = Some n" "utf8_valid (drop n a)"
      by (auto simp: utf8_valid_first split: option.splits)
    with utf8_first_Some [OF n(1), of b] "1.IH" False show ?thesis
      by (simp add: utf8_valid_first [of "a @ b"])
  qed simp
qed

lemma as_bytes_append [simp]: "as_bytes (a @ b) = as_bytes a @ as_bytes b"
  by (simp add: as_bytes_def)

lemma rust_string_append: "rust_string a \<Longrightarrow> rust_string (a @ b) = rust_string b"
  by (simp add: rust_string_def utf8_valid_append)

lemma rust_string_Nil [simp]: "rust_string []"
  by (simp add: rust_string_def as_bytes_def)

definition ascii :: "string \<Rightarrow> bool" where
  "ascii s = list_all (\<lambda>c. of_char c < (128 :: nat)) s"

lemma ascii_rust_string: "ascii s \<Longrightarrow> rust_string s"
proof -
  have "(of_nat (of_char c) :: u8) < 128" if "of_char c < (128 :: nat)" for c
    using that by (simp add: word_less_nat_alt)
  then show "ascii s \<Longrightarrow> rust_string s"
    unfolding rust_string_def by (intro utf8_valid_ascii) (auto simp: ascii_def as_bytes_def list_all_iff)
qed

lemma rust_string_Cons_ascii: "of_char c < (128 :: nat) \<Longrightarrow> rust_string (c # s) = rust_string s"
  using rust_string_append [of "[c]" s] ascii_rust_string [of "[c]"] by (simp add: ascii_def)

lemma rust_string_NUL [simp]: "rust_string (NUL # s) = rust_string s"
  by (rule rust_string_Cons_ascii) (simp add: NUL_def)

section \<open>Entries of the database\<close>

definition hex_name :: "string \<Rightarrow> bool" where
  "hex_name s \<longleftrightarrow> s \<noteq> [] \<and> list_all (\<lambda>c. c \<in> set ''0123456789abcdef'') s"

definition timestamp_ok :: "repl_env \<Rightarrow> string \<Rightarrow> bool" where
  "timestamp_ok E v \<longleftrightarrow> from_unix_timestamp E (option_or (parse_i64 v) 0) \<noteq> None"

text \<open>The first component of a key inside a store of a bucket.\<close>

definition kind_of :: "string \<Rightarrow> string" where
  "kind_of k =
     (case split_at NUL k of
        e # s # n # b # kind # r \<Rightarrow> if e = [] \<and> s = ''store'' then kind else []
      | _ \<Rightarrow> [])"

definition last_part :: "string \<Rightarrow> string" where
  "last_part k = last (split_at NUL k)"

definition is_meta_type_key :: "string \<Rightarrow> bool" where
  "is_meta_type_key k = prefix (NUL # ''type'' @ NUL # ''s3metadata'' @ [NUL]) k"

definition entry_ok :: "repl_env \<Rightarrow> string \<Rightarrow> string \<Rightarrow> bool" where
  "entry_ok E k v \<longleftrightarrow>
     rust_string k
     \<and> (if kind_of k = ''bucketmeta'' then length v = 8 else rust_string v)
     \<and> (is_meta_type_key k \<longrightarrow> v = ''KeyValue'')
     \<and> (kind_of k = ''objectmeta'' \<and> last_part k = ''sha256sum'' \<longrightarrow> hex_name v)
     \<and> (kind_of k = ''objectmeta'' \<and> last_part k = ''last_modified'' \<longrightarrow> timestamp_ok E v)"

lemma hex_name_ascii: "hex_name s \<Longrightarrow> ascii s"
proof -
  have "ascii ''0123456789abcdef''"
    by code_simp
  then show "hex_name s \<Longrightarrow> ascii s"
    unfolding hex_name_def ascii_def list_all_iff by blast
qed

lemma hex_name_rust_string [simp]: "hex_name s \<Longrightarrow> rust_string s"
  by (simp add: hex_name_ascii ascii_rust_string)

lemma hex_name_path_join: "hex_name s \<Longrightarrow> path_join p s = p @ [s]"
proof -
  have "CHR ''/'' \<notin> set ''0123456789abcdef''"
    by code_simp
  then show "hex_name s \<Longrightarrow> path_join p s = p @ [s]"
    unfolding hex_name_def list_all_iff by (blast intro: path_join_single)
qed

lemma NUL_Char [simp]:
  "NUL = Char a b c d e f g h \<longleftrightarrow> \<not> a \<and> \<not> b \<and> \<not> c \<and> \<not> d \<and> \<not> e \<and> \<not> f \<and> \<not> g \<and> \<not> h"
  "Char a b c d e f g h = NUL \<longleftrightarrow> \<not> a \<and> \<not> b \<and> \<not> c \<and> \<not> d \<and> \<not> e \<and> \<not> f \<and> \<not> g \<and> \<not> h"
  by (auto simp: NUL_def)

lemma NUL_literals [simp]:
  "NUL \<notin> set ''store''" "NUL \<notin> set ''s3metadata''" "NUL \<notin> set ''root''" "NUL \<notin> set ''type''"
  "NUL \<notin> set ''buckets''" "NUL \<notin> set ''bucketmeta''" "NUL \<notin> set ''objects''" "NUL \<notin> set ''objectmeta''"
  "NUL \<notin> set ''version''" "NUL \<notin> set ''size''" "NUL \<notin> set ''md5sum''" "NUL \<notin> set ''sha256sum''"
  "NUL \<notin> set ''last_modified''"
  by code_simp+

lemma rust_string_literals [simp]:
  "rust_string ''store''" "rust_string ''s3metadata''" "rust_string ''root''" "rust_string ''type''"
  "rust_string ''buckets''" "rust_string ''bucketmeta''" "rust_string ''objects''" "rust_string ''objectmeta''"
  "rust_string ''version''" "rust_string ''size''" "rust_string ''md5sum''" "rust_string ''sha256sum''"
  "rust_string ''last_modified''" "rust_string ''KeyValue''" "rust_string ''ContentAddressableBlob''"
  "rust_string ''s3data''"
  by (rule ascii_rust_string, code_simp)+

section \<open>Keys\<close>

text \<open>The keys inside the store of a bucket and the keys of the types of stores.\<close>

definition bucket_key :: "string \<Rightarrow> string \<Rightarrow> string \<Rightarrow> string" where
  "bucket_key b kind r = NUL # ''store'' @ NUL # ''s3metadata'' @ NUL # b @ NUL # kind @ NUL # r"

definition type_key :: "string \<Rightarrow> string" where
  "type_key name = NUL # ''type'' @ NUL # name"

lemma get_path_bucket:
  "kv_name st = meta_store_name b \<Longrightarrow> get_path st (kind # k # ks) = bucket_key b kind (join_with [NUL] (k # ks))"
  by (simp add: get_path_def bucket_key_def meta_store_name_def)

lemma bucket_key_append: "bucket_key b kind r @ s = bucket_key b kind (r @ s)"
  by (simp add: bucket_key_def)

lemma split_bucket_key:
  assumes "NUL \<notin> set b" and "NUL \<notin> set kind"
  shows "split_at NUL (bucket_key b kind r) = [] # ''store'' # ''s3metadata'' # b # kind # split_at NUL r"
  by (simp only: bucket_key_def split_at_Cons split_at_part NUL_literals assms not_False_eq_True)

lemma kind_of_bucket_key [simp]: "NUL \<notin> set b \<Longrightarrow> NUL \<notin> set kind \<Longrightarrow> kind_of (bucket_key b kind r) = kind"
  by (simp add: kind_of_def split_bucket_key)

lemma last_part_bucket_key [simp]:
  "NUL \<notin> set b \<Longrightarrow> NUL \<notin> set kind \<Longrightarrow> last_part (bucket_key b kind r) = last_part r"
  by (simp add: last_part_def split_bucket_key)

lemma last_part_simps [simp]:
  "last_part (a @ NUL # s) = last_part s"
  "NUL \<notin> set s \<Longrightarrow> last_part s = s"
  by (simp_all add: last_part_def split_at_append split_at_none)

lemma bucket_key_inject [simp]:
  assumes "NUL \<notin> set b" "NUL \<notin> set kind" "NUL \<notin> set b'" "NUL \<notin> set kind'"
  shows "bucket_key b kind r = bucket_key b' kind' r' \<longleftrightarrow> b = b' \<and> kind = kind' \<and> r = r'"
proof
  assume eq: "bucket_key b kind r = bucket_key b' kind' r'"
  then have "split_at NUL (bucket_key b kind r) = split_at NUL (bucket_key b' kind' r')"
    by simp
  with assms have "b = b'" "kind = kind'"
    by (simp_all add: split_bucket_key)
  with eq show "b = b' \<and> kind = kind' \<and> r = r'"
    by (simp add: bucket_key_def)
qed simp

lemma bucket_key_no_type [simp]: "\<not> is_meta_type_key (bucket_key b kind r)"
  by (simp add: is_meta_type_key_def bucket_key_def prefix_def)

lemma rust_string_bucket_key [simp]:
  assumes "rust_string b" and "rust_string kind"
  shows "rust_string (bucket_key b kind r) = rust_string r"
  by (simp only: bucket_key_def rust_string_NUL rust_string_append rust_string_literals assms)

lemma type_key_simps [simp]:
  "kind_of (type_key name) = []" "is_meta_type_key (type_key (meta_store_name b))"
  "rust_string (type_key name) = rust_string name" "bucket_key b kind r \<noteq> type_key name"
proof -
  have "split_at NUL (type_key name) = [] # ''type'' # split_at NUL name"
    by (simp only: type_key_def split_at_Cons split_at_part NUL_literals not_False_eq_True)
  then show "kind_of (type_key name) = []"
    by (simp add: kind_of_def split: list.split)
  show "is_meta_type_key (type_key (meta_store_name b))"
    by (simp add: is_meta_type_key_def type_key_def meta_store_name_def prefix_def)
  show "rust_string (type_key name) = rust_string name"
    by (simp only: type_key_def rust_string_NUL rust_string_append rust_string_literals)
  show "bucket_key b kind r \<noteq> type_key name"
    by (simp add: bucket_key_def type_key_def)
qed

lemma rust_string_meta_store_name [simp]: "rust_string (meta_store_name b) = rust_string b"
  by (simp only: meta_store_name_def rust_string_NUL rust_string_append rust_string_literals)

end
