(* ===== verification/Repli_Store_Laws.thy ===== *)
theory Repli_Store_Laws
  imports Repli_Paths
begin

text \<open>
  The handlers of the stores on a database whose entries have the right types: none of them panics,
  whatever calls fail, and all of them keep the types.
\<close>

section \<open>Types of the database\<close>

definition db_ok :: "repl_env \<Rightarrow> (string \<times> string) list \<Rightarrow> bool" where
  "db_ok E d \<longleftrightarrow> distinct (map fst d) \<and> list_all (\<lambda>(k, v). entry_ok E k v) d"

definition writes_ok :: "repl_env \<Rightarrow> txn \<Rightarrow> bool" where
  "writes_ok E txn = list_all (\<lambda>(k, v). case v of None \<Rightarrow> True | Some v \<Rightarrow> entry_ok E k v) txn"

definition name_ok :: "string \<Rightarrow> bool" where
  "name_ok b \<longleftrightarrow> NUL \<notin> set b \<and> rust_string b"

lemma db_okD: "db_ok E d \<Longrightarrow> map_of d k = Some v \<Longrightarrow> entry_ok E k v"
  by (auto simp: db_ok_def list_all_iff dest: map_of_SomeD)

lemma db_ok_apply_write:
  assumes "db_ok E d" and "case v of None \<Rightarrow> True | Some v \<Rightarrow> entry_ok E k v"
  shows "db_ok E (apply_write (k, v) d)"
proof (cases v)
  case None
  with assms show ?thesis
    by (auto simp: db_ok_def apply_write_def list_all_iff distinct_map_filter AList.delete_eq)
next
  case (Some u)
  with assms update_subset [of k u d] show ?thesis
    by (auto simp: db_ok_def apply_write_def list_all_iff distinct_update)
qed

lemma db_ok_apply_writes: "db_ok E d \<Longrightarrow> writes_ok E txn \<Longrightarrow> db_ok E (apply_writes txn d)"
  unfolding apply_writes_def
proof (induction txn arbitrary: d)
  case (Cons kv txn)
  then show ?case
    by (cases kv) (simp add: writes_ok_def db_ok_apply_write)
qed simp

lemma writes_ok_simps [simp]:
  "writes_ok E []" "writes_ok E (a @ b) \<longleftrightarrow> writes_ok E a \<and> writes_ok E b"
  "writes_ok E ((k, None) # r) = writes_ok E r" "writes_ok E ((k, Some v) # r) \<longleftrightarrow> entry_ok E k v \<and> writes_ok E r"
  by (simp_all add: writes_ok_def)

lemma entry_ok_bucket:
  assumes "name_ok b"
  shows "entry_ok E (bucket_key b ''bucketmeta'' r) v \<longleftrightarrow> rust_string r \<and> length v = 8"
    "entry_ok E (bucket_key b ''buckets'' r) v \<longleftrightarrow> rust_string r \<and> rust_string v"
    "entry_ok E (bucket_key b ''objects'' r) v \<longleftrightarrow> rust_string r \<and> rust_string v"
    "entry_ok E (bucket_key b ''objectmeta'' r) v \<longleftrightarrow> rust_string r \<and> rust_string v
       \<and> (last_part r = ''sha256sum'' \<longrightarrow> hex_name v) \<and> (last_part r = ''last_modified'' \<longrightarrow> timestamp_ok E v)"
  using assms by (simp_all add: entry_ok_def name_ok_def)

lemma entry_ok_type: "name_ok b \<Longrightarrow> entry_ok E (type_key (meta_store_name b)) v \<longleftrightarrow> v = ''KeyValue''"
  by (auto simp: entry_ok_def name_ok_def)

lemma entry_ok_type_data: "entry_ok E (type_key ''s3data'') v \<longleftrightarrow> rust_string v"
  by (simp add: entry_ok_def) (simp add: is_meta_type_key_def type_key_def)

lemma rust_string_join: "list_all rust_string ks \<Longrightarrow> rust_string (join_with [NUL] ks)"
  by (induction "[NUL]" ks rule: join_with.induct) (simp_all add: rust_string_append)

lemma map_of_prefix_range: "map_of (prefix_range p d) k = (if prefix p k then map_of d k else None)"
  by (induction d) (auto simp: prefix_range_def)

section \<open>Frame\<close>

text \<open>A handler of the key value store changes the database and counts its calls.\<close>

definition kv_frame :: "world \<Rightarrow> world \<Rightarrow> bool" where
  "kv_frame w w' \<longleftrightarrow> calls w \<le> calls w' \<and> files w' = files w \<and> dirs w' = dirs w \<and> kv_stores w' = kv_stores w
     \<and> blob_stores w' = blob_stores w \<and> to_replicator w' = to_replicator w"

lemma kv_frame_refl [simp]: "kv_frame w w"
  by (simp add: kv_frame_def)

lemma kv_frame_trans: "kv_frame u v \<Longrightarrow> kv_frame v w \<Longrightarrow> kv_frame u w"
  by (simp add: kv_frame_def)

lemma runs_rocks:
  assumes "\<And>w'. kv_frame w w' \<Longrightarrow> db w' = db w \<Longrightarrow> (\<forall>e. Q (Inl e) w') \<and> Q (Inr (f (db w))) w'"
  shows "runs (rocks E f) w Q"
proof -
  have "kv_frame w (w\<lparr>calls := Suc (calls w)\<rparr>)"
    by (simp add: kv_frame_def)
  from assms [OF this] show ?thesis
    unfolding rocks_def by (intro runs_atomic) (auto split: option.split)
qed

lemma runs_commit:
  assumes "\<And>w'. kv_frame w w' \<Longrightarrow> (db w' = db w \<longrightarrow> (\<forall>e. Q (Inl e) w')) \<and> (db w' = apply_writes txn (db w) \<longrightarrow> Q (Inr ()) w')"
  shows "runs (commit E txn) w Q"
proof -
  let ?w = "w\<lparr>calls := Suc (calls w)\<rparr>"
  have "kv_frame w ?w" "kv_frame w (?w\<lparr>db := apply_writes txn (db w)\<rparr>)"
    by (simp_all add: kv_frame_def)
  from assms [OF this(1)] assms [OF this(2)] show ?thesis
    by (cases "rocks_fault E (calls w)") (auto simp: commit_def intro!: runs_atomic)
qed

lemma runs_utf8: "rust_string s \<Longrightarrow> Q (Inr s) w \<Longrightarrow> runs (from_utf8_unwrap s) w Q"
  by (simp add: from_utf8_unwrap_def runs_Return)

section \<open>Key value store\<close>

lemma runs_bump_version:
  assumes db: "db_ok E (db w)" and st: "kv_name st = meta_store_name b" "name_ok b" and "rust_string (join_with [NUL] (k # ks))"
  shows "runs (bump_version E st (''bucketmeta'' # k # ks) txn) w (\<lambda>r w'. kv_frame w w' \<and> db w' = db w
    \<and> (\<forall>ver txn'. r = Inr (ver, txn') \<longrightarrow> (writes_ok E txn \<longrightarrow> writes_ok E txn')))"
proof -
  let ?p = "bucket_key b ''bucketmeta'' (join_with [NUL] (k # ks))"
  have len: "length e = 8" if "map_of (db w) ?p = Some e" for e
    using db_okD [OF db that] st by (simp add: entry_ok_bucket)
  have "length (to_le_bytes v) = 8" for v
    by (simp add: to_le_bytes_def from_bytes_def)
  then have ok: "entry_ok E ?p (to_le_bytes v)" for v
    using assms by (simp add: entry_ok_bucket)
  show ?thesis
    unfolding bump_version_def get_path_bucket [OF st(1)] Let_def
    apply (rule runs_try [where P = "\<lambda>r w'. kv_frame w w' \<and> db w' = db w \<and> (\<forall>e. r = Inr (Some e) \<longrightarrow> length e = 8)"])
      apply (rule runs_rocks) apply (simp add: len) apply simp
    apply (rule runs_try [where P = "\<lambda>r w'. kv_frame w w' \<and> db w' = db w"])
      apply (auto split: option.split intro: runs_Return)[2]
    apply (rule runs_rocks) apply (auto simp: ok intro: kv_frame_trans)
    done
qed

text \<open>What every handler of the key value store guarantees.\<close>

definition kv_safe :: "repl_env \<Rightarrow> world \<Rightarrow> world \<Rightarrow> bool" where
  "kv_safe E w w' \<longleftrightarrow> kv_frame w w' \<and> db_ok E (db w')"

lemma kv_safe_trans: "kv_frame u v \<Longrightarrow> kv_safe E v w \<Longrightarrow> kv_safe E u w"
  by (auto simp: kv_safe_def intro: kv_frame_trans)

lemma runs_finish_txn:
  assumes db: "db_ok E (db w)" and st: "kv_name st = meta_store_name b" "name_ok b"
    and "rust_string (join_with [NUL] (k # ks))" and "writes_ok E txn"
  shows "runs (finish_txn E st (''bucketmeta'' # k # ks) txn) w (\<lambda>r w'. kv_safe E w w')"
  unfolding finish_txn_def
proof (rule runs_try [OF runs_bump_version [OF assms(1-4)]], goal_cases)
  case (2 x w')
  obtain ver txn' where x: "x = (ver, txn')"
    by (cases x)
  from 2 assms x have "writes_ok E txn'" "kv_frame w w'" "db w' = db w"
    by simp_all
  then have "runs (commit E txn') w' (\<lambda>r w''. kv_safe E w w'')"
    using db by (intro runs_commit) (auto simp: kv_safe_def db_ok_apply_writes intro: kv_frame_trans)
  then show ?case
    unfolding x by (auto intro: runs_try runs_Return)
qed (use db in \<open>auto simp: kv_safe_def\<close>)

lemma runs_Get:
  assumes "db_ok E (db w)" and "kv_name st = meta_store_name b" "name_ok b"
    and "NUL \<notin> set kind" "kind \<noteq> ''bucketmeta''"
  shows "runs (handle_Get E st (kind # k # ks)) w (\<lambda>r w'. kv_frame w w' \<and> db w' = db w)"
proof -
  let ?p = "bucket_key b kind (join_with [NUL] (k # ks))"
  have utf8: "rust_string e" if "map_of (db w) ?p = Some e" for e
    using db_okD [OF assms(1) that] assms by (simp add: entry_ok_def name_ok_def)
  show ?thesis
    unfolding handle_Get_def get_path_bucket [OF assms(2)]
    by (rule runs_try [where P = "\<lambda>r w'. kv_frame w w' \<and> db w' = db w \<and> (\<forall>e. r = Inr (Some e) \<longrightarrow> rust_string e)"])
      (auto intro!: runs_rocks runs_Return runs_try [OF runs_utf8 [where Q = "\<lambda>r w'. kv_frame w w' \<and> db w' = db w"]]
        simp: utf8 split: option.split)
qed

lemma runs_Set:
  assumes "db_ok E (db w)" and "kv_name st = meta_store_name b" "name_ok b"
    and "rust_string (join_with [NUL] (k # ks))" and "entry_ok E (get_path st key) v"
  shows "runs (handle_Set E st (''bucketmeta'' # k # ks) key v) w (\<lambda>r w'. kv_safe E w w')"
  unfolding handle_Set_def
proof (rule runs_try [where P = "\<lambda>r w'. kv_frame w w' \<and> db w' = db w \<and> (\<forall>txn. r = Inr txn \<longrightarrow> writes_ok E txn)"], goal_cases)
  case (3 txn w')
  then show ?case
    using assms by (auto intro!: runs_weaken [OF runs_finish_txn] elim: kv_safe_trans)
qed (use assms in \<open>auto intro!: runs_rocks simp: kv_safe_def\<close>)

lemma runs_put_all:
  assumes "list_all (\<lambda>(key, v). entry_ok E (get_path st key) v) es" and "writes_ok E txn"
  shows "runs (put_all E st es txn) w (\<lambda>r w'. kv_frame w w' \<and> db w' = db w \<and> (\<forall>txn. r = Inr txn \<longrightarrow> writes_ok E txn))"
  using assms
proof (induction es arbitrary: txn w)
  case (Cons e es)
  obtain key v where e: "e = (key, v)"
    by (cases e)
  show ?case
    unfolding e put_all.simps
  proof (rule runs_try [where P = "\<lambda>r w'. kv_frame w w' \<and> db w' = db w \<and> (\<forall>txn. r = Inr txn \<longrightarrow> writes_ok E txn)"], goal_cases)
    case (3 txn' w')
    then show ?case
      using Cons.prems e by (intro runs_weaken [OF Cons.IH [of txn' w']]) (auto elim: kv_frame_trans)
  qed (use Cons.prems e in \<open>auto intro!: runs_rocks\<close>)
qed (auto intro: runs_Return)

lemma runs_MultiSet:
  assumes "db_ok E (db w)" and "kv_name st = meta_store_name b" "name_ok b"
    and "rust_string (join_with [NUL] (k # ks))" and "list_all (\<lambda>(key, v). entry_ok E (get_path st key) v) es"
  shows "runs (handle_MultiSet E st (''bucketmeta'' # k # ks) es) w (\<lambda>r w'. kv_safe E w w')"
  unfolding handle_MultiSet_def
proof (rule runs_try [OF runs_put_all [OF assms(5)]], goal_cases)
  case (3 txn w')
  then show ?case
    using assms by (auto intro!: runs_weaken [OF runs_finish_txn] elim: kv_safe_trans)
qed (use assms in \<open>auto simp: kv_safe_def\<close>)

lemma runs_delete_found:
  "writes_ok E txn \<Longrightarrow>
    runs (delete_found E found txn) w (\<lambda>r w'. kv_frame w w' \<and> db w' = db w \<and> (\<forall>txn. r = Inr txn \<longrightarrow> writes_ok E txn))"
proof (induction E found txn arbitrary: w rule: delete_found.induct)
  case (1 E txn)
  then show ?case by (auto intro: runs_rocks)
next
  case (2 E k v found txn)
  show ?case
    unfolding delete_found.simps
  proof (rule runs_try [where P = "\<lambda>r w'. kv_frame w w' \<and> db w' = db w"], goal_cases)
    case (3 x w1)
    show ?case
    proof (rule runs_try [where P = "\<lambda>r w'. kv_frame w w' \<and> db w' = db w \<and> (\<forall>txn. r = Inr txn \<longrightarrow> writes_ok E txn)"], goal_cases)
      case (3 txn' w2)
      then show ?case
        by (intro runs_weaken [OF 2(1) [of txn' w2]]) (auto elim: kv_frame_trans)
    qed (use 2(2) 3 in \<open>auto intro!: runs_rocks elim: kv_frame_trans\<close>)
  qed (auto intro!: runs_rocks)
qed

lemma runs_iter_range: "Q (Inr (prefix_range key (db w))) w \<Longrightarrow> runs (iter_range key) w Q"
  unfolding iter_range_def by (rule runs_atomic) auto

lemma runs_delete_all:
  "writes_ok E txn \<Longrightarrow>
    runs (delete_all E st keys txn) w (\<lambda>r w'. kv_frame w w' \<and> db w' = db w \<and> (\<forall>txn. r = Inr txn \<longrightarrow> writes_ok E txn))"
proof (induction keys arbitrary: txn w)
  case (Cons key keys)
  show ?case
    unfolding delete_all.simps
  proof (rule runs_try [where P = "\<lambda>r w'. w' = w"], goal_cases)
    case (3 found w1)
    show ?case
      unfolding 3
      by (rule runs_try [OF runs_delete_found [OF Cons.prems]])
        (auto intro!: runs_weaken [OF Cons.IH] elim: kv_frame_trans)
  qed (auto intro: runs_iter_range simp: iter_range_def runs_def task_simps)
qed (auto intro: runs_Return)

lemma runs_MultiDelete:
  assumes "db_ok E (db w)" and "kv_name st = meta_store_name b" "name_ok b"
    and "rust_string (join_with [NUL] (k # ks))"
  shows "runs (handle_MultiDelete E st (''bucketmeta'' # k # ks) keys) w (\<lambda>r w'. kv_safe E w w')"
  unfolding handle_MultiDelete_def
proof (rule runs_try [OF runs_delete_all], goal_cases)
  case (3 txn w')
  then show ?case
    using assms by (auto intro!: runs_weaken [OF runs_finish_txn] elim: kv_safe_trans)
qed (use assms in \<open>auto simp: kv_safe_def\<close>)

lemma runs_list_found:
  assumes "list_all (\<lambda>(k, v). prefix path k \<and> rust_string (drop (length path) k) \<and> rust_string v) found"
    and "distinct (map fst found)" and "distinct (map fst m)" and "list_all rust_string (map fst m)"
  shows "runs (list_found E (length path) found m) w (\<lambda>r w'. kv_frame w w' \<and> db w' = db w
    \<and> (\<forall>m'. r = Inr m' \<longrightarrow> distinct (map fst m') \<and> list_all rust_string (map fst m')
        \<and> (\<forall>x. map_of m' x = (case map_of found (path @ x) of Some v \<Rightarrow> Some v | None \<Rightarrow> map_of m x))))"
  using assms
proof (induction found arbitrary: m w)
  case Nil
  then show ?case by (auto intro: runs_rocks)
next
  case (Cons kv found)
  obtain k v where kv: "kv = (k, v)"
    by (cases kv)
  with Cons.prems obtain y where y: "k = path @ y"
    by (auto simp: prefix_def)
  let ?m = "AList.update y v m"
  have m: "distinct (map fst ?m)" "list_all rust_string (map fst ?m)"
    using Cons.prems kv y by (auto simp: distinct_update dom_update list_all_iff)
  have new: "map_of found (path @ y) = None"
    using Cons.prems(2) kv y by (auto simp: map_of_eq_None_iff)
  show ?case
    unfolding kv list_found.simps
  proof (rule runs_try [where P = "\<lambda>r w'. kv_frame w w' \<and> db w' = db w"], goal_cases)
    case (3 x w1)
    show ?case
      using kv y Cons.prems 3 new
      by (intro runs_try [OF runs_utf8 [where Q = "\<lambda>r w'. w' = w1 \<and> r = Inr y"]]
            runs_try [OF runs_utf8 [where Q = "\<lambda>r w'. w' = w1 \<and> r = Inr v"]])
        (auto intro!: runs_weaken [OF Cons.IH [OF _ _ m, of w1]] elim: kv_frame_trans
          simp: map_of_update split: option.splits if_splits)
  qed (auto intro!: runs_rocks)
qed

text \<open>The answer of a listing is the part of the database behind the given key.\<close>

lemma runs_List:
  assumes "db_ok E (db w)" and "kv_name st = meta_store_name b" "name_ok b"
    and "NUL \<notin> set kind" "kind \<noteq> ''bucketmeta''" "rust_string kind" "rust_string (join_with [NUL] (k # ks))"
  shows "runs (handle_List E st (kind # k # ks)) w (\<lambda>r w'. kv_frame w w' \<and> db w' = db w
    \<and> (\<forall>m. r = Inr m \<longrightarrow> distinct (map fst m) \<and> list_all rust_string (map fst m)
        \<and> (\<forall>x. map_of m x = map_of (db w) (get_path st (kind # k # ks) @ x))))"
proof -
  let ?p = "bucket_key b kind (join_with [NUL] (k # ks))"
  let ?found = "prefix_range ?p (db w)"
  have "rust_string (drop (length ?p) x) \<and> rust_string v" if x: "(x, v) \<in> set (db w)" "prefix ?p x" for x v
  proof -
    obtain y where y: "x = ?p @ y"
      using x(2) by (auto simp: prefix_def)
    have "entry_ok E x v"
      using assms(1) x(1) by (auto simp: db_ok_def list_all_iff)
    then have "rust_string y \<and> rust_string v"
      using y assms by (simp add: entry_ok_def name_ok_def bucket_key_append rust_string_append)
    with y show ?thesis
      by simp
  qed
  then have ok: "list_all (\<lambda>(x, v). prefix ?p x \<and> rust_string (drop (length ?p) x) \<and> rust_string v) ?found"
    by (auto simp: prefix_range_def list_all_iff)
  have dist: "distinct (map fst ?found)"
    using assms(1) by (simp add: db_ok_def prefix_range_def distinct_map_filter)
  have found: "map_of ?found (?p @ x) = map_of (db w) (?p @ x)" for x
    by (simp add: map_of_prefix_range)
  show ?thesis
    unfolding handle_List_def get_path_bucket [OF assms(2)] Let_def
    by (rule runs_try [where P = "\<lambda>r w'. w' = w \<and> r = Inr ?found"])
      (auto intro!: runs_iter_range runs_weaken [OF runs_list_found [OF ok dist]] simp: found split: option.splits)
qed

section \<open>Owner of the stores\<close>

definition stores_ok :: "world \<Rightarrow> bool" where
  "stores_ok w = list_all (\<lambda>(name, st). kv_name st = name) (kv_stores w)"

definition owner_frame :: "world \<Rightarrow> world \<Rightarrow> bool" where
  "owner_frame w w' \<longleftrightarrow> calls w \<le> calls w' \<and> files w' = files w \<and> dirs w' = dirs w
     \<and> blob_stores w' = blob_stores w \<and> to_replicator w' = to_replicator w"

lemma runs_check_type:
  assumes "db_ok E (db w)" and "name_ok b"
  shows "runs (check_or_create_store_type E (meta_store_name b) KeyValue) w (\<lambda>r w'. kv_safe E w w'
    \<and> (\<forall>store e. r \<noteq> Inl (StoreTypeMissmatch store e)))"
proof -
  have key: "NUL # ''type'' @ NUL # meta_store_name b = type_key (meta_store_name b)"
    by (simp add: type_key_def)
  have entry: "e = ''KeyValue''" if "map_of (db w) (type_key (meta_store_name b)) = Some e" for e
    using db_okD [OF assms(1) that] assms(2) by (simp add: entry_ok_type)
  have new: "db_ok E (apply_writes [(type_key (meta_store_name b), Some ''KeyValue'')] (db w))"
    using assms by (simp add: db_ok_apply_writes entry_ok_type)
  show ?thesis
    unfolding check_or_create_store_type_def Let_def key StoreType_str.simps
  proof (rule runs_try [where P = "\<lambda>r w'. kv_frame w w' \<and> db w' = db w \<and> (\<forall>e. r = Inr (Some e) \<longrightarrow> e = ''KeyValue'')"], goal_cases)
    case (3 x w1)
    have commit: "runs (commit E [(type_key (meta_store_name b), Some ''KeyValue'')]) w1 (\<lambda>r w'. kv_safe E w w')"
      using 3 new assms(1) by (intro runs_commit) (auto simp: kv_safe_def intro: kv_frame_trans)
    show ?case
    proof (cases x)
      case None
      then show ?thesis
        by (auto intro!: runs_try [OF commit] runs_Return)
    qed (use 3 assms(1) in \<open>auto intro!: runs_Return simp: kv_safe_def\<close>)
  qed (use assms(1) in \<open>auto intro!: runs_rocks simp: entry kv_safe_def\<close>)
qed

lemma runs_GetOrCreate:
  assumes "db_ok E (db w)" and "name_ok b" and "stores_ok w"
  shows "runs (handle_GetOrCreateKeyValueStore E (meta_store_name b)) w (\<lambda>r w'. owner_frame w w' \<and> db_ok E (db w') \<and> stores_ok w'
    \<and> (\<forall>store e. r \<noteq> Inl (StoreTypeMissmatch store e)) \<and> (\<forall>st. r = Inr st \<longrightarrow> kv_name st = meta_store_name b))"
  unfolding handle_GetOrCreateKeyValueStore_def
proof (rule runs_try [OF runs_check_type [OF assms(1,2)]], goal_cases)
  case (1 e w')
  with assms(3) show ?case
    by (auto simp: kv_safe_def owner_frame_def stores_ok_def kv_frame_def)
next
  case (2 x w')
  then have f: "kv_frame w w'" "db_ok E (db w')"
    by (simp_all add: kv_safe_def)
  then have o: "owner_frame w w'" "stores_ok w'"
    using assms(3) by (auto simp: owner_frame_def stores_ok_def kv_frame_def)
  show ?case
  proof (cases "map_of (kv_stores w') (meta_store_name b)")
    case None
    let ?w = "w'\<lparr>kv_stores := AList.update (meta_store_name b) \<lparr>kv_name = meta_store_name b\<rparr> (kv_stores w')\<rparr>"
    have "stores_ok ?w"
      using o(2) update_subset [of "meta_store_name b" "\<lparr>kv_name = meta_store_name b\<rparr>" "kv_stores w'"]
      by (auto simp: stores_ok_def list_all_iff)
    moreover have "owner_frame w ?w"
      using o(1) by (simp add: owner_frame_def)
    ultimately show ?thesis
      using None f(2) by (simp add: runs_def run_atomic Let_def)
  next
    case (Some st)
    with o(2) have "kv_name st = meta_store_name b"
      by (auto simp: stores_ok_def list_all_iff dest: map_of_SomeD)
    with Some o f(2) show ?thesis
      by (simp add: runs_def run_atomic)
  qed
qed

end
