(* ===== verification/Repli_Safety.thy ===== *)
theory Repli_Safety
  imports Repli_Store_Laws
begin

text \<open>
  Requests that run at the same time: whatever calls fail and however the steps of the requests are
  interleaved, no request panics, every file of the blob store has the content its name says, and
  every download is the content its checksum says.
\<close>

section \<open>Platform\<close>

text \<open>
  What the code relies on: identifiers are unique and, like the hexadecimal checksums, plain names; a
  read of a file makes progress; times can be written as seconds and read again.
\<close>

locale s3_platform =
  fixes E :: repl_env
  assumes uuid_inj: "inj (new_uuid E)"
    and uuid_name: "new_uuid E n \<noteq> [] \<and> CHR ''/'' \<notin> set (new_uuid E n)"
    and reads: "reads_all E"
    and sha_hex: "hex_name (sha256_hex E bs)" and md5_hex: "hex_name (md5_hex E bs)"
    and epoch: "from_unix_timestamp E 0 \<noteq> None"
    and seconds_range: "- (2 ^ 63) \<le> unix_timestamp E t \<and> unix_timestamp E t < 2 ^ 63"
    and seconds: "from_unix_timestamp E (unix_timestamp E t) \<noteq> None"

section \<open>Invariant, rely and guarantee\<close>

definition data_dir :: "ContentAddressableBlobStore \<Rightarrow> PathBuf" where
  "data_dir b = base_path b @ [''data'']"

definition tmp_path :: "ContentAddressableBlobStore \<Rightarrow> string \<Rightarrow> PathBuf" where
  "tmp_path b u = data_dir b @ [''tmp'', u]"

text \<open>The files directly under \<open>data\<close> are named by the checksum of their content.\<close>

definition blobs_ok :: "repl_env \<Rightarrow> ContentAddressableBlobStore \<Rightarrow> world \<Rightarrow> bool" where
  "blobs_ok E b w = list_all (\<lambda>(p, c). p \<noteq> data_dir b \<and> (butlast p = data_dir b \<longrightarrow> last p = sha256_hex E c)) (files w)"

definition world_ok :: "repl_env \<Rightarrow> ContentAddressableBlobStore \<Rightarrow> world \<Rightarrow> bool" where
  "world_ok E b w \<longleftrightarrow> db_ok E (db w) \<and> stores_ok w \<and> blobs_ok E b w"

text \<open>A request owns the temporary files whose identifiers it has drawn.\<close>

definition tmp_rely :: "ContentAddressableBlobStore \<Rightarrow> string set \<Rightarrow> world \<Rightarrow> world \<Rightarrow> bool" where
  "tmp_rely b A w w' \<longleftrightarrow> calls w \<le> calls w' \<and>
     (\<forall>u \<in> A. map_of (files w') (tmp_path b u) = map_of (files w) (tmp_path b u))"

definition tmp_guar :: "ContentAddressableBlobStore \<Rightarrow> string set \<Rightarrow> world \<Rightarrow> world \<Rightarrow> bool" where
  "tmp_guar b A w w' \<longleftrightarrow> calls w \<le> calls w' \<and>
     (\<forall>u. u \<notin> A \<longrightarrow> map_of (files w') (tmp_path b u) = map_of (files w) (tmp_path b u))"

definition fresh_uuids :: "repl_env \<Rightarrow> world \<Rightarrow> string set" where
  "fresh_uuids E w = new_uuid E ` {n. calls w \<le> n}"

interpretation rg: rely_guarantee "tmp_rely b" "tmp_guar b" "fresh_uuids E" "world_ok E b" for E b
  by unfold_locales (auto simp: tmp_rely_def tmp_guar_def fresh_uuids_def)

lemma data_dir_path [simp]:
  "get_disk_base_path b = data_dir b" "path_join (data_dir b) ''tmp'' = data_dir b @ [''tmp'']"
  by (simp_all add: get_disk_base_path_def data_dir_def path_join_single)

lemma world_ok_calls [simp]:
  "world_ok E b (w\<lparr>calls := n\<rparr>) = world_ok E b w"
  "world_ok E b (w\<lparr>calls := n, files := fs\<rparr>) = world_ok E b (w\<lparr>files := fs\<rparr>)"
  by (simp_all add: world_ok_def stores_ok_def blobs_ok_def)

lemma tmp_rely_empty: "tmp_rely b A w w' \<Longrightarrow> tmp_rely b {} w w'"
  by (simp add: tmp_rely_def)

lemma safe_io:
  assumes "\<And>r e. tmp_rely b A s r \<Longrightarrow> world_ok E b r \<Longrightarrow> Q (Inl e) A (r\<lparr>calls := Suc (calls r)\<rparr>)"
    and "\<And>r. tmp_rely b A s r \<Longrightarrow> world_ok E b r \<Longrightarrow>
      (case f (r\<lparr>calls := Suc (calls r)\<rparr>) of (w, x) \<Rightarrow> tmp_guar b A r w \<and> world_ok E b w \<and> Q x A w)"
  shows "rg.safe b E Q (io E f) A s"
  unfolding io_def
proof (rule rg.safe_atomic)
  fix r
  assume r: "tmp_rely b A s r" "world_ok E b r"
  let ?r = "r\<lparr>calls := Suc (calls r)\<rparr>"
  have g: "tmp_guar b A r ?r"
    by (simp add: tmp_guar_def)
  show "\<exists>s' x B. (let w' = ?r in case io_fault E (calls r) of Some e \<Rightarrow> Some (w', Inl e) | None \<Rightarrow> Some (f w')) = Some (s', x)
      \<and> tmp_guar b A r s' \<and> world_ok E b s' \<and> B \<subseteq> A \<union> (fresh_uuids E r - fresh_uuids E s') \<and> Q x B s'"
    using assms(1) [OF r] assms(2) [OF r] g r
    by (cases "io_fault E (calls r)") (auto intro!: exI [of _ A] split: prod.splits)
qed

section \<open>Blob store\<close>

definition tmp_has :: "ContentAddressableBlobStore \<Rightarrow> string \<Rightarrow> bytes \<Rightarrow> string set \<Rightarrow> world \<Rightarrow> bool" where
  "tmp_has b u c B w \<longleftrightarrow> B = {u} \<and> map_of (files w) (tmp_path b u) = Some c"

lemma tmp_has_rely: "tmp_has b u c B w \<Longrightarrow> tmp_rely b B w w' \<Longrightarrow> tmp_has b u c B w'"
  by (simp add: tmp_has_def tmp_rely_def)

lemma tmp_path_simps [simp]:
  "tmp_path b u = tmp_path b v \<longleftrightarrow> u = v" "data_dir b @ [h] \<noteq> tmp_path b u" "tmp_path b u \<noteq> data_dir b @ [h]"
  "data_dir b \<noteq> tmp_path b u" "tmp_path b u \<noteq> data_dir b" "butlast (tmp_path b u) = data_dir b @ [''tmp'']" "data_dir b @ [h] \<noteq> data_dir b"
  by (auto simp: tmp_path_def butlast_append)

lemma world_ok_tmp:
  assumes "world_ok E b w"
  shows "world_ok E b (w\<lparr>files := AList.update (tmp_path b u) c (files w)\<rparr>)"
  using assms update_subset [of "tmp_path b u" c "files w"]
  by (auto simp: world_ok_def stores_ok_def blobs_ok_def list_all_iff)

lemma world_ok_remove: "world_ok E b w \<Longrightarrow> world_ok E b (w\<lparr>files := AList.delete p (files w)\<rparr>)"
  by (auto simp: world_ok_def stores_ok_def blobs_ok_def list_all_iff AList.delete_eq)

lemma world_ok_blob:
  assumes "world_ok E b w"
  shows "world_ok E b (w\<lparr>files := AList.update (data_dir b @ [sha256_hex E c]) c (AList.delete p (files w))\<rparr>)"
  using assms update_subset [of "data_dir b @ [sha256_hex E c]" c "AList.delete p (files w)"]
  by (auto simp: world_ok_def stores_ok_def blobs_ok_def list_all_iff AList.delete_eq)

text \<open>A blob that is stored has the checksums of the bytes of the stream, which had no error.\<close>

definition put_blob_ok :: "repl_env \<Rightarrow> (string + bytes) list \<Rightarrow> (PutBlobError + BlobInfo) \<Rightarrow> bool" where
  "put_blob_ok E stream r =
     (case r of
        Inl e \<Rightarrow> True
      | Inr info \<Rightarrow> list_all (\<lambda>i. \<not> isl i) stream \<and> bi_md5sum info = md5_hex E (concat (map projr stream))
          \<and> bi_sha256sum info = sha256_hex E (concat (map projr stream)))"

context s3_platform
begin

lemma safe_tmp_path:
  "rg.safe b E (\<lambda>p B r. \<exists>u. p = tmp_path b u \<and> B = {u}) (get_disk_tmp_path E b) A s"
  unfolding get_disk_tmp_path_def
proof (rule rg.safe_atomic)
  fix r
  assume r: "world_ok E b r"
  let ?u = "new_uuid E (calls r)"
  have "path_join (path_join (get_disk_base_path b) ''tmp'') ?u = tmp_path b ?u"
    using uuid_name [of "calls r"] by (simp add: path_join_single tmp_path_def)
  moreover have "?u \<in> fresh_uuids E r - fresh_uuids E (r\<lparr>calls := Suc (calls r)\<rparr>)"
    using uuid_inj by (auto simp: fresh_uuids_def inj_eq)
  ultimately show "\<exists>s' x B. Some (r\<lparr>calls := Suc (calls r)\<rparr>, path_join (path_join (get_disk_base_path b) ''tmp'') ?u) = Some (s', x)
      \<and> tmp_guar b A r s' \<and> world_ok E b s' \<and> B \<subseteq> A \<union> (fresh_uuids E r - fresh_uuids E s') \<and> (\<exists>u. x = tmp_path b u \<and> B = {u})"
    using r by (auto simp: tmp_guar_def intro!: exI [of _ "{?u}"])
qed

lemma safe_create:
  "rg.safe b E (\<lambda>x B r. B = {u} \<and> (x = Inr () \<longrightarrow> tmp_has b u [] B r)) (fs_create E (tmp_path b u)) {u} s"
  unfolding fs_create_def
  by (rule safe_io) (auto simp: tmp_guar_def tmp_has_def map_of_update world_ok_tmp)

lemma safe_forward:
  assumes "tmp_has b u c {u} s"
  shows "rg.safe b E (\<lambda>x B r. B = {u} \<and> (x = Inr () \<longrightarrow> list_all (\<lambda>i. \<not> isl i) stream \<and> tmp_has b u (c @ concat (map projr stream)) B r))
    (forward E (tmp_path b u) stream) {u} s"
  using assms
proof (induction stream arbitrary: c s)
  case Nil
  then show ?case
    unfolding forward.simps
    by (intro rg.safe_try [OF safe_io [where Q = "\<lambda>x B r. tmp_has b u c B r"]])
      (auto simp: tmp_guar_def tmp_has_def tmp_rely_def)
next
  case (Cons i stream)
  show ?case
  proof (cases i)
    case (Inr bs)
    have "rg.safe b E (\<lambda>x B r. tmp_has b u (if x = Inr () then c @ bs else c) B r) (fs_append E (tmp_path b u) bs) {u} s"
      unfolding fs_append_def using Cons.prems
      by (intro safe_io) (auto simp: tmp_has_def tmp_rely_def tmp_guar_def map_of_update world_ok_tmp)
    then show ?thesis
      unfolding Inr forward.simps
    proof (rule rg.safe_try, goal_cases)
      case (2 x B r)
      then have "tmp_has b u (c @ bs) {u} r" "B = {u}"
        by (simp_all add: tmp_has_def)
      then show ?case
        using Cons.IH [of "c @ bs" r] by simp
    qed (auto simp: tmp_has_def)
  qed simp
qed

lemma safe_hash_loop:
  assumes "tmp_has b u c {u} s"
  shows "rg.safe b E (\<lambda>x B r. tmp_has b u c B r \<and>
      (\<forall>m h. x = Inr (m, h) \<longrightarrow> m = md5_hex E (a @ concat bufs) \<and> h = sha256_hex E (a @ concat bufs)))
    (hash_loop E bufs a a) {u} s"
  using assms
proof (induction bufs arbitrary: a s)
  case Nil
  then show ?case
    unfolding hash_loop.simps by (intro safe_io) (auto simp: tmp_has_def tmp_rely_def tmp_guar_def)
next
  case (Cons buf bufs)
  have "rg.safe b E (\<lambda>x B r. tmp_has b u c B r) (io E (\<lambda>w. (w, Inr ()))) {u} s"
    using Cons.prems by (intro safe_io) (auto simp: tmp_has_def tmp_rely_def tmp_guar_def)
  then show ?case
    unfolding hash_loop.simps
  proof (rule rg.safe_try, goal_cases)
    case (2 x B r)
    then show ?case
      using Cons.IH [of r "a @ buf"] by (simp add: tmp_has_def)
  qed simp
qed

lemma safe_hash_file:
  assumes "tmp_has b u c {u} s"
  shows "rg.safe b E (\<lambda>x B r. tmp_has b u c B r \<and> (\<forall>m h. x = Inr (m, h) \<longrightarrow> m = md5_hex E c \<and> h = sha256_hex E c))
    (hash_file E (tmp_path b u)) {u} s"
proof -
  have "rg.safe b E (\<lambda>x B r. tmp_has b u c B r \<and> (\<forall>c'. x = Inr c' \<longrightarrow> c' = c)) (fs_open E (tmp_path b u)) {u} s"
    unfolding fs_open_def using assms
    by (intro safe_io) (auto simp: tmp_has_def tmp_rely_def tmp_guar_def)
  then show ?thesis
    unfolding hash_file_def
  proof (rule rg.safe_try, goal_cases)
    case (2 x B r)
    then show ?case
      using safe_hash_loop [of b u c r "[]" "read_pieces E 65536 c"] concat_read_pieces [OF reads, of 65536 c]
      by (simp add: tmp_has_def)
  qed simp
qed

lemma safe_rename:
  assumes "tmp_has b u c {u} s"
  shows "rg.safe b E (\<lambda>x B r. True) (fs_rename E (tmp_path b u) (data_dir b @ [sha256_hex E c])) {u} s"
  unfolding fs_rename_def using assms
  by (intro safe_io)
    (auto simp: tmp_has_def tmp_rely_def tmp_guar_def map_of_update delete_conv' world_ok_blob)

lemma safe_metadata: "rg.safe b E (\<lambda>x B r. True) (fs_metadata E p) A s"
  unfolding fs_metadata_def by (rule safe_io) (auto simp: tmp_guar_def)

lemma safe_PutBlob: "rg.safe b E (\<lambda>r B w. put_blob_ok E stream r) (handle_PutBlob E b stream) A s"
  unfolding handle_PutBlob_def Let_def data_dir_path
proof (rule rg.safe_bind [OF safe_tmp_path], goal_cases)
  case (1 p B s1)
  then obtain u where p: "p = tmp_path b u" "B = {u}"
    by auto
  show ?case
    unfolding p
  proof (rule rg.safe_try [OF safe_create], goal_cases)
    case (2 x B s2)
    then have "tmp_has b u [] {u} s2" "B = {u}"
      by (simp_all add: tmp_has_def)
    then show ?case
    proof (simp only:, intro rg.safe_try [OF safe_forward], simp, goal_cases)
      case (2 x B s3)
      let ?c = "concat (map projr stream)"
      from 2 have s3: "tmp_has b u ?c {u} s3" "B = {u}" "list_all (\<lambda>i. \<not> isl i) stream"
        by (simp_all add: tmp_has_def)
      show ?case
        unfolding s3(2)
      proof (rule rg.safe_try [OF safe_hash_file [OF s3(1)]], goal_cases)
        case (2 x B s4)
        then have x: "x = (md5_hex E ?c, sha256_hex E ?c)" "B = {u}" "tmp_has b u ?c {u} s4"
          by (cases x; simp add: tmp_has_def)+
        show ?case
          unfolding x prod.case hex_name_path_join [OF sha_hex]
          by (rule rg.safe_try [OF safe_rename [OF x(3)]])
            (auto intro!: rg.safe_try [OF safe_metadata] simp: put_blob_ok_def s3(3))
      qed (simp add: put_blob_ok_def)
    qed (simp add: put_blob_ok_def)
  qed (simp add: put_blob_ok_def)
qed

text \<open>A name under which a blob is asked for: a checksum, or empty where an object has none.\<close>

lemma safe_GetBlob:
  assumes "hex_name h \<or> h = []"
  shows "rg.safe b E (\<lambda>r B w. \<forall>pieces. r = Inr pieces \<longrightarrow> sha256_hex E (concat pieces) = h) (handle_GetBlob E b h) A s"
proof -
  let ?p = "get_disk_path b h"
  have p: "?p = (if h = [] then data_dir b else data_dir b @ [h])"
    using assms by (auto simp: get_disk_path_def hex_name_path_join)
  have content: "sha256_hex E c = h" if "world_ok E b r" "map_of (files r) ?p = Some c" for r c
    using that p by (fastforce simp: world_ok_def blobs_ok_def list_all_iff dest: map_of_SomeD split: if_splits)
  have "rg.safe b E (\<lambda>x B r. \<forall>c. x = Inr c \<longrightarrow> sha256_hex E c = h) (fs_open E ?p) A s" for A s
    unfolding fs_open_def by (rule safe_io) (auto simp: tmp_guar_def content split: option.splits)
  then have *: "rg.safe b E (\<lambda>r B w. \<forall>pieces. r = Inr pieces \<longrightarrow> sha256_hex E (concat pieces) = h)
      (try_task GetBlobIo (fs_open E ?p) (\<lambda>content. Return (Inr (read_pieces E 8192 content)))) A s" for A s
    by (rule rg.safe_try) (auto simp: concat_read_pieces reads)
  show ?thesis
    unfolding handle_GetBlob_def Let_def by (rule rg.safe_try [OF safe_metadata]) (auto intro: * split: prod.splits)
qed

lemma safe_DeleteBlob:
  assumes "hex_name h \<or> h = []"
  shows "rg.safe b E (\<lambda>r B w. True) (handle_DeleteBlob E b h) A s"
proof -
  let ?p = "get_disk_path b h"
  have p: "tmp_path b u \<noteq> ?p" for u
    using assms by (auto simp: get_disk_path_def hex_name_path_join)
  have "rg.safe b E (\<lambda>x B r. True) (fs_remove_file E ?p) A s" for A s
    unfolding fs_remove_file_def
    by (rule safe_io) (auto simp: tmp_guar_def p delete_conv' world_ok_remove split: option.splits)
  then have *: "rg.safe b E (\<lambda>r B w. True) (try_task DeleteBlobIo (fs_remove_file E ?p) (\<lambda>_. Return (Inr ()))) A s" for A s
    by (rule rg.safe_try) auto
  show ?thesis
    unfolding handle_DeleteBlob_def Let_def by (rule rg.safe_try [OF safe_metadata]) (auto intro: * split: prod.splits)
qed

end

end
