(* ===== verification/Repli_Requests.thy ===== *)
theory Repli_Requests
  imports Repli_Safety
begin

text \<open>
  The handlers of the S3 actor and the requests of the frontend under every interleaving.
\<close>

section \<open>Tasks that are safe from every state\<close>

definition always :: "repl_env \<Rightarrow> ContentAddressableBlobStore \<Rightarrow> ('a \<Rightarrow> bool) \<Rightarrow> (world, 'a) task \<Rightarrow> bool" where
  "always E b P t \<longleftrightarrow> (\<forall>A s. rg.safe b E (\<lambda>r B w. P r) t A s)"

lemma always_Return: "P x \<Longrightarrow> always E b P (Return x)"
  by (simp add: always_def)

lemma always_bind:
  assumes "always E b P t" and "\<And>x. P x \<Longrightarrow> always E b Q (f x)"
  shows "always E b Q (bind_task t f)"
  using assms unfolding always_def by (blast intro: rg.safe_bind)

lemma always_try:
  assumes "always E b P t" and "\<And>e. P (Inl e) \<Longrightarrow> Q (Inl (conv e))" and "\<And>x. P (Inr x) \<Longrightarrow> always E b Q (f x)"
  shows "always E b Q (try_task conv t f)"
  using assms unfolding always_def by (blast intro: rg.safe_try)

lemma always_weaken: "always E b P t \<Longrightarrow> (\<And>x. P x \<Longrightarrow> Q x) \<Longrightarrow> always E b Q t"
  unfolding always_def by (blast intro: rg.safe_weaken)

lemma always_deliver:
  assumes "\<And>r. world_ok E b r \<Longrightarrow>
    runs t r (\<lambda>x w. calls r \<le> calls w \<and> files w = files r \<and> db_ok E (db w) \<and> stores_ok w \<and> P x)"
  shows "always E b P (deliver t)"
  unfolding always_def
proof (intro allI rg.safe_deliver)
  fix A r
  assume r: "world_ok E b r"
  show "runs t r (\<lambda>x s'. tmp_guar b A r s' \<and> world_ok E b s' \<and> P x)"
    using r by (intro runs_weaken [OF assms [OF r]]) (auto simp: tmp_guar_def world_ok_def blobs_ok_def)
qed

lemma always_atomic:
  assumes "\<And>r. world_ok E b r \<Longrightarrow> \<exists>w x. g r = Some (w, x) \<and> calls r \<le> calls w \<and> files w = files r
    \<and> db w = db r \<and> kv_stores w = kv_stores r \<and> P x"
  shows "always E b P (atomic g)"
  unfolding always_def
proof (intro allI rg.safe_atomic)
  fix A r
  assume r: "world_ok E b r"
  from assms [OF this] obtain w x where w: "g r = Some (w, x)" "calls r \<le> calls w" "files w = files r"
    "db w = db r" "kv_stores w = kv_stores r" "P x"
    by blast
  then have "tmp_guar b A r w" "world_ok E b w"
    using r by (simp_all add: tmp_guar_def world_ok_def blobs_ok_def stores_ok_def)
  with w show "\<exists>s' x B. g r = Some (s', x) \<and> tmp_guar b A r s' \<and> world_ok E b s'
      \<and> B \<subseteq> A \<union> (fresh_uuids E r - fresh_uuids E s') \<and> P x"
    by blast
qed

lemma always_traverse:
  assumes "\<And>x. x \<in> set xs \<Longrightarrow> always E b (\<lambda>r. \<forall>y. r = Inr y \<longrightarrow> P y) (f x)"
  shows "always E b (\<lambda>r. \<forall>ys. r = Inr ys \<longrightarrow> list_all P ys) (traverse_task f xs)"
  using assms
proof (induction xs)
  case (Cons x xs)
  show ?case
    unfolding traverse_task.simps
    by (rule always_try [OF Cons.prems [of x]])
      (auto intro!: always_try [OF Cons.IH] always_Return Cons.prems)
qed (simp add: always_Return)

section \<open>Stores\<close>

lemmas frame_defs = world_ok_def stores_ok_def kv_safe_def kv_frame_def owner_frame_def

lemma always_Get:
  assumes "kv_name st = meta_store_name n" "name_ok n" "NUL \<notin> set kind" "kind \<noteq> ''bucketmeta''"
  shows "always E b (\<lambda>r. True) (deliver (handle_Get E st (kind # k # ks)))"
  using assms by (intro always_deliver runs_weaken [OF runs_Get]) (auto simp: frame_defs)

lemma always_Set:
  assumes "kv_name st = meta_store_name n" "name_ok n" "rust_string (join_with [NUL] (k # ks))" "entry_ok E (get_path st key) v"
  shows "always E b (\<lambda>r. True) (deliver (handle_Set E st (''bucketmeta'' # k # ks) key v))"
  using assms by (intro always_deliver runs_weaken [OF runs_Set]) (auto simp: frame_defs)

lemma always_MultiSet:
  assumes "kv_name st = meta_store_name n" "name_ok n" "rust_string (join_with [NUL] (k # ks))"
    "list_all (\<lambda>(key, v). entry_ok E (get_path st key) v) es"
  shows "always E b (\<lambda>r. True) (deliver (handle_MultiSet E st (''bucketmeta'' # k # ks) es))"
  using assms by (intro always_deliver runs_weaken [OF runs_MultiSet]) (auto simp: frame_defs)

lemma always_MultiDelete:
  assumes "kv_name st = meta_store_name n" "name_ok n" "rust_string (join_with [NUL] (k # ks))"
  shows "always E b (\<lambda>r. True) (deliver (handle_MultiDelete E st (''bucketmeta'' # k # ks) keys))"
  using assms by (intro always_deliver runs_weaken [OF runs_MultiDelete]) (auto simp: frame_defs)

text \<open>The entries of a listing are entries of some database of the right types.\<close>

lemma always_List:
  assumes "kv_name st = meta_store_name n" "name_ok n" "NUL \<notin> set kind" "kind \<noteq> ''bucketmeta''" "rust_string kind"
    "rust_string (join_with [NUL] (k # ks))"
  shows "always E b (\<lambda>r. \<forall>m. r = Inr m \<longrightarrow> list_all rust_string (map fst m)
      \<and> (\<forall>x v. map_of m x = Some v \<longrightarrow> entry_ok E (bucket_key n kind (join_with [NUL] (k # ks) @ x)) v))
    (deliver (handle_List E st (kind # k # ks)))"
  using assms
  by (intro always_deliver runs_weaken [OF runs_List])
    (auto simp: frame_defs get_path_bucket bucket_key_append intro: db_okD)

lemma always_GetOrCreate:
  assumes "name_ok n"
  shows "always E b (\<lambda>r. (\<forall>store e. r \<noteq> Inl (StoreTypeMissmatch store e)) \<and> (\<forall>st. r = Inr st \<longrightarrow> kv_name st = meta_store_name n))
    (deliver (handle_GetOrCreateKeyValueStore E (meta_store_name n)))"
  using assms
  by (intro always_deliver runs_weaken [OF runs_GetOrCreate]) (auto simp: frame_defs)

section \<open>Decimal numbers with sign\<close>

lemma digit_char_not_sign: "d < 10 \<Longrightarrow> digit_char d \<noteq> CHR ''-'' \<and> digit_char d \<noteq> CHR ''+''"
proof -
  have "list_all (\<lambda>d. digit_char d \<noteq> CHR ''-'' \<and> digit_char d \<noteq> CHR ''+'') [0..<10]"
    by code_simp
  then show "d < 10 \<Longrightarrow> ?thesis"
    by (simp add: list_all_iff)
qed

lemma show_nat_Cons: "\<exists>c r. show_nat n = c # r \<and> c \<noteq> CHR ''-'' \<and> c \<noteq> CHR ''+''"
proof -
  have "show_nat n \<noteq> []"
    by (subst show_nat.simps) simp
  then obtain c r where c: "show_nat n = c # r"
    by (cases "show_nat n") auto
  then obtain d where "d < 10" "c = digit_char d"
    using set_show_nat [of c n] by auto
  with c digit_char_not_sign show ?thesis
    by blast
qed

lemma parse_show_i64:
  assumes "- (2 ^ 63) \<le> i" and "i < 2 ^ 63"
  shows "parse_i64 (show_i64 i) = Some i"
proof (cases "i < 0")
  case True
  have "show_nat n \<noteq> []" for n
    using show_nat_Cons [of n] by auto
  moreover have "parse_digits 0 (show_nat (nat (- i))) = Some (nat (- i))"
    using assms by (intro parse_digits_show_nat) (simp add: nat_less_iff)
  ultimately show ?thesis
    using assms True by (simp add: parse_i64_def show_i64_def nat_le_iff)
next
  case False
  obtain c r where c: "show_nat (nat i) = c # r" "c \<noteq> CHR ''-''" "c \<noteq> CHR ''+''"
    using show_nat_Cons by blast
  moreover have "parse_digits 0 (c # r) = Some (nat i)"
    unfolding c(1) [symmetric] using assms by (intro parse_digits_show_nat) (simp add: nat_less_iff)
  ultimately show ?thesis
    using assms False by (simp add: parse_i64_def show_i64_def nat_less_iff)
qed

lemma ascii_show_nat: "ascii (show_nat n)"
proof -
  have "list_all (\<lambda>d. of_char (digit_char d) < (128 :: nat)) [0..<10]"
    by code_simp
  then show ?thesis
    by (auto simp: ascii_def list_all_iff dest!: set_show_nat)
qed

lemma rust_string_numbers [simp]: "rust_string (show_u64 v)" "rust_string (show_i64 i)"
proof -
  have "ascii (show_i64 i)"
    using ascii_show_nat by (simp add: show_i64_def ascii_def)
  then show "rust_string (show_u64 v)" "rust_string (show_i64 i)"
    by (simp_all add: show_u64_def ascii_show_nat ascii_rust_string)
qed

section \<open>Handlers of the actor\<close>

definition actor_ok :: "S3 \<Rightarrow> ContentAddressableBlobStore \<Rightarrow> bool" where
  "actor_ok self b \<longleftrightarrow>
     (case s3_kv_store self of None \<Rightarrow> False | Some root \<Rightarrow> kv_name root = meta_store_name ''root'')
     \<and> s3_blob_store self = Some b"

lemma name_ok_root [simp]: "name_ok ''root''"
  by (simp add: name_ok_def)

lemma actor_okE:
  assumes "actor_ok self b"
  obtains root where "s3_kv_store self = Some root" "kv_name root = meta_store_name ''root''" "s3_blob_store self = Some b"
  using assms by (auto simp: actor_ok_def split: option.splits)

lemma always_with_store:
  assumes "actor_ok self b" and "\<And>root. kv_name root = meta_store_name ''root'' \<Longrightarrow> always E b P (f root)"
  shows "always E b P (with_store self f)"
  using assms by (auto elim!: actor_okE simp: with_store_def)

lemma with_blob_store_actor: "actor_ok self b \<Longrightarrow> with_blob_store self f = f b"
  by (auto elim!: actor_okE simp: with_blob_store_def)

lemma always_with_bucket_store:
  assumes "actor_ok self b" and "name_ok bucket" and "P (Inl nf)" and "\<And>e. P (Inl (conv e))"
    and handler: "\<And>st. kv_name st = meta_store_name bucket \<Longrightarrow> always E b P (handler st)"
  shows "always E b P (with_bucket_store E self bucket nf conv handler)"
  unfolding with_bucket_store_def bucket_path_def
proof (rule always_with_store [OF assms(1)], rule always_try [OF always_Get [OF _ name_ok_root]], goal_cases)
  case (5 root resp)
  have "always E b P (case r of Inr addr \<Rightarrow> handler addr | Inl (GetOrCreateStoreError e) \<Rightarrow> Return (Inl (conv e))
      | Inl (StoreTypeMissmatch store e) \<Rightarrow> panic)"
    if "(\<forall>store e. r \<noteq> Inl (StoreTypeMissmatch store e)) \<and> (\<forall>st. r = Inr st \<longrightarrow> kv_name st = meta_store_name bucket)" for r
    using that assms(4) handler by (cases r; cases "projl r") (auto intro: always_Return)
  then show ?case
    using assms(3) by (auto intro: always_Return always_bind [OF always_GetOrCreate [OF assms(2)]])
qed (simp_all add: assms)

text \<open>The names in a request are strings, those of buckets without the separator of the database.\<close>

fun request_ok :: "S3Request \<Rightarrow> bool" where
  "request_ok (CreateBucket name) = name_ok name"
| "request_ok (ListObjects bucket pre) \<longleftrightarrow> name_ok bucket \<and> rust_string (option_or pre [])"
| "request_ok (ListObjectsV2 bucket pre) \<longleftrightarrow> name_ok bucket \<and> rust_string (option_or pre [])"
| "request_ok (HeadObject bucket key) \<longleftrightarrow> name_ok bucket \<and> rust_string key"
| "request_ok (GetObject bucket key) \<longleftrightarrow> name_ok bucket \<and> rust_string key"
| "request_ok (DeleteObject bucket key) \<longleftrightarrow> name_ok bucket \<and> rust_string key"
| "request_ok (PutObject bucket key body) \<longleftrightarrow> name_ok bucket \<and> rust_string key"
| "request_ok _ \<longleftrightarrow> True"

text \<open>What an answer promises: a download has its checksum, an upload was complete and has its checksums.\<close>

fun reply_ok :: "repl_env \<Rightarrow> S3Request \<Rightarrow> s3s_error + S3Output \<Rightarrow> bool" where
  "reply_ok E (GetObject bucket key) (Inr (GetObjectResult out pieces)) \<longleftrightarrow>
     sha256_hex E (concat pieces) = ho_checksum_sha256 out"
| "reply_ok E (PutObject bucket key body) (Inr (PutObjectOutput e_tag checksum)) \<longleftrightarrow>
     (case body of
        None \<Rightarrow> False
      | Some stream \<Rightarrow> list_all (\<lambda>i. \<not> isl i) stream \<and> e_tag = md5_hex E (concat (map projr stream))
          \<and> checksum = sha256_hex E (concat (map projr stream)))"
| "reply_ok E req r \<longleftrightarrow> True"

context s3_platform
begin

lemma timestamp_show: "timestamp_ok E (show_i64 (unix_timestamp E t))"
  using seconds_range [of t] seconds [of t] by (simp add: timestamp_ok_def parse_show_i64 option_or_def)

lemma always_meta_to_obj:
  assumes "kv_name st = meta_store_name bucket" "name_ok bucket" "rust_string obj"
  shows "always E b (\<lambda>r. \<forall>x. r = Inr x \<longrightarrow> obj_key x = obj \<and> (hex_name (obj_sha256sum x) \<or> obj_sha256sum x = []))
    (meta_to_obj E st bucket obj)"
proof -
  have ks: "rust_string (join_with [NUL] [bucket, obj, []])"
    using assms by (simp add: name_ok_def rust_string_append)
  have sha: "hex_name v" if "entry_ok E (bucket_key bucket ''objectmeta'' (join_with [NUL] [bucket, obj, []] @ ''sha256sum'')) v" for v
    using that assms(2) by (simp add: entry_ok_bucket)
  have time: "timestamp_ok E v" if "entry_ok E (bucket_key bucket ''objectmeta'' (join_with [NUL] [bucket, obj, []] @ ''last_modified'')) v" for v
    using that assms(2) by (simp add: entry_ok_bucket)
  show ?thesis
    unfolding meta_to_obj_def
  proof (rule always_try [OF always_List [OF assms(1,2) _ _ _ ks]], goal_cases)
    case (5 meta)
    have "from_unix_timestamp E (option_or (Option.bind (map_of meta ''last_modified'') parse_i64) 0) \<noteq> None"
      using epoch 5 time by (cases "map_of meta ''last_modified''") (auto simp: option_or_def timestamp_ok_def)
    moreover have "hex_name v" if "map_of meta ''sha256sum'' = Some v" for v
      using 5 sha that by blast
    ultimately show ?case
      by (auto intro!: always_Return simp: option_or_def split: option.splits)
  qed simp_all
qed

lemma always_ListBuckets: "actor_ok self b \<Longrightarrow> always E b (\<lambda>r. True) (handle_ListBuckets E self)"
  unfolding handle_ListBuckets_def
  by (erule always_with_store) (auto intro!: always_try [OF always_List [OF _ name_ok_root]] always_Return)

lemma always_CreateBucket:
  assumes "actor_ok self b" "name_ok name"
  shows "always E b (\<lambda>r. True) (handle_CreateBucket E self name)"
  unfolding handle_CreateBucket_def bucket_path_def bucket_version_path_def
proof (rule always_with_store [OF assms(1)], rule always_try [OF always_Get [OF _ name_ok_root]], goal_cases)
  case (5 root resp)
  have "always E b (\<lambda>r. True) (deliver (handle_Set E root [''bucketmeta'', name, ''version''] [''buckets'', name] []))"
    using assms(2) 5
    by (intro always_Set [OF _ name_ok_root])
      (auto simp: get_path_bucket entry_ok_bucket name_ok_def rust_string_append)
  then show ?case
    by (auto intro: always_Return always_try)
qed simp_all

lemma always_HeadBucket:
  assumes "actor_ok self b"
  shows "always E b (\<lambda>r. True) (handle_HeadBucket E self name)"
  unfolding handle_HeadBucket_def bucket_path_def
  by (rule always_with_store [OF assms], rule always_try [OF always_Get [OF _ name_ok_root]]) (auto intro: always_Return)

lemma always_ListObject:
  assumes "actor_ok self b" "name_ok bucket" "rust_string pre"
  shows "always E b (\<lambda>r. True) (handle_ListObject E self bucket pre)"
  unfolding handle_ListObject_def object_path_def
proof (rule always_with_bucket_store [OF assms(1,2)], goal_cases)
  case (3 st)
  have "rust_string (join_with [NUL] [bucket, pre])"
    using assms by (simp add: name_ok_def rust_string_append)
  then show ?case
  proof (intro always_try [OF always_List [OF 3 assms(2)]], goal_cases)
    case (6 resp)
    then have "always E b (\<lambda>r. \<forall>xs. r = Inr xs \<longrightarrow> list_all (\<lambda>x. True) xs) (traverse_task (meta_to_obj E st bucket) (map fst resp))"
      using assms 3 by (intro always_traverse always_weaken [OF always_meta_to_obj]) (auto simp: list_all_iff)
    then show ?case
      by (rule always_try) (auto intro: always_Return)
  qed simp_all
qed simp_all

lemma always_HeadObject:
  assumes "actor_ok self b" "name_ok bucket" "rust_string key"
  shows "always E b (\<lambda>r. True) (handle_HeadObject E self bucket key)"
  unfolding handle_HeadObject_def object_path_def
proof (rule always_with_bucket_store [OF assms(1,2)], goal_cases)
  case (3 st)
  then show ?case
    using assms
    by (intro always_try [OF always_Get [OF 3 assms(2)]])
      (auto intro!: always_Return always_try [OF always_meta_to_obj])
qed simp_all

lemma always_clock: "always E b (\<lambda>t. True) (clock E)"
  unfolding clock_def by (rule always_atomic) auto

lemma always_send_replicate: "always E b (\<lambda>t. True) (send_replicate e)"
  unfolding send_replicate_def by (rule always_atomic) auto

text \<open>The answer to an upload names the checksums of what was uploaded.\<close>

lemma always_PutObject:
  assumes "actor_ok self b" "name_ok bucket" "rust_string key"
  shows "always E b (\<lambda>r. \<forall>x. r = Inr x \<longrightarrow> list_all (\<lambda>i. \<not> isl i) stream
      \<and> obj_md5sum x = md5_hex E (concat (map projr stream)) \<and> obj_sha256sum x = sha256_hex E (concat (map projr stream)))
    (handle_PutObject E self bucket key stream)"
  unfolding handle_PutObject_def with_blob_store_actor [OF assms(1)] bucket_version_path_def
proof (rule always_with_bucket_store [OF assms(1,2)], goal_cases)
  case (3 st)
  have blob: "always E b (put_blob_ok E stream) (handle_PutBlob E b stream)"
    using safe_PutBlob by (simp add: always_def)
  show ?case
  proof (rule always_try [OF blob], goal_cases)
    case (2 info)
    have info: "hex_name (bi_sha256sum info)" "hex_name (bi_md5sum info)"
      using 2 sha_hex md5_hex by (simp_all add: put_blob_ok_def)
    have "list_all (\<lambda>(k, v). entry_ok E (get_path st k) v) (object_entries E bucket key t info)" for t
      using assms info timestamp_show 3
      by (simp add: object_entries_def object_path_def objectmeta_path_def get_path_bucket entry_ok_bucket
          name_ok_def rust_string_append)
    then have "always E b (\<lambda>r. True) (deliver (handle_MultiSet E st [''bucketmeta'', bucket, ''version'']
        (object_entries E bucket key t info)))" for t
      using assms 3 by (intro always_MultiSet) (auto simp: name_ok_def rust_string_append)
    then show ?case
      using 2
      by (auto intro!: always_bind [OF always_clock] always_try [where P = "\<lambda>r. True"]
          always_bind [OF always_send_replicate] always_Return simp: put_blob_ok_def put_result_def)
  qed simp
qed simp_all

text \<open>A download is the content that its checksum says.\<close>

lemma always_GetObject:
  assumes "actor_ok self b" "name_ok bucket" "rust_string key"
  shows "always E b (\<lambda>r. \<forall>x pieces. r = Inr (x, pieces) \<longrightarrow> sha256_hex E (concat pieces) = obj_sha256sum x)
    (handle_GetObject E self bucket key)"
  unfolding handle_GetObject_def with_blob_store_actor [OF assms(1)] object_path_def
proof (rule always_with_bucket_store [OF assms(1,2)], goal_cases)
  case (3 st)
  have get: "always E b (\<lambda>r. \<forall>pieces. r = Inr pieces \<longrightarrow> sha256_hex E (concat pieces) = h) (handle_GetBlob E b h)"
    if "hex_name h \<or> h = []" for h
    using safe_GetBlob [OF that] by (simp add: always_def)
  have "always E b (\<lambda>r. \<forall>x pieces. r = Inr (x, pieces) \<longrightarrow> sha256_hex E (concat pieces) = obj_sha256sum x)
      (try_task GetObjectError_from (handle_GetBlob E b (obj_sha256sum m)) (\<lambda>resp. Return (Inr (m, resp))))"
    if "hex_name (obj_sha256sum m) \<or> obj_sha256sum m = []" for m
    by (rule always_try [OF get [OF that]]) (auto intro: always_Return)
  then show ?case
    by (intro always_try [OF always_Get [OF 3 assms(2)]])
      (auto intro!: always_Return always_try [OF always_meta_to_obj [OF 3 assms(2,3)]])
qed simp_all

lemma always_DeleteObject:
  assumes "actor_ok self b" "name_ok bucket" "rust_string key"
  shows "always E b (\<lambda>r. True) (handle_DeleteObject E self bucket key)"
  unfolding handle_DeleteObject_def with_blob_store_actor [OF assms(1)] object_path_def bucket_version_path_def
proof (rule always_with_bucket_store [OF assms(1,2)], goal_cases)
  case (3 st)
  have del: "always E b (\<lambda>r. True) (handle_DeleteBlob E b h)" if "hex_name h \<or> h = []" for h
    using safe_DeleteBlob [OF that] by (simp add: always_def)
  have multi: "always E b (\<lambda>r. True) (deliver (handle_MultiDelete E st [''bucketmeta'', bucket, ''version''] keys))" for keys
    using assms 3 by (intro always_MultiDelete) (auto simp: name_ok_def rust_string_append)
  show ?case
    by (rule always_try [OF always_Get [OF 3 assms(2)]])
      (auto intro!: always_Return always_try [OF always_meta_to_obj [OF 3 assms(2,3)]] always_try [OF multi]
        always_bind [OF always_send_replicate] always_try [OF del])
qed simp_all

lemma always_serve:
  assumes "actor_ok self b" "request_ok req"
  shows "always E b (reply_ok E req) (serve E (Some self) req)"
proof (cases req)
  case GetBucketLocation
  then show ?thesis by (simp add: get_bucket_location_def always_Return)
next
  case ListBuckets
  have stamp: "always E b (\<lambda>r. True) (stamp_buckets E names)" for names
    unfolding stamp_buckets_def by (rule always_atomic) auto
  from ListBuckets assms show ?thesis
    by (auto simp: list_buckets_def send_s3_def
        intro!: always_try [OF always_ListBuckets] always_bind [OF stamp] always_Return)
next
  case (CreateBucket name)
  with assms show ?thesis
    by (auto simp: create_bucket_def send_s3_def intro!: always_try [OF always_CreateBucket] always_Return)
next
  case (HeadBucket name)
  with assms show ?thesis
    by (auto simp: head_bucket_def send_s3_def intro!: always_try [OF always_HeadBucket] always_Return)
next
  case (ListObjects bucket pre)
  with assms show ?thesis
    by (auto simp: list_objects_def send_s3_def intro!: always_try [OF always_ListObject] always_Return)
next
  case (ListObjectsV2 bucket pre)
  with assms show ?thesis
    by (auto simp: list_objects_v2_def send_s3_def intro!: always_try [OF always_ListObject] always_Return)
next
  case (HeadObject bucket key)
  with assms show ?thesis
    by (auto simp: head_object_def send_s3_def intro!: always_try [OF always_HeadObject] always_Return)
next
  case (GetObject bucket key)
  with assms show ?thesis
    by (auto simp: get_object_def send_s3_def head_output_def intro!: always_try [OF always_GetObject] always_Return)
next
  case (DeleteObject bucket key)
  with assms show ?thesis
    by (auto simp: delete_object_def send_s3_def intro!: always_try [OF always_DeleteObject] always_Return)
next
  case (PutObject bucket key body)
  with assms show ?thesis
    by (auto simp: put_object_def send_s3_def intro!: always_try [OF always_PutObject] always_Return split: option.split)
qed

lemma requests_pool_safe:
  assumes "actor_ok self b" "world_ok E b w" "list_all request_ok rs"
    and "pool_step\<^sup>*\<^sup>* (w, map (serve E (Some self)) rs) (w', ts)"
  shows "rg.pool_safe b E (\<lambda>i r B w. reply_ok E (rs ! i) r) (w', ts)"
proof -
  have "rg.safe b E (\<lambda>r B w. reply_ok E (rs ! i) r) (map (serve E (Some self)) rs ! i) {} w" if "i < length rs" for i
    using always_serve [OF assms(1), of "rs ! i"] assms(3) that by (simp add: always_def list_all_length)
  then have "rg.pool_safe b E (\<lambda>i r B w. reply_ok E (rs ! i) r) (w, map (serve E (Some self)) rs)"
    using assms(2) by (intro rg.pool_safe_start) auto
  with rg.pool_sound [OF assms(4)] show ?thesis
    by blast
qed

end

lemma pool_length: "pool_step\<^sup>*\<^sup>* c c' \<Longrightarrow> length (snd c') = length (snd c)"
  by (induction rule: rtranclp_induct) (auto elim: pool_step.cases)

end
