(* ===== verification/Repli_Kv_Spec.thy ===== *)
theory Repli_Kv_Spec
  imports Repli_Store_Laws
begin

text \<open>
  What the key value store promises: a write happens as a whole, together with the next version of
  what it belongs to, or not at all; reads and listings return the content of the database.
\<close>

section \<open>Specification\<close>

definition no_faults :: "repl_env \<Rightarrow> bool" where
  "no_faults E \<longleftrightarrow> (\<forall>n. rocks_fault E n = None \<and> io_fault E n = None)"

datatype kv_command =
    KvSet "string list" string
  | KvMultiSet "(string list \<times> string) list"
  | KvDelete "string list"
  | KvMultiDelete "string list list"

fun kv_handle :: "repl_env \<Rightarrow> KeyValueStore \<Rightarrow> string list \<Rightarrow> kv_command \<Rightarrow> (world, StoreError + u64) task" where
  "kv_handle E st vp (KvSet key v) = handle_Set E st vp key v"
| "kv_handle E st vp (KvMultiSet es) = handle_MultiSet E st vp es"
| "kv_handle E st vp (KvDelete key) = handle_Delete E st vp key"
| "kv_handle E st vp (KvMultiDelete keys) = handle_MultiDelete E st vp keys"

text \<open>What a command does to the content of the store, as a function on maps.\<close>

fun kv_effect :: "KeyValueStore \<Rightarrow> kv_command \<Rightarrow> (string \<rightharpoonup> string) \<Rightarrow> string \<rightharpoonup> string" where
  "kv_effect st (KvSet key v) m = m(get_path st key \<mapsto> v)"
| "kv_effect st (KvMultiSet es) m = m ++ map_of (rev (map (\<lambda>(key, v). (get_path st key, v)) es))"
| "kv_effect st (KvDelete key) m = m(get_path st key := None)"
| "kv_effect st (KvMultiDelete keys) m = (\<lambda>k. if list_ex (\<lambda>key. prefix (get_path st key) k) keys then None else m k)"

definition current_version :: "KeyValueStore \<Rightarrow> string list \<Rightarrow> (string \<times> string) list \<Rightarrow> u64" where
  "current_version st vp d = (case map_of d (get_path st vp) of None \<Rightarrow> 0 | Some e \<Rightarrow> u64_from_le_bytes e)"

definition version_ok :: "KeyValueStore \<Rightarrow> string list \<Rightarrow> (string \<times> string) list \<Rightarrow> bool" where
  "version_ok st vp d = (case map_of d (get_path st vp) of None \<Rightarrow> True | Some e \<Rightarrow> length e = 8)"

section \<open>Writes\<close>

lemma to_le_bytes_roundtrip [simp]: "u64_from_le_bytes (to_le_bytes v) = v" "length (to_le_bytes v) = 8"
proof -
  have "unat v mod 256 ^ 8 = unat v"
    by (rule mod_less) simp
  then show "u64_from_le_bytes (to_le_bytes v) = v"
    unfolding u64_from_le_bytes_def to_le_bytes_def as_bytes_from_bytes rev_rev_ident be_nat_be_bytes by simp
  show "length (to_le_bytes v) = 8"
    by (simp add: to_le_bytes_def from_bytes_def)
qed

lemma map_of_apply_write: "map_of (apply_write (k, v) d) = (map_of d)(k := v)"
  by (cases v) (auto simp: apply_write_def update_conv' delete_conv' fun_eq_iff)

lemma apply_writes_append: "apply_writes (a @ b) d = apply_writes b (apply_writes a d)"
  by (simp add: apply_writes_def)

lemma apply_writes_simps [simp]:
  "apply_writes [] d = d" "apply_writes (kv # r) d = apply_writes r (apply_write kv d)"
  by (simp_all add: apply_writes_def)

lemma runs_rocks_spec:
  assumes "\<And>w'. kv_frame w w' \<Longrightarrow> db w' = db w \<Longrightarrow> (\<not> no_faults E \<longrightarrow> (\<forall>e. Q (Inl e) w')) \<and> Q (Inr (f (db w))) w'"
  shows "runs (rocks E f) w Q"
proof -
  have "kv_frame w (w\<lparr>calls := Suc (calls w)\<rparr>)"
    by (simp add: kv_frame_def)
  from assms [OF this] show ?thesis
    unfolding rocks_def no_faults_def by (intro runs_atomic) (auto split: option.split)
qed

lemma runs_commit_spec:
  assumes "\<And>w'. kv_frame w w' \<Longrightarrow> db w' = db w \<Longrightarrow> \<not> no_faults E \<Longrightarrow> \<forall>e. Q (Inl e) w'"
    and "\<And>w'. kv_frame w w' \<Longrightarrow> db w' = apply_writes txn (db w) \<Longrightarrow> Q (Inr ()) w'"
  shows "runs (commit E txn) w Q"
proof -
  let ?w = "w\<lparr>calls := Suc (calls w)\<rparr>"
  have "kv_frame w ?w" "kv_frame w (?w\<lparr>db := apply_writes txn (db w)\<rparr>)"
    by (simp_all add: kv_frame_def)
  with assms(1) [of ?w] assms(2) [of "?w\<lparr>db := apply_writes txn (db w)\<rparr>"] show ?thesis
    by (cases "rocks_fault E (calls w)") (auto simp: commit_def no_faults_def intro!: runs_atomic)
qed

text \<open>A step that reads only: it may fail, and when it does not its value satisfies \<open>P\<close>.\<close>

definition reads_only :: "repl_env \<Rightarrow> world \<Rightarrow> ('a \<Rightarrow> bool) \<Rightarrow> 'e + 'a \<Rightarrow> world \<Rightarrow> bool" where
  "reads_only E w P r w' \<longleftrightarrow> kv_frame w w' \<and> db w' = db w \<and> (case r of Inl e \<Rightarrow> \<not> no_faults E | Inr x \<Rightarrow> P x)"

text \<open>A write: nothing has changed, or everything with the next version.\<close>

definition writes_all :: "repl_env \<Rightarrow> world \<Rightarrow> string \<Rightarrow> u64 \<Rightarrow> txn \<Rightarrow> StoreError + u64 \<Rightarrow> world \<Rightarrow> bool" where
  "writes_all E w vkey ver txn r w' \<longleftrightarrow> kv_frame w w' \<and>
     (case r of
        Inl e \<Rightarrow> \<not> no_faults E \<and> db w' = db w
      | Inr v \<Rightarrow> v = ver \<and> db w' = apply_writes (txn @ [(vkey, Some (to_le_bytes ver))]) (db w))"

lemma runs_reads_rocks: "P (f (db w)) \<Longrightarrow> runs (rocks E f) w (reads_only E w P)"
  by (rule runs_rocks_spec) (simp add: reads_only_def)

lemma runs_reads_try:
  assumes "runs t w (reads_only E w P)" and "\<And>x w'. P x \<Longrightarrow> kv_frame w w' \<Longrightarrow> db w' = db w \<Longrightarrow> runs (f x) w' (reads_only E w' Q)"
  shows "runs (try_task conv t f) w (reads_only E w Q)"
  by (rule runs_try [OF assms(1)])
    (auto simp: reads_only_def intro!: runs_weaken [OF assms(2)] elim: kv_frame_trans)

lemma runs_writes_try:
  assumes "runs t w (reads_only E w P)"
    and "\<And>x w'. P x \<Longrightarrow> kv_frame w w' \<Longrightarrow> db w' = db w \<Longrightarrow> runs (f x) w' (writes_all E w' vkey ver txn)"
  shows "runs (try_task id t f) w (writes_all E w vkey ver txn)"
  by (rule runs_try [OF assms(1)])
    (auto simp: reads_only_def writes_all_def intro!: runs_weaken [OF assms(2)] elim: kv_frame_trans split: sum.splits)

lemma reads_only_refl: "P x \<Longrightarrow> runs (Return (Inr x)) w (reads_only E w P)"
  by (rule runs_Return) (simp add: reads_only_def)

lemma runs_bump_spec:
  assumes "version_ok st vp (db w)"
  shows "runs (bump_version E st vp txn) w (reads_only E w (\<lambda>x.
    x = (current_version st vp (db w) + 1, txn @ [(get_path st vp, Some (to_le_bytes (current_version st vp (db w) + 1)))])))"
  unfolding bump_version_def Let_def
proof (rule runs_reads_try [OF runs_reads_rocks [where P = "\<lambda>v. v = map_of (db w) (get_path st vp)"]], goal_cases)
  case (2 v w')
  with assms show ?case
    by (intro runs_reads_try [where P = "\<lambda>ver. ver = current_version st vp (db w)"] runs_reads_rocks)
      (auto simp: version_ok_def current_version_def intro: reads_only_refl split: option.splits)
qed simp

lemma runs_finish_spec:
  assumes "version_ok st vp (db w)"
  shows "runs (finish_txn E st vp txn) w (writes_all E w (get_path st vp) (current_version st vp (db w) + 1) txn)"
  unfolding finish_txn_def
  by (rule runs_writes_try [OF runs_bump_spec [OF assms]])
    (auto simp: writes_all_def intro!: runs_try [OF runs_commit_spec [where Q =
        "writes_all E w' (get_path st vp) (current_version st vp (db w) + 1) txn \<circ> map_sum id (\<lambda>_. current_version st vp (db w) + 1)" for w']]
      runs_Return split: sum.splits)

text \<open>The writes that a command prepares.\<close>

fun kv_writes :: "KeyValueStore \<Rightarrow> (string \<times> string) list \<Rightarrow> kv_command \<Rightarrow> txn" where
  "kv_writes st d (KvSet key v) = [(get_path st key, Some v)]"
| "kv_writes st d (KvMultiSet es) = map (\<lambda>(key, v). (get_path st key, Some v)) es"
| "kv_writes st d (KvDelete key) = [(get_path st key, None)]"
| "kv_writes st d (KvMultiDelete keys) = concat (map (\<lambda>key. map (\<lambda>(k, v). (k, None)) (prefix_range (get_path st key) d)) keys)"

lemma runs_put_all_spec:
  "runs (put_all E st es txn) w (reads_only E w (\<lambda>x. x = txn @ map (\<lambda>(key, v). (get_path st key, Some v)) es))"
proof (induction es arbitrary: txn w)
  case (Cons e es)
  obtain key v where e: "e = (key, v)"
    by (cases e)
  show ?case
    unfolding e put_all.simps
    by (rule runs_reads_try [OF runs_reads_rocks [where P = "\<lambda>x. x = txn @ [(get_path st key, Some v)]"]])
      (auto intro: runs_weaken [OF Cons.IH])
qed (simp add: reads_only_refl)

lemma runs_delete_found_spec:
  "runs (delete_found E found txn) w (reads_only E w (\<lambda>x. x = txn @ map (\<lambda>(k, v). (k, None)) found))"
proof (induction E found txn arbitrary: w rule: delete_found.induct)
  case (1 E txn)
  then show ?case by (simp add: runs_reads_rocks)
next
  case (2 E k v found txn)
  show ?case
    unfolding delete_found.simps
  proof (rule runs_reads_try [OF runs_reads_rocks [where P = "\<lambda>x. True"]], simp,
      rule runs_reads_try [OF runs_reads_rocks [where P = "\<lambda>x. x = txn @ [(k, None)]"]], simp, goal_cases)
    case (1 x w1 y w2)
    then show ?case
      using 2 [of y w2] by simp
  qed
qed

lemma runs_iter_range_spec: "runs (iter_range key) w (reads_only E w (\<lambda>x. x = prefix_range key (db w)))"
  by (rule runs_iter_range) (simp add: reads_only_def)

lemma runs_delete_all_spec:
  "runs (delete_all E st keys txn) w (reads_only E w (\<lambda>x. x = txn @ kv_writes st (db w) (KvMultiDelete keys)))"
proof (induction keys arbitrary: txn w)
  case (Cons key keys)
  show ?case
    unfolding delete_all.simps
  proof (rule runs_reads_try [OF runs_iter_range_spec], rule runs_reads_try [OF runs_delete_found_spec], goal_cases)
    case (1 x w1 y w2)
    then show ?case
      using Cons.IH [of y w2] by simp
  qed
qed (simp add: reads_only_refl)

lemma runs_kv_handle:
  assumes "version_ok st vp (db w)"
  shows "runs (kv_handle E st vp cmd) w
    (writes_all E w (get_path st vp) (current_version st vp (db w) + 1) (kv_writes st (db w) cmd))"
proof -
  have fin: "runs (finish_txn E st vp txn) w' (writes_all E w' (get_path st vp) (current_version st vp (db w) + 1) (kv_writes st (db w) cmd))"
    if "txn = kv_writes st (db w) cmd" "kv_frame w w'" "db w' = db w" for txn w'
    using runs_finish_spec [of st vp w' E txn] assms that by simp
  show ?thesis
  proof (cases cmd)
    case (KvSet key v)
    then show ?thesis
      unfolding KvSet kv_handle.simps handle_Set_def
      by (intro runs_writes_try [OF runs_reads_rocks [where P = "\<lambda>x. x = kv_writes st (db w) cmd"] fin [unfolded KvSet]]) (auto simp: KvSet)
  next
    case (KvMultiSet es)
    then show ?thesis
      unfolding KvMultiSet kv_handle.simps handle_MultiSet_def
      by (intro runs_writes_try [OF runs_put_all_spec fin [unfolded KvMultiSet]]) (auto simp: KvMultiSet)
  next
    case (KvDelete key)
    then show ?thesis
      unfolding KvDelete kv_handle.simps handle_Delete_def
      by (intro runs_writes_try [OF runs_reads_rocks [where P = "\<lambda>x. x = kv_writes st (db w) cmd"] fin [unfolded KvDelete]]) (auto simp: KvDelete)
  next
    case (KvMultiDelete keys)
    then show ?thesis
      unfolding KvMultiDelete kv_handle.simps handle_MultiDelete_def
      by (intro runs_writes_try [OF runs_delete_all_spec fin [unfolded KvMultiDelete]]) (auto simp: KvMultiDelete)
  qed
qed

lemma apply_deletes: "map_of (apply_writes (map (\<lambda>k. (k, None)) ks) d) = (\<lambda>k. if k \<in> set ks then None else map_of d k)"
  by (induction ks arbitrary: d) (auto simp: map_of_apply_write fun_eq_iff)

lemma apply_puts: "map_of (apply_writes (map (\<lambda>(k, v). (f k, Some v)) es) d) = map_of d ++ map_of (rev (map (\<lambda>(k, v). (f k, v)) es))"
  by (induction es arbitrary: d) (auto simp: map_of_apply_write fun_eq_iff map_add_def split: option.splits)

lemma kv_writes_effect: "map_of (apply_writes (kv_writes st d cmd) d) = kv_effect st cmd (map_of d)"
proof (cases cmd)
  case (KvMultiDelete keys)
  let ?ks = "concat (map (\<lambda>key. map fst (prefix_range (get_path st key) d)) keys)"
  have "kv_writes st d cmd = map (\<lambda>k. (k, None)) ?ks"
    by (simp add: KvMultiDelete map_concat comp_def case_prod_unfold)
  moreover have "k \<in> set ?ks \<longleftrightarrow> map_of d k \<noteq> None \<and> list_ex (\<lambda>key. prefix (get_path st key) k) keys" for k
    by (force simp: prefix_range_def list_ex_iff map_of_eq_None_iff image_iff)
  ultimately show ?thesis
    by (auto simp: KvMultiDelete apply_deletes fun_eq_iff)
qed (auto simp: map_of_apply_write apply_puts)

section \<open>Reads\<close>

lemma runs_Get_spec:
  assumes "case map_of (db w) (get_path st key) of None \<Rightarrow> True | Some e \<Rightarrow> rust_string e"
  shows "runs (handle_Get E st key) w (reads_only E w (\<lambda>x. x = map_of (db w) (get_path st key)))"
  unfolding handle_Get_def
proof (rule runs_reads_try [OF runs_reads_rocks [where P = "\<lambda>x. x = map_of (db w) (get_path st key)"]], goal_cases)
  case (2 v w')
  with assms show ?case
    by (auto simp: from_utf8_unwrap_def try_task_def reads_only_refl split: option.split option.splits)
qed simp

lemma runs_list_found_spec:
  assumes "list_all (\<lambda>(k, v). rust_string (drop n k) \<and> rust_string v) found"
  shows "runs (list_found E n found m) w (reads_only E w (\<lambda>x. x = fold (\<lambda>(k, v). AList.update (drop n k) v) found m))"
  using assms
proof (induction found arbitrary: m w)
  case (Cons kv found)
  obtain k v where kv: "kv = (k, v)"
    by (cases kv)
  then show ?case
    using Cons
    by (auto simp: from_utf8_unwrap_def try_task_def intro!: runs_reads_try [OF runs_reads_rocks [where P = "\<lambda>x. True"], unfolded try_task_def])
qed (simp add: runs_reads_rocks)

end
