(* ===== verification/Repli_Spec.thy ===== *)
theory Repli_Spec
  imports Repli_Requests Repli_Kv_Spec
begin

text \<open>
  An abstract object store, buckets of objects with their content and time, and how the database and
  the files represent it.
\<close>

section \<open>Abstract object store\<close>

text \<open>An object is its content and the second of its last change.\<close>

type_synonym s3_abs = "string \<rightharpoonup> (string \<rightharpoonup> bytes \<times> int)"

definition objects_of :: "s3_abs \<Rightarrow> string \<Rightarrow> string \<rightharpoonup> bytes \<times> int" where
  "objects_of a n = (case a n of None \<Rightarrow> Map.empty | Some objs \<Rightarrow> objs)"

definition object_of :: "repl_env \<Rightarrow> string \<Rightarrow> bytes \<Rightarrow> int \<Rightarrow> Object" where
  "object_of E k c i =
     \<lparr>obj_key = k, obj_md5sum = md5_hex E c, obj_sha256sum = sha256_hex E c,
      obj_last_modified = option_or (from_unix_timestamp E i) 0, obj_size = of_nat (length c)\<rparr>"

text \<open>The first error of a stream, and its bytes when there is none.\<close>

fun first_error :: "(string + bytes) list \<Rightarrow> string option" where
  "first_error [] = None"
| "first_error (Inl msg # r) = Some msg"
| "first_error (Inr bs # r) = first_error r"

definition stream_bytes :: "(string + bytes) list \<Rightarrow> bytes" where
  "stream_bytes stream = concat (map projr stream)"

text \<open>
  The requests for which the service is specified: a listing is of the whole bucket, an upload does
  not collide with the checksum of another content, and the object deleted has a name that begins no
  other name and a content that no other object has.
\<close>

fun admissible :: "repl_env \<Rightarrow> s3_abs \<Rightarrow> S3Request \<Rightarrow> bool" where
  "admissible E a (ListObjects n pre) \<longleftrightarrow> option_or pre [] = []"
| "admissible E a (ListObjectsV2 n pre) \<longleftrightarrow> option_or pre [] = []"
| "admissible E a (PutObject n k (Some stream)) \<longleftrightarrow>
     (\<forall>n' k' c i. objects_of a n' k' = Some (c, i) \<longrightarrow> sha256_hex E c = sha256_hex E (stream_bytes stream) \<longrightarrow> c = stream_bytes stream)"
| "admissible E a (DeleteObject n k) \<longleftrightarrow>
     (\<forall>k'. prefix k k' \<longrightarrow> k' \<noteq> k \<longrightarrow> objects_of a n k' = None)
     \<and> (\<forall>c i n' k' c' i'. objects_of a n k = Some (c, i) \<longrightarrow> objects_of a n' k' = Some (c', i') \<longrightarrow>
          (n', k') \<noteq> (n, k) \<longrightarrow> sha256_hex E c' \<noteq> sha256_hex E c)"
| "admissible E a req \<longleftrightarrow> True"

inductive s3_spec :: "repl_env \<Rightarrow> s3_abs \<Rightarrow> S3Request \<Rightarrow> s3s_error + S3Output \<Rightarrow> s3_abs \<Rightarrow> bool" for E where
  location: "s3_spec E a GetBucketLocation (Inr GetBucketLocationOutput) a"
| list_buckets: "distinct (map fst bs) \<Longrightarrow> set (map fst bs) = dom a \<Longrightarrow> s3_spec E a ListBuckets (Inr (ListBucketsOutput bs)) a"
| create: "a n = None \<Longrightarrow> s3_spec E a (CreateBucket n) (Inr (CreateBucketOutput (''/'' @ n))) (a(n \<mapsto> Map.empty))"
| create_again: "a n \<noteq> None \<Longrightarrow> s3_spec E a (CreateBucket n) (Inl (s3_error BucketAlreadyExistsCode)) a"
| head_bucket: "a n \<noteq> None \<Longrightarrow> s3_spec E a (HeadBucket n) (Inr HeadBucketOutput) a"
| no_bucket: "a n = None \<Longrightarrow>
    req \<in> {HeadBucket n, ListObjects n pre, ListObjectsV2 n pre, HeadObject n k, GetObject n k, DeleteObject n k, PutObject n k (Some stream)} \<Longrightarrow>
    s3_spec E a req (Inl (s3_error NoSuchBucket)) a"
| list_objects: "a n = Some objs \<Longrightarrow> req \<in> {ListObjects n pre, ListObjectsV2 n pre} \<Longrightarrow> distinct ks \<Longrightarrow> set ks = dom objs \<Longrightarrow>
    os = map (\<lambda>k. case objs k of Some (c, i) \<Rightarrow> object_output (object_of E k c i)) ks \<Longrightarrow>
    s3_spec E a req (Inr (ListObjectsOutput n os)) a"
| head_object: "a n = Some objs \<Longrightarrow> objs k = Some (c, i) \<Longrightarrow>
    s3_spec E a (HeadObject n k) (Inr (HeadObjectResult (head_output (object_of E k c i)))) a"
| get_object: "a n = Some objs \<Longrightarrow> objs k = Some (c, i) \<Longrightarrow> concat pieces = c \<Longrightarrow>
    s3_spec E a (GetObject n k) (Inr (GetObjectResult (head_output (object_of E k c i)) pieces)) a"
| no_object: "a n = Some objs \<Longrightarrow> objs k = None \<Longrightarrow> req \<in> {HeadObject n k, GetObject n k, DeleteObject n k} \<Longrightarrow>
    s3_spec E a req (Inl (s3_error NoSuchKey)) a"
| delete_object: "a n = Some objs \<Longrightarrow> objs k \<noteq> None \<Longrightarrow>
    s3_spec E a (DeleteObject n k) (Inr DeleteObjectOutput) (a(n \<mapsto> objs(k := None)))"
| put_object: "a n = Some objs \<Longrightarrow> first_error stream = None \<Longrightarrow> c = stream_bytes stream \<Longrightarrow>
    s3_spec E a (PutObject n k (Some stream)) (Inr (PutObjectOutput (md5_hex E c) (sha256_hex E c))) (a(n \<mapsto> objs(k \<mapsto> (c, i))))"
| put_broken: "a n = Some objs \<Longrightarrow> first_error stream = Some msg \<Longrightarrow>
    s3_spec E a (PutObject n k (Some stream)) (Inl (S3sError InternalError (Text msg))) a"
| put_nothing: "s3_spec E a (PutObject n k None) (Inl (s3_error InvalidRequest)) a"

section \<open>Representation\<close>

definition meta_key :: "string \<Rightarrow> string \<Rightarrow> string \<Rightarrow> string" where
  "meta_key n k suf = bucket_key n ''objectmeta'' (n @ NUL # k @ NUL # suf)"

definition object_key :: "string \<Rightarrow> string \<Rightarrow> string" where
  "object_key n k = bucket_key n ''objects'' (n @ NUL # k)"

definition exists_key :: "string \<Rightarrow> string" where
  "exists_key n = bucket_key ''root'' ''buckets'' n"

text \<open>The entries of an object in the database.\<close>

definition stored_meta :: "repl_env \<Rightarrow> world \<Rightarrow> string \<Rightarrow> string \<Rightarrow> bytes \<Rightarrow> int \<Rightarrow> bool" where
  "stored_meta E w n k c i \<longleftrightarrow>
     map_of (db w) (object_key n k) = Some []
     \<and> map_of (db w) (meta_key n k ''last_modified'') = Some (show_i64 i)
     \<and> map_of (db w) (meta_key n k ''md5sum'') = Some (md5_hex E c)
     \<and> map_of (db w) (meta_key n k ''sha256sum'') = Some (sha256_hex E c)
     \<and> map_of (db w) (meta_key n k ''size'') = Some (show_u64 (of_nat (length c)))
     \<and> - (2 ^ 63) \<le> i \<and> i < 2 ^ 63 \<and> from_unix_timestamp E i \<noteq> None"

definition represents_db :: "repl_env \<Rightarrow> world \<Rightarrow> s3_abs \<Rightarrow> bool" where
  "represents_db E w a \<longleftrightarrow>
     (\<forall>n. map_of (db w) (exists_key n) = (if a n = None then None else Some []))
     \<and> (\<forall>n \<in> dom a. name_ok n)
     \<and> (\<forall>n k. name_ok n \<longrightarrow>
          (case objects_of a n k of
             None \<Rightarrow> map_of (db w) (object_key n k) = None
           | Some (c, i) \<Rightarrow> stored_meta E w n k c i))"

text \<open>The content of every object is in the file that its checksum names.\<close>

definition stored_files :: "repl_env \<Rightarrow> ContentAddressableBlobStore \<Rightarrow> world \<Rightarrow> s3_abs \<Rightarrow> bool" where
  "stored_files E b w a \<longleftrightarrow>
     (\<forall>n k c i. name_ok n \<longrightarrow> objects_of a n k = Some (c, i) \<longrightarrow> map_of (files w) (data_dir b @ [sha256_hex E c]) = Some c)"

definition represents :: "repl_env \<Rightarrow> ContentAddressableBlobStore \<Rightarrow> world \<Rightarrow> s3_abs \<Rightarrow> bool" where
  "represents E b w a \<longleftrightarrow> represents_db E w a \<and> stored_files E b w a"

text \<open>Under the directory of the blobs there is one for temporary files and no other.\<close>

definition dirs_ok :: "ContentAddressableBlobStore \<Rightarrow> world \<Rightarrow> bool" where
  "dirs_ok b w \<longleftrightarrow> data_dir b @ [''tmp''] \<in> set (dirs w) \<and>
     list_all (\<lambda>d. prefix (data_dir b) d \<longrightarrow> d = data_dir b \<or> d = data_dir b @ [''tmp'']) (dirs w)"

end
