(* ===== verification/Repli_Refinement.thy ===== *)
theory Repli_Refinement
  imports Repli_Spec
begin

text \<open>
  One request after the other, without failures: the service does what the abstract object store does.
\<close>

locale s3_quiet = s3_platform +
  assumes quiet: "no_faults E"

section \<open>What does not change\<close>

text \<open>The files and the entries of buckets are the same.\<close>

definition same_data :: "world \<Rightarrow> world \<Rightarrow> bool" where
  "same_data w w' \<longleftrightarrow> files w' = files w \<and> dirs w' = dirs w
     \<and> (\<forall>n kind r. map_of (db w') (bucket_key n kind r) = map_of (db w) (bucket_key n kind r))"

lemma same_data_refl [simp]: "same_data w w"
  by (simp add: same_data_def)

lemma same_data_trans: "same_data u v \<Longrightarrow> same_data v w \<Longrightarrow> same_data u w"
  by (simp add: same_data_def)

lemma same_data_frame: "kv_frame w w' \<Longrightarrow> db w' = db w \<Longrightarrow> same_data w w'"
  by (simp add: same_data_def kv_frame_def)

lemma same_keys:
  assumes "same_data w w'"
  shows "map_of (db w') (exists_key n) = map_of (db w) (exists_key n)"
    "map_of (db w') (object_key n k) = map_of (db w) (object_key n k)"
    "map_of (db w') (meta_key n k suf) = map_of (db w) (meta_key n k suf)"
    "files w' = files w" "dirs w' = dirs w"
  using assms by (simp_all only: same_data_def exists_key_def object_key_def meta_key_def)

lemma stored_same: "same_data w w' \<Longrightarrow> stored_meta E w' n k c i = stored_meta E w n k c i"
  by (simp add: stored_meta_def same_keys)

lemma represents_db_same: "same_data w w' \<Longrightarrow> represents_db E w' a = represents_db E w a"
  by (simp add: represents_db_def stored_same same_keys cong: option.case_cong)

lemma represents_same: "same_data w w' \<Longrightarrow> represents E b w' a = represents E b w a"
  by (simp add: represents_def stored_files_def represents_db_same same_keys)

lemma dirs_ok_same: "same_data w w' \<Longrightarrow> dirs_ok b w' = dirs_ok b w"
  by (simp add: dirs_ok_def same_data_def)

context s3_quiet
begin

section \<open>Reads\<close>

lemma exact_Get:
  assumes "db_ok E (db w)" "kv_name st = meta_store_name n" "name_ok n" "NUL \<notin> set kind" "kind \<noteq> ''bucketmeta''"
  shows "runs (deliver (handle_Get E st (kind # k # ks))) w
    (\<lambda>r w'. same_data w w' \<and> db w' = db w \<and> kv_frame w w' \<and> r = Inr (map_of (db w) (bucket_key n kind (join_with [NUL] (k # ks)))))"
proof -
  have "rust_string e" if "map_of (db w) (bucket_key n kind (join_with [NUL] (k # ks))) = Some e" for e
    using db_okD [OF assms(1) that] assms by (simp add: entry_ok_def name_ok_def)
  then show ?thesis
    unfolding runs_deliver
    by (intro runs_weaken [OF runs_Get_spec])
      (auto simp: reads_only_def quiet get_path_bucket [OF assms(2)] same_data_frame split: option.splits sum.splits)
qed

lemma exact_List:
  assumes "db_ok E (db w)" "kv_name st = meta_store_name n" "name_ok n" "NUL \<notin> set kind" "kind \<noteq> ''bucketmeta''"
    "rust_string kind" "rust_string (join_with [NUL] (k # ks))"
  shows "runs (deliver (handle_List E st (kind # k # ks))) w (\<lambda>r w'. same_data w w' \<and> db w' = db w \<and> kv_frame w w'
    \<and> (\<exists>m. r = Inr m \<and> distinct (map fst m) \<and> list_all rust_string (map fst m)
        \<and> (\<forall>x. map_of m x = map_of (db w) (bucket_key n kind (join_with [NUL] (k # ks) @ x)))))"
proof -
  let ?p = "bucket_key n kind (join_with [NUL] (k # ks))"
  have "list_all (\<lambda>(x, v). rust_string (drop (length ?p) x) \<and> rust_string v) (prefix_range ?p (db w))"
  proof (clarsimp simp: list_all_iff prefix_range_def)
    fix x v
    assume x: "(x, v) \<in> set (db w)" "prefix ?p x"
    then obtain y where y: "x = ?p @ y"
      by (auto simp: prefix_def)
    have "entry_ok E x v"
      using assms(1) x(1) by (auto simp: db_ok_def list_all_iff)
    then have "rust_string y \<and> rust_string v"
      using y assms by (simp add: entry_ok_def name_ok_def bucket_key_append rust_string_append)
    with y show "rust_string (drop (length ?p) x) \<and> rust_string v"
      by simp
  qed
  then have "runs (handle_List E st (kind # k # ks)) w (reads_only E w (\<lambda>x. True))"
    unfolding handle_List_def get_path_bucket [OF assms(2)] Let_def
    by (intro runs_reads_try [OF runs_iter_range_spec] runs_weaken [OF runs_list_found_spec])
      (auto simp: reads_only_def split: sum.splits)
  from runs_conj [OF this runs_List [OF assms]] show ?thesis
    unfolding runs_deliver
    by (rule runs_weaken)
      (auto simp: reads_only_def quiet get_path_bucket [OF assms(2)] bucket_key_append same_data_frame split: sum.splits)
qed

text \<open>The metadata of a name, which need not be that of an object; the metadata of an object is exact.\<close>

lemma exact_meta_any:
  assumes "db_ok E (db w)" "kv_name st = meta_store_name n" "name_ok n" "rust_string k"
  shows "runs (meta_to_obj E st n k) w (\<lambda>r w'. same_data w w' \<and> db w' = db w \<and> kv_frame w w'
    \<and> (\<exists>x. r = Inr x \<and> obj_key x = k \<and> (\<forall>c i. stored_meta E w n k c i \<longrightarrow> x = object_of E k c i)))"
proof -
  have "rust_string (join_with [NUL] [n, k, []])"
    using assms by (simp add: name_ok_def rust_string_append)
  then show ?thesis
    unfolding meta_to_obj_def
  proof (intro runs_try [OF exact_List [OF assms(1-3)]], goal_cases)
    case (6 meta w')
    then have m: "map_of meta x = map_of (db w) (meta_key n k x)" for x
      by (auto simp: meta_key_def)
    have "timestamp_ok E v" if "map_of meta ''last_modified'' = Some v" for v
      using db_okD [OF assms(1) that [unfolded m meta_key_def]] assms(3) by (simp add: entry_ok_bucket)
    then obtain t where t: "from_unix_timestamp E (option_or (Option.bind (map_of meta ''last_modified'') parse_i64) 0) = Some t"
      using epoch by (cases "map_of meta ''last_modified''") (auto simp: option_or_def timestamp_ok_def)
    have "\<lparr>obj_key = k, obj_md5sum = option_or (map_of meta ''md5sum'') [], obj_sha256sum = option_or (map_of meta ''sha256sum'') [],
        obj_last_modified = t, obj_size = option_or (Option.bind (map_of meta ''size'') parse_u64) 0\<rparr> = object_of E k c i"
      if "stored_meta E w n k c i" for c i
      using that t by (simp add: m stored_meta_def parse_show_i64 option_or_def object_of_def)
    then show ?case
      using 6 t by (auto intro!: runs_Return)
  qed auto
qed

lemma exact_meta:
  assumes "db_ok E (db w)" "kv_name st = meta_store_name n" "name_ok n" "rust_string k" "stored_meta E w n k c i"
  shows "runs (meta_to_obj E st n k) w (\<lambda>r w'. same_data w w' \<and> db w' = db w \<and> kv_frame w w' \<and> r = Inr (object_of E k c i))"
  using assms(5) by (intro runs_weaken [OF exact_meta_any [OF assms(1-4)]]) auto

section \<open>Stores of buckets\<close>

lemma exact_check:
  assumes entry: "\<And>e. map_of (db w) (type_key name) = Some e \<Longrightarrow> e = StoreType_str ty"
  shows "runs (check_or_create_store_type E name ty) w (\<lambda>r w'. same_data w w' \<and> kv_frame w w' \<and> \<not> isl r
    \<and> (db w' = db w \<or> db w' = apply_write (type_key name, Some (StoreType_str ty)) (db w)))"
proof -
  have key: "NUL # ''type'' @ NUL # name = type_key name"
    by (simp add: type_key_def)
  show ?thesis
    unfolding check_or_create_store_type_def Let_def key
  proof (rule runs_try [OF runs_reads_rocks [where P = "\<lambda>v. v = map_of (db w) (type_key name)"]], goal_cases)
    case (3 v w1)
    then have w1: "same_data w w1" "kv_frame w w1" "db w1 = db w" "v = map_of (db w) (type_key name)"
      by (auto simp: reads_only_def same_data_frame)
    have commit: "runs (commit E [(type_key name, Some (StoreType_str ty))]) w1 (\<lambda>r w'. same_data w w' \<and> kv_frame w w' \<and> \<not> isl r
        \<and> db w' = apply_write (type_key name, Some (StoreType_str ty)) (db w))"
      using w1 quiet
      by (intro runs_commit_spec) (auto simp: same_data_def kv_frame_def map_of_apply_write)
    show ?case
    proof (cases v)
      case None
      then show ?thesis
        by (auto intro!: runs_try [OF commit] runs_Return)
    qed (use w1 entry in \<open>auto intro!: runs_Return\<close>)
  qed (auto simp: reads_only_def quiet)
qed

lemma exact_check_type:
  assumes "db_ok E (db w)" "name_ok n"
  shows "runs (check_or_create_store_type E (meta_store_name n) KeyValue) w (\<lambda>r w'. same_data w w' \<and> \<not> isl r)"
proof (rule runs_weaken [OF exact_check])
  show "e = StoreType_str KeyValue" if "map_of (db w) (type_key (meta_store_name n)) = Some e" for e
    using db_okD [OF assms(1) that] assms(2) by (simp add: entry_ok_type)
qed auto

lemma exact_GetOrCreate:
  assumes "db_ok E (db w)" "name_ok n" "stores_ok w"
  shows "runs (deliver (handle_GetOrCreateKeyValueStore E (meta_store_name n))) w
    (\<lambda>r w'. same_data w w' \<and> db_ok E (db w') \<and> stores_ok w' \<and> (\<exists>st. r = Inr st \<and> kv_name st = meta_store_name n))"
proof -
  have "runs (handle_GetOrCreateKeyValueStore E (meta_store_name n)) w (\<lambda>r w'. same_data w w' \<and> \<not> isl r)"
    unfolding handle_GetOrCreateKeyValueStore_def
    by (rule runs_try [OF exact_check_type [OF assms(1,2)]])
      (auto simp: runs_def run_atomic same_data_def Let_def split: option.split)
  from runs_conj [OF this runs_GetOrCreate [OF assms]] show ?thesis
    unfolding runs_deliver by (rule runs_weaken) (auto simp: isl_def; metis sum.collapse(2) isl_def)
qed

lemma exact_with_bucket_store:
  assumes "actor_ok self b" "world_ok E b w" "represents_db E w a" "name_ok n"
    and none: "\<And>w'. a n = None \<Longrightarrow> same_data w w' \<Longrightarrow> db_ok E (db w') \<Longrightarrow> stores_ok w' \<Longrightarrow> Q (Inl nf) w'"
    and some: "\<And>st w' objs. a n = Some objs \<Longrightarrow> kv_name st = meta_store_name n \<Longrightarrow> same_data w w' \<Longrightarrow> db_ok E (db w') \<Longrightarrow>
      stores_ok w' \<Longrightarrow> runs (handler st) w' Q"
  shows "runs (with_bucket_store E self n nf conv handler) w Q"
proof -
  obtain root where root: "s3_kv_store self = Some root" "kv_name root = meta_store_name ''root''"
    using assms(1) by (auto elim: actor_okE)
  have w: "db_ok E (db w)" "stores_ok w"
    using assms(2) by (simp_all add: world_ok_def)
  have ex: "map_of (db w) (bucket_key ''root'' ''buckets'' (join_with [NUL] [n])) = (if a n = None then None else Some [])"
    using assms(3) by (simp add: represents_db_def flip: exists_key_def)
  show ?thesis
    unfolding with_bucket_store_def with_store_def root(1) option.case bucket_path_def
  proof (rule runs_try [OF exact_Get [OF w(1) root(2) name_ok_root]], goal_cases)
    case (4 resp w1)
    then have w1: "same_data w w1" "db_ok E (db w1)" "stores_ok w1" "resp = (if a n = None then None else Some [])"
      using w ex by (auto simp: stores_ok_def kv_frame_def)
    show ?case
    proof (cases "a n")
      case None
      with w1 none show ?thesis by (auto intro: runs_Return)
    next
      case (Some objs)
      with w1 show ?thesis
        by (auto intro!: runs_bind [OF exact_GetOrCreate [OF w1(2) assms(4) w1(3)]] some elim: same_data_trans)
    qed
  qed simp_all
qed

section \<open>Blobs\<close>

lemma runs_io:
  assumes "f (w\<lparr>calls := Suc (calls w)\<rparr>) = (w', x)" and "Q x w'"
  shows "runs (io E f) w Q"
  using assms quiet by (simp add: io_def no_faults_def runs_def run_atomic Let_def)

lemma exact_forward:
  assumes "map_of (files w) (tmp_path b u) = Some c"
  shows "runs (forward E (tmp_path b u) stream) w (\<lambda>r w'. db w' = db w \<and> dirs w' = dirs w
    \<and> (\<forall>h. map_of (files w') (data_dir b @ [h]) = map_of (files w) (data_dir b @ [h]))
    \<and> (case first_error stream of
         Some msg \<Rightarrow> r = Inl (PutBlobRead msg)
       | None \<Rightarrow> r = Inr () \<and> map_of (files w') (tmp_path b u) = Some (c @ stream_bytes stream)))"
  using assms
proof (induction stream arbitrary: c w)
  case Nil
  then show ?case
    by (auto simp: stream_bytes_def intro!: runs_try [OF runs_io [where Q = "\<lambda>x w'. w' = w\<lparr>calls := Suc (calls w)\<rparr> \<and> x = Inr ()"]] runs_Return)
next
  case (Cons i stream)
  show ?case
  proof (cases i)
    case (Inl msg)
    then show ?thesis by (simp add: runs_Return)
  next
    case (Inr bs)
    let ?w = "w\<lparr>calls := Suc (calls w), files := AList.update (tmp_path b u) (c @ bs) (files w)\<rparr>"
    have step: "runs (fs_append E (tmp_path b u) bs) w (\<lambda>x w'. w' = ?w \<and> x = Inr ())"
      unfolding fs_append_def using Cons.prems by (intro runs_io) auto
    have "map_of (files ?w) (tmp_path b u) = Some (c @ bs)"
      by (simp add: map_of_update)
    from Cons.IH [OF this] have "runs (forward E (tmp_path b u) stream) ?w (\<lambda>r w'. db w' = db w \<and> dirs w' = dirs w
      \<and> (\<forall>h. map_of (files w') (data_dir b @ [h]) = map_of (files w) (data_dir b @ [h]))
      \<and> (case first_error (i # stream) of
           Some msg \<Rightarrow> r = Inl (PutBlobRead msg)
         | None \<Rightarrow> r = Inr () \<and> map_of (files w') (tmp_path b u) = Some (c @ stream_bytes (i # stream))))"
      by (rule runs_weaken) (auto simp: Inr map_of_update stream_bytes_def split: option.splits)
    then show ?thesis
      unfolding Inr forward.simps by (intro runs_try [OF step]) auto
  qed
qed

lemma exact_hash_loop:
  "runs (hash_loop E bufs a a) w (\<lambda>r w'. db w' = db w \<and> dirs w' = dirs w \<and> files w' = files w
     \<and> r = Inr (md5_hex E (a @ concat bufs), sha256_hex E (a @ concat bufs)))"
proof (induction bufs arbitrary: a w)
  case Nil
  then show ?case by (auto intro: runs_io)
next
  case (Cons buf bufs)
  show ?case
    unfolding hash_loop.simps
    by (rule runs_try [OF runs_io [where Q = "\<lambda>x w'. w' = w\<lparr>calls := Suc (calls w)\<rparr> \<and> x = Inr ()"]])
      (auto intro!: runs_weaken [OF Cons.IH])
qed

lemma exact_hash_file:
  assumes "map_of (files w) p = Some c" "p \<notin> set (dirs w)"
  shows "runs (hash_file E p) w (\<lambda>r w'. db w' = db w \<and> dirs w' = dirs w \<and> files w' = files w \<and> r = Inr (md5_hex E c, sha256_hex E c))"
  unfolding hash_file_def fs_open_def
  by (rule runs_try [OF runs_io [where Q = "\<lambda>x w'. w' = w\<lparr>calls := Suc (calls w)\<rparr> \<and> x = Inr c"]])
    (use assms concat_read_pieces [OF reads, of 65536 c] in \<open>auto intro!: runs_weaken [OF exact_hash_loop]\<close>)

lemma dirs_ok_paths:
  assumes "dirs_ok b w"
  shows "tmp_path b u \<notin> set (dirs w)" "hex_name h \<Longrightarrow> data_dir b @ [h] \<notin> set (dirs w)"
proof -
  have "\<not> hex_name ''tmp''"
    by code_simp
  with assms show "tmp_path b u \<notin> set (dirs w)" "hex_name h \<Longrightarrow> data_dir b @ [h] \<notin> set (dirs w)"
    by (auto simp: dirs_ok_def list_all_iff tmp_path_def prefix_def)
qed

definition blob_info :: "bytes \<Rightarrow> BlobInfo" where
  "blob_info c = \<lparr>bi_md5sum = md5_hex E c, bi_sha256sum = sha256_hex E c, bi_size = of_nat (length c)\<rparr>"

lemma exact_PutBlob:
  assumes "dirs_ok b w"
  shows "runs (handle_PutBlob E b stream) w (\<lambda>r w'. db w' = db w \<and> dirs w' = dirs w
    \<and> (case first_error stream of
         Some msg \<Rightarrow> r = Inl (PutBlobRead msg) \<and> (\<forall>h. map_of (files w') (data_dir b @ [h]) = map_of (files w) (data_dir b @ [h]))
       | None \<Rightarrow> r = Inr (blob_info (stream_bytes stream))
           \<and> (\<forall>h. map_of (files w') (data_dir b @ [h]) =
               (if h = sha256_hex E (stream_bytes stream) then Some (stream_bytes stream) else map_of (files w) (data_dir b @ [h])))))"
    (is "runs _ _ ?post")
proof -
  let ?c = "stream_bytes stream" and ?u = "new_uuid E (calls w)"
  let ?w1 = "w\<lparr>calls := Suc (calls w)\<rparr>"
  let ?w2 = "w\<lparr>calls := Suc (Suc (calls w)), files := AList.update (tmp_path b ?u) [] (files w)\<rparr>"
  have "path_join (path_join (get_disk_base_path b) ''tmp'') ?u = tmp_path b ?u"
    using uuid_name [of "calls w"] by (simp add: path_join_single tmp_path_def)
  then have tmp: "runs (get_disk_tmp_path E b) w (\<lambda>p w'. p = tmp_path b ?u \<and> w' = ?w1)"
    unfolding get_disk_tmp_path_def by (intro runs_atomic) auto
  have create: "runs (fs_create E (tmp_path b ?u)) ?w1 (\<lambda>r w'. r = Inr () \<and> w' = ?w2)"
    unfolding fs_create_def using assms dirs_ok_paths(1) [OF assms, of ?u] by (intro runs_io) (auto simp: dirs_ok_def)
  have rest: "runs (try_task PutBlobIo (hash_file E (tmp_path b ?u)) (\<lambda>(md5sum, sha256sum).
      let target_name = path_join (data_dir b) sha256sum in
      try_task PutBlobIo (fs_rename E (tmp_path b ?u) target_name) (\<lambda>_.
      try_task PutBlobIo (fs_metadata E target_name) (\<lambda>(is_file, len).
      Return (Inr \<lparr>bi_md5sum = md5sum, bi_sha256sum = sha256sum, bi_size = len\<rparr>))))) w3 ?post"
    if w3: "db w3 = db w" "dirs w3 = dirs w" "first_error stream = None" "map_of (files w3) (tmp_path b ?u) = Some ?c"
      "\<forall>h. map_of (files w3) (data_dir b @ [h]) = map_of (files w) (data_dir b @ [h])" for w3
  proof (rule runs_try [OF exact_hash_file [OF w3(4)]], goal_cases)
    case 1
    then show ?case using dirs_ok_paths(1) [OF assms] w3 by simp
  next
    case (3 x w4)
    let ?t = "data_dir b @ [sha256_hex E ?c]"
    let ?w5 = "w4\<lparr>calls := Suc (calls w4), files := AList.update ?t ?c (AList.delete (tmp_path b ?u) (files w4))\<rparr>"
    from 3 w3 have x: "x = (md5_hex E ?c, sha256_hex E ?c)" and w4: "db w4 = db w" "dirs w4 = dirs w" "files w4 = files w3"
      by simp_all
    have t: "?t \<notin> set (dirs w4)"
      using dirs_ok_paths(2) [OF assms sha_hex] w4 by simp
    have rename: "runs (fs_rename E (tmp_path b ?u) ?t) w4 (\<lambda>r w'. r = Inr () \<and> w' = ?w5)"
      unfolding fs_rename_def using t w4 w3 by (intro runs_io) auto
    have meta: "runs (fs_metadata E ?t) ?w5 (\<lambda>r w'. r = Inr (True, of_nat (length ?c)) \<and> w' = ?w5\<lparr>calls := Suc (calls ?w5)\<rparr>)"
      unfolding fs_metadata_def using t by (intro runs_io) (auto simp: map_of_update)
    have "runs (try_task PutBlobIo (fs_metadata E ?t) (\<lambda>(is_file, len).
        Return (Inr \<lparr>bi_md5sum = md5_hex E ?c, bi_sha256sum = sha256_hex E ?c, bi_size = len\<rparr>))) ?w5 ?post"
      by (rule runs_try [OF meta]) (use w3 w4 in \<open>auto intro!: runs_Return simp: blob_info_def map_of_update delete_conv'\<close>)
    then show ?case
      unfolding x prod.case Let_def hex_name_path_join [OF sha_hex]
      by (intro runs_try [OF rename]) auto
  qed simp
  show ?thesis
    unfolding handle_PutBlob_def Let_def data_dir_path
    apply (rule runs_bind [OF tmp])
    apply clarify
    apply (rule runs_try [OF create], simp)
    apply clarify
    apply (rule runs_try [OF exact_forward [of ?w2 b ?u "[]"]])
      apply (simp add: map_of_update)
     apply (auto simp: map_of_update split: option.splits)[1]
    subgoal for _ _ _ w3
      by (rule rest [unfolded Let_def]) (auto simp: map_of_update split: option.splits)
    done
qed

end

end
