(* ===== verification/Repli_Requests_Spec.thy ===== *)
theory Repli_Requests_Spec
  imports Repli_Refinement
begin

text \<open>
  The effect of the writing requests on the representation of the object store, and the simulation of
  the abstract store by the service, request by request.
\<close>

section \<open>Keys\<close>

lemma last_part_key: "NUL \<notin> set s \<Longrightarrow> NUL \<notin> set s' \<Longrightarrow> k @ NUL # s = k' @ NUL # s' \<longleftrightarrow> k = k' \<and> s = s'"
proof
  assume s: "NUL \<notin> set s" "NUL \<notin> set s'" and eq: "k @ NUL # s = k' @ NUL # s'"
  have "last_part (k @ NUL # s) = last_part (k' @ NUL # s')"
    by (simp only: eq)
  with s have "s = s'"
    by simp
  with eq show "k = k' \<and> s = s'"
    by simp
qed simp

lemma key_inject:
  assumes "name_ok n" "name_ok n'"
  shows "object_key n k = object_key n' k' \<longleftrightarrow> n = n' \<and> k = k'"
    "NUL \<notin> set s \<Longrightarrow> NUL \<notin> set s' \<Longrightarrow> meta_key n k s = meta_key n' k' s' \<longleftrightarrow> n = n' \<and> k = k' \<and> s = s'"
  using assms by (auto simp: object_key_def meta_key_def name_ok_def last_part_key)

lemma key_distinct:
  assumes "name_ok n"
  shows "name_ok n' \<Longrightarrow> object_key n k \<noteq> meta_key n' k' s" "name_ok n' \<Longrightarrow> meta_key n' k' s \<noteq> object_key n k"
    "exists_key m \<noteq> object_key n k" "exists_key m \<noteq> meta_key n k s"
    "name_ok n' \<Longrightarrow> object_key n k \<noteq> bucket_key n' ''bucketmeta'' r" "name_ok n' \<Longrightarrow> meta_key n k s \<noteq> bucket_key n' ''bucketmeta'' r"
    "name_ok n' \<Longrightarrow> exists_key m \<noteq> bucket_key n' ''bucketmeta'' r" "object_key n k \<noteq> exists_key m" "meta_key n k s \<noteq> exists_key m"
  using assms by (auto simp: object_key_def meta_key_def exists_key_def name_ok_def)

lemma prefix_bucket_key:
  assumes "name_ok n" "name_ok n'" "NUL \<notin> set kind" "NUL \<notin> set kind'"
  shows "prefix (bucket_key n kind r) (bucket_key n' kind' r') \<longleftrightarrow> n = n' \<and> kind = kind' \<and> prefix r r'"
proof -
  have "bucket_key n' kind' r' = bucket_key n kind r @ s \<longleftrightarrow> n = n' \<and> kind = kind' \<and> r' = r @ s" for s
    using assms by (auto simp: bucket_key_append name_ok_def)
  then show ?thesis
    by (auto simp: prefix_def)
qed

text \<open>An entry of another object is deleted only when the name of the one deleted begins its name.\<close>

lemma prefix_meta:
  assumes "NUL \<notin> set s" and "prefix (k @ [NUL]) (k' @ NUL # s)"
  shows "prefix k k'"
proof (rule ccontr)
  assume "\<not> prefix k k'"
  moreover have "prefix k (k' @ NUL # s)" "prefix k' (k' @ NUL # s)"
    using assms(2) by (auto simp: prefix_def)
  ultimately have "strict_prefix k' k"
    using prefix_same_cases [of k "k' @ NUL # s" k'] unfolding strict_prefix_def by blast
  then obtain c z where z: "k = k' @ c # z"
    by (auto elim: strict_prefixE')
  with assms(2) have "prefix (c # z @ [NUL]) (NUL # s)"
    by simp
  with assms(1) show False
    by (auto simp: prefix_def)
qed

section \<open>Changes of the representation\<close>

lemma objects_of_update: "objects_of (a(n \<mapsto> objs)) n' = (if n' = n then objs else objects_of a n')"
  by (simp add: objects_of_def)

lemma representsD:
  assumes "represents_db E w a" "name_ok n"
  shows "objects_of a n k = None \<Longrightarrow> map_of (db w) (object_key n k) = None"
    "objects_of a n k = Some (c, i) \<Longrightarrow> stored_meta E w n k c i"
proof -
  have "case objects_of a n k of None \<Rightarrow> map_of (db w) (object_key n k) = None | Some (c, i) \<Rightarrow> stored_meta E w n k c i"
    using assms by (simp add: represents_db_def)
  then show "objects_of a n k = None \<Longrightarrow> map_of (db w) (object_key n k) = None"
    "objects_of a n k = Some (c, i) \<Longrightarrow> stored_meta E w n k c i"
    by simp_all
qed

lemma representsI:
  assumes "\<And>n. map_of (db w) (exists_key n) = (if a n = None then None else Some [])" "\<And>n. a n \<noteq> None \<Longrightarrow> name_ok n"
    and "\<And>n k. name_ok n \<Longrightarrow> objects_of a n k = None \<Longrightarrow> map_of (db w) (object_key n k) = None"
    and "\<And>n k c i. name_ok n \<Longrightarrow> objects_of a n k = Some (c, i) \<Longrightarrow> stored_meta E w n k c i"
  shows "represents_db E w a"
  unfolding represents_db_def
proof (intro conjI allI ballI impI)
  show "case objects_of a n k of None \<Rightarrow> map_of (db w) (object_key n k) = None | Some (c, i) \<Rightarrow> stored_meta E w n k c i"
    if "name_ok n" for n k
    using assms(3,4) [OF that, of k] by (cases "objects_of a n k") auto
qed (use assms(1,2) in auto)

lemma represents_buckets:
  assumes "represents_db E w a"
  shows "map_of (db w) (exists_key n) = (if a n = None then None else Some [])" "a n \<noteq> None \<Longrightarrow> name_ok n"
  using assms by (auto simp: represents_db_def)

lemma represents_files:
  assumes "represents E b w a" "a n = Some objs" "objs k = Some (c, i)"
  shows "map_of (files w) (data_dir b @ [sha256_hex E c]) = Some c"
proof -
  have "name_ok n" "objects_of a n k = Some (c, i)"
    using assms by (auto simp: represents_def objects_of_def dest: represents_buckets(2) [of _ _ _ n])
  with assms(1) show ?thesis
    unfolding represents_def stored_files_def by blast
qed

lemma represents_create:
  assumes "represents E b w a" "a n = None" "name_ok n" "files w' = files w"
    and db: "\<And>q. (\<forall>r. q \<noteq> bucket_key ''root'' ''bucketmeta'' r) \<Longrightarrow> map_of (db w') q = (if q = exists_key n then Some [] else map_of (db w) q)"
  shows "represents E b w' (a(n \<mapsto> Map.empty))"
proof -
  have keys: "map_of (db w') (exists_key m) = (if m = n then Some [] else map_of (db w) (exists_key m))"
    "name_ok m \<Longrightarrow> map_of (db w') (object_key m k) = map_of (db w) (object_key m k)"
    "name_ok m \<Longrightarrow> map_of (db w') (meta_key m k s) = map_of (db w) (meta_key m k s)" for m k s
    using assms(3) by (simp_all add: db key_distinct) (auto simp: exists_key_def)
  have objs: "objects_of (a(n \<mapsto> Map.empty)) = objects_of a"
    using assms(2) by (auto simp: objects_of_def)
  have rep: "represents_db E w a"
    using assms(1) by (simp add: represents_def)
  have "represents_db E w' (a(n \<mapsto> Map.empty))"
    using objs assms(2,3) represents_buckets [OF rep]
    by (intro representsI)
      (auto simp: keys stored_meta_def dest: representsD(1) [OF rep] representsD(2) [OF rep, unfolded stored_meta_def] split: if_splits)
  with assms(1,4) objs show ?thesis
    by (simp add: represents_def stored_files_def)
qed

lemma represents_put:
  assumes rep: "represents E b w a" and n: "a n = Some objs" "name_ok n" and time: "- (2 ^ 63) \<le> i" "i < 2 ^ 63" "from_unix_timestamp E i \<noteq> None"
    and adm: "\<And>n' k' c' i'. objects_of a n' k' = Some (c', i') \<Longrightarrow> sha256_hex E c' = sha256_hex E c \<Longrightarrow> c' = c"
    and files: "\<And>h. map_of (files w') (data_dir b @ [h]) = (if h = sha256_hex E c then Some c else map_of (files w) (data_dir b @ [h]))"
    and db: "\<And>q. (\<forall>r. q \<noteq> bucket_key n ''bucketmeta'' r) \<Longrightarrow> map_of (db w') q =
      (map_of (db w) ++ [object_key n k \<mapsto> [], meta_key n k ''last_modified'' \<mapsto> show_i64 i, meta_key n k ''md5sum'' \<mapsto> md5_hex E c,
         meta_key n k ''sha256sum'' \<mapsto> sha256_hex E c, meta_key n k ''size'' \<mapsto> show_u64 (of_nat (length c))]) q"
  shows "represents E b w' (a(n \<mapsto> objs(k \<mapsto> (c, i))))"
proof -
  have rdb: "represents_db E w a" and rfs: "stored_files E b w a"
    using rep by (simp_all add: represents_def)
  have root: "map_of (db w') (exists_key m) = map_of (db w) (exists_key m)" for m
    using n(2) by (simp add: db key_distinct map_add_def)
  have obj: "map_of (db w') (object_key n' k') = map_of (db w) (object_key n' k')"
    if "name_ok n'" "(n', k') \<noteq> (n, k)" for n' k'
    using n(2) that by (auto simp: db key_distinct key_inject map_add_def)
  have meta: "map_of (db w') (meta_key n' k' s) = map_of (db w) (meta_key n' k' s)"
    if "name_ok n'" "(n', k') \<noteq> (n, k)" "NUL \<notin> set s" for n' k' s
    using n(2) that by (auto simp: db key_distinct key_inject map_add_def)
  have new: "stored_meta E w' n k c i"
    using n(2) time by (simp add: stored_meta_def db key_distinct key_inject map_add_def)
  have old: "stored_meta E w' n' k' c' i'"
    if "objects_of a n' k' = Some (c', i')" "name_ok n'" "(n', k') \<noteq> (n, k)" for n' k' c' i'
    using representsD(2) [OF rdb that(2,1)] that by (auto simp: stored_meta_def obj meta)
  have objs: "objects_of a n = objs"
    using n(1) by (simp add: objects_of_def)
  have "represents_db E w' (a(n \<mapsto> objs(k \<mapsto> (c, i))))"
    using n new old obj objs representsD(1) [OF rdb] represents_buckets [OF rdb]
    by (intro representsI) (auto simp: root objects_of_update split: if_splits)
  moreover have "stored_files E b w' (a(n \<mapsto> objs(k \<mapsto> (c, i))))"
    unfolding stored_files_def files objects_of_update
  proof (intro allI impI)
    fix n' k' c' i'
    assume o: "name_ok n'" "(if n' = n then objs(k \<mapsto> (c, i)) else objects_of a n') k' = Some (c', i')"
    then consider "c' = c" | "objects_of a n' k' = Some (c', i')"
      using objs by (auto split: if_splits)
    then show "(if sha256_hex E c' = sha256_hex E c then Some c else map_of (files w) (data_dir b @ [sha256_hex E c'])) = Some c'"
      using rfs adm [of n' k' c' i'] o(1) unfolding stored_files_def by cases auto
  qed
  ultimately show ?thesis
    by (simp add: represents_def)
qed

text \<open>Deleting takes the entries of every object whose name begins with the name deleted.\<close>

lemma represents_delete:
  assumes rep: "represents_db E w a" and n: "a n = Some objs" "name_ok n"
    and db: "\<And>q. (\<forall>r. q \<noteq> bucket_key n ''bucketmeta'' r) \<Longrightarrow> map_of (db w') q =
      (if prefix (object_key n k) q \<or> prefix (meta_key n k []) q then None else map_of (db w) q)"
  shows "represents_db E w' (a(n \<mapsto> (\<lambda>q. if prefix k q then None else objs q)))"
proof -
  have objs: "objects_of a n = objs"
    using n(1) by (simp add: objects_of_def)
  have root: "map_of (db w') (exists_key m) = map_of (db w) (exists_key m)" for m
    using n(2) by (simp add: db key_distinct) (auto simp: exists_key_def object_key_def meta_key_def prefix_bucket_key)
  have obj: "map_of (db w') (object_key n' k') = (if n' = n \<and> prefix k k' then None else map_of (db w) (object_key n' k'))"
    if "name_ok n'" for n' k'
    using n(2) that by (auto simp: db key_distinct) (auto simp: object_key_def meta_key_def prefix_bucket_key)
  have keep: "stored_meta E w' n' k' c' i'"
    if o: "objects_of a n' k' = Some (c', i')" "name_ok n'" "\<not> (n' = n \<and> prefix k k')" for n' k' c' i'
  proof -
    have "map_of (db w') (meta_key n' k' s) = map_of (db w) (meta_key n' k' s)" if "NUL \<notin> set s" for s
      using n(2) o prefix_meta [OF that, of k k']
      by (auto simp: db key_distinct) (auto simp: object_key_def meta_key_def prefix_bucket_key)
    then show ?thesis
      using representsD(2) [OF rep o(2,1)] o by (auto simp: stored_meta_def obj)
  qed
  show ?thesis
    using n keep objs representsD(1) [OF rep] represents_buckets [OF rep]
    by (intro representsI) (auto simp: root obj objects_of_update split: if_splits)
qed

text \<open>
  The keys listed are those that follow the given prefix, without it, each with the metadata of that
  name. Without a prefix these are the objects of the bucket.
\<close>

definition listing :: "repl_env \<Rightarrow> (string \<rightharpoonup> bytes \<times> int) \<Rightarrow> string \<Rightarrow> Object list \<Rightarrow> bool" where
  "listing E objs pre os \<longleftrightarrow> (\<exists>ks. distinct ks \<and> set ks = {x. objs (pre @ x) \<noteq> None}
     \<and> list_all2 (\<lambda>k x. obj_key x = k \<and> (\<forall>c i. objs k = Some (c, i) \<longrightarrow> x = object_of E k c i)) ks os)"

text \<open>The answer and the new state are ones that the abstract store allows.\<close>

definition simulates :: "repl_env \<Rightarrow> ContentAddressableBlobStore \<Rightarrow> s3_abs \<Rightarrow> S3Request \<Rightarrow> s3s_error + S3Output \<Rightarrow> world \<Rightarrow> bool" where
  "simulates E b a req r w \<longleftrightarrow> dirs_ok b w \<and> (\<exists>a'. s3_spec E a req r a' \<and> represents E b w a')"

lemma simulates_same:
  "s3_spec E a req r a \<Longrightarrow> represents E b w a \<Longrightarrow> dirs_ok b w \<Longrightarrow> same_data w w' \<Longrightarrow> simulates E b a req r w'"
  by (auto simp: simulates_def represents_same dirs_ok_same)

context s3_quiet
begin

section \<open>Stores\<close>

lemma exact_GetBlob:
  assumes "dirs_ok b w" "map_of (files w) (data_dir b @ [sha256_hex E c]) = Some c"
  shows "runs (handle_GetBlob E b (sha256_hex E c)) w (\<lambda>r w'. same_data w w' \<and> (\<exists>pieces. r = Inr pieces \<and> concat pieces = c))"
proof -
  let ?p = "data_dir b @ [sha256_hex E c]"
  have p: "?p \<notin> set (dirs w)"
    using dirs_ok_paths(2) [OF assms(1) sha_hex] .
  have meta: "runs (fs_metadata E ?p) w (\<lambda>r w'. w' = w\<lparr>calls := Suc (calls w)\<rparr> \<and> r = Inr (True, of_nat (length c)))"
    unfolding fs_metadata_def using p assms by (intro runs_io) auto
  have content: "runs (fs_open E ?p) (w\<lparr>calls := Suc (calls w)\<rparr>) (\<lambda>r w'. same_data w w' \<and> r = Inr c)"
    unfolding fs_open_def using p assms by (intro runs_io) (auto simp: same_data_def)
  show ?thesis
    unfolding handle_GetBlob_def get_disk_path_def data_dir_path hex_name_path_join [OF sha_hex] Let_def
    by (rule runs_try [OF meta]) (auto intro!: runs_try [OF content] runs_Return simp: concat_read_pieces reads)
qed

lemma exact_DeleteBlob:
  assumes "dirs_ok b w" "map_of (files w) (data_dir b @ [sha256_hex E c]) = Some c"
  shows "runs (handle_DeleteBlob E b (sha256_hex E c)) w (\<lambda>r w'. r = Inr () \<and> db w' = db w \<and> dirs w' = dirs w
    \<and> files w' = AList.delete (data_dir b @ [sha256_hex E c]) (files w))"
proof -
  let ?p = "data_dir b @ [sha256_hex E c]"
  have p: "?p \<notin> set (dirs w)"
    using dirs_ok_paths(2) [OF assms(1) sha_hex] .
  have meta: "runs (fs_metadata E ?p) w (\<lambda>r w'. w' = w\<lparr>calls := Suc (calls w)\<rparr> \<and> r = Inr (True, of_nat (length c)))"
    unfolding fs_metadata_def using p assms by (intro runs_io) auto
  have rem: "runs (fs_remove_file E ?p) (w\<lparr>calls := Suc (calls w)\<rparr>) (\<lambda>r w'. r = Inr () \<and> db w' = db w \<and> dirs w' = dirs w
    \<and> files w' = AList.delete ?p (files w))"
    unfolding fs_remove_file_def using p assms by (intro runs_io) auto
  show ?thesis
    unfolding handle_DeleteBlob_def get_disk_path_def data_dir_path hex_name_path_join [OF sha_hex] Let_def
    by (rule runs_try [OF meta]) (auto intro!: runs_try [OF rem] runs_Return)
qed

lemma exact_write:
  assumes "db_ok E (db w)" "kv_name st = meta_store_name n" "name_ok n"
  shows "runs (deliver (kv_handle E st (bucket_version_path m) cmd)) w (\<lambda>r w'. files w' = files w \<and> dirs w' = dirs w
    \<and> (\<exists>ver. r = Inr ver) \<and> (\<forall>q. (\<forall>r. q \<noteq> bucket_key n ''bucketmeta'' r) \<longrightarrow> map_of (db w') q = kv_effect st cmd (map_of (db w)) q))"
proof -
  let ?v = "bucket_key n ''bucketmeta'' (join_with [NUL] [m, ''version''])"
  have v: "get_path st (bucket_version_path m) = ?v"
    using assms(2) by (simp only: bucket_version_path_def get_path_bucket)
  have "length e = 8" if "map_of (db w) ?v = Some e" for e
    using db_okD [OF assms(1) that] assms(3) by (simp add: entry_ok_bucket)
  then have ok: "version_ok st (bucket_version_path m) (db w)"
    by (auto simp: version_ok_def v split: option.split)
  show ?thesis
    unfolding runs_deliver
    by (rule runs_weaken [OF runs_kv_handle [OF ok]])
      (auto simp: writes_all_def quiet kv_frame_def apply_writes_append map_of_apply_write kv_writes_effect v split: sum.splits)
qed

lemma exact_traverse:
  assumes "\<And>x w'. x \<in> set xs \<Longrightarrow> db w' = db w \<Longrightarrow> same_data w w' \<Longrightarrow>
    runs (f x) w' (\<lambda>r w''. same_data w' w'' \<and> db w'' = db w' \<and> (\<exists>y. r = Inr y \<and> P x y))"
  shows "runs (traverse_task f xs) w (\<lambda>r w'. same_data w w' \<and> db w' = db w \<and> (\<exists>ys. r = Inr ys \<and> list_all2 P xs ys))"
  using assms
proof (induction xs arbitrary: w)
  case (Cons x xs)
  have "runs (f x) w (\<lambda>r w''. same_data w w'' \<and> db w'' = db w \<and> (\<exists>y. r = Inr y \<and> P x y))"
    using Cons.prems [of x w] by simp
  then show ?case
    unfolding traverse_task.simps
  proof (rule runs_try, goal_cases)
    case (2 y w1)
    have "runs (traverse_task f xs) w1 (\<lambda>r w'. same_data w1 w' \<and> db w' = db w1 \<and> (\<exists>ys. r = Inr ys \<and> list_all2 P xs ys))"
      using 2 by (intro Cons.IH Cons.prems) (auto elim: same_data_trans)
    then show ?case
      using 2 by (auto intro!: runs_Return elim!: runs_try elim: same_data_trans)
  qed auto
qed (simp add: runs_Return)

section \<open>Requests\<close>

lemma sim_list_buckets:
  assumes "actor_ok self b" "world_ok E b w" "represents E b w a" "dirs_ok b w"
  shows "runs (list_buckets E (Some self)) w (simulates E b a ListBuckets)"
proof -
  have rep: "represents_db E w a"
    using assms(3) by (simp add: represents_def)
  obtain root where root: "s3_kv_store self = Some root" "kv_name root = meta_store_name ''root''"
    using assms(1) by (auto elim: actor_okE)
  have w: "db_ok E (db w)"
    using assms(2) by (simp add: world_ok_def)
  have list: "runs (handle_ListBuckets E self) w (\<lambda>r w'. same_data w w' \<and> (\<exists>ks. r = Inr ks \<and> distinct ks \<and> set ks = dom a))"
    unfolding handle_ListBuckets_def with_store_def root(1) option.case
  proof (rule runs_try [OF exact_List [OF w root(2) name_ok_root]], goal_cases)
    case (6 m w')
    then have "map_of m x = (if a x = None then None else Some [])" for x
      using represents_buckets(1) [OF rep, of x] by (simp add: exists_key_def)
    then have "dom (map_of m) = dom a"
      by (auto simp: dom_def split: if_splits)
    then have "set (map fst m) = dom a"
      by (simp add: dom_map_of_conv_image_fst)
    with 6 show ?case
      by (auto intro!: runs_Return)
  qed auto
  have stamp: "runs (stamp_buckets E ks) w1 (\<lambda>bs w'. same_data w1 w' \<and> map fst bs = ks)" for ks w1
    unfolding stamp_buckets_def
    by (rule runs_atomic) (auto simp: same_data_def case_prod_unfold comp_def)
  show ?thesis
    unfolding list_buckets_def send_s3_def option.case
    by (rule runs_try [OF list])
      (auto intro!: runs_bind [OF stamp] runs_Return simulates_same [OF _ assms(3,4)] s3_spec.list_buckets elim: same_data_trans)
qed

lemma sim_create_bucket:
  assumes "actor_ok self b" "world_ok E b w" "represents E b w a" "dirs_ok b w" "name_ok n"
  shows "runs (create_bucket E (Some self) n) w (simulates E b a (CreateBucket n))"
proof -
  have rep: "represents_db E w a"
    using assms(3) by (simp add: represents_def)
  obtain root where root: "s3_kv_store self = Some root" "kv_name root = meta_store_name ''root''"
    using assms(1) by (auto elim: actor_okE)
  have w: "db_ok E (db w)"
    using assms(2) by (simp add: world_ok_def)
  have ex: "map_of (db w) (bucket_key ''root'' ''buckets'' (join_with [NUL] [n])) = (if a n = None then None else Some [])"
    using represents_buckets(1) [OF rep] by (simp add: exists_key_def)
  have "runs (handle_CreateBucket E self n) w (\<lambda>r w'. simulates E b a (CreateBucket n) (case r of
      Inl e \<Rightarrow> Inl (s3s_from_CreateBucketError e) | Inr n' \<Rightarrow> Inr (CreateBucketOutput (''/'' @ n'))) w')"
    unfolding handle_CreateBucket_def with_store_def root(1) option.case
  proof (unfold bucket_path_def, rule runs_try [OF exact_Get [OF w root(2) name_ok_root]], goal_cases)
    case (4 resp w1)
    show ?case
    proof (cases "a n")
      case None
      have w1: "db_ok E (db w1)"
        using 4 w by simp
      have path: "get_path root [''buckets'', n] = exists_key n"
        using root(2) by (simp add: get_path_bucket exists_key_def)
      have set: "runs (deliver (handle_Set E root (bucket_version_path n) [''buckets'', n] [])) w1 (\<lambda>r w'. dirs_ok b w'
          \<and> (\<exists>ver. r = Inr ver) \<and> represents E b w' (a(n \<mapsto> Map.empty)))"
        using exact_write [OF w1 root(2) name_ok_root, of n "KvSet [''buckets'', n] []", unfolded kv_handle.simps kv_effect.simps path]
      proof (rule runs_weaken, elim conjE, intro conjI, goal_cases)
        case (1 r w2)
        then show ?case using assms(4) 4 by (simp add: dirs_ok_def same_data_def)
      next
        case (3 r w2)
        then show ?case
          using 4 None assms(3,5) by (intro represents_create [where w = w]) (auto simp: same_data_def)
      qed
      have "s3_spec E a (CreateBucket n) (Inr (CreateBucketOutput (CHR ''/'' # n))) (a(n \<mapsto> Map.empty))"
        using s3_spec.create [of a n E] None by simp
      then show ?thesis
        using 4 None ex by (auto intro!: runs_try [OF set] runs_Return simp: simulates_def)
    next
      case (Some objs)
      then show ?thesis
        using 4 ex by (auto intro!: runs_Return simulates_same [OF _ assms(3,4)] s3_spec.create_again)
    qed
  qed simp_all
  then show ?thesis
    unfolding create_bucket_def send_s3_def option.case
    by (rule runs_try) (auto intro: runs_Return)
qed

lemma sim_head_bucket:
  assumes "actor_ok self b" "world_ok E b w" "represents E b w a" "dirs_ok b w"
  shows "runs (head_bucket E (Some self) n) w (simulates E b a (HeadBucket n))"
proof -
  have rep: "represents_db E w a"
    using assms(3) by (simp add: represents_def)
  obtain root where root: "s3_kv_store self = Some root" "kv_name root = meta_store_name ''root''"
    using assms(1) by (auto elim: actor_okE)
  have w: "db_ok E (db w)"
    using assms(2) by (simp add: world_ok_def)
  have ex: "map_of (db w) (bucket_key ''root'' ''buckets'' (join_with [NUL] [n])) = (if a n = None then None else Some [])"
    using represents_buckets(1) [OF rep] by (simp add: exists_key_def)
  have "runs (handle_HeadBucket E self n) w (\<lambda>r w'. same_data w w' \<and> r = Inr (if a n = None then None else Some ()))"
    unfolding handle_HeadBucket_def with_store_def root(1) option.case bucket_path_def
    by (rule runs_try [OF exact_Get [OF w root(2) name_ok_root]]) (use ex in \<open>auto intro!: runs_Return split: if_splits\<close>)
  then show ?thesis
    unfolding head_bucket_def send_s3_def option.case
    by (rule runs_try)
      (auto intro!: runs_Return simulates_same [OF _ assms(3,4)] s3_spec.head_bucket s3_spec.no_bucket split: if_splits option.splits)
qed

lemma exact_list_objects:
  assumes "actor_ok self b" "world_ok E b w" "represents_db E w a" "name_ok n" "rust_string pre"
  shows "runs (handle_ListObject E self n pre) w (\<lambda>r w'. same_data w w' \<and>
    (case a n of None \<Rightarrow> r = Inl ListBucketNotFound | Some objs \<Rightarrow> \<exists>os. r = Inr os \<and> listing E objs pre os))"
  unfolding handle_ListObject_def object_path_def
proof (rule exact_with_bucket_store [OF assms(1-4)], goal_cases)
  case (2 st w1 objs)
  have rep: "represents_db E w1 a"
    using assms(3) 2(3) represents_db_same by blast
  have objs: "objects_of a n = objs"
    using 2(1) by (simp add: objects_of_def)
  have "rust_string (join_with [NUL] [n, pre])"
    using assms(4,5) by (simp add: name_ok_def rust_string_append)
  then show ?case
  proof (intro runs_try [OF exact_List [OF 2(4,2) assms(4)]], goal_cases)
    case (6 m w2)
    then have m: "map_of m x = map_of (db w1) (object_key n (pre @ x))" for x
      by (simp add: object_key_def)
    have "map_of (db w1) (object_key n x) = None \<longleftrightarrow> objs x = None" for x
      using representsD [OF rep assms(4), of x] objs by (cases "objs x") (auto simp: stored_meta_def)
    then have "dom (map_of m) = {x. objs (pre @ x) \<noteq> None}"
      by (auto simp: dom_def m)
    then have ks: "set (map fst m) = {x. objs (pre @ x) \<noteq> None}"
      by (simp add: dom_map_of_conv_image_fst)
    have "runs (traverse_task (meta_to_obj E st n) (map fst m)) w2 (\<lambda>r w'. same_data w2 w' \<and> db w' = db w2
        \<and> (\<exists>os. r = Inr os \<and> list_all2 (\<lambda>k x. obj_key x = k \<and> (\<forall>c i. objs k = Some (c, i) \<longrightarrow> x = object_of E k c i)) (map fst m) os))"
    proof (rule exact_traverse)
      fix k w3
      assume k: "k \<in> set (map fst m)" and w3: "db w3 = db w2" "same_data w2 w3"
      have "rust_string k"
        using k 6 by (auto simp: list_all_iff)
      moreover have "stored_meta E w3 n k c i" if "objs k = Some (c, i)" for c i
        using representsD(2) [OF rep assms(4), of k c i] objs that 6 w3 by (auto simp: stored_same intro: same_data_trans)
      moreover have "db_ok E (db w3)"
        using 2(4) 6 w3 by simp
      ultimately show "runs (meta_to_obj E st n k) w3 (\<lambda>r w''. same_data w3 w'' \<and> db w'' = db w3
          \<and> (\<exists>x. r = Inr x \<and> obj_key x = k \<and> (\<forall>c i. objs k = Some (c, i) \<longrightarrow> x = object_of E k c i)))"
        by (intro runs_weaken [OF exact_meta_any [OF _ 2(2) assms(4)]]) auto
    qed
    then show ?case
    proof (rule runs_try, goal_cases)
      case (2 os w3)
      then show ?case
        using 6 ks \<open>same_data w w1\<close> \<open>a n = Some objs\<close>
        by (intro runs_Return) (auto simp: listing_def intro: same_data_trans intro!: exI [of _ "map fst m"])
    qed auto
  qed auto
qed simp

lemma listing_all:
  assumes "listing E objs [] os"
  shows "\<exists>ks. distinct ks \<and> set ks = dom objs \<and> os = map (\<lambda>k. case objs k of Some (c, i) \<Rightarrow> object_of E k c i) ks"
proof -
  obtain ks where ks: "distinct ks" "set ks = dom objs"
    "list_all2 (\<lambda>k x. obj_key x = k \<and> (\<forall>c i. objs k = Some (c, i) \<longrightarrow> x = object_of E k c i)) ks os"
    using assms by (auto simp: listing_def dom_def)
  have "os = map (\<lambda>k. case objs k of Some (c, i) \<Rightarrow> object_of E k c i) ks"
  proof (rule nth_equalityI)
    fix j
    assume "j < length os"
    then have j: "j < length ks"
      using ks(3) by (simp add: list_all2_lengthD)
    then have "ks ! j \<in> dom objs"
      using nth_mem ks(2) by blast
    then obtain c i where "objs (ks ! j) = Some (c, i)"
      by auto
    with j ks(3) show "os ! j = map (\<lambda>k. case objs k of Some (c, i) \<Rightarrow> object_of E k c i) ks ! j"
      by (auto dest: list_all2_nthD)
  qed (use ks(3) in \<open>simp add: list_all2_lengthD\<close>)
  with ks show ?thesis
    by blast
qed

text \<open>The steps that reading, downloading and deleting an object share: bucket, entry and metadata.\<close>

lemma exact_lookup:
  assumes "actor_ok self b" "world_ok E b w" "represents_db E w a" "name_ok n" "rust_string k"
    and no_bucket: "\<And>w'. a n = None \<Longrightarrow> same_data w w' \<Longrightarrow> Q (Inl nf) w'"
    and no_object: "\<And>w' objs. a n = Some objs \<Longrightarrow> objs k = None \<Longrightarrow> same_data w w' \<Longrightarrow> Q (Inl nk) w'"
    and object: "\<And>w' objs st c i. a n = Some objs \<Longrightarrow> objs k = Some (c, i) \<Longrightarrow> same_data w w' \<Longrightarrow> db_ok E (db w') \<Longrightarrow>
      kv_name st = meta_store_name n \<Longrightarrow> stored_meta E w' n k c i \<Longrightarrow> runs (f st (object_of E k c i)) w' Q"
  shows "runs (with_bucket_store E self n nf conv (\<lambda>store.
      try_task conv (deliver (handle_Get E store (object_path n k))) (\<lambda>resp.
      if resp = None then Return (Inl nk) else try_task conv (meta_to_obj E store n k) (f store)))) w Q"
proof (rule exact_with_bucket_store [OF assms(1-4)], goal_cases)
  case (2 st w1 objs)
  have rep: "represents_db E w1 a"
    using assms(3) 2(3) represents_db_same by blast
  have objs: "objects_of a n = objs"
    using 2(1) by (simp add: objects_of_def)
  show ?case
    unfolding object_path_def
  proof (rule runs_try [OF exact_Get [OF 2(4,2) assms(4)]], goal_cases)
    case (4 resp w2)
    then have w2: "same_data w w2" "db_ok E (db w2)" "resp = map_of (db w1) (object_key n k)"
      using 2 by (auto intro: same_data_trans simp: object_key_def)
    show ?case
    proof (cases "objs k")
      case None
      then show ?thesis
        using w2 representsD(1) [OF rep assms(4)] objs no_object [OF 2(1)] by (auto intro: runs_Return)
    next
      case (Some ci)
      obtain c i where ci: "ci = (c, i)"
        by (cases ci)
      have st: "stored_meta E w1 n k c i" "stored_meta E w2 n k c i"
        using representsD(2) [OF rep assms(4), of k c i] objs Some ci 4 by (auto simp: stored_same)
      have "runs (try_task conv (meta_to_obj E st n k) (f st)) w2 Q"
      proof (rule runs_try [OF exact_meta [OF w2(2) 2(2) assms(4,5) st(2)]], goal_cases)
        case (2 x w3)
        then show ?case
          using \<open>a n = Some objs\<close> \<open>kv_name st = meta_store_name n\<close> Some ci w2 st
          by (auto intro!: object simp: stored_same elim: same_data_trans)
      qed simp
      then show ?thesis
        using w2 st by (simp add: stored_meta_def)
    qed
  qed simp_all
qed (rule no_bucket)

lemma exact_head_object:
  assumes "actor_ok self b" "world_ok E b w" "represents_db E w a" "name_ok n" "rust_string k"
  shows "runs (head_object E (Some self) n k) w (\<lambda>r w'. same_data w w' \<and> s3_spec E a (HeadObject n k) r a)"
proof -
  have "runs (handle_HeadObject E self n k) w (\<lambda>r w'. same_data w w' \<and>
      s3_spec E a (HeadObject n k) (case r of Inl e \<Rightarrow> Inl (s3s_from_HeadObjectError e) | Inr x \<Rightarrow> Inr (HeadObjectResult (head_output x))) a)"
    unfolding handle_HeadObject_def
    by (rule exact_lookup [OF assms])
      (auto intro: s3_spec.no_bucket s3_spec.no_object s3_spec.head_object intro!: runs_Return)
  then show ?thesis
    unfolding head_object_def send_s3_def option.case
    by (rule runs_try) (auto intro!: runs_Return)
qed

lemma sim_head_object:
  assumes "actor_ok self b" "world_ok E b w" "represents E b w a" "dirs_ok b w" "name_ok n" "rust_string k"
  shows "runs (head_object E (Some self) n k) w (simulates E b a (HeadObject n k))"
  using assms
  by (intro runs_weaken [OF exact_head_object]) (auto simp: represents_def intro!: simulates_same [where w = w])

text \<open>The content of an object that shares it with one deleted is gone.\<close>

lemma exact_get_missing:
  assumes "actor_ok self b" "world_ok E b w" "represents_db E w a" "dirs_ok b w" "name_ok n" "rust_string k"
    and "a n = Some objs" "objs k = Some (c, i)" "map_of (files w) (data_dir b @ [sha256_hex E c]) = None"
  shows "runs (get_object E (Some self) n k) w (\<lambda>r w'. r = Inl (S3sError InternalError (Text not_found_msg)))"
proof -
  have "runs (handle_GetObject E self n k) w (\<lambda>r w'. r = Inl (GetReadDataError not_found_msg))"
    unfolding handle_GetObject_def with_blob_store_actor [OF assms(1)]
  proof (rule exact_lookup [OF assms(1-3,5,6)], goal_cases)
    case (3 w' objs' st c' i')
    let ?p = "data_dir b @ [sha256_hex E c]"
    have c: "c' = c"
      using 3(1,2) assms(7,8) by simp
    have p: "?p \<notin> set (dirs w')" "map_of (files w') ?p = None"
      using dirs_ok_paths(2) [OF assms(4) sha_hex] assms(9) 3(3) by (simp_all add: same_keys)
    have meta: "runs (fs_metadata E ?p) w' (\<lambda>r w'. r = Inl not_found_msg)"
      unfolding fs_metadata_def using p by (intro runs_io) auto
    have "runs (handle_GetBlob E b (obj_sha256sum (object_of E k c' i'))) w' (\<lambda>r w'. r = Inl (GetBlobIo not_found_msg))"
      unfolding handle_GetBlob_def get_disk_path_def data_dir_path Let_def
      by (simp add: object_of_def c hex_name_path_join [OF sha_hex]) (rule runs_try [OF meta], auto)
    then show ?case
      by (rule runs_try) auto
  qed (use assms(7,8) in auto)
  then show ?thesis
    unfolding get_object_def send_s3_def option.case by (rule runs_try) auto
qed

lemma sim_get_object:
  assumes "actor_ok self b" "world_ok E b w" "represents E b w a" "dirs_ok b w" "name_ok n" "rust_string k"
  shows "runs (get_object E (Some self) n k) w (simulates E b a (GetObject n k))"
proof -
  have rep: "represents_db E w a"
    using assms(3) by (simp add: represents_def)
  have "runs (handle_GetObject E self n k) w (\<lambda>r w'. same_data w w' \<and>
      s3_spec E a (GetObject n k) (case r of Inl e \<Rightarrow> Inl (s3s_from_GetObjectError e)
        | Inr (x, ps) \<Rightarrow> Inr (GetObjectResult (head_output x) ps)) a)"
    unfolding handle_GetObject_def with_blob_store_actor [OF assms(1)]
  proof (rule exact_lookup [OF assms(1,2) rep assms(5,6)], goal_cases)
    case (3 w' objs st c i)
    have "dirs_ok b w'" "map_of (files w') (data_dir b @ [sha256_hex E c]) = Some c"
      using 3 assms(4) represents_files [OF assms(3) 3(1,2)] by (auto simp: dirs_ok_same same_keys)
    from exact_GetBlob [OF this]
    have "runs (handle_GetBlob E b (obj_sha256sum (object_of E k c i))) w'
        (\<lambda>r w'. same_data w w' \<and> (\<exists>pieces. r = Inr pieces \<and> concat pieces = c))"
      using 3(3) by (auto simp: object_of_def elim!: runs_weaken elim: same_data_trans)
    then show ?case
    proof (rule runs_try, goal_cases)
      case (2 ps w2)
      with s3_spec.get_object [of a n objs k c i ps E] 3(1,2) show ?case
        by (auto intro!: runs_Return)
    qed auto
  qed (auto intro: s3_spec.no_bucket s3_spec.no_object)
  then show ?thesis
    unfolding get_object_def send_s3_def option.case
    by (rule runs_try) (auto intro!: runs_Return simulates_same [OF _ assms(3,4)])
qed

text \<open>Deleting an object takes the entries of every object whose name begins with its name, and the file of its content.\<close>

lemma exact_delete_object:
  assumes "actor_ok self b" "world_ok E b w" "represents E b w a" "dirs_ok b w" "name_ok n" "rust_string k"
  shows "runs (delete_object E (Some self) n k) w (\<lambda>r w'. case a n of
      None \<Rightarrow> same_data w w' \<and> r = Inl (s3_error NoSuchBucket)
    | Some objs \<Rightarrow> (case objs k of
        None \<Rightarrow> same_data w w' \<and> r = Inl (s3_error NoSuchKey)
      | Some (c, i) \<Rightarrow> r = Inr DeleteObjectOutput \<and> dirs_ok b w' \<and> files w' = AList.delete (data_dir b @ [sha256_hex E c]) (files w)
          \<and> represents_db E w' (a(n \<mapsto> (\<lambda>q. if prefix k q then None else objs q)))))" (is "runs _ _ ?post")
proof -
  have rep: "represents_db E w a"
    using assms(3) by (simp add: represents_def)
  have "runs (handle_DeleteObject E self n k) w (\<lambda>r w'.
      ?post (case r of Inl e \<Rightarrow> Inl (s3s_from_DeleteObjectError e) | Inr _ \<Rightarrow> Inr DeleteObjectOutput) w')"
    unfolding handle_DeleteObject_def with_blob_store_actor [OF assms(1)]
  proof (rule exact_lookup [OF assms(1,2) rep assms(5,6)], goal_cases)
    case (3 w1 objs st c i)
    let ?keys = "[object_path n k, [''objectmeta'', n, k, []]]"
    have paths: "get_path st (object_path n k) = object_key n k" "get_path st [''objectmeta'', n, k, []] = meta_key n k []"
      using 3(5) by (simp_all add: object_path_def get_path_bucket object_key_def meta_key_def)
    have effect: "kv_effect st (KvMultiDelete ?keys) m = (\<lambda>q. if prefix (object_key n k) q \<or> prefix (meta_key n k []) q then None else m q)" for m
      by (simp add: paths)
    have del: "runs (deliver (handle_MultiDelete E st (bucket_version_path n) ?keys)) w1 (\<lambda>r w'. files w' = files w1 \<and> dirs w' = dirs w1
        \<and> (\<exists>ver. r = Inr ver) \<and> (\<forall>q. (\<forall>r. q \<noteq> bucket_key n ''bucketmeta'' r) \<longrightarrow>
          map_of (db w') q = (if prefix (object_key n k) q \<or> prefix (meta_key n k []) q then None else map_of (db w1) q)))"
      using exact_write [OF 3(4,5) assms(5), of n "KvMultiDelete ?keys", unfolded kv_handle.simps effect] .
    have rep1: "represents_db E w1 a"
      using rep 3(3) represents_db_same by blast
    show ?case
    proof (rule runs_try [OF del], goal_cases)
      case w2: (2 ver w2)
      have send: "runs (send_replicate e) w2 (\<lambda>r w'. db w' = db w2 \<and> dirs w' = dirs w2 \<and> files w' = files w2)" for e
        by (simp add: send_replicate_def runs_def run_atomic)
      show ?case
      proof (rule runs_bind [OF send], goal_cases)
        case (1 x w3)
        have w3: "dirs_ok b w3" "map_of (files w3) (data_dir b @ [sha256_hex E c]) = Some c"
          using 1 w2 3(3) assms(4) represents_files [OF assms(3) 3(1,2)] by (auto simp: dirs_ok_def same_data_def)
        have "runs (handle_DeleteBlob E b (obj_sha256sum (object_of E k c i))) w3 (\<lambda>r w'. r = Inr () \<and> db w' = db w3 \<and> dirs w' = dirs w3
            \<and> files w' = AList.delete (data_dir b @ [sha256_hex E c]) (files w3))"
          using exact_DeleteBlob [OF w3] by (simp add: object_of_def)
        then show ?case
        proof (rule runs_try, goal_cases)
          case (2 y w4)
          have "represents_db E w4 (a(n \<mapsto> (\<lambda>q. if prefix k q then None else objs q)))"
            using 2 1 w2 by (intro represents_delete [OF rep1 3(1) assms(5)]) auto
          moreover have "dirs_ok b w4" "files w4 = AList.delete (data_dir b @ [sha256_hex E c]) (files w)"
            using 2 1 w2 w3 same_keys(4) [OF 3(3)] by (simp_all add: dirs_ok_def)
          ultimately show ?case
            using 3(1,2) by (auto intro!: runs_Return)
        qed simp
      qed
    qed auto
  qed auto
  then show ?thesis
    unfolding delete_object_def send_s3_def option.case
  proof (rule runs_try, goal_cases)
    case (2 x w')
    then show ?case by (intro runs_Return) (auto split: option.splits)
  qed (auto split: option.splits)
qed

lemma sim_delete_object:
  assumes "actor_ok self b" "world_ok E b w" "represents E b w a" "dirs_ok b w" "name_ok n" "rust_string k"
    and adm: "admissible E a (DeleteObject n k)"
  shows "runs (delete_object E (Some self) n k) w (simulates E b a (DeleteObject n k))"
proof (rule runs_weaken [OF exact_delete_object [OF assms(1-6)]], goal_cases)
  case (1 r w')
  show ?case
  proof (cases "\<exists>objs c i. a n = Some objs \<and> objs k = Some (c, i)")
    case True
    then obtain objs c i where o: "a n = Some objs" "objs k = Some (c, i)"
      by blast
    then have objs: "objects_of a n = objs"
      by (simp add: objects_of_def)
    have "(\<lambda>q. if prefix k q then None else objs q) = objs(k := None)"
      using adm objs by auto
    with 1 o have w': "r = Inr DeleteObjectOutput" "dirs_ok b w'" "files w' = AList.delete (data_dir b @ [sha256_hex E c]) (files w)"
      "represents_db E w' (a(n \<mapsto> objs(k := None)))"
      by simp_all
    have other: "sha256_hex E c' \<noteq> sha256_hex E c" if "objects_of a n' k' = Some (c', i')" "(n', k') \<noteq> (n, k)" for n' k' c' i'
      using adm that o(2) unfolding admissible.simps objs by blast
    have "stored_files E b w' (a(n \<mapsto> objs(k := None)))"
      unfolding stored_files_def objects_of_update w'(3)
    proof (intro allI impI)
      fix n' k' c' i'
      assume o': "name_ok n'" "(if n' = n then objs(k := None) else objects_of a n') k' = Some (c', i')"
      then have "objects_of a n' k' = Some (c', i')" "(n', k') \<noteq> (n, k)"
        using objs by (auto split: if_splits)
      with o'(1) other [OF this] assms(3)
      show "map_of (AList.delete (data_dir b @ [sha256_hex E c]) (files w)) (data_dir b @ [sha256_hex E c']) = Some c'"
        by (auto simp: represents_def stored_files_def delete_conv')
    qed
    with w' o s3_spec.delete_object [of a n objs k E] show ?thesis
      by (auto simp: simulates_def represents_def)
  next
    case False
    with 1 show ?thesis
      by (cases "a n")
        (auto intro!: simulates_same [OF _ assms(3,4)] s3_spec.no_bucket s3_spec.no_object split: option.splits)
  qed
qed

lemma exact_put_entries:
  assumes "represents E b w a" "dirs_ok b w" "a n = Some objs" "name_ok n" "kv_name st = meta_store_name n"
    and adm: "\<And>n' k' c' i'. objects_of a n' k' = Some (c', i') \<Longrightarrow> sha256_hex E c' = sha256_hex E c \<Longrightarrow> c' = c"
    and w1: "db_ok E (db w1)" "db w1 = db w" "dirs w1 = dirs w"
      "\<And>h. map_of (files w1) (data_dir b @ [h]) = (if h = sha256_hex E c then Some c else map_of (files w) (data_dir b @ [h]))"
  shows "runs (deliver (handle_MultiSet E st (bucket_version_path n) (object_entries E n k t (blob_info c)))) w1 (\<lambda>r w'. dirs_ok b w'
    \<and> (\<exists>ver. r = Inr ver) \<and> represents E b w' (a(n \<mapsto> objs(k \<mapsto> (c, unix_timestamp E t)))))"
proof -
  let ?es = "object_entries E n k t (blob_info c)" and ?i = "unix_timestamp E t"
  have effect: "kv_effect st (KvMultiSet ?es) m = m ++ [object_key n k \<mapsto> [], meta_key n k ''last_modified'' \<mapsto> show_i64 ?i,
      meta_key n k ''md5sum'' \<mapsto> md5_hex E c, meta_key n k ''sha256sum'' \<mapsto> sha256_hex E c,
      meta_key n k ''size'' \<mapsto> show_u64 (of_nat (length c))]" for m
    using assms(5)
    by (simp add: object_entries_def object_path_def objectmeta_path_def get_path_bucket blob_info_def flip: object_key_def meta_key_def)
  from exact_write [OF w1(1) assms(5,4), of n "KvMultiSet ?es", unfolded kv_handle.simps effect]
  show ?thesis
  proof (rule runs_weaken, elim conjE, intro conjI, goal_cases)
    case (1 r w')
    then show ?case using assms(2) w1 by (simp add: dirs_ok_def)
  next
    case (3 r w')
    then show ?case
      using w1 seconds_range [of t] seconds [of t] by (intro represents_put [OF assms(1,3,4) _ _ _ adm]) auto
  qed
qed

lemma sim_put_object:
  assumes "actor_ok self b" "world_ok E b w" "represents E b w a" "dirs_ok b w" "name_ok n" "rust_string k"
    and adm: "admissible E a (PutObject n k (Some stream))"
  shows "runs (put_object E (Some self) n k (Some stream)) w (simulates E b a (PutObject n k (Some stream)))"
proof -
  let ?c = "stream_bytes stream"
  have rep0: "represents_db E w a"
    using assms(3) by (simp add: represents_def)
  have adm': "c' = ?c" if "objects_of a n' k' = Some (c', i')" "sha256_hex E c' = sha256_hex E ?c" for n' k' c' i'
    using adm that unfolding admissible.simps by blast
  have "runs (handle_PutObject E self n k stream) w (\<lambda>r w'. simulates E b a (PutObject n k (Some stream))
      (case r of Inl e \<Rightarrow> Inl (s3s_from_PutObjectError e) | Inr x \<Rightarrow> Inr (PutObjectOutput (obj_md5sum x) (obj_sha256sum x))) w')"
    unfolding handle_PutObject_def with_blob_store_actor [OF assms(1)]
  proof (rule exact_with_bucket_store [OF assms(1,2) rep0 assms(5)], goal_cases)
    case (2 st w1 objs)
    have rep: "represents E b w1 a" and dirs: "dirs_ok b w1"
      using assms(3,4) 2(3) by (simp_all add: represents_same dirs_ok_same)
    show ?case
    proof (rule runs_try [OF exact_PutBlob [OF dirs]], goal_cases)
      case (1 e w2)
      then obtain msg where msg: "first_error stream = Some msg" "e = PutBlobRead msg"
        by (cases "first_error stream") auto
      have "represents E b w2 a" "dirs_ok b w2"
        using 1 msg rep dirs by (auto simp: represents_def represents_db_def stored_meta_def stored_files_def dirs_ok_def cong: option.case_cong)
      with msg s3_spec.put_broken [of a n objs stream msg E k] 2(1) show ?case
        by (auto simp: simulates_def)
    next
      case w2: (2 info w2)
      then have info: "first_error stream = None" "info = blob_info ?c"
        by (cases "first_error stream"; simp)+
      have clk: "runs (clock E) w2 (\<lambda>t w'. db w' = db w2 \<and> dirs w' = dirs w2 \<and> files w' = files w2)"
        by (simp add: clock_def runs_def run_atomic)
      show ?case
      proof (rule runs_bind [OF clk], goal_cases)
        case w3: (1 t w3)
        let ?es = "object_entries E n k t info" and ?i = "unix_timestamp E t"
        have w3': "db_ok E (db w3)" "db w3 = db w1" "dirs w3 = dirs w1"
          "map_of (files w3) (data_dir b @ [h]) = (if h = sha256_hex E ?c then Some ?c else map_of (files w1) (data_dir b @ [h]))" for h
          using 2(4) w2 w3 info by simp_all
        have set: "runs (deliver (handle_MultiSet E st (bucket_version_path n) ?es)) w3 (\<lambda>r w'. dirs_ok b w' \<and> (\<exists>ver. r = Inr ver)
            \<and> represents E b w' (a(n \<mapsto> objs(k \<mapsto> (?c, ?i)))))"
          unfolding info by (rule exact_put_entries [OF rep dirs 2(1) assms(5) 2(2) adm' w3'])
        have send: "runs (send_replicate e) w4 (\<lambda>r w'. db w' = db w4 \<and> dirs w' = dirs w4 \<and> files w' = files w4)" for e w4
          by (simp add: send_replicate_def runs_def run_atomic)
        have spec: "s3_spec E a (PutObject n k (Some stream)) (Inr (PutObjectOutput (md5_hex E ?c) (sha256_hex E ?c))) (a(n \<mapsto> objs(k \<mapsto> (?c, ?i))))"
          using 2(1) info(1) by (intro s3_spec.put_object) auto
        show ?case
        proof (rule runs_try [OF set], goal_cases)
          case w4: (2 ver w4)
          have "simulates E b a (PutObject n k (Some stream)) (Inr (PutObjectOutput (md5_hex E ?c) (sha256_hex E ?c))) w5"
            if "db w5 = db w4 \<and> dirs w5 = dirs w4 \<and> files w5 = files w4" for w5
          proof -
            have "same_data w4 w5"
              using that by (simp add: same_data_def)
            with w4 spec show ?thesis
              by (auto simp: simulates_def represents_same dirs_ok_same)
          qed
          then show ?case
            by (auto intro!: runs_bind [OF send] runs_Return simp: put_result_def info blob_info_def)
        qed auto
      qed
    qed
  qed (auto intro!: simulates_same [OF _ assms(3,4)] s3_spec.no_bucket)
  then show ?thesis
    unfolding put_object_def send_s3_def option.case
    by (rule runs_try) (auto intro!: runs_Return)
qed

lemma sim_serve:
  assumes "actor_ok self b" "world_ok E b w" "represents E b w a" "dirs_ok b w" "request_ok req" "admissible E a req"
  shows "runs (serve E (Some self) req) w (simulates E b a req)"
proof -
  have rep: "represents_db E w a"
    using assms(3) by (simp add: represents_def)
  have list: "runs (send_s3 (Some self) s3s_from_ListObjectError (\<lambda>self. handle_ListObject E self n (option_or pre [])) (\<lambda>objects.
      Return (Inr (ListObjectsOutput n (map object_output objects))))) w (simulates E b a req)"
    if "req \<in> {ListObjects n pre, ListObjectsV2 n pre}" "option_or pre [] = []" "name_ok n" for n pre
    unfolding send_s3_def option.case that(2)
  proof (rule runs_try [OF exact_list_objects [OF assms(1,2) rep that(3)]], goal_cases)
    case (2 e w')
    then show ?case
      using that(1) by (cases "a n") (auto intro!: simulates_same [OF _ assms(3,4)] s3_spec.no_bucket)
  next
    case (3 objs w')
    then obtain m where "a n = Some m" "listing E m [] objs" "same_data w w'"
      by (cases "a n") auto
    then obtain ks where m: "a n = Some m" "distinct ks" "set ks = dom m"
      "objs = map (\<lambda>k. case m k of Some (c, i) \<Rightarrow> object_of E k c i) ks" "same_data w w'"
      using listing_all by blast
    have "map object_output objs = map (\<lambda>k. case m k of Some (c, i) \<Rightarrow> object_output (object_of E k c i)) ks"
      using m(3) unfolding m(4) by (auto split: option.splits)
    with m that(1) have "s3_spec E a req (Inr (ListObjectsOutput n (map object_output objs))) a"
      by (intro s3_spec.list_objects) auto
    with m show ?case
      by (auto intro!: runs_Return simulates_same [OF _ assms(3,4)])
  qed simp
  show ?thesis
  proof (cases req)
    case GetBucketLocation
    then show ?thesis
      by (auto simp: get_bucket_location_def intro!: runs_Return simulates_same [OF _ assms(3,4)] s3_spec.location)
  next
    case (PutObject n k body)
    then show ?thesis
      using assms sim_put_object [OF assms(1-4)]
      by (cases body) (auto simp: put_object_def intro!: runs_Return simulates_same [OF _ assms(3,4)] s3_spec.put_nothing)
  qed (use assms list sim_list_buckets sim_create_bucket sim_head_bucket sim_head_object sim_get_object sim_delete_object
      in \<open>auto simp: list_objects_def list_objects_v2_def\<close>)
qed

end

end
