(* ===== verification/Repli_Start.thy ===== *)
theory Repli_Start
  imports Repli_Requests_Spec
begin

text \<open>
  The start of the S3 actor on a storage directory, which may be that of an earlier run: the stores of an
  earlier run are found again with everything in them.
\<close>

text \<open>The blob store that the actor asks for.\<close>

definition s3data :: "PathBuf \<Rightarrow> ContentAddressableBlobStore" where
  "s3data dir = \<lparr>blob_name = ''s3data'', base_path = dir @ [''s3data'']\<rparr>"

text \<open>
  What a start finds: no store is running, the database has entries of their types, and under the
  directory of the blobs there are only blobs and the directory for temporary files.
\<close>

definition storage_ok :: "repl_env \<Rightarrow> PathBuf \<Rightarrow> world \<Rightarrow> bool" where
  "storage_ok E dir w \<longleftrightarrow> db_ok E (db w) \<and> kv_stores w = [] \<and> blob_stores w = [] \<and> blobs_ok E (s3data dir) w
     \<and> (case map_of (db w) (type_key ''s3data'') of None \<Rightarrow> True | Some e \<Rightarrow> e = ''ContentAddressableBlob'')
     \<and> list_all (\<lambda>d. prefix (data_dir (s3data dir)) d \<longrightarrow> d = data_dir (s3data dir) \<or> d = data_dir (s3data dir) @ [''tmp'']) (dirs w)"

lemma data_dir_s3data: "data_dir (s3data dir) = dir @ [''s3data'', ''data'']"
  by (simp add: data_dir_def s3data_def)

lemma type_s3data: "type_key ''s3data'' \<noteq> type_key (meta_store_name n)"
  by (simp add: type_key_def meta_store_name_def)

context s3_quiet
begin

lemma start_root:
  assumes "storage_ok E dir w"
  shows "runs (handle_GetOrCreateKeyValueStore E (meta_store_name ''root'')) w (\<lambda>r w'. same_data w w' \<and> db_ok E (db w') \<and> stores_ok w'
    \<and> blob_stores w' = [] \<and> map_of (db w') (type_key ''s3data'') = map_of (db w) (type_key ''s3data'') \<and> r = Inr \<lparr>kv_name = meta_store_name ''root''\<rparr>)"
proof -
  have w: "db_ok E (db w)" "stores_ok w" "kv_stores w = []" "blob_stores w = []"
    using assms by (simp_all add: storage_ok_def stores_ok_def)
  have entry: "e = StoreType_str KeyValue" if "map_of (db w) (type_key (meta_store_name ''root'')) = Some e" for e
    using db_okD [OF w(1) that] by (simp add: entry_ok_type)
  have "runs (handle_GetOrCreateKeyValueStore E (meta_store_name ''root'')) w (\<lambda>r w'. same_data w w' \<and> blob_stores w' = []
      \<and> map_of (db w') (type_key ''s3data'') = map_of (db w) (type_key ''s3data'') \<and> r = Inr \<lparr>kv_name = meta_store_name ''root''\<rparr>)"
    unfolding handle_GetOrCreateKeyValueStore_def
    by (rule runs_try [OF exact_check [OF entry]])
      (auto simp: runs_def run_atomic same_data_def kv_frame_def w(3,4) Let_def map_of_apply_write type_s3data)
  from runs_conj [OF this runs_GetOrCreate [OF w(1) name_ok_root w(2)]] show ?thesis
    by (rule runs_weaken) auto
qed

lemma start_blobs:
  assumes "db_ok E (db w)" "stores_ok w" "blob_stores w = []"
    and "case map_of (db w) (type_key ''s3data'') of None \<Rightarrow> True | Some e \<Rightarrow> e = ''ContentAddressableBlob''"
  shows "runs (handle_GetOrCreateContentAddressableBlobStore E ''s3data'' (dir @ [''s3data''])) w (\<lambda>r w'. same_data w w' \<and> db_ok E (db w')
    \<and> stores_ok w' \<and> r = Inr (s3data dir))"
proof -
  have entry: "e = StoreType_str ContentAddressableBlob" if "map_of (db w) (type_key ''s3data'') = Some e" for e
    using assms(4) that by simp
  have "db_ok E (apply_write (type_key ''s3data'', Some ''ContentAddressableBlob'') (db w))"
    using db_ok_apply_write [OF assms(1)] by (simp add: entry_ok_type_data)
  with assms(1-3) show ?thesis
    unfolding handle_GetOrCreateContentAddressableBlobStore_def
    by (intro runs_try [OF exact_check [OF entry]])
      (auto simp: runs_def run_atomic same_data_def kv_frame_def stores_ok_def s3data_def Let_def)
qed

lemma start_dirs:
  assumes "list_all (\<lambda>d. prefix (data_dir (s3data dir)) d \<longrightarrow> d = data_dir (s3data dir) \<or> d = data_dir (s3data dir) @ [''tmp'']) (dirs w)"
  shows "runs (blob_store_started E (s3data dir)) w (\<lambda>r w'. db w' = db w \<and> kv_stores w' = kv_stores w \<and> files w' = files w \<and> dirs_ok (s3data dir) w')"
proof -
  let ?p = "data_dir (s3data dir) @ [''tmp'']"
  have p: "path_join (path_join (base_path (s3data dir)) ''data'') ''tmp'' = ?p"
    by (simp add: path_join_single data_dir_def)
  have new: "d = data_dir (s3data dir) \<or> d = ?p" if "prefix d ?p" "prefix (data_dir (s3data dir)) d" for d
    using that by (auto simp: prefix_snoc dest: prefix_order.antisym)
  have "dirs_ok (s3data dir) (w\<lparr>calls := Suc (calls w), dirs := filter (\<lambda>d. d \<notin> set (dirs w)) (prefixes ?p) @ dirs w\<rparr>)"
    unfolding dirs_ok_def list_all_iff
  proof (intro conjI ballI impI)
    show "?p \<in> set (dirs (w\<lparr>calls := Suc (calls w), dirs := filter (\<lambda>d. d \<notin> set (dirs w)) (prefixes ?p) @ dirs w\<rparr>))"
      by (cases "?p \<in> set (dirs w)") (simp_all del: prefixes_snoc)
    show "d = data_dir (s3data dir) \<or> d = ?p"
      if "d \<in> set (dirs (w\<lparr>calls := Suc (calls w), dirs := filter (\<lambda>d. d \<notin> set (dirs w)) (prefixes ?p) @ dirs w\<rparr>))"
        "prefix (data_dir (s3data dir)) d" for d
      using that new [of d] assms by (auto simp: list_all_iff simp del: prefixes_snoc)
  qed
  then have "runs (fs_create_dir_all E ?p) w (\<lambda>r w'. r = Inr () \<and> db w' = db w \<and> kv_stores w' = kv_stores w \<and> files w' = files w
      \<and> dirs_ok (s3data dir) w')"
    unfolding fs_create_dir_all_def by (intro runs_io) (auto simp del: prefixes_snoc)
  then show ?thesis
    unfolding blob_store_started_def p by (rule runs_bind) (auto intro: runs_Return)
qed

lemma started:
  assumes "storage_ok E dir w"
  shows "runs (S3_started E (S3_new dir)) w (\<lambda>r w'. \<exists>self. r = Some self \<and> actor_ok self (s3data dir) \<and> world_ok E (s3data dir) w'
    \<and> dirs_ok (s3data dir) w' \<and> files w' = files w \<and> (\<forall>n kind r. map_of (db w') (bucket_key n kind r) = map_of (db w) (bucket_key n kind r)))"
proof -
  have names: "''s3metadata'' @ NUL # ''root'' = meta_store_name ''root''" "path_join dir ''s3data'' = dir @ [''s3data'']"
    by (simp_all add: meta_store_name_def path_join_single)
  show ?thesis
    unfolding S3_started_def S3_new_def S3.select_convs names
  proof (rule runs_bind [OF start_root [OF assms, THEN runs_deliver [THEN iffD2]]], goal_cases)
    case w1: (1 r w1)
    then have r: "r = Inr \<lparr>kv_name = meta_store_name ''root''\<rparr>"
      by simp
    have "case map_of (db w1) (type_key ''s3data'') of None \<Rightarrow> True | Some e \<Rightarrow> e = ''ContentAddressableBlob''"
      using w1 assms by (simp add: storage_ok_def)
    with w1 have blobs: "runs (deliver (handle_GetOrCreateContentAddressableBlobStore E ''s3data'' (dir @ [''s3data'']))) w1
        (\<lambda>r w'. same_data w1 w' \<and> db_ok E (db w') \<and> stores_ok w' \<and> r = Inr (s3data dir))"
      unfolding runs_deliver by (intro start_blobs) auto
    show ?case
      unfolding r sum.case
    proof (rule runs_bind [OF blobs], goal_cases)
      case w2: (1 r w2)
      have "dirs w2 = dirs w"
        using w1 w2 by (simp add: same_data_def)
      with assms have dirs: "list_all (\<lambda>d. prefix (data_dir (s3data dir)) d \<longrightarrow> d = data_dir (s3data dir) \<or> d = data_dir (s3data dir) @ [''tmp'']) (dirs w2)"
        by (simp add: storage_ok_def)
      from w2 have r: "r = Inr (s3data dir)"
        by simp
      show ?case
        unfolding r sum.case
      proof (rule runs_bind [OF start_dirs [OF dirs]], rule runs_Return, goal_cases)
        case (1 x w3)
        with w1 w2 assms show ?case
          by (auto simp: actor_ok_def world_ok_def stores_ok_def blobs_ok_def same_data_def storage_ok_def)
      qed
    qed
  qed
qed

end

end
