(* ===== verification/Repli_Sequences.thy ===== *)
theory Repli_Sequences
  imports Repli_Start
begin

text \<open>Sequences of requests to a service that has started, one after the other and without failures.\<close>

primrec serve_all :: "repl_env \<Rightarrow> S3 option \<Rightarrow> S3Request list \<Rightarrow> (world, (s3s_error + S3Output) list) task" where
  "serve_all E s3 [] = Return []"
| "serve_all E s3 (req # reqs) = bind_task (serve E s3 req) (\<lambda>r. bind_task (serve_all E s3 reqs) (\<lambda>rs. Return (r # rs)))"

text \<open>A service that runs on a world which represents the given store.\<close>

definition service_ok :: "repl_env \<Rightarrow> S3 \<Rightarrow> ContentAddressableBlobStore \<Rightarrow> s3_abs \<Rightarrow> world \<Rightarrow> bool" where
  "service_ok E self b a w \<longleftrightarrow> actor_ok self b \<and> world_ok E b w \<and> represents E b w a \<and> dirs_ok b w"

text \<open>The same where the file of one content is missing.\<close>

definition service_broken :: "repl_env \<Rightarrow> S3 \<Rightarrow> ContentAddressableBlobStore \<Rightarrow> s3_abs \<Rightarrow> bytes \<Rightarrow> world \<Rightarrow> bool" where
  "service_broken E self b a c w \<longleftrightarrow> actor_ok self b \<and> world_ok E b w \<and> represents_db E w a \<and> dirs_ok b w
     \<and> map_of (files w) (data_dir b @ [sha256_hex E c]) = None"

lemma runs_serve_all:
  assumes "runs (serve E s3 req) w P" and "\<And>r w'. P r w' \<Longrightarrow> runs (serve_all E s3 reqs) w' (\<lambda>rs. Q (r # rs))"
  shows "runs (serve_all E s3 (req # reqs)) w Q"
  unfolding serve_all.simps
  by (rule runs_bind [OF assms(1)], rule runs_bind [OF assms(2)]) (auto intro: runs_Return)

inductive_cases spec_createE: "s3_spec E a (CreateBucket n) r a'"
inductive_cases spec_putE: "s3_spec E a (PutObject n k (Some stream)) r a'"
inductive_cases spec_headE: "s3_spec E a (HeadObject n k) r a'"
inductive_cases spec_getE: "s3_spec E a (GetObject n k) r a'"

context s3_quiet
begin

lemma serve_world_ok:
  assumes "actor_ok self b" "world_ok E b w" "request_ok req" "runs (serve E (Some self) req) w Q"
  shows "runs (serve E (Some self) req) w (\<lambda>r w'. Q r w' \<and> world_ok E b w')"
proof -
  have "rg.safe b E (\<lambda>r B w. reply_ok E req r) (serve E (Some self) req) {} w"
    using always_serve [OF assms(1,3)] by (simp add: always_def)
  from runs_conj [OF assms(4) rg.safe_runs [OF this assms(2)]] show ?thesis
    by (rule runs_weaken) auto
qed

lemma serve_spec:
  assumes "service_ok E self b a w" "request_ok req" "admissible E a req"
  shows "runs (serve E (Some self) req) w (\<lambda>r w'. \<exists>a'. s3_spec E a req r a' \<and> service_ok E self b a' w')"
proof -
  have w: "actor_ok self b" "world_ok E b w" "represents E b w a" "dirs_ok b w"
    using assms(1) by (simp_all add: service_ok_def)
  show ?thesis
    by (rule runs_weaken [OF serve_world_ok [OF w(1,2) assms(2) sim_serve [OF w assms(2,3)]]])
      (use w(1) in \<open>auto simp: simulates_def service_ok_def\<close>)
qed

lemma serve_create:
  assumes "service_ok E self b a w" "name_ok n" "a n = None"
  shows "runs (serve E (Some self) (CreateBucket n)) w (\<lambda>r w'. r = Inr (CreateBucketOutput (''/'' @ n))
    \<and> service_ok E self b (a(n \<mapsto> Map.empty)) w')"
  by (rule runs_weaken [OF serve_spec [OF assms(1)]]) (use assms(2,3) in \<open>auto elim!: spec_createE\<close>)

lemma serve_put:
  assumes "service_ok E self b a w" "name_ok n" "rust_string k" "a n = Some objs" "first_error stream = None"
    and "admissible E a (PutObject n k (Some stream))"
  shows "runs (serve E (Some self) (PutObject n k (Some stream))) w (\<lambda>r w'.
    r = Inr (PutObjectOutput (md5_hex E (stream_bytes stream)) (sha256_hex E (stream_bytes stream)))
    \<and> (\<exists>i. service_ok E self b (a(n \<mapsto> objs(k \<mapsto> (stream_bytes stream, i)))) w'))"
  by (rule runs_weaken [OF serve_spec [OF assms(1) _ assms(6)]]) (use assms(2-5) in \<open>auto elim!: spec_putE\<close>)

lemma serve_delete:
  assumes "service_ok E self b a w" "name_ok n" "rust_string k" "a n = Some objs" "objs k = Some (c, i)"
  shows "runs (serve E (Some self) (DeleteObject n k)) w (\<lambda>r w'. r = Inr DeleteObjectOutput
    \<and> service_broken E self b (a(n \<mapsto> (\<lambda>q. if prefix k q then None else objs q))) c w')"
proof -
  have w: "actor_ok self b" "world_ok E b w" "represents E b w a" "dirs_ok b w"
    using assms(1) by (simp_all add: service_ok_def)
  have req: "request_ok (DeleteObject n k)"
    using assms(2,3) by simp
  have "runs (serve E (Some self) (DeleteObject n k)) w (\<lambda>r w'. r = Inr DeleteObjectOutput \<and> dirs_ok b w'
      \<and> files w' = AList.delete (data_dir b @ [sha256_hex E c]) (files w)
      \<and> represents_db E w' (a(n \<mapsto> (\<lambda>q. if prefix k q then None else objs q))))"
    using exact_delete_object [OF w assms(2,3)] assms(4,5) by simp
  from serve_world_ok [OF w(1,2) req this] show ?thesis
    by (rule runs_weaken) (auto simp: service_broken_def w(1) delete_conv')
qed

lemma serve_list:
  assumes "service_ok E self b a w" "name_ok n" "rust_string p" "a n = Some objs"
  shows "runs (serve E (Some self) (ListObjects n (Some p))) w (\<lambda>r w'. \<exists>os. r = Inr (ListObjectsOutput n os)
    \<and> distinct (map so_key os) \<and> set (map so_key os) = Some ` {x. objs (p @ x) \<noteq> None})"
proof -
  have w: "actor_ok self b" "world_ok E b w" "represents_db E w a"
    using assms(1) by (simp_all add: service_ok_def represents_def)
  have keys: "distinct (map so_key (map object_output os)) \<and> set (map so_key (map object_output os)) = Some ` {x. objs (p @ x) \<noteq> None}"
    if "listing E objs p os" for os
  proof -
    obtain ks where ks: "distinct ks" "set ks = {x. objs (p @ x) \<noteq> None}"
      "list_all2 (\<lambda>k x. obj_key x = k \<and> (\<forall>c i. objs k = Some (c, i) \<longrightarrow> x = object_of E k c i)) ks os"
      using \<open>listing E objs p os\<close> unfolding listing_def by blast
    from ks(3) have "map so_key (map object_output os) = map Some ks"
      by (induction rule: list_all2_induct) (auto simp: object_output_def)
    with ks(1,2) show ?thesis
      by (simp only: distinct_map) simp
  qed
  have "runs (handle_ListObject E self n p) w (\<lambda>r w'. \<exists>os. r = Inr os \<and> listing E objs p os)"
    using exact_list_objects [OF w assms(2,3)] assms(4) by (auto elim: runs_weaken)
  then show ?thesis
    unfolding serve.simps list_objects_def send_s3_def option.case option_or_def
  proof (rule runs_try, goal_cases)
    case (2 os w')
    then show ?case
      using keys by (intro runs_Return) blast
  qed auto
qed

end

end
