(* ===== verification/Repli_Results.thy ===== *)
theory Repli_Results
  imports Repli_Sequences
begin

text \<open>
  What \<open>replistore\<close> guarantees: the database keeps its types, no interleaving of requests panics, every
  request is answered, a write of the key value store is atomic, the service implements an object store
  and finds it again after a start. What it gets wrong: deletes and listings by prefix, contents shared by
  objects, and versions of buckets.
\<close>

section \<open>An environment\<close>

definition hex_of :: "bytes \<Rightarrow> string" where
  "hex_of bs = CHR ''f'' # concat (map (\<lambda>b. replicate (unat b) CHR ''1'' @ ''0'') bs)"

definition example_env :: repl_env where
  "example_env =
     \<lparr>rocks_fault = \<lambda>_. None, io_fault = \<lambda>_. None, read_size = id, new_uuid = \<lambda>n. replicate (Suc n) CHR ''a'',
      now_utc = int, unix_timestamp = (\<lambda>t. t mod 2 ^ 32), from_unix_timestamp = Some, md5_hex = hex_of, sha256_hex = hex_of\<rparr>"

text \<open>The same, with a database that fails at every third call and files that fail at every fifth.\<close>

definition faulty_env :: repl_env where
  "faulty_env = example_env\<lparr>rocks_fault := \<lambda>n. if n mod 3 = 2 then Some ''IO error'' else None,
     io_fault := \<lambda>n. if n mod 5 = 4 then Some ''No space left on device (os error 28)'' else None\<rparr>"

lemma hex_of_hex: "hex_name (hex_of bs)"
  by (auto simp: hex_of_def hex_name_def list_all_iff)

lemma replicate_inj: "inj (\<lambda>n. replicate (Suc n) x)"
  by (rule injI) (metis Suc_inject length_replicate)

interpretation example: s3_quiet example_env
  by unfold_locales
    (simp_all add: example_env_def replicate_inj [unfolded replicate_Suc] hex_of_hex reads_all_def no_faults_def le_less_trans [OF _ pos_mod_bound]
      order.trans [OF _ pos_mod_sign])

interpretation faulty: s3_platform faulty_env
  using example.uuid_inj example.uuid_name example.reads example.sha_hex example.md5_hex example.epoch example.seconds_range example.seconds
  by unfold_locales (simp_all add: faulty_env_def reads_all_def)

definition empty_storage :: world where
  "empty_storage = \<lparr>db = [], kv_stores = [], blob_stores = [], files = [], dirs = [], calls = 0, to_replicator = []\<rparr>"

definition example_actor :: S3 where
  "example_actor = \<lparr>s3_kv_store = Some \<lparr>kv_name = meta_store_name ''root''\<rparr>, s3_blob_store = Some (s3data [''srv'']), storage_dir = [''srv'']\<rparr>"

definition example_world :: world where
  "example_world = empty_storage\<lparr>dirs := [data_dir (s3data [''srv'']) @ [''tmp'']]\<rparr>"

lemma example_service:
  "storage_ok E dir empty_storage" "represents E b empty_storage Map.empty"
  "actor_ok example_actor (s3data [''srv''])" "world_ok E (s3data [''srv'']) example_world"
  "service_ok E example_actor (s3data [''srv'']) Map.empty example_world"
proof -
  show 1: "actor_ok example_actor (s3data [''srv''])" "world_ok E (s3data [''srv'']) example_world"
    by (simp_all add: actor_ok_def example_actor_def world_ok_def db_ok_def stores_ok_def blobs_ok_def example_world_def empty_storage_def)
  then show "service_ok E example_actor (s3data [''srv'']) Map.empty example_world"
    by (simp add: service_ok_def represents_def represents_db_def stored_files_def objects_of_def dirs_ok_def example_world_def empty_storage_def)
  show "storage_ok E dir empty_storage" "represents E b empty_storage Map.empty"
    by (simp_all add: storage_ok_def db_ok_def blobs_ok_def represents_def represents_db_def stored_files_def objects_of_def empty_storage_def)
qed

section \<open>Every interleaving\<close>

lemma requests_run:
  assumes "s3_platform E" "actor_ok self b" "world_ok E b w" "list_all request_ok rs"
  shows "\<exists>w' ts. pool_step\<^sup>*\<^sup>* (w, map (serve E (Some self)) rs) (w', ts) \<and> list_all is_Return ts"
proof -
  obtain w' ts where run: "pool_step\<^sup>*\<^sup>* (w, map (serve E (Some self)) rs) (w', ts)" and stuck: "\<not> Ex (pool_step (w', ts))"
    using pool_run_to_end by (metis surj_pair)
  have "\<not> pool_panics (w', ts)"
    using s3_platform.requests_pool_safe [OF assms run] by (rule rg.pool_safe_no_panic)
  with run stuck show ?thesis
    using pool_progress [of w' ts] by blast
qed

definition example_requests :: "S3Request list" where
  "example_requests = [CreateBucket ''music'', PutObject ''music'' ''song'' (Some [Inr [1, 2], Inr [3]]), GetObject ''music'' ''song'',
     DeleteObject ''music'' ''song'', ListBuckets]"

lemma example_requests_ok: "list_all request_ok example_requests"
  by code_simp

lemmas example_pool = faulty.s3_platform_axioms example_service(3) example_service(4) [where E = faulty_env] example_requests_ok

text \<open>C32. Whatever requests run at the same time, in whatever order their steps are done and whichever calls of
  the database and of the file system fail, the state keeps its types: the keys of the database are UTF-8,
  versions have eight bytes and all other values are UTF-8, timestamps can be read, the metadata stores have
  the type of a key value store, and every blob has the name that its content demands.\<close>

theorem stored_types_kept:
  assumes "s3_platform E" "actor_ok self b" "world_ok E b w" "list_all request_ok rs"
    and "pool_step\<^sup>*\<^sup>* (w, map (serve E (Some self)) rs) (w', ts)"
  shows "world_ok E b w'"
  using s3_platform.requests_pool_safe [OF assms] by (simp add: rg.pool_safe_def)

theorem stored_types_kept_witness:
  "\<exists>w' ts. pool_step\<^sup>*\<^sup>* (example_world, map (serve faulty_env (Some example_actor)) example_requests) (w', ts)
     \<and> list_all is_Return ts \<and> world_ok faulty_env (s3data [''srv'']) w'"
  using requests_run [OF example_pool] stored_types_kept [OF example_pool] by blast

text \<open>C6. In every interleaving of any requests, with any failures of the database and of the file system, no
  request panics, and an answer is right: a download has the SHA-256 sum it is sent with, and an upload is
  confirmed only when its stream had no error, with the sums of the bytes of the stream.\<close>

theorem requests_safe:
  assumes "s3_platform E" "actor_ok self b" "world_ok E b w" "list_all request_ok rs"
    and "pool_step\<^sup>*\<^sup>* (w, map (serve E (Some self)) rs) (w', ts)"
  shows "\<not> pool_panics (w', ts) \<and> list_all2 (\<lambda>req t. case t of Return r \<Rightarrow> reply_ok E req r | Step g \<Rightarrow> True) rs ts"
proof -
  note safe = s3_platform.requests_pool_safe [OF assms]
  have len: "length rs = length ts"
    using pool_length [OF assms(5)] by simp
  have "case ts ! i of Return r \<Rightarrow> reply_ok E (rs ! i) r | Step g \<Rightarrow> True" if "i < length ts" for i
    using rg.pool_safe_Return [OF safe that] by (auto split: task.split)
  with len rg.pool_safe_no_panic [OF safe] show ?thesis
    by (simp add: list_all2_conv_all_nth)
qed

theorem requests_safe_witness:
  "\<exists>w' ts. pool_step\<^sup>*\<^sup>* (example_world, map (serve faulty_env (Some example_actor)) example_requests) (w', ts) \<and> list_all is_Return ts
     \<and> list_all2 (\<lambda>req t. case t of Return r \<Rightarrow> reply_ok faulty_env req r | Step g \<Rightarrow> True) example_requests ts"
  using requests_run [OF example_pool] requests_safe [OF example_pool] by blast



section \<open>Refinement\<close>

text \<open>C10. A write of the key value store, whichever calls of the database fail, either changes nothing and returns
  an error, or has the whole effect of the command on the map of the database together with the next version
  of the bucket, which it returns.\<close>

theorem kv_write_atomic:
  assumes "version_ok st vp (db w)"
  shows "\<exists>w' r. run_task (kv_handle E st vp cmd) w = Some (w', r) \<and>
    (case r of
       Inl e \<Rightarrow> \<not> no_faults E \<and> db w' = db w
     | Inr ver \<Rightarrow> ver = current_version st vp (db w) + 1
         \<and> map_of (db w') = (kv_effect st cmd (map_of (db w)))(get_path st vp \<mapsto> to_le_bytes ver))"
proof -
  obtain w' r where r: "run_task (kv_handle E st vp cmd) w = Some (w', r)"
    "writes_all E w (get_path st vp) (current_version st vp (db w) + 1) (kv_writes st (db w) cmd) r w'"
    using runs_kv_handle [OF assms, of E cmd] by (auto simp: runs_iff)
  then show ?thesis
    by (cases r) (auto simp: writes_all_def apply_writes_append map_of_apply_write kv_writes_effect)
qed

theorem kv_write_atomic_witness:
  "let st = \<lparr>kv_name = ''s''\<rparr>; w = empty_storage\<lparr>db := [(get_path st [''k'', ''1''], ''x''), (get_path st [''v''], to_le_bytes 6)]\<rparr>
   in version_ok st [''v''] (db w) \<and>
      (\<exists>w'. run_task (handle_MultiDelete example_env st [''v''] [[''k'']]) w = Some (w', Inr 7)
         \<and> map_of (db w') (get_path st [''k'', ''1'']) = None \<and> map_of (db w') (get_path st [''v'']) = Some (to_le_bytes 7))"
proof -
  let ?st = "\<lparr>kv_name = ''s''\<rparr>"
  let ?w = "empty_storage\<lparr>db := [(get_path ?st [''k'', ''1''], ''x''), (get_path ?st [''v''], to_le_bytes 6)]\<rparr>"
  have keys: "get_path ?st [''v''] \<noteq> get_path ?st [''k'', ''1'']" "prefix (get_path ?st [''k'']) (get_path ?st [''k'', ''1''])"
    by code_simp+
  then have ver: "version_ok ?st [''v''] (db ?w)" "current_version ?st [''v''] (db ?w) + 1 = 7"
    by (simp_all add: version_ok_def current_version_def)
  obtain w' r where r: "run_task (handle_MultiDelete example_env ?st [''v''] [[''k'']]) ?w = Some (w', r)"
    "case r of Inl e \<Rightarrow> \<not> no_faults example_env \<and> db w' = db ?w
     | Inr v \<Rightarrow> v = 7 \<and> map_of (db w') = (kv_effect ?st (KvMultiDelete [[''k'']]) (map_of (db ?w)))(get_path ?st [''v''] \<mapsto> to_le_bytes v)"
    using kv_write_atomic [OF ver(1), of example_env "KvMultiDelete [[''k'']]"] unfolding ver(2) kv_handle.simps by blast
  have "r = Inr 7"
    using r(2) example.quiet by (cases r) auto
  with r(2) have "map_of (db w') = (kv_effect ?st (KvMultiDelete [[''k'']]) (map_of (db ?w)))(get_path ?st [''v''] \<mapsto> to_le_bytes 7)"
    by simp
  with keys r(1) ver(1) \<open>r = Inr 7\<close> show ?thesis
    unfolding Let_def by (intro conjI exI [of _ w']) auto
qed

text \<open>C5. One request after the other and without failures, the service is an object store: every request
  ends with an answer that the abstract store gives, and the database and the files represent the store that
  it changes to. Requests that run into the findings below are left out: listings with a prefix, colliding
  checksums, and deletes of an object whose name begins another name or whose content another object has.\<close>

theorem s3_simulates:
  assumes "s3_quiet E" "service_ok E self b a w" "request_ok req" "admissible E a req"
  shows "\<exists>w' r a'. run_task (serve E (Some self) req) w = Some (w', r) \<and> s3_spec E a req r a' \<and> service_ok E self b a' w'"
  using s3_quiet.serve_spec [OF assms] by (auto simp: runs_iff)

theorem s3_simulates_witness:
  "\<exists>w' r. run_task (serve example_env (Some example_actor) (CreateBucket ''music'')) example_world = Some (w', r)
     \<and> r = Inr (CreateBucketOutput ''/music'') \<and> service_ok example_env example_actor (s3data [''srv'']) [''music'' \<mapsto> Map.empty] w'"
proof -
  have "name_ok ''music''"
    by code_simp
  with s3_simulates [OF example.s3_quiet_axioms example_service(5), of "CreateBucket ''music''"] show ?thesis
    by (auto elim!: spec_createE)
qed

lemma S3_restores:
  assumes "s3_quiet E" "storage_ok E dir w" "represents E (s3data dir) w a"
  shows "\<exists>w' self. run_task (S3_started E (S3_new dir)) w = Some (w', Some self) \<and> service_ok E self (s3data dir) a w'"
proof -
  have "represents E (s3data dir) w' a"
    if "files w' = files w" "\<forall>n kind r. map_of (db w') (bucket_key n kind r) = map_of (db w) (bucket_key n kind r)" for w'
    using assms(3) that
    by (simp add: represents_def represents_db_def stored_files_def stored_meta_def exists_key_def object_key_def meta_key_def cong: option.case_cong)
  with s3_quiet.started [OF assms(1,2)] show ?thesis
    by (fastforce simp: runs_iff service_ok_def)
qed

text \<open>C31. An object that was uploaded is downloaded with the same bytes and the same checksum.\<close>

theorem object_roundtrip:
  assumes "s3_quiet E" "service_ok E self b a w" "name_ok n" "rust_string k" "a n = Some objs" "first_error stream = None"
    and "admissible E a (PutObject n k (Some stream))"
  shows "runs (serve_all E (Some self) [PutObject n k (Some stream), GetObject n k]) w (\<lambda>rs w'.
    \<exists>e sha out pieces. rs = [Inr (PutObjectOutput e sha), Inr (GetObjectResult out pieces)]
      \<and> concat pieces = stream_bytes stream \<and> ho_checksum_sha256 out = sha \<and> sha = sha256_hex E (stream_bytes stream))"
proof (rule runs_serve_all [OF s3_quiet.serve_put [OF assms]], elim conjE exE, goal_cases)
  case (1 r w1 i)
  have req: "request_ok (GetObject n k)" "admissible E (a(n \<mapsto> objs(k \<mapsto> (stream_bytes stream, i)))) (GetObject n k)"
    using assms(3,4) by simp_all
  show ?case
    by (rule runs_serve_all [OF s3_quiet.serve_spec [OF assms(1) 1(2) req]])
      (auto simp: 1(1) head_output_def object_of_def elim!: spec_getE intro!: runs_Return)
qed

lemma example_bucket:
  "\<exists>w. service_ok example_env example_actor (s3data [''srv'']) [''music'' \<mapsto> Map.empty] w"
proof -
  have "name_ok ''music''"
    by code_simp
  from example.serve_create [OF example_service(5) this] show ?thesis
    by (auto simp: runs_iff)
qed

text \<open>A bucket with two objects of the same content.\<close>

lemma example_objects:
  assumes "rust_string k" "rust_string k'"
  shows "\<exists>w i i'. service_ok example_env example_actor (s3data [''srv'']) [''music'' \<mapsto> [k \<mapsto> ([1, 2], i), k' \<mapsto> ([1, 2], i')]] w"
proof -
  let ?s = "[Inr [1, 2]] :: (string + bytes) list"
  have n: "name_ok ''music''" and s: "first_error ?s = None" "stream_bytes ?s = [1, 2]"
    by code_simp+
  obtain w where w: "service_ok example_env example_actor (s3data [''srv'']) [''music'' \<mapsto> Map.empty] w"
    using example_bucket by blast
  have "admissible example_env [''music'' \<mapsto> Map.empty] (PutObject ''music'' k (Some ?s))"
    by (simp add: objects_of_def)
  from example.serve_put [OF w n assms(1) _ s(1) this, of Map.empty] obtain w1 i
    where w1: "service_ok example_env example_actor (s3data [''srv'']) [''music'' \<mapsto> [k \<mapsto> ([1, 2], i)]] w1"
    by (auto simp: runs_iff s)
  have "admissible example_env [''music'' \<mapsto> [k \<mapsto> ([1, 2], i)]] (PutObject ''music'' k' (Some ?s))"
    by (simp add: objects_of_def s split: if_splits)
  from example.serve_put [OF w1 n assms(2) _ s(1) this, of "[k \<mapsto> ([1, 2], i)]"] show ?thesis
    by (auto simp: runs_iff s)
qed

theorem object_roundtrip_witness:
  "\<exists>w. service_ok example_env example_actor (s3data [''srv'']) [''music'' \<mapsto> Map.empty] w
     \<and> runs (serve_all example_env (Some example_actor) [PutObject ''music'' ''song'' (Some [Inr [1, 2], Inr [3]]), GetObject ''music'' ''song'']) w
         (\<lambda>rs w'. \<exists>e sha out pieces. rs = [Inr (PutObjectOutput e sha), Inr (GetObjectResult out pieces)] \<and> concat pieces = [1, 2, 3])"
proof -
  let ?s = "[Inr [1, 2], Inr [3]] :: (string + bytes) list"
  have ok: "name_ok ''music''" "rust_string ''song''" "first_error ?s = None" "stream_bytes ?s = [1, 2, 3]"
    by code_simp+
  obtain w where w: "service_ok example_env example_actor (s3data [''srv'']) [''music'' \<mapsto> Map.empty] w"
    using example_bucket by blast
  have "admissible example_env [''music'' \<mapsto> Map.empty] (PutObject ''music'' ''song'' (Some ?s))"
    by (simp add: objects_of_def)
  from object_roundtrip [OF example.s3_quiet_axioms w ok(1,2) _ ok(3) this, of Map.empty] w show ?thesis
    unfolding ok(4) by (auto elim!: runs_weaken)
qed

section \<open>What goes wrong\<close>

text \<open>C36. Deleting an object also deletes every object of the bucket whose name begins with its name: the delete
  is by prefix of the key.\<close>

theorem delete_takes_others:
  assumes "s3_quiet E" "service_ok E self b a w" "name_ok n" "rust_string k" "rust_string (k @ x)"
    and "a n = Some objs" "objs k \<noteq> None" "objs (k @ x) \<noteq> None"
  shows "runs (serve_all E (Some self) [DeleteObject n k, HeadObject n (k @ x)]) w
    (\<lambda>rs w'. rs = [Inr DeleteObjectOutput, Inl (s3_error NoSuchKey)])"
proof -
  obtain c i where c: "objs k = Some (c, i)"
    using assms(7) by auto
  show ?thesis
  proof (rule runs_serve_all [OF s3_quiet.serve_delete [OF assms(1-4,6) c]], elim conjE, goal_cases)
    case (1 r w1)
    then have w1: "actor_ok self b" "world_ok E b w1" "represents_db E w1 (a(n \<mapsto> (\<lambda>q. if prefix k q then None else objs q)))"
      by (simp_all add: service_broken_def)
    show ?case
      by (rule runs_serve_all, unfold serve.simps, rule s3_quiet.exact_head_object [OF assms(1) w1 assms(3,5)])
        (auto simp: 1 elim!: spec_headE intro!: runs_Return split: if_splits)
  qed
qed

theorem delete_takes_others_witness:
  "\<exists>w i i'. service_ok example_env example_actor (s3data [''srv'']) [''music'' \<mapsto> [''song'' \<mapsto> ([1, 2], i), ''song2'' \<mapsto> ([1, 2], i')]] w
     \<and> runs (serve_all example_env (Some example_actor) [DeleteObject ''music'' ''song'', HeadObject ''music'' ''song2'']) w
         (\<lambda>rs w'. rs = [Inr DeleteObjectOutput, Inl (s3_error NoSuchKey)])"
proof -
  have ok: "name_ok ''music''" "rust_string ''song''" "rust_string (''song'' @ ''2'')"
    by code_simp+
  obtain w i i' where w: "service_ok example_env example_actor (s3data [''srv'']) [''music'' \<mapsto> [''song'' \<mapsto> ([1, 2], i), ''song'' @ ''2'' \<mapsto> ([1, 2], i')]] w"
    using example_objects [OF ok(2,3)] by blast
  from delete_takes_others [OF example.s3_quiet_axioms w ok, of "[''song'' \<mapsto> ([1, 2], i), ''song'' @ ''2'' \<mapsto> ([1, 2], i')]"] w show ?thesis
    by auto
qed

text \<open>C37. Objects of the same content share one file, which the delete of one of them removes: the others stay
  listed, and their download fails with an internal error.\<close>

theorem delete_shared_content:
  assumes "s3_quiet E" "service_ok E self b a w" "name_ok n" "rust_string k" "name_ok n'" "rust_string k'"
    and "a n = Some objs" "objs k = Some (c, i)" "a n' = Some objs'" "objs' k' = Some (c, i')" "\<not> (n = n' \<and> prefix k k')"
  shows "runs (serve_all E (Some self) [DeleteObject n k, GetObject n' k']) w
    (\<lambda>rs w'. rs = [Inr DeleteObjectOutput, Inl (S3sError InternalError (Text not_found_msg))])"
proof (rule runs_serve_all [OF s3_quiet.serve_delete [OF assms(1-4,7,8)]], elim conjE, goal_cases)
  case (1 r w1)
  let ?a = "a(n \<mapsto> (\<lambda>q. if prefix k q then None else objs q))"
  have w1: "actor_ok self b" "world_ok E b w1" "represents_db E w1 ?a" "dirs_ok b w1"
    "map_of (files w1) (data_dir b @ [sha256_hex E c]) = None"
    using 1 by (simp_all add: service_broken_def)
  obtain objs2 where "?a n' = Some objs2" "objs2 k' = Some (c, i')"
    using assms(7,9-11) by (cases "n = n'") auto
  from s3_quiet.exact_get_missing [OF assms(1) w1(1-4) assms(5,6) this w1(5)] show ?case
    by (auto simp: 1 intro!: runs_Return elim!: runs_bind)
qed

theorem delete_shared_content_witness:
  "\<exists>w i i'. service_ok example_env example_actor (s3data [''srv'']) [''music'' \<mapsto> [''a'' \<mapsto> ([1, 2], i), ''b'' \<mapsto> ([1, 2], i')]] w
     \<and> runs (serve_all example_env (Some example_actor) [DeleteObject ''music'' ''a'', GetObject ''music'' ''b'']) w
         (\<lambda>rs w'. rs = [Inr DeleteObjectOutput, Inl (S3sError InternalError (Text not_found_msg))])"
proof -
  have ok: "name_ok ''music''" "rust_string ''a''" "rust_string ''b''"
    by code_simp+
  obtain w i i' where w: "service_ok example_env example_actor (s3data [''srv'']) [''music'' \<mapsto> [''a'' \<mapsto> ([1, 2], i), ''b'' \<mapsto> ([1, 2], i')]] w"
    using example_objects [OF ok(2,3)] by blast
  let ?objs = "[''a'' \<mapsto> ([1, 2], i), ''b'' \<mapsto> ([1, 2], i')] :: string \<rightharpoonup> bytes \<times> int"
  from delete_shared_content [OF example.s3_quiet_axioms w ok(1,2,1,3), of ?objs "[1, 2]" i ?objs i'] w show ?thesis
    by auto
qed

text \<open>C38. A listing with a prefix returns the keys without the prefix.\<close>

theorem list_prefix_strips:
  assumes "s3_quiet E" "service_ok E self b a w" "name_ok n" "rust_string p" "a n = Some objs"
  shows "runs (serve E (Some self) (ListObjects n (Some p))) w (\<lambda>r w'. \<exists>os. r = Inr (ListObjectsOutput n os)
    \<and> distinct (map so_key os) \<and> set (map so_key os) = Some ` {x. objs (p @ x) \<noteq> None})"
  using s3_quiet.serve_list [OF assms] .

theorem list_prefix_strips_witness:
  "\<exists>w i i'. service_ok example_env example_actor (s3data [''srv'']) [''music'' \<mapsto> [''a/1'' \<mapsto> ([1, 2], i), ''b'' \<mapsto> ([1, 2], i')]] w
     \<and> runs (serve example_env (Some example_actor) (ListObjects ''music'' (Some ''a/''))) w
         (\<lambda>r w'. \<exists>os. r = Inr (ListObjectsOutput ''music'' os) \<and> set (map so_key os) = {Some ''1''})"
proof -
  have ok: "name_ok ''music''" "rust_string ''a/''" "rust_string ''a/1''" "rust_string ''b''"
    by code_simp+
  obtain w i i' where w: "service_ok example_env example_actor (s3data [''srv'']) [''music'' \<mapsto> [''a/1'' \<mapsto> ([1, 2], i), ''b'' \<mapsto> ([1, 2], i')]] w"
    using example_objects [OF ok(3,4)] by blast
  let ?objs = "[''a/1'' \<mapsto> ([1, 2], i), ''b'' \<mapsto> ([1, 2], i')] :: string \<rightharpoonup> bytes \<times> int"
  have keys: "{x. ?objs (''a/'' @ x) \<noteq> None} = {''1''}"
    by (auto split: if_splits)
  have "runs (serve example_env (Some example_actor) (ListObjects ''music'' (Some ''a/''))) w
      (\<lambda>r w'. \<exists>os. r = Inr (ListObjectsOutput ''music'' os) \<and> distinct (map so_key os) \<and> set (map so_key os) = Some ` {''1''})"
    using list_prefix_strips [OF example.s3_quiet_axioms w ok(1,2), of ?objs] unfolding keys by simp
  then have "runs (serve example_env (Some example_actor) (ListObjects ''music'' (Some ''a/''))) w
      (\<lambda>r w'. \<exists>os. r = Inr (ListObjectsOutput ''music'' os) \<and> set (map so_key os) = {Some ''1''})"
    by (rule runs_weaken) auto
  with w show ?thesis
    by blast
qed

text \<open>A handler that panics from a state.\<close>

lemma run_try_panics:
  assumes "runs t s P" and "\<And>e r. \<not> P (Inl e) r" and "\<And>x r. P (Inr x) r \<Longrightarrow> run_task (f x) r = None"
  shows "run_task (try_task conv t f) s = None"
  using assms by (force simp: runs_iff run_try split: sum.splits)

lemma version_not_utf8:
  assumes "128 \<le> unat v mod 256" "unat v mod 256 < 192"
  shows "\<not> rust_string (to_le_bytes v)"
proof -
  let ?b = "of_nat (unat v mod 256) :: u8"
  have "be_bytes (Suc 7) (unat v) = be_bytes 7 (unat v div 256) @ [?b]"
    by (rule be_bytes.simps(2))
  then obtain r where r: "rev (be_bytes 8 (unat v)) = ?b # r"
    by simp
  have "unat ?b = unat v mod 256"
    by (simp add: unat_of_nat)
  then have "\<not> ?b < 0x80" "\<not> 0xC2 \<le> ?b" "\<not> 0xE0 \<le> ?b" "\<not> 0xF0 \<le> ?b"
    using assms by (simp_all add: word_less_nat_alt word_le_nat_alt)
  then have "\<not> utf8_valid (?b # r)"
    unfolding utf8_valid.simps by (simp only: simp_thms if_False)
  then show ?thesis
    by (simp only: rust_string_def to_le_bytes_def as_bytes_from_bytes r) simp
qed

context s3_quiet
begin

lemma version_panics:
  assumes "kv_name st = meta_store_name n" "map_of (db w) (bucket_key n ''bucketmeta'' (n @ NUL # ''version'')) = Some (to_le_bytes v)"
    and "\<not> rust_string (to_le_bytes v)"
  shows "run_task (deliver (handle_Get E st (bucket_version_path n))) w = None"
proof -
  have path: "get_path st (bucket_version_path n) = bucket_key n ''bucketmeta'' (n @ NUL # ''version'')"
    unfolding bucket_version_path_def get_path_bucket [OF assms(1)] by simp
  show ?thesis
    unfolding run_deliver handle_Get_def path
    by (rule run_try_panics [OF runs_reads_rocks [where P = "\<lambda>x. x = Some (to_le_bytes v)"]])
      (use assms(2,3) in \<open>auto simp: reads_only_def quiet from_utf8_unwrap_def run_try run_panic\<close>)
qed

lemma event_panics:
  assumes "actor_ok self b" "world_ok E b w" "name_ok n" "map_of (db w) (exists_key n) = Some []"
    and "map_of (db w) (bucket_key n ''bucketmeta'' (n @ NUL # ''version'')) = Some (to_le_bytes v)" "\<not> rust_string (to_le_bytes v)"
    and "bucket_name e = n" "bucket_events e = ev # evs"
  shows "run_task (handle_EventReplicationReceived E self e) w = None"
proof -
  obtain root where root: "s3_kv_store self = Some root" "kv_name root = meta_store_name ''root''"
    using assms(1) by (auto elim: actor_okE)
  have w: "db_ok E (db w)" "stores_ok w"
    using assms(2) by (simp_all add: world_ok_def)
  have ex: "map_of (db w) (bucket_key ''root'' ''buckets'' (join_with [NUL] [n])) = Some []"
    using assms(4) by (simp add: exists_key_def)
  have body: "run_task (try_task (ReceiveS3Error \<circ> S3Error)
      (traverse_task (\<lambda>event. deliver (handle_Get E st (bucket_version_path n))) (bucket_events e)) (\<lambda>_. Return (Inr ()))) w' = None"
    if "kv_name st = meta_store_name n" "same_data w w'" for st w'
    using version_panics [OF that(1), of w' v] that(2) assms(5,6,8) by (simp add: run_try same_data_def)
  have create: "run_task (bind_task (deliver (handle_GetOrCreateKeyValueStore E (meta_store_name n))) (\<lambda>r. case r of
      Inr st \<Rightarrow> try_task (ReceiveS3Error \<circ> S3Error)
        (traverse_task (\<lambda>event. deliver (handle_Get E st (bucket_version_path n))) (bucket_events e)) (\<lambda>_. Return (Inr ()))
    | Inl (GetOrCreateStoreError e) \<Rightarrow> Return (Inl ((ReceiveS3Error \<circ> S3Error) e)) | Inl (StoreTypeMissmatch store e) \<Rightarrow> panic)) w1 = None"
    if "same_data w w1" "db w1 = db w" "kv_frame w w1" for w1
  proof -
    have w1: "db_ok E (db w1)" "stores_ok w1"
      using w that by (simp_all add: stores_ok_def kv_frame_def)
    obtain w2 st where "run_task (deliver (handle_GetOrCreateKeyValueStore E (meta_store_name n))) w1 = Some (w2, Inr st)"
      "kv_name st = meta_store_name n" "same_data w1 w2"
      using exact_GetOrCreate [OF w1(1) assms(3) w1(2)] by (auto simp: runs_iff)
    then show ?thesis
      using body [of st w2] same_data_trans [OF that(1)] by (simp add: run_bind)
  qed
  show ?thesis
    unfolding handle_EventReplicationReceived_def Let_def assms(7) with_bucket_store_def with_store_def root(1) option.case bucket_path_def
    by (rule run_try_panics [OF exact_Get [OF w(1) root(2) name_ok_root]]) (use ex create in auto)
qed

end

text \<open>C39. An event of another replica for a bucket whose version is not UTF-8 as eight bytes, which is the case
  after 128 changes of the bucket, panics the S3 actor: the version is read with the operation for strings.\<close>

theorem replication_event_panics:
  assumes "s3_quiet E" "actor_ok self b" "world_ok E b w" "name_ok n" "map_of (db w) (exists_key n) = Some []"
    and "map_of (db w) (bucket_key n ''bucketmeta'' (n @ NUL # ''version'')) = Some (to_le_bytes v)" "128 \<le> unat v mod 256" "unat v mod 256 < 192"
    and "bucket_name e = n" "bucket_events e \<noteq> []"
  shows "run_task (handle_EventReplicationReceived E self e) w = None"
  using s3_quiet.event_panics [OF assms(1-6) version_not_utf8 [OF assms(7,8)] assms(9)] assms(10)
  by (cases "bucket_events e") auto

theorem replication_event_panics_witness:
  "let w = example_world\<lparr>db := [(exists_key ''music'', []), (bucket_key ''music'' ''bucketmeta'' (''music'' @ NUL # ''version''), to_le_bytes 128)]\<rparr>
   in world_ok example_env (s3data [''srv'']) w
      \<and> run_task (handle_EventReplicationReceived example_env example_actor (delete_event ''music'' ''song'' 3)) w = None"
proof -
  let ?v = "bucket_key ''music'' ''bucketmeta'' (''music'' @ NUL # ''version'')"
  let ?w = "example_world\<lparr>db := [(exists_key ''music'', []), (?v, to_le_bytes 128)]\<rparr>"
  have ok: "name_ok ''music''" "rust_string ''bucketmeta''" "rust_string ''buckets''" "rust_string (''music'' @ NUL # ''version'')" "rust_string ''root''"
    by code_simp+
  then have "entry_ok example_env (exists_key ''music'') []" "entry_ok example_env ?v (to_le_bytes 128)" "exists_key ''music'' \<noteq> ?v"
    by (simp_all add: exists_key_def entry_ok_bucket name_ok_def)
  then have "world_ok example_env (s3data [''srv'']) ?w"
    by (simp add: world_ok_def db_ok_def stores_ok_def blobs_ok_def example_world_def empty_storage_def)
  with replication_event_panics [OF example.s3_quiet_axioms example_service(3) this ok(1), of 128 "delete_event ''music'' ''song'' 3"]
    \<open>exists_key ''music'' \<noteq> ?v\<close>
  show ?thesis
    by (simp add: delete_event_def)
qed

end
