(* ===== verification/Repli_Replication_Results.thy ===== *)
theory Repli_Replication_Results
  imports Repli_Replication Repli_Results
begin














end
