(* ===== verification/Spec2Isabelle.thy ===== *)
theory Spec2Isabelle
  imports Bundle_Results Fragmentation_Results Tcpcl_Results Dtrd_System_Results Cli_Results Repli_Replication_Results
begin

text \<open>
  \<^bold>\<open>A delay-tolerant networking stack\<close>

  \<^bold>\<open>The program.\<close> \<open>src/bp7\<close> is a library for bundle protocol version 7: endpoints, times, flags,
  checksums, blocks, bundles, administrative records, fragmentation and reassembly. \<open>src/tcpcl\<close> is the
  TCP convergence layer that carries bundles between neighbours. \<open>src/dtrd\<close> is the daemon: agents (actors)
  that store bundles, decide where they go, keep routes and neighbours, run TCPCL sessions and serve
  clients over gRPC. The daemon uses both libraries; a client gives a payload to the client agent, the
  storage agent writes it to disk, the bundle protocol agent delivers it or gives it to the session of
  the next hop, and there it takes the way of a received bundle. \<open>src/client\<close> is the library for programs that
  use the daemon, \<open>src/cli\<close> the command line client over it. \<open>src/replistore\<close> is an S3 service on RocksDB and
  files that sends its changes as bundles, through the client library, to another replica.

  \<^bold>\<open>Conventions.\<close> \<open>Prelude\<close> has the outcome type \<open>result\<close> (\<open>Ok\<close>, \<open>Err\<close> and \<open>Panic\<close>) with \<open>and_then\<close> for
  the \<open>?\<close> operator, and the lemmas every theory shares. Machine integers are words that wrap, as in a
  release build; where the code converts between widths the conversion is in the model. A Rust \<open>String\<close> is
  a \<^typ>\<open>string\<close>, bytes are lists of 8-bit words. A \<open>HashMap\<close> is an association list, its order the order
  of insertion (\<open>Rust_Collections\<close>); nothing proved depends on another order being impossible except
  where a statement names the order. \<open>Arc\<close> pointers are numbered, and \<open>Weak::upgrade\<close> looks the number up
  among the live ones. A handler of an agent is a function from the state to the new state and the
  messages it sends, in the order it sends them.

  \<^bold>\<open>bp7.\<close> \<open>Flags\<close> (\<open>bundleflags.rs\<close>, \<open>blockflags.rs\<close>), \<open>Dtn_Time\<close> (\<open>time.rs\<close>), \<open>Endpoint\<close> (\<open>endpoint.rs\<close>),
  \<open>Crc\<close> (\<open>crc.rs\<close>), \<open>Primary_Block\<close> (\<open>primaryblock.rs\<close>), \<open>Block\<close> (\<open>block/\<close>), \<open>Bundle\<close> (\<open>bundle.rs\<close>),
  \<open>Admin_Record\<close> (\<open>administrative_record/\<close>), \<open>Fragmentation\<close>, \<open>Slices\<close> and \<open>Reassembly\<close> (\<open>bundle.rs\<close>: \<open>fragment\<close>,
  \<open>can_reassemble_bundles\<close>, \<open>reassemble_bundles\<close>). The crate \<open>serde_cbor\<close> is a pair of functions \<open>enc\<close>, \<open>dec\<close>;
  the locale \<open>serde_cbor\<close> of \<open>Serde\<close> has what the code relies on (decoding inverts encoding), and
  \<open>serde_cbor_sized\<close> what the fragment sizes rely on. \<open>Cbor\<close> defines the encoding of RFC 8949 and
  interprets both locales with it, so no result rests on an empty hypothesis. \<open>Bundle_Results\<close>: bytes
  round trips of bundles and administrative records, the parser panics exactly on the inputs named,
  block edits, node equality of endpoints. \<open>Fragmentation_Results\<close>: fragmenting succeeds, fits the limit,
  yields fragments that reassemble to the bundle in every order, also when fragments are cut again;
  reassembly is exact: it succeeds if and only if the fragments cover the payload.

  \<^bold>\<open>tcpcl.\<close> \<open>Tcpcl_Buffer\<close>, \<open>Tcpcl_Messages\<close>, \<open>Tcpcl_Message_Laws\<close>, \<open>Tcpcl_Codec\<close> (\<open>v4/messages/\<close>),
  \<open>Tcpcl_Statemachine\<close> (\<open>v4/statemachine.rs\<close>), \<open>Tcpcl_Session\<close> (\<open>session.rs\<close>). Sockets are byte
  streams that arrive in arbitrary pieces. \<open>Tcpcl_Invariant\<close> and \<open>Tcpcl_Safety\<close> show that no reachable state
  of a session panics; \<open>Tcpcl_Stream\<close>, \<open>Tcpcl_Stability\<close> that how the stream is cut into reads does not
  matter; \<open>Tcpcl_Handshake\<close> and \<open>Tcpcl_Transfer\<close> that two sessions connected to each other establish and
  carry every transfer, whatever the interleaving. \<open>Tcpcl_Results\<close> collects the properties.

  \<^bold>\<open>dtrd.\<close> \<open>Dtrd_Routing\<close> (\<open>routingagent/\<close>), \<open>Dtrd_Nodes\<close> (\<open>nodeagent/\<close>, the server of
  \<open>tcpclconverganceagent/\<close>, \<open>converganceagent/\<close>), \<open>Dtrd_Neighbours\<close> (these three agents together: a network of
  messages run to its end), \<open>Dtrd_Storage\<close> and \<open>Dtrd_Storage_Laws\<close> (\<open>bundlestorageagent/\<close>), \<open>Dtrd_Bpa\<close> and
  \<open>Dtrd_Bpa_Laws\<close> (\<open>bundleprotocolagent/\<close>), \<open>Dtrd_Node\<close> (storage and bundle protocol agent together),
  \<open>Dtrd_Client\<close> (\<open>clientagent/\<close>, \<open>clientgrpcagent/\<close>), \<open>Dtrd_Session\<close> (\<open>session_agent.rs\<close>), \<open>Dtrd_Settings\<close>
  (\<open>common/settings.rs\<close>, loading of the TLS files) and \<open>Dtrd_System\<close> (\<open>main.rs\<close> and the way of a bundle over
  two nodes). \<open>main\<close> starts a TCPCL server and a storage agent besides those of the registry, and the model
  has both. \<open>Dtrd_Results\<close>, \<open>Dtrd_Node_Results\<close> and \<open>Dtrd_System_Results\<close> hold the properties: published
  routes, consistency of neighbours, distinct bundle ids, restart, defragmentation, soundness of
  forwarding, delivery of received bundles, delivery from client to client over two nodes, and the
  ways in which the agents get stuck or panic.

  \<^bold>\<open>Client and command line.\<close> \<open>Client_Lib\<close> (\<open>client/src\<close>) over a record of the calls that the generated gRPC code
  offers, \<open>Cli\<close> (\<open>cli/src/main.rs\<close>) with what a command prints and writes as a list of events. \<open>Cli_Results\<close> puts the
  commands for routes in front of the services and agents of \<open>dtrd\<close>: they implement a set of static routes.

  \<^bold>\<open>replistore.\<close> \<open>Tasks\<close> has handlers that await: a task is a sequence of steps between which other tasks run, and a
  step without a result is a panic; with it come the run of one task, the interleaved runs of many, and the
  rely-guarantee argument (locale \<open>rely_guarantee\<close>) that carries an invariant through all interleavings.
  \<open>Repli_World\<close> is the shared state (the entries of the database, files, directories, running stores, mailbox of the
  replicator) with the calls of database and file system, each of which may fail: the record \<open>repl_env\<close> says which
  do, and has the clock, the UUIDs, the sizes of reads and the hash functions. \<open>Repli_Stores\<close> (\<open>stores/\<close>), \<open>Repli_S3\<close>
  (\<open>s3/messages.rs\<close>, \<open>s3_backend.rs\<close>), \<open>Repli_Frontend\<close> (\<open>s3_frontend.rs\<close>) and \<open>Repli_Replication\<close> (\<open>replication/\<close>,
  \<open>common/settings.rs\<close>, \<open>main.rs\<close>) model the actors. \<open>Repli_Paths\<close>, \<open>Repli_Store_Laws\<close>, \<open>Repli_Safety\<close> and
  \<open>Repli_Requests\<close> prove that every request, interleaved with any others and under any failures, keeps the typed
  state and does not panic (locale \<open>s3_platform\<close>: what the code relies on of time, UUIDs, hashes and reads).
  \<open>Repli_Kv_Spec\<close> has the effect of the commands of the key value store as functions on maps. \<open>Repli_Spec\<close> defines an
  abstract object store, the relation by which database and files represent it, and the requests the service is
  specified for; \<open>Repli_Refinement\<close>, \<open>Repli_Requests_Spec\<close>, \<open>Repli_Start\<close> and \<open>Repli_Sequences\<close> prove the simulation
  where no call fails (locale \<open>s3_quiet\<close>). \<open>Repli_Results\<close> and \<open>Repli_Replication_Results\<close> interpret both locales and
  hold the properties: types, safety, termination, atomic writes, simulation, restart, round trip, and the requests
  that the abstract store does not describe, each with what the code does instead.

  \<^bold>\<open>Bounds.\<close> Loops over data are structural or have a termination proof. A network of agents is run for a
  number of steps, \<open>node_run\<close>; the theorems name the number of steps after which nothing is left to do.
  \<open>net_run\<close> of the neighbours stops when no message is left, and there is a measure that every step
  decreases. The sessions are a step relation, and the results on transfers are about every maximal run.
  Operations on files take effect when they are issued. A task of \<open>replistore\<close> is a finite tree, so every interleaving
  of tasks ends, and the end is shown to be an answer to every request.

  \<^bold>\<open>Not modelled.\<close> Listening and connecting on sockets, the HTTP server of \<open>replistore\<close>, TLS, tracing, the parsing of
  command line arguments, the layout of printed tables, shutdown, the runtime's scheduling beyond the order of
  messages and the interleaving of tasks, tests and build scripts. Third-party code (\<open>serde_cbor\<close>, \<open>chrono\<close>, \<open>time\<close>,
  \<open>OpenSSL\<close>, \<open>actix\<close>, \<open>tonic\<close>, \<open>prost\<close>, the hash functions) is a parameter where its result matters. RocksDB appears as
  the state it keeps, a map whose transactions commit as a whole or fail.
\<close>

end
